(* ===== verification/Prelude.thy ===== *)
theory Prelude
  imports Main "HOL-Library.Word" "HOL-Library.AList"
begin

text \<open>
  What every component shares: the parts of Go and of its standard library that the modelled
  files use (clock values, durations, byte strings, maps), the two general interfaces of the
  development (keyed tables and transition systems) and the lemma collections.

  A Go map is an association list with distinct keys; a \<^verbatim>\<open>time.Time\<close> is the number of
  nanoseconds since the Unix epoch, a \<^verbatim>\<open>time.Duration\<close> a number of nanoseconds. A Go string
  is its list of bytes; \<open>to_lower\<close> and \<open>trim_space\<close> are the ASCII parts of
  \<^verbatim>\<open>strings.ToLower\<close> and \<^verbatim>\<open>strings.TrimSpace\<close>. A Go panic is the value \<open>None\<close>.
\<close>

named_theorems go_time and go_str and go_map

section \<open>Clock values and 64-bit integers\<close>

type_synonym time = int
type_synonym duration = int

definition i64 :: "int \<Rightarrow> int" where
  "i64 x = (x + 2 ^ 63) mod 2 ^ 64 - 2 ^ 63"

lemma i64_id [simp]: "- (2 ^ 63) \<le> x \<Longrightarrow> x < 2 ^ 63 \<Longrightarrow> i64 x = x"
  by (simp add: i64_def)

lemma i64_range: "- (2 ^ 63) \<le> i64 x \<and> i64 x < 2 ^ 63"
  using pos_mod_bound [of "2 ^ 64" "x + 2 ^ 63"] by (simp add: i64_def)

definition nanosecond :: duration where "nanosecond = 1"
definition millisecond :: duration where "millisecond = 1000000"
definition second :: duration where "second = 1000000000"
definition minute :: duration where "minute = 60 * second"
definition hour :: duration where "hour = 60 * minute"

lemmas duration_units [go_time] =
  nanosecond_def millisecond_def second_def minute_def hour_def

text \<open>The zero \<^verbatim>\<open>time.Time\<close> is 1 January of year 1.\<close>

definition zero_time :: time where
  "zero_time = - 62135596800 * 1000000000"

text \<open>\<^verbatim>\<open>Time.Sub\<close> saturates at the ends of \<^verbatim>\<open>time.Duration\<close>.\<close>

definition time_sub :: "time \<Rightarrow> time \<Rightarrow> duration" where
  "time_sub t u = max (- (2 ^ 63)) (min (2 ^ 63 - 1) (t - u))"

lemma time_sub_ge_iff:
  "- (2 ^ 63) < d \<Longrightarrow> d \<le> 2 ^ 63 - 1 \<Longrightarrow> d \<le> time_sub t u \<longleftrightarrow> d \<le> t - u"
  by (auto simp: time_sub_def)

lemma time_sub_gt_iff:
  "- (2 ^ 63) \<le> d \<Longrightarrow> d < 2 ^ 63 - 1 \<Longrightarrow> d < time_sub t u \<longleftrightarrow> d < t - u"
  by (auto simp: time_sub_def)

lemma time_sub_mono: "t \<le> t' \<Longrightarrow> time_sub t u \<le> time_sub t' u"
  by (auto simp: time_sub_def)

section \<open>Byte strings\<close>

definition has_prefix :: "string \<Rightarrow> string \<Rightarrow> bool" where
  "has_prefix s p \<longleftrightarrow> take (length p) s = p"

fun contains :: "string \<Rightarrow> string \<Rightarrow> bool" where
  "contains [] p \<longleftrightarrow> p = []"
| "contains (c # s) p \<longleftrightarrow> has_prefix (c # s) p \<or> contains s p"

lemma has_prefix_iff: "has_prefix s p \<longleftrightarrow> (\<exists>v. s = p @ v)"
proof
  assume "has_prefix s p"
  then have "s = p @ drop (length p) s"
    unfolding has_prefix_def by (metis append_take_drop_id)
  then show "\<exists>v. s = p @ v" by blast
qed (auto simp: has_prefix_def)

lemma has_prefix_append: "has_prefix s (p @ q) \<Longrightarrow> has_prefix s p"
  by (auto simp: has_prefix_iff)

lemma contains_iff: "contains s p \<longleftrightarrow> (\<exists>u v. s = u @ p @ v)"
proof (induction s)
  case (Cons c s)
  have "(\<exists>u v. c # s = u @ p @ v) \<longleftrightarrow> (\<exists>v. c # s = p @ v) \<or> (\<exists>u v. s = u @ p @ v)"
    by (metis append_Cons append_Nil list.inject neq_Nil_conv)
  then show ?case using Cons.IH by (simp add: has_prefix_iff)
qed simp

lemma contains_append [go_str]: "contains s p \<Longrightarrow> contains (u @ s @ v) p"
  unfolding contains_iff by (metis append.assoc)

lemma contains_self [simp, go_str]: "contains s s"
  unfolding contains_iff by (metis append_Nil append_Nil2)

definition has_suffix :: "string \<Rightarrow> string \<Rightarrow> bool" where
  "has_suffix s p \<longleftrightarrow> has_prefix (rev s) (rev p)"

definition trim_prefix :: "string \<Rightarrow> string \<Rightarrow> string" where
  "trim_prefix s p = (if has_prefix s p then drop (length p) s else s)"

definition trim_suffix :: "string \<Rightarrow> string \<Rightarrow> string" where
  "trim_suffix s p = (if has_suffix s p then take (length s - length p) s else s)"

text \<open>\<^verbatim>\<open>strings.Index\<close> and \<^verbatim>\<open>strings.LastIndex\<close>; \<open>None\<close> is -1.\<close>

fun str_index :: "string \<Rightarrow> string \<Rightarrow> nat option" where
  "str_index [] p = (if p = [] then Some 0 else None)"
| "str_index (c # s) p = (if has_prefix (c # s) p then Some 0 else map_option Suc (str_index s p))"

fun str_last_index :: "string \<Rightarrow> string \<Rightarrow> nat option" where
  "str_last_index [] p = (if p = [] then Some 0 else None)"
| "str_last_index (c # s) p =
     (case str_last_index s p of Some i \<Rightarrow> Some (Suc i)
      | None \<Rightarrow> if has_prefix (c # s) p then Some 0 else None)"

text \<open>\<^verbatim>\<open>strings.Join\<close>.\<close>

fun str_join :: "string \<Rightarrow> string list \<Rightarrow> string" where
  "str_join sep [] = []"
| "str_join sep [w] = w"
| "str_join sep (w # v # ws) = w @ sep @ str_join sep (v # ws)"

definition lower_char :: "char \<Rightarrow> char" where
  "lower_char c = (if 65 \<le> (of_char c :: nat) \<and> (of_char c :: nat) \<le> 90
     then char_of ((of_char c :: nat) + 32) else c)"

definition to_lower :: "string \<Rightarrow> string" where
  "to_lower s = map lower_char s"

text \<open>The same test and conversion on the bits of a byte, which evaluate fast.\<close>

definition letter_bits :: "bool \<Rightarrow> bool \<Rightarrow> bool \<Rightarrow> bool \<Rightarrow> bool \<Rightarrow> bool" where
  "letter_bits b0 b1 b2 b3 b4 \<longleftrightarrow> (b0 \<or> b1 \<or> b2 \<or> b3 \<or> b4) \<and> \<not> (b4 \<and> b3 \<and> (b2 \<or> b1 \<and> b0))"

lemma lower_char_code [code]:
  "lower_char (Char b0 b1 b2 b3 b4 b5 b6 b7) =
     Char b0 b1 b2 b3 b4 (b5 \<or> \<not> b7 \<and> b6 \<and> letter_bits b0 b1 b2 b3 b4) b6 b7"
  unfolding lower_char_def letter_bits_def
  by (cases b0; cases b1; cases b2; cases b3; cases b4; cases b5; cases b6; cases b7) (simp_all add: of_char_Char char_of_def bit_iff_odd)

lemma lower_char_idem [simp]: "lower_char (lower_char c) = lower_char c"
  by (simp add: lower_char_def)

lemma to_lower_idem [simp, go_str]: "to_lower (to_lower s) = to_lower s"
  by (simp add: to_lower_def)

lemma to_lower_append [go_str]: "to_lower (s @ t) = to_lower s @ to_lower t"
  by (simp add: to_lower_def)

lemma length_to_lower [simp]: "length (to_lower s) = length s"
  by (simp add: to_lower_def)

definition is_space :: "char \<Rightarrow> bool" where
  "is_space c \<longleftrightarrow> (of_char c :: nat) \<in> {9, 10, 11, 12, 13, 32}"

lemma is_space_code [code]:
  "is_space (Char b0 b1 b2 b3 b4 b5 b6 b7) \<longleftrightarrow>
     \<not> b7 \<and> \<not> b6 \<and> \<not> b4 \<and>
     (if b3 then \<not> b5 \<and> (b0 \<or> b1 \<or> b2) \<and> \<not> (b1 \<and> b2) else b5 \<and> \<not> b0 \<and> \<not> b1 \<and> \<not> b2)"
  unfolding is_space_def
  by (cases b0; cases b1; cases b2; cases b3; cases b4; cases b5; cases b6; cases b7) (simp_all add: of_char_Char)

definition trim_space :: "string \<Rightarrow> string" where
  "trim_space s = rev (dropWhile is_space (rev (dropWhile is_space s)))"

lemma dropWhile_rev_dropWhile:
  "dropWhile P (rev (dropWhile P (rev (dropWhile P s)))) = rev (dropWhile P (rev (dropWhile P s)))"
proof (cases "dropWhile P s")
  case (Cons c t)
  then have "\<not> P c" by (metis hd_dropWhile list.sel(1) list.distinct(1))
  with Cons show ?thesis by (simp add: dropWhile_append)
next
  case Nil
  show ?thesis by (simp only: Nil rev.simps dropWhile.simps)
qed

lemma trim_space_Nil [simp]: "trim_space [] = []"
  by (simp add: trim_space_def)

lemma trim_space_idem [simp, go_str]: "trim_space (trim_space s) = trim_space s"
  unfolding trim_space_def by (simp add: dropWhile_rev_dropWhile)

text \<open>\<^verbatim>\<open>strings.Split\<close> at one byte, \<^verbatim>\<open>strings.SplitN(s, sep, 2)\<close>, \<^verbatim>\<open>strings.Fields\<close>.\<close>

fun split_on :: "char \<Rightarrow> string \<Rightarrow> string list" where
  "split_on c [] = [[]]"
| "split_on c (x # xs) =
     (if x = c then [] # split_on c xs
      else (case split_on c xs of [] \<Rightarrow> [[x]] | w # ws \<Rightarrow> (x # w) # ws))"

definition split2 :: "char \<Rightarrow> string \<Rightarrow> string \<times> string option" where
  "split2 c s = (takeWhile (\<lambda>x. x \<noteq> c) s,
     (case dropWhile (\<lambda>x. x \<noteq> c) s of [] \<Rightarrow> None | _ # r \<Rightarrow> Some r))"

fun fields_acc :: "string \<Rightarrow> string \<Rightarrow> string list" where
  "fields_acc w [] = (if w = [] then [] else [rev w])"
| "fields_acc w (x # xs) =
     (if is_space x then (if w = [] then fields_acc [] xs else rev w # fields_acc [] xs)
      else fields_acc (x # w) xs)"

definition str_fields :: "string \<Rightarrow> string list" where
  "str_fields s = fields_acc [] s"

text \<open>Splitting and joining.\<close>

lemma split_on_nonempty [simp]: "split_on c s \<noteq> []"
  by (induction s) (auto split: list.splits)

lemma split_on_none: "c \<notin> set s \<Longrightarrow> split_on c s = [s]"
  by (induction s) auto

lemma split_on_append: "split_on c (s @ [c] @ t) = split_on c s @ split_on c t"
  by (induction s) (auto split: list.splits)

lemma join_split [simp]: "str_join [c] (split_on c s) = s"
proof (induction s)
  case (Cons x xs)
  then show ?case by (cases "split_on c xs"; cases "tl (split_on c xs)") auto
qed simp

lemma split_on_parts: "w \<in> set (split_on c s) \<Longrightarrow> c \<notin> set w"
  by (induction s arbitrary: w) (auto split: list.splits if_splits)

lemma split_join: "ws \<noteq> [] \<Longrightarrow> \<forall>w \<in> set ws. c \<notin> set w \<Longrightarrow> split_on c (str_join [c] ws) = ws"
proof (induction ws rule: induct_list012)
  case (3 w v ws)
  then have "split_on c (w @ [c] @ str_join [c] (v # ws)) = split_on c w @ split_on c (str_join [c] (v # ws))"
    by (simp only: split_on_append)
  with 3 show ?case by (simp add: split_on_none)
qed (simp_all add: split_on_none)

lemma hd_split_on: "hd (split_on c s) = takeWhile (\<lambda>x. x \<noteq> c) s"
  by (induction s) (auto split: list.splits)

lemma contains_trans: "contains s t \<Longrightarrow> contains t p \<Longrightarrow> contains s p"
  by (metis contains_append contains_iff)

lemma contains_Cons: "contains s p \<Longrightarrow> contains (x # s) p"
  by simp

lemma split_on_contains: "w \<in> set (split_on c s) \<Longrightarrow> contains s w"
proof (induction s arbitrary: w)
  case (Cons x xs)
  obtain v vs where v: "split_on c xs = v # vs" by (cases "split_on c xs") auto
  have "has_prefix (x # xs) (x # v)"
    using hd_split_on [of c xs] v by (metis has_prefix_iff list.sel(1) append_Cons takeWhile_dropWhile_id)
  moreover have "has_prefix ys []" for ys by (simp add: has_prefix_def)
  ultimately show ?case using Cons v by (auto split: if_splits)
qed simp

lemma contains_trim_space: "contains s (trim_space s)"
proof -
  have "s = takeWhile is_space s @ dropWhile is_space s" by simp
  moreover have "dropWhile is_space s = trim_space s @ rev (takeWhile is_space (rev (dropWhile is_space s)))"
    unfolding trim_space_def by (metis rev_append rev_rev_ident takeWhile_dropWhile_id)
  ultimately show ?thesis unfolding contains_iff by metis
qed

text \<open>Decimal numerals: \<^verbatim>\<open>strconv.Atoi\<close> and \<^verbatim>\<open>%d\<close>.\<close>

definition is_digit :: "char \<Rightarrow> bool" where
  "is_digit c \<longleftrightarrow> 48 \<le> (of_char c :: nat) \<and> (of_char c :: nat) \<le> 57"

lemma is_digit_code [code]:
  "is_digit (Char b0 b1 b2 b3 b4 b5 b6 b7) \<longleftrightarrow> \<not> b7 \<and> \<not> b6 \<and> b5 \<and> b4 \<and> \<not> (b3 \<and> (b2 \<or> b1))"
  unfolding is_digit_def
  by (cases b0; cases b1; cases b2; cases b3; cases b4; cases b5; cases b6; cases b7) (simp_all add: of_char_Char)

fun digits_value :: "int \<Rightarrow> string \<Rightarrow> int" where
  "digits_value n [] = n"
| "digits_value n (c # cs) = digits_value (10 * n + (int (of_char c) - 48)) cs"

definition atoi :: "string \<Rightarrow> int option" where
  "atoi s =
     (let neg = (case s of c # _ \<Rightarrow> c = CHR ''-'' | [] \<Rightarrow> False);
          ds = (case s of c # r \<Rightarrow> if c = CHR ''-'' \<or> c = CHR ''+'' then r else s | [] \<Rightarrow> []);
          v = (if neg then - digits_value 0 ds else digits_value 0 ds)
      in if ds = [] \<or> \<not> list_all is_digit ds \<or> v < - (2 ^ 63) \<or> 2 ^ 63 \<le> v then None
         else Some v)"

fun show_nat :: "nat \<Rightarrow> string" where
  "show_nat n = (if n < 10 then [char_of (48 + n)] else show_nat (n div 10) @ [char_of (48 + n mod 10)])"

declare show_nat.simps [simp del]

definition show_int :: "int \<Rightarrow> string" where
  "show_int i = (if i < 0 then CHR ''-'' # show_nat (nat (- i)) else show_nat (nat i))"

section \<open>Go maps\<close>

type_synonym ('k, 'v) gomap = "('k \<times> 'v) list"

abbreviation m_get :: "('k, 'v) gomap \<Rightarrow> 'k \<Rightarrow> 'v option" where
  "m_get m k \<equiv> map_of m k"

definition m_put :: "'k \<Rightarrow> 'v \<Rightarrow> ('k, 'v) gomap \<Rightarrow> ('k, 'v) gomap" where
  "m_put k v m = AList.update k v m"

definition m_del :: "'k \<Rightarrow> ('k, 'v) gomap \<Rightarrow> ('k, 'v) gomap" where
  "m_del k m = AList.delete k m"

definition m_ok :: "('k, 'v) gomap \<Rightarrow> bool" where
  "m_ok m \<longleftrightarrow> distinct (map fst m)"

text \<open>Applying \<open>f\<close> to the value of every key (a loop over a map that updates its values).\<close>

definition m_map :: "('v \<Rightarrow> 'v) \<Rightarrow> ('k, 'v) gomap \<Rightarrow> ('k, 'v) gomap" where
  "m_map f m = map (\<lambda>(k, v). (k, f v)) m"

text \<open>Keeping the entries that satisfy \<open>P\<close> (a loop over a map that deletes the others).\<close>

definition m_filter :: "('k \<Rightarrow> 'v \<Rightarrow> bool) \<Rightarrow> ('k, 'v) gomap \<Rightarrow> ('k, 'v) gomap" where
  "m_filter P m = filter (\<lambda>(k, v). P k v) m"

lemma m_get_put [simp, go_map]: "m_get (m_put k v m) j = (if j = k then Some v else m_get m j)"
  by (simp add: m_put_def update_conv')

lemma m_get_del [simp, go_map]: "m_get (m_del k m) j = (if j = k then None else m_get m j)"
  by (simp add: m_del_def delete_conv')

lemma m_get_map [simp, go_map]: "m_get (m_map f m) k = map_option f (m_get m k)"
  by (induction m) (auto simp: m_map_def)

lemma m_get_filter [simp, go_map]:
  "m_ok m \<Longrightarrow> m_get (m_filter P m) k = (case m_get m k of None \<Rightarrow> None | Some v \<Rightarrow> if P k v then Some v else None)"
proof (induction m)
  case (Cons a m)
  obtain j w where a: "a = (j, w)" by (cases a)
  from Cons.prems a have ok: "m_ok m" and fresh: "m_get m j = None"
    by (auto simp: m_ok_def map_of_eq_None_iff)
  from Cons.IH [OF ok] have IH:
    "m_get (m_filter P m) k = (case m_get m k of None \<Rightarrow> None | Some v \<Rightarrow> if P k v then Some v else None)" .
  show ?case using IH fresh by (auto simp: a m_filter_def split: option.splits)
qed (simp add: m_filter_def)

lemma m_ok_empty [simp, go_map]: "m_ok []"
  by (simp add: m_ok_def)

lemma m_ok_put [simp, go_map]: "m_ok m \<Longrightarrow> m_ok (m_put k v m)"
  by (simp add: m_ok_def m_put_def distinct_update)

lemma m_ok_del [simp, go_map]: "m_ok m \<Longrightarrow> m_ok (m_del k m)"
  by (simp add: m_ok_def m_del_def distinct_delete)

lemma m_ok_map [simp, go_map]: "m_ok (m_map f m) = m_ok m"
  by (simp add: m_ok_def m_map_def comp_def case_prod_unfold)

lemma m_ok_filter [simp, go_map]: "m_ok m \<Longrightarrow> m_ok (m_filter P m)"
  by (simp add: m_ok_def m_filter_def distinct_map_filter)

lemma m_ok_card: "m_ok m \<Longrightarrow> length m = card (dom (map_of m))"
  using distinct_card [of "map fst m"] by (simp add: m_ok_def dom_map_of_conv_image_fst)

lemma length_m_put: "m_ok m \<Longrightarrow> length (m_put k v m) = (if m_get m k = None then Suc (length m) else length m)"
proof -
  assume ok: "m_ok m"
  have "dom (map_of (m_put k v m)) = insert k (dom (map_of m))" by (auto split: if_splits)
  then have "length (m_put k v m) = card (insert k (dom (map_of m)))"
    using ok m_ok_card [of "m_put k v m"] by simp
  also have "\<dots> = (if m_get m k = None then Suc (length m) else length m)"
    using ok m_ok_card [of m] by (auto simp: card_insert_if finite_dom_map_of insert_absorb domIff)
  finally show ?thesis .
qed

text \<open>
  The interface the keyed tables of the program share: reading after a write, a deletion.
  The lemmas say that operations on one key leave every other key alone.
\<close>

locale keyed_table =
  fixes get :: "'m \<Rightarrow> 'k \<Rightarrow> 'v option"
    and put :: "'k \<Rightarrow> 'v \<Rightarrow> 'm \<Rightarrow> 'm"
    and del :: "'k \<Rightarrow> 'm \<Rightarrow> 'm"
    and wf :: "'m \<Rightarrow> bool"
  assumes get_put: "get (put k v m) j = (if j = k then Some v else get m j)"
    and get_del: "get (del k m) j = (if j = k then None else get m j)"
    and wf_put: "wf m \<Longrightarrow> wf (put k v m)"
    and wf_del: "wf m \<Longrightarrow> wf (del k m)"
begin

definition modify :: "('v \<Rightarrow> 'v) \<Rightarrow> 'k \<Rightarrow> 'm \<Rightarrow> 'm" where
  "modify f k m = (case get m k of None \<Rightarrow> m | Some v \<Rightarrow> put k (f v) m)"

lemma get_modify: "get (modify f k m) j = (if j = k then map_option f (get m k) else get m j)"
  by (auto simp: modify_def get_put split: option.splits)

lemma wf_modify: "wf m \<Longrightarrow> wf (modify f k m)"
  by (auto simp: modify_def wf_put split: option.splits)

lemma put_other: "j \<noteq> k \<Longrightarrow> get (put k v (put j w m)) i = get (put j w (put k v m)) i"
  by (simp add: get_put)

end

definition m_modify :: "('v \<Rightarrow> 'v) \<Rightarrow> 'k \<Rightarrow> ('k, 'v) gomap \<Rightarrow> ('k, 'v) gomap" where
  "m_modify f k m = (case m_get m k of None \<Rightarrow> m | Some v \<Rightarrow> m_put k (f v) m)"

interpretation gomap: keyed_table map_of m_put m_del m_ok
  rewrites "keyed_table.modify map_of m_put = m_modify"
proof -
  show table: "keyed_table (map_of :: ('a \<times> 'b) list \<Rightarrow> _) m_put m_del m_ok" by unfold_locales simp_all
  show "keyed_table.modify (map_of :: ('a \<times> 'b) list \<Rightarrow> _) m_put = m_modify"
    by (intro ext) (simp only: keyed_table.modify_def [OF table] m_modify_def)
qed

lemmas m_modify_simps [simp, go_map] = gomap.get_modify gomap.wf_modify

lemma dom_m_put [simp]: "dom (map_of (m_put k v m)) = insert k (dom (map_of m))"
  by (auto split: if_splits)

lemma dom_m_del [simp]: "dom (map_of (m_del k m)) = dom (map_of m) - {k}"
  by (auto split: if_splits)

lemma dom_m_modify [simp]: "dom (map_of (m_modify f k m)) = dom (map_of m)"
  by (auto simp: dom_def split: if_splits)

section \<open>Transition systems\<close>

text \<open>
  A component whose operations arrive in any order is a start state and a step function over
  its events. An invariant that holds at the start and that every step keeps holds after
  every sequence of events.
\<close>

locale event_system =
  fixes init :: 's
    and step :: "'e \<Rightarrow> 's \<Rightarrow> 's"
    and inv :: "'s \<Rightarrow> bool"
  assumes inv_init: "inv init"
    and inv_step: "inv s \<Longrightarrow> inv (step e s)"
begin

lemma inv_fold: "inv s \<Longrightarrow> inv (fold step es s)"
  by (induction es arbitrary: s) (auto intro: inv_step)

lemma inv_run: "inv (fold step es init)"
  by (rule inv_fold) (rule inv_init)

end

text \<open>
  A loop with a variant: the body either stops with a result or makes the variant smaller.
  Enough fuel then always gives a result, and more fuel does not change it.
\<close>

locale bounded_loop =
  fixes body :: "'s \<Rightarrow> 's + 'r"
    and variant :: "'s \<Rightarrow> nat"
    and loop_inv :: "'s \<Rightarrow> bool"
    and run :: "nat \<Rightarrow> 's \<Rightarrow> 'r option"
  assumes run_0: "run 0 s = None"
    and run_Suc: "run (Suc n) s = (case body s of Inl s' \<Rightarrow> run n s' | Inr r \<Rightarrow> Some r)"
    and decreases: "loop_inv s \<Longrightarrow> body s = Inl s' \<Longrightarrow> loop_inv s' \<and> variant s' < variant s"
begin

lemma terminates: "loop_inv s \<Longrightarrow> variant s < n \<Longrightarrow> \<exists>r. run n s = Some r"
proof (induction n arbitrary: s)
  case (Suc n)
  show ?case
  proof (cases "body s")
    case (Inl s')
    with decreases [OF Suc.prems(1)] Suc.prems(2) have "loop_inv s'" "variant s' < n" by auto
    from Suc.IH [OF this] show ?thesis by (simp add: run_Suc Inl)
  qed (simp add: run_Suc)
qed simp

lemma run_mono: "run n s = Some r \<Longrightarrow> n \<le> k \<Longrightarrow> run k s = Some r"
proof (induction n arbitrary: s k)
  case (Suc n)
  from Suc.prems(2) obtain k' where k: "k = Suc k'" and le: "n \<le> k'" by (cases k) auto
  show ?case using Suc.prems(1) Suc.IH le by (auto simp: k run_Suc split: sum.splits)
qed (simp add: run_0)

end

section \<open>Sliding windows\<close>

text \<open>
  Several components keep a list of event times and drop the ones that left a time window each
  time they look at it. \<open>fresh now t\<close> says that an event at \<open>t\<close> still counts at \<open>now\<close>; once
  it no longer counts, it never counts again. Dropping early is then harmless, and a limiter
  that admits an event only while fewer than \<open>n\<close> admitted events count never has more than
  \<open>n\<close> of them in a window.
\<close>

fun admitted :: "(time \<Rightarrow> time \<Rightarrow> bool) \<Rightarrow> nat \<Rightarrow> time list \<Rightarrow> time list \<Rightarrow> time list" where
  "admitted fresh n kept [] = []"
| "admitted fresh n kept (now # ts) =
     (let live = filter (fresh now) kept
      in if length live < n then now # admitted fresh n (live @ [now]) ts
         else admitted fresh n kept ts)"

locale sliding_window =
  fixes fresh :: "time \<Rightarrow> time \<Rightarrow> bool"
  assumes fresh_antimono: "now \<le> now' \<Longrightarrow> fresh now' t \<Longrightarrow> fresh now t"
begin

lemma prune_prune: "now \<le> now' \<Longrightarrow> filter (fresh now') (filter (fresh now) xs) = filter (fresh now') xs"
  by (induction xs) (auto intro: fresh_antimono)

lemma admitted_window:
  assumes "sorted ts" and "\<And>t. t \<in> set ts \<Longrightarrow> now0 \<le> t"
    and "filter (fresh now0) kept = filter (fresh now0) hist"
    and "i < length (admitted fresh n kept ts)"
  shows "length (filter (fresh (admitted fresh n kept ts ! i)) (hist @ take i (admitted fresh n kept ts))) < n"
  using assms
proof (induction ts arbitrary: now0 kept hist i)
  case (Cons now ts)
  have sorted: "sorted ts" and later: "t \<in> set ts \<Longrightarrow> now \<le> t" for t
    using Cons.prems(1) by auto
  have n0: "now0 \<le> now" using Cons.prems(2) by simp
  have live: "filter (fresh now) kept = filter (fresh now) hist"
    using prune_prune [OF n0, of kept] prune_prune [OF n0, of hist] Cons.prems(3) by simp
  show ?case
  proof (cases "length (filter (fresh now) kept) < n")
    case False
    then show ?thesis
      using Cons.IH [OF sorted later live, of i] Cons.prems(4) by (simp add: Let_def)
  next
    case True
    let ?kept = "filter (fresh now) kept @ [now]"
    have kept': "filter (fresh now) ?kept = filter (fresh now) (hist @ [now])"
      by (simp add: live)
    show ?thesis
    proof (cases i)
      case 0
      with True live show ?thesis by (simp add: Let_def)
    next
      case (Suc j)
      with True Cons.prems(4) have j: "j < length (admitted fresh n ?kept ts)" by (simp add: Let_def)
      from Cons.IH [OF sorted later kept' j] True Suc show ?thesis by (simp add: Let_def)
    qed
  qed
qed simp

lemma admitted_never_exceeds:
  assumes "sorted ts" and "i < length (admitted fresh n [] ts)"
  shows "length (filter (fresh (admitted fresh n [] ts ! i)) (take i (admitted fresh n [] ts))) < n"
proof (cases ts)
  case (Cons t0 ts')
  have "t0 \<le> t" if "t \<in> set ts" for t using assms(1) that Cons by auto
  from admitted_window [OF assms(1) this, where kept = "[]" and hist = "[]"] assms(2)
  show ?thesis by simp
qed (use assms in simp)

end

section \<open>Binary search\<close>

text \<open>\<^verbatim>\<open>sort.Search(n, f)\<close>: the loop of the library, over \<open>[i, j)\<close>.\<close>

function search_loop :: "(nat \<Rightarrow> bool) \<Rightarrow> nat \<Rightarrow> nat \<Rightarrow> nat" where
  "search_loop f i j =
     (if i < j then let h = (i + j) div 2 in if \<not> f h then search_loop f (h + 1) j else search_loop f i h
      else i)"
  by pat_completeness auto
termination
  by (relation "measure (\<lambda>(f, i, j). j - i)") auto

declare search_loop.simps [simp del]

definition sort_search :: "nat \<Rightarrow> (nat \<Rightarrow> bool) \<Rightarrow> nat" where
  "sort_search n f = search_loop f 0 n"

lemma search_loop_spec:
  assumes "\<forall>a b. a \<le> b \<longrightarrow> b < n \<longrightarrow> f a \<longrightarrow> f b" and "i \<le> j" and "j \<le> n"
    and "\<forall>k < i. \<not> f k" and "\<forall>k. j \<le> k \<longrightarrow> k < n \<longrightarrow> f k"
  shows "search_loop f i j \<le> n \<and> (\<forall>k < search_loop f i j. \<not> f k)
     \<and> (\<forall>k. search_loop f i j \<le> k \<longrightarrow> k < n \<longrightarrow> f k)"
  using assms
proof (induction f i j rule: search_loop.induct)
  case (1 f i j)
  show ?case
  proof (cases "i < j")
    case False
    then have "i = j" using "1.prems"(2) by simp
    then have "search_loop f i j = j" by (simp add: search_loop.simps [of f j j])
    then show ?thesis using "1.prems"(3,4,5) \<open>i = j\<close> by simp
  next
    case True
    define h where "h = (i + j) div 2"
    have h: "i \<le> h" "h + 1 \<le> j" "h \<le> n" "h < n" using True "1.prems"(3) by (auto simp: h_def)
    show ?thesis
    proof (cases "f h")
      case False
      have low: "\<forall>k < h + 1. \<not> f k"
        using False "1.prems"(1) h(4) by (metis Suc_eq_plus1 less_Suc_eq_le)
      have "search_loop f i j = search_loop f (h + 1) j"
        using True False by (simp add: search_loop.simps [of f i j] Let_def h_def)
      with "1.IH"(1) [OF True h_def False "1.prems"(1) h(2) "1.prems"(3) low "1.prems"(5)]
      show ?thesis by metis
    next
      case ft: True
      have high: "\<forall>k. h \<le> k \<longrightarrow> k < n \<longrightarrow> f k" using ft "1.prems"(1) by blast
      have nn: "\<not> \<not> f h" using ft by simp
      have "search_loop f i j = search_loop f i h"
        using True ft by (simp add: search_loop.simps [of f i j] Let_def h_def)
      with "1.IH"(2) [OF True h_def nn "1.prems"(1) h(1) h(3) "1.prems"(4) high]
      show ?thesis by metis
    qed
  qed
qed

lemma sort_search_least:
  assumes "\<forall>a b. a \<le> b \<longrightarrow> b < n \<longrightarrow> f a \<longrightarrow> f b"
  shows "sort_search n f \<le> n \<and> (\<forall>k < sort_search n f. \<not> f k)
     \<and> (\<forall>k. sort_search n f \<le> k \<longrightarrow> k < n \<longrightarrow> f k)"
  unfolding sort_search_def by (rule search_loop_spec) (use assms in auto)

end
