(* ===== verification/Authority.thy ===== *)
theory Authority
  imports Prelude
begin

text \<open>
  Claim-based authority: \<^verbatim>\<open>internal/core/security_claim.go\<close>, the levels of
  \<^verbatim>\<open>internal/core/types.go\<close> and the mode switch \<^verbatim>\<open>ResolveSecurityClaim\<close> of
  \<^verbatim>\<open>internal/pipeline/config.go\<close>.
  The composition rule is \<^verbatim>\<open>min(max(grants), min(ceilings))\<close>; the variadic
  \<open>maxAuthority\<close> and \<open>minAuthority\<close> index their first argument, so on no argument they
  panic (\<open>None\<close>), and composition is proved never to reach that panic.
\<close>

section \<open>Levels\<close>

datatype authority_level =
  AuthorityExternal | AuthorityPeer | AuthoritySelfGenerated | AuthorityCreator

fun authority_rank :: "authority_level \<Rightarrow> nat" where
  "authority_rank AuthorityExternal = 0"
| "authority_rank AuthorityPeer = 1"
| "authority_rank AuthoritySelfGenerated = 2"
| "authority_rank AuthorityCreator = 3"

lemma authority_rank_inj: "authority_rank a = authority_rank b \<longleftrightarrow> a = b"
  by (cases a; cases b) simp_all

instantiation authority_level :: linorder
begin

definition less_eq_authority_level :: "authority_level \<Rightarrow> authority_level \<Rightarrow> bool" where
  "less_eq_authority_level a b \<longleftrightarrow> authority_rank a \<le> authority_rank b"

definition less_authority_level :: "authority_level \<Rightarrow> authority_level \<Rightarrow> bool" where
  "less_authority_level a b \<longleftrightarrow> authority_rank a < authority_rank b"

instance
  by standard (auto simp: less_eq_authority_level_def less_authority_level_def authority_rank_inj)

end

lemmas authority_ord = less_eq_authority_level_def less_authority_level_def

lemma external_least [simp]: "AuthorityExternal \<le> a"
  by (simp add: authority_ord)

lemma creator_greatest [simp]: "a \<le> AuthorityCreator"
  by (cases a) (simp_all add: authority_ord)

datatype claim_source =
  ClaimSourceChannelAllowList | ClaimSourceTrustedSenderID | ClaimSourceAPIKey
  | ClaimSourceWSTicket | ClaimSourceA2ASession | ClaimSourceAnonymous

record security_claim =
  sc_Authority :: authority_level
  sc_Sources :: "claim_source list"
  sc_Ceiling :: authority_level
  sc_ThreatDowngraded :: bool
  sc_SenderID :: string
  sc_Channel :: string

record channel_claim_context =
  cc_SenderID :: string
  cc_ChatID :: string
  cc_Channel :: string
  cc_SenderInAllowlist :: bool
  cc_AllowlistConfigured :: bool
  cc_ThreatIsCaution :: bool
  cc_TrustedSenderIDs :: "string list"

record claim_security_config =
  sec_AllowlistAuthority :: authority_level
  sec_TrustedAuthority :: authority_level
  sec_APIAuthority :: authority_level
  sec_ThreatCautionCeiling :: authority_level

definition DefaultClaimSecurityConfig :: claim_security_config where
  "DefaultClaimSecurityConfig = \<lparr>
     sec_AllowlistAuthority = AuthorityPeer,
     sec_TrustedAuthority = AuthorityCreator,
     sec_APIAuthority = AuthorityCreator,
     sec_ThreatCautionCeiling = AuthorityExternal\<rparr>"

section \<open>Composition\<close>

fun max_scan :: "authority_level \<Rightarrow> authority_level list \<Rightarrow> authority_level" where
  "max_scan best [] = best"
| "max_scan best (l # ls) = max_scan (if l > best then l else best) ls"

fun min_scan :: "authority_level \<Rightarrow> authority_level list \<Rightarrow> authority_level" where
  "min_scan worst [] = worst"
| "min_scan worst (l # ls) = min_scan (if l < worst then l else worst) ls"

fun maxAuthority :: "authority_level list \<Rightarrow> authority_level option" where
  "maxAuthority [] = None"
| "maxAuthority (l # ls) = Some (max_scan l ls)"

fun minAuthority :: "authority_level list \<Rightarrow> authority_level option" where
  "minAuthority [] = None"
| "minAuthority (l # ls) = Some (min_scan l ls)"

definition composeClaim ::
  "authority_level list \<Rightarrow> claim_source list \<Rightarrow> authority_level list \<Rightarrow> string \<Rightarrow> string
   \<Rightarrow> security_claim option" where
  "composeClaim grants sources ceilings senderID channel =
     Option.bind (if grants = [] then Some AuthorityExternal else maxAuthority grants) (\<lambda>effectiveGrant.
     let sources' = (if grants = [] then sources @ [ClaimSourceAnonymous] else sources) in
     Option.bind (if ceilings \<noteq> [] then minAuthority ceilings else Some AuthorityCreator) (\<lambda>effectiveCeiling.
     Option.bind (minAuthority [effectiveGrant, effectiveCeiling]) (\<lambda>finalAuthority.
     Some \<lparr>sc_Authority = finalAuthority,
           sc_Sources = sources',
           sc_Ceiling = effectiveCeiling,
           sc_ThreatDowngraded = (ceilings \<noteq> [] \<and> finalAuthority < effectiveGrant),
           sc_SenderID = senderID,
           sc_Channel = channel\<rparr>)))"

fun trusted_match :: "string list \<Rightarrow> string \<Rightarrow> string \<Rightarrow> bool" where
  "trusted_match [] chatID senderID \<longleftrightarrow> False"
| "trusted_match (i # is) chatID senderID \<longleftrightarrow>
     (if i = chatID \<or> i = senderID then True else trusted_match is chatID senderID)"

definition ResolveChannelClaim ::
  "channel_claim_context \<Rightarrow> claim_security_config \<Rightarrow> security_claim option" where
  "ResolveChannelClaim ctx sec =
     (let allow = cc_AllowlistConfigured ctx \<and> cc_SenderInAllowlist ctx;
          trusted = cc_TrustedSenderIDs ctx \<noteq> []
            \<and> trusted_match (cc_TrustedSenderIDs ctx) (cc_ChatID ctx) (cc_SenderID ctx);
          grants = (if allow then [sec_AllowlistAuthority sec] else [])
            @ (if trusted then [sec_TrustedAuthority sec] else []);
          sources = (if allow then [ClaimSourceChannelAllowList] else [])
            @ (if trusted then [ClaimSourceTrustedSenderID] else []);
          ceilings = (if cc_ThreatIsCaution ctx then [sec_ThreatCautionCeiling sec] else [])
      in composeClaim grants sources ceilings (cc_SenderID ctx) (cc_Channel ctx))"

definition ResolveAPIClaim ::
  "bool \<Rightarrow> string \<Rightarrow> claim_security_config \<Rightarrow> security_claim option" where
  "ResolveAPIClaim threatIsCaution channel sec =
     composeClaim [sec_APIAuthority sec] [ClaimSourceAPIKey]
       (if threatIsCaution then [sec_ThreatCautionCeiling sec] else []) ''api'' channel"

definition ResolveA2AClaim ::
  "bool \<Rightarrow> string \<Rightarrow> claim_security_config \<Rightarrow> security_claim option" where
  "ResolveA2AClaim threatIsCaution senderID sec =
     composeClaim [AuthorityPeer] [ClaimSourceA2ASession]
       (if threatIsCaution then [sec_ThreatCautionCeiling sec] else []) senderID ''a2a''"

text \<open>The pipeline's entry: the mode decides which resolver runs. The channel context of the
  pipeline has no threat field, so \<^verbatim>\<open>ThreatIsCaution\<close> stays false. A mode that is none of
  the three constants falls through the switch.\<close>

datatype authority_mode = AuthorityAPIKey | AuthoritySelfGen | AuthorityChannel | AuthorityOtherMode int

record pipeline_claim_context =
  pc_SenderID :: string
  pc_ChatID :: string
  pc_Platform :: string
  pc_SenderInAllowlist :: bool
  pc_AllowlistConfigured :: bool
  pc_TrustedSenderIDs :: "string list"

definition ResolveSecurityClaim ::
  "authority_mode \<Rightarrow> pipeline_claim_context option \<Rightarrow> security_claim option" where
  "ResolveSecurityClaim mode claim =
     (let sec = DefaultClaimSecurityConfig in
      case mode of
        AuthorityAPIKey \<Rightarrow> ResolveAPIClaim False ''api'' sec
      | AuthoritySelfGen \<Rightarrow> Some \<lparr>sc_Authority = AuthoritySelfGenerated, sc_Sources = [],
            sc_Ceiling = AuthorityCreator, sc_ThreatDowngraded = False,
            sc_SenderID = ''cron'', sc_Channel = ''cron''\<rparr>
      | AuthorityChannel \<Rightarrow>
          (case claim of
             None \<Rightarrow> Some \<lparr>sc_Authority = AuthorityExternal, sc_Sources = [ClaimSourceAnonymous],
               sc_Ceiling = AuthorityCreator, sc_ThreatDowngraded = False,
               sc_SenderID = [], sc_Channel = ''unknown''\<rparr>
           | Some c \<Rightarrow> ResolveChannelClaim \<lparr>cc_SenderID = pc_SenderID c, cc_ChatID = pc_ChatID c,
               cc_Channel = pc_Platform c, cc_SenderInAllowlist = pc_SenderInAllowlist c,
               cc_AllowlistConfigured = pc_AllowlistConfigured c, cc_ThreatIsCaution = False,
               cc_TrustedSenderIDs = pc_TrustedSenderIDs c\<rparr> sec)
      | AuthorityOtherMode _ \<Rightarrow> Some \<lparr>sc_Authority = AuthorityExternal,
            sc_Sources = [ClaimSourceAnonymous], sc_Ceiling = AuthorityCreator,
            sc_ThreatDowngraded = False, sc_SenderID = [], sc_Channel = []\<rparr>)"

section \<open>The composition rule\<close>

lemma max_scan_Max: "max_scan b ls = Max (insert b (set ls))"
proof (induction ls arbitrary: b)
  case (Cons l ls)
  have "Max (insert (if l > b then l else b) (set ls)) = Max (insert b (insert l (set ls)))"
  proof (cases "set ls = {}")
    case False
    then show ?thesis by (auto simp: Max_insert max_def)
  qed (auto simp: max_def)
  with Cons.IH show ?case by simp
qed simp

lemma min_scan_Min: "min_scan w ls = Min (insert w (set ls))"
proof (induction ls arbitrary: w)
  case (Cons l ls)
  have "Min (insert (if l < w then l else w) (set ls)) = Min (insert w (insert l (set ls)))"
  proof (cases "set ls = {}")
    case False
    then show ?thesis by (auto simp: Min_insert min_def)
  qed (auto simp: min_def)
  with Cons.IH show ?case by simp
qed simp

lemma maxAuthority_Max: "ls \<noteq> [] \<Longrightarrow> maxAuthority ls = Some (Max (set ls))"
  by (cases ls) (simp_all add: max_scan_Max)

lemma minAuthority_Min: "ls \<noteq> [] \<Longrightarrow> minAuthority ls = Some (Min (set ls))"
  by (cases ls) (simp_all add: min_scan_Min)

lemma Max_insert_external: "Max (insert AuthorityExternal S) = (if S = {} then AuthorityExternal else Max S)"
  if "finite S" for S :: "authority_level set"
  using that by (auto simp: Max_insert max_absorb2)

lemma Min_insert_creator: "Min (insert AuthorityCreator S) = (if S = {} then AuthorityCreator else Min S)"
  if "finite S" for S :: "authority_level set"
  using that by (auto simp: Min_insert min_absorb2)

text \<open>The abstract rule: grants join, ceilings meet.\<close>

definition effective_authority :: "authority_level set \<Rightarrow> authority_level set \<Rightarrow> authority_level" where
  "effective_authority grants ceilings =
     min (Max (insert AuthorityExternal grants)) (Min (insert AuthorityCreator ceilings))"

lemma effective_authority_mono:
  assumes "finite G'" and "finite C" and "G \<subseteq> G'" and "C' \<subseteq> C"
  shows "effective_authority G C \<le> effective_authority G' C'"
proof -
  have "Max (insert AuthorityExternal G) \<le> Max (insert AuthorityExternal G')"
    using assms by (intro Max_mono) auto
  moreover have "Min (insert AuthorityCreator C) \<le> Min (insert AuthorityCreator C')"
    using assms by (intro Min_antimono) auto
  ultimately show ?thesis
    unfolding effective_authority_def by (meson min.mono)
qed

lemma composeClaim_eq:
  "composeClaim gs ss cs sid ch = Some \<lparr>
     sc_Authority = effective_authority (set gs) (set cs),
     sc_Sources = (if gs = [] then ss @ [ClaimSourceAnonymous] else ss),
     sc_Ceiling = Min (insert AuthorityCreator (set cs)),
     sc_ThreatDowngraded = (effective_authority (set gs) (set cs) < Max (insert AuthorityExternal (set gs))),
     sc_SenderID = sid, sc_Channel = ch\<rparr>"
proof -
  have g: "(if gs = [] then Some AuthorityExternal else maxAuthority gs)
      = Some (Max (insert AuthorityExternal (set gs)))"
    by (simp add: maxAuthority_Max Max_insert_external)
  have c: "(if cs \<noteq> [] then minAuthority cs else Some AuthorityCreator)
      = Some (Min (insert AuthorityCreator (set cs)))"
    by (simp add: minAuthority_Min Min_insert_creator)
  have m: "minAuthority [a, b] = Some (min a b)" for a b
    by (auto simp: min_def)
  have d: "(cs \<noteq> [] \<and> effective_authority (set gs) (set cs) < Max (insert AuthorityExternal (set gs)))
      \<longleftrightarrow> effective_authority (set gs) (set cs) < Max (insert AuthorityExternal (set gs))"
    by (auto simp: effective_authority_def)
  show ?thesis
    unfolding composeClaim_def g c Let_def Option.bind.bind_lunit m
    by (simp only: d [unfolded effective_authority_def] effective_authority_def)
qed

text \<open>
  Claim composition never panics, and the authority it gives is
  \<^verbatim>\<open>min(max(grants), min(ceilings))\<close>, where no grant means external and no ceiling means
  creator; the claim is marked as downgraded exactly when a ceiling lowered the best grant.
\<close>

theorem composeClaim_rule:
  "\<exists>c. composeClaim gs ss cs sid ch = Some c
     \<and> sc_Authority c = effective_authority (set gs) (set cs)
     \<and> (sc_ThreatDowngraded c \<longleftrightarrow> sc_Authority c < Max (insert AuthorityExternal (set gs)))
     \<and> sc_Authority c \<le> sc_Ceiling c"
  by (simp add: composeClaim_eq effective_authority_def)

section \<open>What the resolvers can grant\<close>

lemma trusted_match_iff: "trusted_match is chat sender \<longleftrightarrow> chat \<in> set is \<or> sender \<in> set is"
  by (induction "is") auto

definition channel_grants :: "channel_claim_context \<Rightarrow> claim_security_config \<Rightarrow> authority_level set" where
  "channel_grants ctx sec =
     (if cc_AllowlistConfigured ctx \<and> cc_SenderInAllowlist ctx then {sec_AllowlistAuthority sec} else {})
     \<union> (if cc_ChatID ctx \<in> set (cc_TrustedSenderIDs ctx) \<or> cc_SenderID ctx \<in> set (cc_TrustedSenderIDs ctx)
        then {sec_TrustedAuthority sec} else {})"

definition caution_ceiling :: "bool \<Rightarrow> claim_security_config \<Rightarrow> authority_level set" where
  "caution_ceiling caution sec = (if caution then {sec_ThreatCautionCeiling sec} else {})"

lemma ResolveChannelClaim_authority:
  "map_option sc_Authority (ResolveChannelClaim ctx sec)
     = Some (effective_authority (channel_grants ctx sec) (caution_ceiling (cc_ThreatIsCaution ctx) sec))"
proof -
  have t: "(ids \<noteq> [] \<and> trusted_match ids a b) \<longleftrightarrow> (a \<in> set ids \<or> b \<in> set ids)" for ids a b
    by (auto simp: trusted_match_iff)
  show ?thesis
    unfolding ResolveChannelClaim_def Let_def composeClaim_eq t channel_grants_def caution_ceiling_def
    by (cases "cc_AllowlistConfigured ctx"; cases "cc_SenderInAllowlist ctx"; cases "cc_ThreatIsCaution ctx";
        cases "cc_ChatID ctx \<in> set (cc_TrustedSenderIDs ctx) \<or> cc_SenderID ctx \<in> set (cc_TrustedSenderIDs ctx)")
      (simp_all add: insert_commute)
qed

lemma effective_le_ceiling: "finite C \<Longrightarrow> c \<in> C \<Longrightarrow> effective_authority G C \<le> c"
  unfolding effective_authority_def by (meson Min_le finite_insert insertI2 min.coboundedI2)

lemma effective_gt_external:
  "finite G \<Longrightarrow> effective_authority G C > AuthorityExternal \<Longrightarrow> \<exists>g\<in>G. g > AuthorityExternal"
  unfolding effective_authority_def
  by (metis Max_in finite_insert insert_iff insert_not_empty less_le_not_le min.strict_boundedE)

text \<open>
  A channel message gets more than external authority only from a source that was
  checked: the sender is on a configured allow-list, or one of its identifiers is listed as
  trusted. In every other case the claim is external.
\<close>

theorem channel_authority_needs_source:
  assumes "ResolveChannelClaim ctx sec = Some c" and "AuthorityExternal < sc_Authority c"
  shows "(cc_AllowlistConfigured ctx \<and> cc_SenderInAllowlist ctx)
     \<or> cc_ChatID ctx \<in> set (cc_TrustedSenderIDs ctx)
     \<or> cc_SenderID ctx \<in> set (cc_TrustedSenderIDs ctx)"
proof (rule ccontr)
  assume "\<not> ?thesis"
  then have "channel_grants ctx sec = {}" by (auto simp: channel_grants_def)
  moreover have "sc_Authority c = effective_authority (channel_grants ctx sec)
      (caution_ceiling (cc_ThreatIsCaution ctx) sec)"
    using ResolveChannelClaim_authority [of ctx sec] assms(1) by simp
  ultimately show False
    using assms(2) effective_gt_external [of "{}"] by auto
qed

theorem channel_authority_needs_source_witness:
  "\<exists>ctx c. ResolveChannelClaim ctx DefaultClaimSecurityConfig = Some c
     \<and> AuthorityExternal < sc_Authority c \<and> cc_SenderID ctx \<in> set (cc_TrustedSenderIDs ctx)"
proof -
  define ctx where "ctx = \<lparr>cc_SenderID = ''u1'', cc_ChatID = ''c9'', cc_Channel = ''telegram'',
    cc_SenderInAllowlist = False, cc_AllowlistConfigured = False, cc_ThreatIsCaution = False,
    cc_TrustedSenderIDs = [''u0'', ''u1'']\<rparr>"
  obtain c where c: "ResolveChannelClaim ctx DefaultClaimSecurityConfig = Some c"
    and auth: "AuthorityExternal < sc_Authority c"
    by (simp add: ResolveChannelClaim_def ctx_def composeClaim_def DefaultClaimSecurityConfig_def
        authority_ord)
  from channel_authority_needs_source [OF c auth] have "cc_SenderID ctx \<in> set (cc_TrustedSenderIDs ctx)"
    by (simp add: ctx_def)
  with c auth show ?thesis by blast
qed

text \<open>
  A message under threat caution never ends above the caution ceiling, and caution never
  raises what the same message would have got without it.
\<close>

theorem caution_caps_channel_authority:
  "\<exists>c c'. ResolveChannelClaim (ctx\<lparr>cc_ThreatIsCaution := True\<rparr>) sec = Some c
     \<and> ResolveChannelClaim (ctx\<lparr>cc_ThreatIsCaution := False\<rparr>) sec = Some c'
     \<and> sc_Authority c \<le> sec_ThreatCautionCeiling sec
     \<and> sc_Authority c \<le> sc_Authority c'"
proof -
  let ?t = "ctx\<lparr>cc_ThreatIsCaution := True\<rparr>" and ?f = "ctx\<lparr>cc_ThreatIsCaution := False\<rparr>"
  have grants: "channel_grants ?t sec = channel_grants ?f sec" "finite (channel_grants ?f sec)"
    by (simp_all add: channel_grants_def)
  obtain c c' where c: "ResolveChannelClaim ?t sec = Some c" "ResolveChannelClaim ?f sec = Some c'"
    and a: "sc_Authority c = effective_authority (channel_grants ?f sec) {sec_ThreatCautionCeiling sec}"
    and a': "sc_Authority c' = effective_authority (channel_grants ?f sec) {}"
    using ResolveChannelClaim_authority [of ?t sec] ResolveChannelClaim_authority [of ?f sec] grants(1)
    by (auto simp: caution_ceiling_def)
  have "sc_Authority c \<le> sec_ThreatCautionCeiling sec"
    unfolding a by (rule effective_le_ceiling) simp_all
  moreover have "sc_Authority c \<le> sc_Authority c'"
    unfolding a a' using grants(2) by (intro effective_authority_mono) auto
  ultimately show ?thesis using c by blast
qed

text \<open>
  An agent-to-agent session never gets more than peer authority, whatever the
  configuration and the threat level.
\<close>

theorem a2a_never_above_peer:
  "\<exists>c. ResolveA2AClaim caution sender sec = Some c \<and> sc_Authority c \<le> AuthorityPeer"
proof -
  have "effective_authority {AuthorityPeer} C \<le> AuthorityPeer" for C
    by (simp add: effective_authority_def min.coboundedI1)
  then show ?thesis by (simp add: ResolveA2AClaim_def composeClaim_eq)
qed

text \<open>
  In the pipeline's channel mode, creator authority is given only to a sender whose chat or
  sender identifier is a configured trusted identifier; the allow-list alone gives peer.
\<close>

theorem pipeline_creator_needs_trust:
  assumes "ResolveSecurityClaim AuthorityChannel claim = Some c"
    and "sc_Authority c = AuthorityCreator"
  shows "\<exists>p. claim = Some p
     \<and> (pc_ChatID p \<in> set (pc_TrustedSenderIDs p) \<or> pc_SenderID p \<in> set (pc_TrustedSenderIDs p))"
proof (cases claim)
  case None
  with assms show ?thesis by (auto simp: ResolveSecurityClaim_def)
next
  case (Some p)
  show ?thesis
  proof (rule ccontr)
    assume no: "\<not> ?thesis"
    obtain ctx where r: "ResolveChannelClaim ctx DefaultClaimSecurityConfig = Some c"
      and sub: "channel_grants ctx DefaultClaimSecurityConfig \<subseteq> {AuthorityPeer}"
      using assms(1) no unfolding Some
      by (auto simp: ResolveSecurityClaim_def Let_def channel_grants_def DefaultClaimSecurityConfig_def
          split: if_splits)
    have "sc_Authority c \<le> effective_authority {AuthorityPeer} {}"
      using ResolveChannelClaim_authority [of ctx DefaultClaimSecurityConfig] r sub
      by (auto intro!: effective_authority_mono simp: caution_ceiling_def)
    with assms(2) show False
      by (simp add: effective_authority_def authority_ord max_def min_def split: if_splits)
  qed
qed

theorem pipeline_creator_needs_trust_witness:
  "\<exists>p c. ResolveSecurityClaim AuthorityChannel (Some p) = Some c \<and> sc_Authority c = AuthorityCreator
     \<and> (pc_ChatID p \<in> set (pc_TrustedSenderIDs p) \<or> pc_SenderID p \<in> set (pc_TrustedSenderIDs p))"
proof -
  define p where "p = \<lparr>pc_SenderID = ''u1'', pc_ChatID = ''c9'', pc_Platform = ''signal'',
    pc_SenderInAllowlist = True, pc_AllowlistConfigured = True, pc_TrustedSenderIDs = [''c9'']\<rparr>"
  obtain c where c: "ResolveSecurityClaim AuthorityChannel (Some p) = Some c"
    and a: "sc_Authority c = AuthorityCreator"
    by (simp add: ResolveSecurityClaim_def ResolveChannelClaim_def p_def composeClaim_def
        DefaultClaimSecurityConfig_def authority_ord)
  from pipeline_creator_needs_trust [OF c a] c a show ?thesis by blast
qed

end
