(* ===== verification/ToolRegistry.thy ===== *)
theory ToolRegistry
  imports Prelude
begin

text \<open>
  The tool registry, \<^verbatim>\<open>internal/agent/tools/registry.go\<close>, with the risk levels of
  \<^verbatim>\<open>internal/agent/tools/tool.go\<close>. A registry keeps a map of tools, a parallel map of
  descriptors and the registration order; the invariant says that the three agree, and every
  operation that changes the registry keeps it. The token estimate of a descriptor and the
  embedding vectors are parameters.
\<close>

section \<open>Tools and descriptors\<close>

datatype risk_level = RiskSafe | RiskCaution | RiskDangerous | RiskForbidden

datatype tool_source = ToolSourceBuiltIn | ToolSourcePlugin | ToolSourceMCP

text \<open>The concrete Go type of a tool, as far as \<^verbatim>\<open>classifyToolSource\<close> asks for it.\<close>

datatype tool_impl = McpBridgeTool string | PluginBridgeTool | OtherTool

record tool =
  t_Name :: string
  t_Description :: string
  t_Risk :: risk_level
  t_ParameterSchema :: string
  t_Impl :: tool_impl

record 'e tool_descriptor =
  td_Name :: string
  td_Description :: string
  td_TokenCost :: int
  td_Source :: tool_source
  td_MCPServer :: string
  td_Embedding :: "'e list"

record 'e registry =
  rg_tools :: "(string, tool) gomap"
  rg_descriptors :: "(string, 'e tool_descriptor) gomap"
  rg_order :: "string list"

definition NewRegistry :: "'e registry" where
  "NewRegistry = \<lparr>rg_tools = [], rg_descriptors = [], rg_order = []\<rparr>"

fun classifyToolSource :: "tool_impl \<Rightarrow> tool_source \<times> string" where
  "classifyToolSource (McpBridgeTool server) = (ToolSourceMCP, server)"
| "classifyToolSource PluginBridgeTool = (ToolSourcePlugin, [])"
| "classifyToolSource OtherTool = (ToolSourceBuiltIn, [])"

section \<open>Operations\<close>

definition Register :: "(string \<Rightarrow> int) \<Rightarrow> tool \<Rightarrow> 'e registry \<Rightarrow> 'e registry" where
  "Register estimateTokens t r =
     (let costText = t_Name t @ [CHR 0x0A] @ t_Description t @ [CHR 0x0A] @ t_ParameterSchema t;
          src = classifyToolSource (t_Impl t)
      in \<lparr>rg_tools = m_put (t_Name t) t (rg_tools r),
          rg_descriptors = m_put (t_Name t)
            \<lparr>td_Name = t_Name t, td_Description = t_Description t,
             td_TokenCost = estimateTokens costText, td_Source = fst src, td_MCPServer = snd src,
             td_Embedding = []\<rparr> (rg_descriptors r),
          rg_order = (if m_get (rg_tools r) (t_Name t) = None then rg_order r @ [t_Name t]
                      else rg_order r)\<rparr>)"

definition Get :: "string \<Rightarrow> 'e registry \<Rightarrow> tool option" where
  "Get name r = m_get (rg_tools r) name"

definition Unregister :: "string \<Rightarrow> 'e registry \<Rightarrow> 'e registry" where
  "Unregister name r = \<lparr>rg_tools = m_del name (rg_tools r),
     rg_descriptors = m_del name (rg_descriptors r),
     rg_order = remove1 name (rg_order r)\<rparr>"

text \<open>\<^verbatim>\<open>EmbedDescriptors\<close>: the map is read in some order \<open>names\<close>; the embedding client answers
  with one vector per text, an error, or the wrong number of vectors.\<close>

definition EmbedDescriptors ::
  "(string list \<Rightarrow> 'e list list option) option \<Rightarrow> string list \<Rightarrow> 'e registry \<Rightarrow> bool \<times> 'e registry" where
  "EmbedDescriptors ec names r =
     (case ec of None \<Rightarrow> (True, r)
      | Some embedAll \<Rightarrow>
          if names = [] then (True, r)
          else (case embedAll (map (\<lambda>n. case m_get (rg_descriptors r) n of
                    None \<Rightarrow> [] | Some d \<Rightarrow> td_Name d @ [CHR 0x0A] @ td_Description d) names) of
                  None \<Rightarrow> (False, r)
                | Some vs \<Rightarrow>
                    if length vs \<noteq> length names then (True, r)
                    else (True, r\<lparr>rg_descriptors :=
                      fold (\<lambda>(n, v). m_modify (\<lambda>d. d\<lparr>td_Embedding := v\<rparr>) n) (zip names vs)
                        (rg_descriptors r)\<rparr>)))"

definition List_tools :: "'e registry \<Rightarrow> tool list" where
  "List_tools r = List.map_filter (m_get (rg_tools r)) (rg_order r)"

definition Names :: "'e registry \<Rightarrow> string list" where
  "Names r = rg_order r"

definition NamesWithDescriptions :: "'e registry \<Rightarrow> (string \<times> string) list" where
  "NamesWithDescriptions r =
     List.map_filter (\<lambda>n. map_option (\<lambda>t. (t_Name t, t_Description t)) (m_get (rg_tools r) n)) (rg_order r)"

definition Descriptors :: "'e registry \<Rightarrow> 'e tool_descriptor list" where
  "Descriptors r = List.map_filter (m_get (rg_descriptors r)) (rg_order r)"

section \<open>The registry invariant\<close>

definition registry_ok :: "'e registry \<Rightarrow> bool" where
  "registry_ok r \<longleftrightarrow> m_ok (rg_tools r) \<and> m_ok (rg_descriptors r) \<and> distinct (rg_order r)
     \<and> set (rg_order r) = dom (map_of (rg_tools r))
     \<and> dom (map_of (rg_descriptors r)) = dom (map_of (rg_tools r))
     \<and> (\<forall>n t. m_get (rg_tools r) n = Some t \<longrightarrow> t_Name t = n)"

lemma registry_ok_new: "registry_ok NewRegistry"
  by (simp add: registry_ok_def NewRegistry_def)

lemma registry_ok_Register: "registry_ok r \<Longrightarrow> registry_ok (Register est t r)"
  by (auto simp: registry_ok_def Register_def Let_def domIff)

lemma registry_ok_Unregister: "registry_ok r \<Longrightarrow> registry_ok (Unregister n r)"
  by (auto simp: registry_ok_def Unregister_def set_remove1_eq split: if_splits)

lemma fold_modify_dom:
  "m_ok m \<Longrightarrow> m_ok (fold (\<lambda>(n, v). m_modify (f v) n) ps m)
     \<and> dom (map_of (fold (\<lambda>(n, v). m_modify (f v) n) ps m)) = dom (map_of m)"
  by (induction ps arbitrary: m) (auto simp del: m_modify_simps(1) simp: case_prod_unfold)

lemma registry_ok_Embed: "registry_ok r \<Longrightarrow> registry_ok (snd (EmbedDescriptors ec names r))"
  using fold_modify_dom [of "rg_descriptors r" "\<lambda>v d. d\<lparr>td_Embedding := v\<rparr>"]
  by (auto simp: registry_ok_def EmbedDescriptors_def split: option.splits)

datatype 'e registry_event =
  ERegister tool | EUnregister string
  | EEmbed "(string list \<Rightarrow> 'e list list option) option" "string list"

fun registry_step :: "(string \<Rightarrow> int) \<Rightarrow> 'e registry_event \<Rightarrow> 'e registry \<Rightarrow> 'e registry" where
  "registry_step est (ERegister t) r = Register est t r"
| "registry_step est (EUnregister n) r = Unregister n r"
| "registry_step est (EEmbed ec names) r = snd (EmbedDescriptors ec names r)"

interpretation reg: event_system NewRegistry "registry_step est" registry_ok for est
proof
  show "registry_ok (registry_step est e s)" if "registry_ok s" for s :: "'a registry" and e
    using that by (cases e) (simp_all add: registry_ok_Register registry_ok_Unregister registry_ok_Embed)
qed (rule registry_ok_new)

lemma map_filter_Some: "list_all (\<lambda>x. f x \<noteq> None) xs \<Longrightarrow> map Some (List.map_filter f xs) = map f xs"
  by (induction xs) (auto simp: List.map_filter_simps)

lemma List_tools_names: "registry_ok r \<Longrightarrow> map t_Name (List_tools r) = rg_order r"
proof -
  assume ok: "registry_ok r"
  have "map t_Name (List.map_filter (m_get (rg_tools r)) ns) = ns"
    if "set ns \<subseteq> dom (map_of (rg_tools r))" for ns
    using that
  proof (induction ns)
    case (Cons n ns)
    then obtain t where "m_get (rg_tools r) n = Some t" by auto
    moreover from this ok have "t_Name t = n" by (auto simp: registry_ok_def)
    ultimately show ?case using Cons by (simp add: List.map_filter_simps)
  qed (simp add: List.map_filter_simps)
  with ok show ?thesis by (simp add: List_tools_def registry_ok_def)
qed

lemma length_Descriptors: "registry_ok r \<Longrightarrow> length (Descriptors r) = length (rg_order r)"
proof -
  assume ok: "registry_ok r"
  then have "list_all (\<lambda>n. m_get (rg_descriptors r) n \<noteq> None) (rg_order r)"
    by (auto simp: registry_ok_def list_all_iff domIff)
  from map_filter_Some [OF this] show ?thesis
    unfolding Descriptors_def by (metis length_map)
qed

text \<open>
  After any sequence of registrations, removals and embedding passes, the listing shows each
  registered tool exactly once, in registration order, with a descriptor for each, and looking
  a name up succeeds exactly for the listed names.
\<close>

theorem registry_listing_exact:
  "let r = fold (registry_step est) es NewRegistry in
     distinct (Names r) \<and> map t_Name (List_tools r) = Names r
     \<and> length (Descriptors r) = length (Names r)
     \<and> (Get n r \<noteq> None \<longleftrightarrow> n \<in> set (Names r))"
proof -
  have ok: "registry_ok (fold (registry_step est) es NewRegistry)" by (rule reg.inv_run)
  from List_tools_names [OF ok] length_Descriptors [OF ok] ok show ?thesis
    by (auto simp: Let_def Names_def Get_def registry_ok_def domIff)
qed

end
