(* ===== verification/Policy.thy ===== *)
theory Policy
  imports Authority ToolRegistry
begin

text \<open>
  The tool-call policy engine, \<^verbatim>\<open>internal/agent/policy/engine.go\<close>, with the configuration
  patterns of \<^verbatim>\<open>internal/security/config_protection.go\<close>. A rule is a constructor of \<open>rule\<close>;
  the one rule with state is the rate limiter, so evaluating a rule returns the rule's next
  state with its decision, and the engine threads the states through the chain. Reasons of
  denials are values, not formatted text. The JSON decoder and the float operations the rules
  call are the fields of \<open>go_lib\<close>, a parameter.
\<close>

section \<open>Requests, decisions, library parameters\<close>

datatype deny_reason =
  ForbiddenNeedsCreator | DangerousNeedsSelfGenerated | CautionNeedsPeer
  | ToolForbidden string | AmountExceeds int | ProtectedPath string | PathTraversal
  | HomeShortcut | PathNotAllowed string | RateExceeded string int | ParamsTooLarge int
  | MaliciousPattern | DrainToolName string string | DrainArguments string | FullBalanceDrain
  | ProtectedField string

datatype decision_result = Allow | Deny string deny_reason

fun Denied :: "decision_result \<Rightarrow> bool" where
  "Denied Allow \<longleftrightarrow> False"
| "Denied (Deny rule reason) \<longleftrightarrow> True"

record tool_call_request =
  req_ToolName :: string
  req_Arguments :: string
  req_Authority :: authority_level
  req_SecurityClaim :: "security_claim option"

text \<open>\<open>js_object\<close> decodes an object into raw members, \<open>js_float\<close> and \<open>js_string\<close> decode one raw
  member; \<open>None\<close> is a decoding error. \<open>fl_times100\<close> and \<open>fl_int64\<close> are the float product and
  the conversion to \<^verbatim>\<open>int64\<close>.\<close>

record 'f go_lib =
  js_object :: "string \<Rightarrow> (string, string) gomap option"
  js_float :: "string \<Rightarrow> 'f option"
  js_string :: "string \<Rightarrow> string option"
  fl_times100 :: "'f \<Rightarrow> 'f"
  fl_int64 :: "'f \<Rightarrow> int"

section \<open>The rules\<close>

definition authorityRule_Evaluate :: "tool_call_request \<Rightarrow> 'e registry option \<Rightarrow> decision_result" where
  "authorityRule_Evaluate req reg =
     (case reg of None \<Rightarrow> Allow
      | Some r \<Rightarrow>
          (case Get (req_ToolName req) r of None \<Rightarrow> Allow
           | Some tool \<Rightarrow>
               if t_Risk tool = RiskForbidden \<and> req_Authority req \<noteq> AuthorityCreator
               then Deny ''authority'' ForbiddenNeedsCreator
               else if t_Risk tool = RiskDangerous \<and> req_Authority req < AuthoritySelfGenerated
               then Deny ''authority'' DangerousNeedsSelfGenerated
               else if t_Risk tool = RiskCaution \<and> req_Authority req < AuthorityPeer
               then Deny ''authority'' CautionNeedsPeer
               else Allow))"

definition commandSafetyRule_Evaluate :: "tool_call_request \<Rightarrow> 'e registry option \<Rightarrow> decision_result" where
  "commandSafetyRule_Evaluate req reg =
     (case reg of None \<Rightarrow> Allow
      | Some r \<Rightarrow>
          (case Get (req_ToolName req) r of None \<Rightarrow> Allow
           | Some tool \<Rightarrow>
               if t_Risk tool = RiskForbidden
               then Deny ''command_safety'' (ToolForbidden (req_ToolName req)) else Allow))"

definition amountKeys :: "string list" where
  "amountKeys = [''amount_cents'', ''amount_dollars'', ''amount'', ''dollars'', ''value'']"

fun financial_scan :: "'f go_lib \<Rightarrow> int \<Rightarrow> (string, string) gomap \<Rightarrow> string list \<Rightarrow> decision_result" where
  "financial_scan lib maxc args [] = Allow"
| "financial_scan lib maxc args (key # keys) =
     (case m_get args key of None \<Rightarrow> financial_scan lib maxc args keys
      | Some raw \<Rightarrow>
          (case js_float lib raw of None \<Rightarrow> financial_scan lib maxc args keys
           | Some amount \<Rightarrow>
               let cents = (if key = ''amount_dollars'' \<or> key = ''dollars'' then fl_times100 lib amount
                            else amount)
               in if fl_int64 lib cents > maxc then Deny ''financial'' (AmountExceeds maxc)
                  else financial_scan lib maxc args keys))"

definition financialRule_Evaluate :: "'f go_lib \<Rightarrow> int \<Rightarrow> tool_call_request \<Rightarrow> decision_result" where
  "financialRule_Evaluate lib maxAmountCents req =
     (case js_object lib (req_Arguments req) of None \<Rightarrow> Allow
      | Some args \<Rightarrow> financial_scan lib maxAmountCents args amountKeys)"

definition protectedPatterns :: "string list" where
  "protectedPatterns = [''.env'', ''.ssh'', ''/etc/'', ''wallet.json'', ''roboticus.toml'',
     ''config-overrides.toml'']"

text \<open>\<open>tilde_match\<close> is the regular expression \<^verbatim>\<open>(^|[^A-Za-z0-9_])~(?:/|$)\<close>; its first argument
  says whether the byte before allows a match.\<close>

definition is_word_char :: "char \<Rightarrow> bool" where
  "is_word_char c \<longleftrightarrow> (let n = (of_char c :: nat) in
     (65 \<le> n \<and> n \<le> 90) \<or> (97 \<le> n \<and> n \<le> 122) \<or> (48 \<le> n \<and> n \<le> 57) \<or> n = 95)"

fun tilde_match :: "bool \<Rightarrow> string \<Rightarrow> bool" where
  "tilde_match start [] \<longleftrightarrow> False"
| "tilde_match start (c # s) \<longleftrightarrow>
     (start \<and> c = CHR ''~'' \<and> (s = [] \<or> hd s = CHR ''/'')) \<or> tilde_match (\<not> is_word_char c) s"

text \<open>\<^verbatim>\<open>filepath.Clean\<close> on a Unix path: its components with \<open>.\<close> and empty ones dropped and
  \<open>..\<close> resolved against the components before it.\<close>

fun clean_step :: "bool \<Rightarrow> string list \<Rightarrow> string \<Rightarrow> string list" where
  "clean_step rooted stack elem =
     (if elem = [] \<or> elem = ''.'' then stack
      else if elem = ''..'' then
        (case stack of
           prev # rest \<Rightarrow> if prev = ''..'' then elem # stack else rest
         | [] \<Rightarrow> if rooted then [] else [elem])
      else elem # stack)"

fun join_slash :: "string list \<Rightarrow> string" where
  "join_slash [] = []"
| "join_slash [c] = c"
| "join_slash (c # d # cs) = c @ ''/'' @ join_slash (d # cs)"

definition filepath_Clean :: "string \<Rightarrow> string" where
  "filepath_Clean p =
     (let rooted = has_prefix p ''/'';
          comps = rev (foldl (clean_step rooted) [] (split_on (CHR ''/'') p))
      in if rooted then ''/'' @ join_slash comps
         else if comps = [] then ''.'' else join_slash comps)"

definition path_allowed :: "string list \<Rightarrow> string \<Rightarrow> bool" where
  "path_allowed allowedPaths pathVal \<longleftrightarrow>
     list_ex (\<lambda>ap. filepath_Clean pathVal = filepath_Clean ap
       \<or> has_prefix (filepath_Clean pathVal) (filepath_Clean ap @ ''/'')) allowedPaths"

definition pathKeys :: "string list" where
  "pathKeys = [''path'', ''file'', ''filepath'', ''filename'', ''directory'', ''dir'']"

fun path_scan :: "'f go_lib \<Rightarrow> string list \<Rightarrow> (string, string) gomap \<Rightarrow> string list \<Rightarrow> decision_result" where
  "path_scan lib allowed args [] = Allow"
| "path_scan lib allowed args (key # keys) =
     (case m_get args key of None \<Rightarrow> path_scan lib allowed args keys
      | Some raw \<Rightarrow>
          (case js_string lib raw of None \<Rightarrow> path_scan lib allowed args keys
           | Some pathVal \<Rightarrow>
               if \<not> has_prefix pathVal ''/'' then path_scan lib allowed args keys
               else if has_prefix pathVal ''/tmp'' \<or> has_prefix pathVal ''/tmp/''
               then path_scan lib allowed args keys
               else if path_allowed allowed pathVal then path_scan lib allowed args keys
               else Deny ''path_protection'' (PathNotAllowed pathVal)))"

fun pattern_scan :: "string \<Rightarrow> string list \<Rightarrow> string option" where
  "pattern_scan s [] = None"
| "pattern_scan s (p # ps) = (if contains s p then Some p else pattern_scan s ps)"

definition pathProtectionRule_Evaluate ::
  "'f go_lib \<Rightarrow> bool \<Rightarrow> string list \<Rightarrow> tool_call_request \<Rightarrow> decision_result" where
  "pathProtectionRule_Evaluate lib workspaceOnly allowedPaths req =
     (case pattern_scan (to_lower (req_Arguments req)) protectedPatterns of
        Some pattern \<Rightarrow> Deny ''path_protection'' (ProtectedPath pattern)
      | None \<Rightarrow>
          if contains (req_Arguments req) ''..'' then Deny ''path_protection'' PathTraversal
          else if workspaceOnly then
            (if tilde_match True (req_Arguments req) then Deny ''path_protection'' HomeShortcut
             else (case js_object lib (req_Arguments req) of None \<Rightarrow> Allow
                   | Some args \<Rightarrow> path_scan lib allowedPaths args pathKeys))
          else Allow)"

text \<open>The rate limiter filters the slice of call times in place: the filtered prefix overwrites
  the front of the array the map entry still points to, and on a denial the entry keeps its old
  length. \<open>overwritten\<close> is what the entry holds then.\<close>

definition overwritten :: "time list \<Rightarrow> time list \<Rightarrow> time list" where
  "overwritten fresh stored = fresh @ drop (length fresh) stored"

definition rateLimitRule_Evaluate ::
  "int \<Rightarrow> (string, time list) gomap \<Rightarrow> time \<Rightarrow> tool_call_request
   \<Rightarrow> (string, time list) gomap \<times> decision_result" where
  "rateLimitRule_Evaluate maxPerMinute calls now req =
     (let stored = (case m_get calls (req_ToolName req) of None \<Rightarrow> [] | Some ts \<Rightarrow> ts);
          cutoff = now - minute;
          fresh = filter (\<lambda>t. cutoff < t) stored
      in if int (length fresh) \<ge> maxPerMinute
         then ((if m_get calls (req_ToolName req) = None then calls
                else m_put (req_ToolName req) (overwritten fresh stored) calls),
               Deny ''rate_limit'' (RateExceeded (req_ToolName req) maxPerMinute))
         else (m_put (req_ToolName req) (fresh @ [now]) calls, Allow))"

definition looksMalicious :: "string \<Rightarrow> bool" where
  "looksMalicious s \<longleftrightarrow>
     contains s ''$'' \<and> (contains s ''('' \<or> contains s [CHR 0x60] \<or> contains s ''${'')
     \<or> contains s ''; '' \<and> (contains (to_lower s) ''rm '' \<or> contains (to_lower s) ''curl ''
         \<or> contains (to_lower s) ''wget '')
     \<or> contains s ''..'' \<and> (contains s ''/'' \<or> contains s [CHR 0x5C])"

definition validationRule_Evaluate :: "int \<Rightarrow> tool_call_request \<Rightarrow> decision_result" where
  "validationRule_Evaluate maxParamBytes req =
     (if int (length (req_Arguments req)) > maxParamBytes
      then Deny ''validation'' (ParamsTooLarge maxParamBytes)
      else if looksMalicious (req_Arguments req) then Deny ''validation'' MaliciousPattern
      else Allow)"

definition drainPatterns :: "string list" where
  "drainPatterns = [''drain'', ''withdraw_all'', ''sweep'', ''transfer_all'', ''empty_wallet'',
     ''max_amount'', ''send_all'']"

definition financialDrainRule_Evaluate :: "tool_call_request \<Rightarrow> decision_result" where
  "financialDrainRule_Evaluate req =
     (let lowerArgs = to_lower (req_Arguments req) in
      case pattern_scan (to_lower (req_ToolName req)) drainPatterns of
        Some pattern \<Rightarrow> Deny ''financial_drain'' (DrainToolName (req_ToolName req) pattern)
      | None \<Rightarrow>
          (case pattern_scan lowerArgs drainPatterns of
             Some pattern \<Rightarrow> Deny ''financial_drain'' (DrainArguments pattern)
           | None \<Rightarrow>
               if contains lowerArgs ''\"percentage\":100'' \<or> contains lowerArgs ''\"percentage\": 100''
                 \<or> contains lowerArgs ''\"amount\":\"all\"'' \<or> contains lowerArgs ''\"amount\": \"all\"''
               then Deny ''financial_drain'' FullBalanceDrain
               else Allow))"

definition ProtectedConfigFiles :: "string list" where
  "ProtectedConfigFiles = [''roboticus.toml'', ''config-overrides.toml'']"

definition ProtectedConfigFields :: "string list" where
  "ProtectedConfigFields = [''scope_mode'', ''api_key'', ''admin_token'', ''database.path'',
     ''keystore'', ''keystore.'', ''trusted_proxy'', ''private_key'', ''server.bind'',
     ''server.tls_cert'', ''server.tls_key'', ''server.auth_token'', ''wallet.passphrase'',
     ''wallet.keyfile'']"

definition ProtectedConfigSuffixes :: "string list" where
  "ProtectedConfigSuffixes = [''_secret'', ''_token'']"

definition ReferencesProtectedConfigFile :: "string \<Rightarrow> bool" where
  "ReferencesProtectedConfigFile text \<longleftrightarrow> pattern_scan (to_lower text) ProtectedConfigFiles \<noteq> None"

definition MatchProtectedConfigPattern :: "string \<Rightarrow> string option" where
  "MatchProtectedConfigPattern text =
     (case pattern_scan (to_lower text) ProtectedConfigFields of
        Some field \<Rightarrow> Some field
      | None \<Rightarrow> map_option (\<lambda>suffix. ''*'' @ suffix) (pattern_scan (to_lower text) ProtectedConfigSuffixes))"

definition configWriteTools :: "string list" where
  "configWriteTools = [''write_file'', ''bash'', ''run_script'']"

definition configProtectionRule_Evaluate :: "tool_call_request \<Rightarrow> decision_result" where
  "configProtectionRule_Evaluate req =
     (if req_ToolName req \<notin> set configWriteTools then Allow
      else let lowerArgs = to_lower (req_Arguments req) in
        if \<not> ReferencesProtectedConfigFile lowerArgs then Allow
        else (case MatchProtectedConfigPattern lowerArgs of
                Some pattern \<Rightarrow> Deny ''config_protection'' (ProtectedField pattern)
              | None \<Rightarrow> Allow))"

section \<open>The engine\<close>

datatype rule =
  AuthorityRule | CommandSafetyRule | FinancialRule int
  | PathProtectionRule bool "string list" | RateLimitRule int "(string, time list) gomap"
  | ValidationRule int | ConfigProtectionRule | FinancialDrainRule | PriorityOverrideRule rule int

primrec rule_Priority :: "rule \<Rightarrow> int" where
  "rule_Priority AuthorityRule = 1"
| "rule_Priority CommandSafetyRule = 2"
| "rule_Priority (FinancialRule m) = 3"
| "rule_Priority (PathProtectionRule w ps) = 4"
| "rule_Priority (RateLimitRule m calls) = 5"
| "rule_Priority (ValidationRule m) = 6"
| "rule_Priority ConfigProtectionRule = 7"
| "rule_Priority FinancialDrainRule = 3"
| "rule_Priority (PriorityOverrideRule r p) = p"

primrec rule_Name :: "rule \<Rightarrow> string" where
  "rule_Name AuthorityRule = ''authority''"
| "rule_Name CommandSafetyRule = ''command_safety''"
| "rule_Name (FinancialRule m) = ''financial''"
| "rule_Name (PathProtectionRule w ps) = ''path_protection''"
| "rule_Name (RateLimitRule m calls) = ''rate_limit''"
| "rule_Name (ValidationRule m) = ''validation''"
| "rule_Name ConfigProtectionRule = ''config_protection''"
| "rule_Name FinancialDrainRule = ''financial_drain''"
| "rule_Name (PriorityOverrideRule r p) = rule_Name r"

primrec rule_Evaluate ::
  "rule \<Rightarrow> 'f go_lib \<Rightarrow> time \<Rightarrow> tool_call_request \<Rightarrow> 'e registry option \<Rightarrow> rule \<times> decision_result" where
  "rule_Evaluate AuthorityRule lib now req reg = (AuthorityRule, authorityRule_Evaluate req reg)"
| "rule_Evaluate CommandSafetyRule lib now req reg = (CommandSafetyRule, commandSafetyRule_Evaluate req reg)"
| "rule_Evaluate (FinancialRule m) lib now req reg = (FinancialRule m, financialRule_Evaluate lib m req)"
| "rule_Evaluate (PathProtectionRule w ps) lib now req reg =
     (PathProtectionRule w ps, pathProtectionRule_Evaluate lib w ps req)"
| "rule_Evaluate (RateLimitRule m calls) lib now req reg =
     map_prod (RateLimitRule m) id (rateLimitRule_Evaluate m calls now req)"
| "rule_Evaluate (ValidationRule m) lib now req reg = (ValidationRule m, validationRule_Evaluate m req)"
| "rule_Evaluate ConfigProtectionRule lib now req reg =
     (ConfigProtectionRule, configProtectionRule_Evaluate req)"
| "rule_Evaluate FinancialDrainRule lib now req reg =
     (FinancialDrainRule, financialDrainRule_Evaluate req)"
| "rule_Evaluate (PriorityOverrideRule r p) lib now req reg =
     map_prod (\<lambda>r'. PriorityOverrideRule r' p) id (rule_Evaluate r lib now req reg)"

record policy_config =
  pol_MaxTransferCents :: int
  pol_RateLimitPerMinute :: int
  pol_MaxParamBytes :: int
  pol_WorkspaceOnly :: bool
  pol_AllowedPaths :: "string list"

definition DefaultConfig :: policy_config where
  "DefaultConfig = \<lparr>pol_MaxTransferCents = 10000, pol_RateLimitPerMinute = 30,
     pol_MaxParamBytes = 102400, pol_WorkspaceOnly = False, pol_AllowedPaths = []\<rparr>"

type_synonym engine = "rule list"

definition NewEngine :: "policy_config \<Rightarrow> engine" where
  "NewEngine cfg =
     [AuthorityRule, CommandSafetyRule, FinancialRule (pol_MaxTransferCents cfg),
      PathProtectionRule (pol_WorkspaceOnly cfg) (pol_AllowedPaths cfg),
      RateLimitRule (pol_RateLimitPerMinute cfg) [],
      ValidationRule (pol_MaxParamBytes cfg), ConfigProtectionRule]"

definition RegisterDynamic :: "rule \<Rightarrow> int \<Rightarrow> engine \<Rightarrow> engine" where
  "RegisterDynamic rule priority rules =
     (let wrapped = PriorityOverrideRule rule priority;
          idx = sort_search (length rules) (\<lambda>i. rule_Priority (rules ! i) > priority)
      in take idx rules @ wrapped # drop idx rules)"

fun EvaluateWithTools ::
  "'f go_lib \<Rightarrow> time \<Rightarrow> tool_call_request \<Rightarrow> 'e registry option \<Rightarrow> engine \<Rightarrow> engine \<times> decision_result" where
  "EvaluateWithTools lib now req reg [] = ([], Allow)"
| "EvaluateWithTools lib now req reg (rule # rules) =
     (case rule_Evaluate rule lib now req reg of (rule', result) \<Rightarrow>
        if Denied result then (rule' # rules, result)
        else map_prod (\<lambda>rs. rule' # rs) id (EvaluateWithTools lib now req reg rules))"

definition Evaluate :: "'f go_lib \<Rightarrow> time \<Rightarrow> tool_call_request \<Rightarrow> engine \<Rightarrow> engine \<times> decision_result" where
  "Evaluate lib now req rules = EvaluateWithTools lib now req (None :: unit registry option) rules"

definition CheckFinancialDrain :: "tool_call_request \<Rightarrow> decision_result" where
  "CheckFinancialDrain req = financialDrainRule_Evaluate req"

section \<open>First denial wins\<close>

abbreviation rule_decides ::
  "'f go_lib \<Rightarrow> time \<Rightarrow> tool_call_request \<Rightarrow> 'e registry option \<Rightarrow> rule \<Rightarrow> decision_result" where
  "rule_decides lib now req reg r \<equiv> snd (rule_Evaluate r lib now req reg)"

lemma not_Denied [simp]: "\<not> Denied d \<longleftrightarrow> d = Allow"
  by (cases d) simp_all

lemma engine_allows_iff:
  "snd (EvaluateWithTools lib now req reg rules) = Allow
     \<longleftrightarrow> (\<forall>r \<in> set rules. rule_decides lib now req reg r = Allow)"
  by (induction rules) (auto split: prod.splits simp: prod_eq_iff)

lemma engine_denies:
  "snd (EvaluateWithTools lib now req reg rules) \<noteq> Allow \<Longrightarrow>
     \<exists>pre r post. rules = pre @ r # post \<and> (\<forall>p \<in> set pre. rule_decides lib now req reg p = Allow)
       \<and> rule_decides lib now req reg r = snd (EvaluateWithTools lib now req reg rules)
       \<and> fst (EvaluateWithTools lib now req reg rules)
           = map (\<lambda>p. fst (rule_Evaluate p lib now req reg)) (pre @ [r]) @ post"
proof (induction rules)
  case (Cons r rs)
  obtain r' d where e: "rule_Evaluate r lib now req reg = (r', d)" by fastforce
  show ?case
  proof (cases "d = Allow")
    case False
    then have "EvaluateWithTools lib now req reg (r # rs) = (r' # rs, d)"
      using e by (cases d) simp_all
    then show ?thesis using e by (intro exI [of _ "[]"]) simp
  next
    case True
    with Cons.prems e have ne: "snd (EvaluateWithTools lib now req reg rs) \<noteq> Allow" by simp
    from Cons.IH [OF ne] obtain pre s post where IH: "rs = pre @ s # post"
      "\<forall>p \<in> set pre. rule_decides lib now req reg p = Allow"
      "rule_decides lib now req reg s = snd (EvaluateWithTools lib now req reg rs)"
      "fst (EvaluateWithTools lib now req reg rs)
         = map (\<lambda>p. fst (rule_Evaluate p lib now req reg)) (pre @ [s]) @ post" by blast
    have "EvaluateWithTools lib now req reg (r # rs)
        = (r' # fst (EvaluateWithTools lib now req reg rs), snd (EvaluateWithTools lib now req reg rs))"
      using e True by (simp add: map_prod_def case_prod_unfold)
    then show ?thesis using IH e True by (intro exI [of _ "r # pre"]) auto
  qed
qed simp

text \<open>
  The engine evaluates its rules in order and stops at the first denial: it allows a call
  exactly when every rule allows it, and otherwise returns the decision of the first rule that
  denies; the rules after that one are neither evaluated nor changed.
\<close>

theorem engine_first_denial_wins:
  "(snd (EvaluateWithTools lib now req reg rules) = Allow
      \<longleftrightarrow> list_all (\<lambda>r. rule_decides lib now req reg r = Allow) rules)
   \<and> (snd (EvaluateWithTools lib now req reg rules) = Allow
      \<or> (\<exists>pre r post. rules = pre @ r # post
          \<and> list_all (\<lambda>p. rule_decides lib now req reg p = Allow) pre
          \<and> rule_decides lib now req reg r = snd (EvaluateWithTools lib now req reg rules)
          \<and> fst (EvaluateWithTools lib now req reg rules)
              = map (\<lambda>p. fst (rule_Evaluate p lib now req reg)) (pre @ [r]) @ post))"
  using engine_denies [of lib now req reg rules] unfolding engine_allows_iff list_all_iff by blast

section \<open>Engines over time\<close>

datatype ('f, 'e) policy_event =
  PEvaluate "'f go_lib" time tool_call_request "'e registry option"
  | PRegisterDynamic rule int

fun policy_step :: "('f, 'e) policy_event \<Rightarrow> engine \<Rightarrow> engine" where
  "policy_step (PEvaluate lib now req reg) rules = fst (EvaluateWithTools lib now req reg rules)"
| "policy_step (PRegisterDynamic r p) rules = RegisterDynamic r p rules"

definition engine_ok :: "engine \<Rightarrow> bool" where
  "engine_ok rules \<longleftrightarrow> AuthorityRule \<in> set rules \<and> CommandSafetyRule \<in> set rules
     \<and> sorted (map rule_Priority rules)"

lemma rule_Evaluate_Priority [simp]:
  "rule_Priority (fst (rule_Evaluate r lib now req reg)) = rule_Priority r"
  by (cases r) simp_all

lemma Evaluate_priorities:
  "map rule_Priority (fst (EvaluateWithTools lib now req reg rules)) = map rule_Priority rules"
proof (induction rules)
  case (Cons r rs)
  then show ?case
    using rule_Evaluate_Priority [of r lib now req reg]
    by (auto split: prod.splits simp: map_prod_def case_prod_unfold)
qed simp

lemma Evaluate_keeps_stateless:
  "r \<in> set rules \<Longrightarrow> fst (rule_Evaluate r lib now req reg) = r
     \<Longrightarrow> r \<in> set (fst (EvaluateWithTools lib now req reg rules))"
  by (induction rules) (auto split: prod.splits simp: map_prod_def case_prod_unfold)

lemma engine_ok_Evaluate:
  "engine_ok rules \<Longrightarrow> engine_ok (fst (EvaluateWithTools lib now req reg rules))"
  unfolding engine_ok_def Evaluate_priorities by (simp add: Evaluate_keeps_stateless)

lemma insert_sorted_at:
  fixes p :: int
  assumes "sorted ps" and "i \<le> length ps" and "\<forall>k < i. \<not> ps ! k > p"
    and "\<forall>k. i \<le> k \<longrightarrow> k < length ps \<longrightarrow> ps ! k > p"
  shows "sorted (take i ps @ p # drop i ps)"
proof -
  have "x \<le> p" if "x \<in> set (take i ps)" for x
    using that assms(3) by (auto simp: in_set_conv_nth not_less)
  moreover have "p \<le> x" if "x \<in> set (drop i ps)" for x
  proof -
    from that obtain k where "k < length (drop i ps)" "x = drop i ps ! k"
      by (metis in_set_conv_nth)
    then have "i + k < length ps" "x = ps ! (i + k)" by simp_all
    with assms(4) show ?thesis by (simp add: order_less_imp_le)
  qed
  ultimately show ?thesis
    using assms(1) by (auto simp: sorted_append sorted_wrt_take sorted_wrt_drop)
      (meson order_trans)
qed

lemma RegisterDynamic_split:
  assumes "sorted (map rule_Priority rules)"
  shows "\<exists>i \<le> length rules. RegisterDynamic r p rules = take i rules @ PriorityOverrideRule r p # drop i rules
     \<and> (\<forall>k < i. rule_Priority (rules ! k) \<le> p)
     \<and> (\<forall>k. i \<le> k \<longrightarrow> k < length rules \<longrightarrow> rule_Priority (rules ! k) > p)"
proof -
  let ?f = "\<lambda>i. rule_Priority (rules ! i) > p"
  have "\<forall>a b. a \<le> b \<longrightarrow> b < length rules \<longrightarrow> ?f a \<longrightarrow> ?f b"
    using assms by (fastforce simp: sorted_iff_nth_mono)
  from sort_search_least [OF this] show ?thesis
    by (intro exI [of _ "sort_search (length rules) ?f"]) (auto simp: RegisterDynamic_def Let_def not_less)
qed

lemma engine_ok_RegisterDynamic: "engine_ok rules \<Longrightarrow> engine_ok (RegisterDynamic r p rules)"
proof -
  assume ok: "engine_ok rules"
  then have "sorted (map rule_Priority rules)" by (simp add: engine_ok_def)
  from RegisterDynamic_split [OF this, of r p] obtain i where i: "i \<le> length rules"
    and eq: "RegisterDynamic r p rules = take i rules @ PriorityOverrideRule r p # drop i rules"
    and lo: "\<forall>k < i. rule_Priority (rules ! k) \<le> p"
    and hi: "\<forall>k. i \<le> k \<longrightarrow> k < length rules \<longrightarrow> rule_Priority (rules ! k) > p"
    by blast
  have "sorted (take i (map rule_Priority rules) @ p # drop i (map rule_Priority rules))"
    using ok i lo hi by (intro insert_sorted_at) (auto simp: engine_ok_def not_less)
  moreover have "set rules \<subseteq> set (RegisterDynamic r p rules)"
    unfolding eq by (metis append_take_drop_id set_append set_subset_Cons subset_refl sup.mono)
  ultimately show ?thesis
    using ok unfolding engine_ok_def eq by (auto simp: take_map drop_map)
qed

interpretation pol: event_system "NewEngine cfg" policy_step engine_ok for cfg
proof
  show "engine_ok (NewEngine cfg)" by (simp add: engine_ok_def NewEngine_def)
  show "engine_ok (policy_step e s)" if "engine_ok s" for s and e :: "('a, 'b) policy_event"
    using that by (cases e) (simp_all add: engine_ok_Evaluate engine_ok_RegisterDynamic)
qed

text \<open>What the authority and command-safety rules require of a caller, by risk level.\<close>

definition risk_permitted :: "authority_level \<Rightarrow> risk_level \<Rightarrow> bool" where
  "risk_permitted a risk \<longleftrightarrow>
     (case risk of RiskForbidden \<Rightarrow> False | RiskDangerous \<Rightarrow> AuthoritySelfGenerated \<le> a
      | RiskCaution \<Rightarrow> AuthorityPeer \<le> a | RiskSafe \<Rightarrow> True)"

lemma engine_ok_permits:
  assumes "engine_ok rules" and "Get (req_ToolName req) reg = Some tool"
    and "snd (EvaluateWithTools lib now req (Some reg) rules) = Allow"
  shows "risk_permitted (req_Authority req) (t_Risk tool)"
proof -
  have "rule_decides lib now req (Some reg) AuthorityRule = Allow"
    "rule_decides lib now req (Some reg) CommandSafetyRule = Allow"
    using assms(1,3) unfolding engine_allows_iff engine_ok_def by blast+
  then show ?thesis using assms(2)
    by (cases "t_Risk tool") (auto simp: risk_permitted_def authorityRule_Evaluate_def
      commandSafetyRule_Evaluate_def split: if_splits)
qed

text \<open>
  C12. Whatever calls it has evaluated and whatever rules were registered later, an engine built by
  \<^verbatim>\<open>NewEngine\<close> denies every call of a tool classified as forbidden, denies dangerous tools
  below self-generated authority and denies caution tools below peer authority.
\<close>

theorem engine_enforces_risk_levels:
  assumes "Get (req_ToolName req) reg = Some tool"
    and "t_Risk tool = RiskForbidden
      \<or> t_Risk tool = RiskDangerous \<and> req_Authority req < AuthoritySelfGenerated
      \<or> t_Risk tool = RiskCaution \<and> req_Authority req < AuthorityPeer"
  shows "Denied (snd (EvaluateWithTools lib now req (Some reg) (fold policy_step es (NewEngine cfg))))"
proof (rule ccontr)
  let ?rules = "fold policy_step es (NewEngine cfg)"
  assume "\<not> Denied (snd (EvaluateWithTools lib now req (Some reg) ?rules))"
  then have "risk_permitted (req_Authority req) (t_Risk tool)"
    by (intro engine_ok_permits [OF pol.inv_run assms(1)]) simp
  with assms(2) show False by (auto simp: risk_permitted_def)
qed

text \<open>
  The chain stays sorted by priority, and a dynamically registered rule stands after every
  rule of at most its priority and before every rule of a higher one.
\<close>

theorem register_dynamic_position:
  "let rules = fold policy_step es (NewEngine cfg); rules' = RegisterDynamic r p rules in
     sorted (map rule_Priority rules')
     \<and> (\<exists>i \<le> length rules. rules' = take i rules @ PriorityOverrideRule r p # drop i rules
          \<and> list_all (\<lambda>s. rule_Priority s \<le> p) (take i rules)
          \<and> list_all (\<lambda>s. p < rule_Priority s) (drop i rules))"
proof -
  let ?rules = "fold policy_step es (NewEngine cfg)"
  have ok: "engine_ok ?rules" by (rule pol.inv_run)
  then have sorted: "sorted (map rule_Priority ?rules)" by (simp add: engine_ok_def)
  from RegisterDynamic_split [OF sorted, of r p] obtain i where "i \<le> length ?rules"
    and "RegisterDynamic r p ?rules = take i ?rules @ PriorityOverrideRule r p # drop i ?rules"
    and "list_all (\<lambda>s. rule_Priority s \<le> p) (take i ?rules)"
    and "list_all (\<lambda>s. p < rule_Priority s) (drop i ?rules)"
    by (auto simp: list_all_length)
  moreover have "sorted (map rule_Priority (RegisterDynamic r p ?rules))"
    using engine_ok_RegisterDynamic [OF ok] by (simp add: engine_ok_def)
  ultimately show ?thesis unfolding Let_def by blast
qed

text \<open>A concrete registry, request and library for the witnesses.\<close>

definition demo_registry :: "unit registry" where
  "demo_registry = Register (\<lambda>_. 10) \<lparr>t_Name = ''bash'', t_Description = ''run'', t_Risk = RiskDangerous,
     t_ParameterSchema = [], t_Impl = OtherTool\<rparr> NewRegistry"

definition demo_request :: tool_call_request where
  "demo_request = \<lparr>req_ToolName = ''bash'', req_Arguments = ''ls'', req_Authority = AuthorityPeer,
     req_SecurityClaim = None\<rparr>"

definition demo_lib :: "int go_lib" where
  "demo_lib = \<lparr>js_object = (\<lambda>s. if s = ''P'' then Some [(''path'', ''/tmpsecrets/key'')]
       else if s = ''A'' then Some [(''dollars'', ''7'')] else None),
     js_float = (\<lambda>s. atoi s), js_string = Some, fl_times100 = (\<lambda>x. 100 * x), fl_int64 = id\<rparr>"

theorem engine_enforces_risk_levels_witness:
  "Denied (snd (EvaluateWithTools demo_lib 0 demo_request (Some demo_registry)
     (fold policy_step ([PRegisterDynamic FinancialDrainRule 0] :: (int, unit) policy_event list)
       (NewEngine DefaultConfig))))"
proof -
  have get: "Get (req_ToolName demo_request) demo_registry = Some \<lparr>t_Name = ''bash'', t_Description = ''run'',
      t_Risk = RiskDangerous, t_ParameterSchema = [], t_Impl = OtherTool\<rparr>"
    by (simp add: Get_def demo_registry_def demo_request_def Register_def NewRegistry_def Let_def)
  show ?thesis
    by (rule engine_enforces_risk_levels [OF get]) (simp add: demo_request_def authority_ord)
qed

section \<open>Authority is monotone\<close>

lemma authorityRule_mono:
  assumes "a \<le> b" and "authorityRule_Evaluate (req\<lparr>req_Authority := a\<rparr>) reg = Allow"
  shows "authorityRule_Evaluate (req\<lparr>req_Authority := b\<rparr>) reg = Allow"
  using assms
  by (cases a; cases b) (auto simp: authorityRule_Evaluate_def authority_ord split: option.splits if_splits)

lemmas authority_free_rules =
  commandSafetyRule_Evaluate_def financialRule_Evaluate_def pathProtectionRule_Evaluate_def
  rateLimitRule_Evaluate_def validationRule_Evaluate_def configProtectionRule_Evaluate_def
  financialDrainRule_Evaluate_def

lemma authority_free [simp]:
  "commandSafetyRule_Evaluate (req\<lparr>req_Authority := a\<rparr>) reg = commandSafetyRule_Evaluate req reg"
  "financialRule_Evaluate lib m (req\<lparr>req_Authority := a\<rparr>) = financialRule_Evaluate lib m req"
  "pathProtectionRule_Evaluate lib w ps (req\<lparr>req_Authority := a\<rparr>) = pathProtectionRule_Evaluate lib w ps req"
  "rateLimitRule_Evaluate n calls now (req\<lparr>req_Authority := a\<rparr>) = rateLimitRule_Evaluate n calls now req"
  "validationRule_Evaluate m (req\<lparr>req_Authority := a\<rparr>) = validationRule_Evaluate m req"
  "configProtectionRule_Evaluate (req\<lparr>req_Authority := a\<rparr>) = configProtectionRule_Evaluate req"
  "financialDrainRule_Evaluate (req\<lparr>req_Authority := a\<rparr>) = financialDrainRule_Evaluate req"
  by (simp_all add: authority_free_rules cong: option.case_cong if_cong)

lemma rule_mono:
  "a \<le> b \<Longrightarrow> rule_decides lib now (req\<lparr>req_Authority := a\<rparr>) reg r = Allow
     \<Longrightarrow> rule_decides lib now (req\<lparr>req_Authority := b\<rparr>) reg r = Allow"
  by (induction r) (simp_all add: authorityRule_mono)

text \<open>
  Raising the authority of a request never turns an allowed call into a denied one.
\<close>

theorem engine_authority_monotone:
  assumes "a \<le> b"
    and "snd (EvaluateWithTools lib now (req\<lparr>req_Authority := a\<rparr>) reg rules) = Allow"
  shows "snd (EvaluateWithTools lib now (req\<lparr>req_Authority := b\<rparr>) reg rules) = Allow"
  using assms rule_mono unfolding engine_allows_iff by blast

theorem engine_authority_monotone_witness:
  "snd (EvaluateWithTools demo_lib 0 (demo_request\<lparr>req_Authority := AuthorityCreator\<rparr>) (Some demo_registry)
     [AuthorityRule, CommandSafetyRule]) = Allow"
proof -
  have "snd (EvaluateWithTools demo_lib 0 (demo_request\<lparr>req_Authority := AuthoritySelfGenerated\<rparr>)
      (Some demo_registry) [AuthorityRule, CommandSafetyRule]) = Allow"
    by (simp add: authorityRule_Evaluate_def commandSafetyRule_Evaluate_def Get_def demo_registry_def
        demo_request_def Register_def NewRegistry_def Let_def)
  then show ?thesis
    by (rule engine_authority_monotone [rotated]) simp
qed

section \<open>Amounts and paths\<close>

lemma financial_scan_Allow:
  "financial_scan lib m args keys = Allow \<Longrightarrow> key \<in> set keys \<Longrightarrow> m_get args key = Some raw
     \<Longrightarrow> js_float lib raw = Some a
     \<Longrightarrow> fl_int64 lib (if key = ''amount_dollars'' \<or> key = ''dollars'' then fl_times100 lib a else a) \<le> m"
  by (induction keys) (auto simp: Let_def not_less split: option.splits if_splits)

text \<open>
  When the financial rule allows a call, every amount field of its arguments that decodes as
  a number is, converted to whole cents, at most the configured limit.
\<close>

theorem financial_rule_caps_amounts:
  assumes "financialRule_Evaluate lib m req = Allow" and "js_object lib (req_Arguments req) = Some args"
    and "key \<in> set amountKeys" and "m_get args key = Some raw" and "js_float lib raw = Some a"
  shows "fl_int64 lib (if key = ''amount_dollars'' \<or> key = ''dollars'' then fl_times100 lib a else a) \<le> m"
  using financial_scan_Allow [OF _ assms(3-5)] assms(1,2) by (simp add: financialRule_Evaluate_def)

theorem financial_rule_caps_amounts_witness:
  "fl_int64 demo_lib (fl_times100 demo_lib 7) \<le> 10000"
proof -
  have allow: "financialRule_Evaluate demo_lib 10000 (demo_request\<lparr>req_Arguments := ''A''\<rparr>) = Allow"
    by (simp add: financialRule_Evaluate_def demo_lib_def amountKeys_def atoi_def is_digit_def Let_def)
  have "js_object demo_lib (req_Arguments (demo_request\<lparr>req_Arguments := ''A''\<rparr>)) = Some [(''dollars'', ''7'')]"
    by (simp add: demo_lib_def)
  from financial_rule_caps_amounts [OF allow this, of "''dollars''" "''7''" 7] show ?thesis
    by (simp add: amountKeys_def demo_lib_def atoi_def is_digit_def Let_def)
qed

lemma path_scan_Allow:
  "path_scan lib ps args keys = Allow \<Longrightarrow> key \<in> set keys \<Longrightarrow> m_get args key = Some raw
     \<Longrightarrow> js_string lib raw = Some p
     \<Longrightarrow> \<not> has_prefix p ''/'' \<or> has_prefix p ''/tmp'' \<or> path_allowed ps p"
  using has_prefix_append [of p "''/tmp''" "''/''"]
  by (induction keys) (auto split: option.splits if_splits)

lemma pattern_scan_None_iff: "pattern_scan s ps = None \<longleftrightarrow> (\<forall>p \<in> set ps. \<not> contains s p)"
  by (induction ps) auto

text \<open>
  In workspace-only mode an allowed call mentions no protected pattern, has no parent-directory
  step and no home shortcut, and each of its path arguments is relative, starts with \<^verbatim>\<open>/tmp\<close> or
  lies, after cleaning, in one of the allowed directories.
\<close>

theorem workspace_only_confines_paths:
  assumes "pathProtectionRule_Evaluate lib True ps req = Allow"
  shows "(\<forall>pat \<in> set protectedPatterns. \<not> contains (to_lower (req_Arguments req)) pat)
     \<and> \<not> contains (req_Arguments req) ''..'' \<and> \<not> tilde_match True (req_Arguments req)
     \<and> (\<forall>args key raw p. js_object lib (req_Arguments req) = Some args \<longrightarrow> key \<in> set pathKeys
          \<longrightarrow> m_get args key = Some raw \<longrightarrow> js_string lib raw = Some p
          \<longrightarrow> \<not> has_prefix p ''/'' \<or> has_prefix p ''/tmp'' \<or> path_allowed ps p)"
proof -
  have "pattern_scan (to_lower (req_Arguments req)) protectedPatterns = None"
    using assms by (auto simp: pathProtectionRule_Evaluate_def split: option.splits)
  with assms show ?thesis
    by (auto simp: pathProtectionRule_Evaluate_def pattern_scan_None_iff
        dest: path_scan_Allow split: option.splits if_splits)
qed

lemma demo_tmp_allowed:
  "pathProtectionRule_Evaluate demo_lib True [] (demo_request\<lparr>req_Arguments := ''P''\<rparr>) = Allow"
  by (simp add: pathProtectionRule_Evaluate_def protectedPatterns_def to_lower_def lower_char_def
      has_prefix_def demo_lib_def pathKeys_def)

theorem workspace_only_confines_paths_witness:
  "\<not> tilde_match True ''P''
     \<and> (has_prefix ''/tmpsecrets/key'' ''/tmp'' \<or> path_allowed [] ''/tmpsecrets/key'')"
proof -
  note all = workspace_only_confines_paths [OF demo_tmp_allowed]
  have "js_object demo_lib (req_Arguments (demo_request\<lparr>req_Arguments := ''P''\<rparr>))
      = Some [(''path'', ''/tmpsecrets/key'')]" by (simp add: demo_lib_def)
  moreover have "has_prefix ''/tmpsecrets/key'' ''/''" by (simp add: has_prefix_def)
  ultimately show ?thesis using all by (simp add: pathKeys_def demo_lib_def)
qed

text \<open>
  The temporary-directory exemption is a prefix test without a separator: in workspace-only
  mode with no allowed directory, a file outside \<^verbatim>\<open>/tmp\<close> whose path merely starts with the four
  bytes \<^verbatim>\<open>/tmp\<close> is let through.
\<close>

theorem tmp_prefix_escapes_workspace:
  "\<exists>req args p. js_object demo_lib (req_Arguments req) = Some args \<and> m_get args ''path'' = Some p
     \<and> js_string demo_lib p = Some p
     \<and> has_prefix p ''/'' \<and> p \<noteq> ''/tmp'' \<and> \<not> has_prefix (filepath_Clean p) ''/tmp/''
     \<and> pathProtectionRule_Evaluate demo_lib True [] req = Allow"
proof -
  have "\<not> has_prefix (filepath_Clean ''/tmpsecrets/key'') ''/tmp/''"
    by (simp add: filepath_Clean_def has_prefix_def Let_def)
  with demo_tmp_allowed show ?thesis
    by (intro exI [of _ "demo_request\<lparr>req_Arguments := ''P''\<rparr>"]
        exI [of _ "[(''path'', ''/tmpsecrets/key'')]"] exI [of _ "''/tmpsecrets/key''"])
      (simp add: demo_lib_def has_prefix_def)
qed

section \<open>The rate limiter\<close>

interpretation minute_window: sliding_window "\<lambda>now t. now - minute < t"
  by unfold_locales simp

definition stored_calls :: "(string, time list) gomap \<Rightarrow> string \<Rightarrow> time list" where
  "stored_calls calls tool = (case m_get calls tool of None \<Rightarrow> [] | Some ts \<Rightarrow> ts)"

definition calls_bounded :: "int \<Rightarrow> (string, time list) gomap \<Rightarrow> bool" where
  "calls_bounded m calls \<longleftrightarrow> (\<forall>tool. length (stored_calls calls tool) \<le> nat m)"

text \<open>The in-place filter is harmless because the stored list is never longer than the limit: a
  denial then means that nothing was filtered out.\<close>

lemma overwritten_id: "length (filter P xs) \<ge> length xs \<Longrightarrow> overwritten (filter P xs) xs = xs"
  by (metis append_Nil2 drop_all filter_id_conv length_filter_less linorder_not_less overwritten_def)

lemma rate_step:
  assumes "calls_bounded m calls" and "rateLimitRule_Evaluate m calls now req = (calls', d)"
  defines "live \<equiv> filter (\<lambda>t. now - minute < t) (stored_calls calls (req_ToolName req))"
  shows "calls_bounded m calls' \<and> (d = Allow \<longleftrightarrow> length live < nat m)
     \<and> stored_calls calls' tool =
         (if tool = req_ToolName req \<and> d = Allow then live @ [now] else stored_calls calls tool)"
proof (cases "length live < nat m")
  case True
  then have r: "calls' = m_put (req_ToolName req) (live @ [now]) calls" "d = Allow"
    using assms(2) by (auto simp: rateLimitRule_Evaluate_def live_def stored_calls_def Let_def
        zless_nat_eq_int_zless not_le split: if_splits)
  with assms(1) True show ?thesis by (auto simp: calls_bounded_def stored_calls_def Suc_le_eq)
next
  case False
  have "length (stored_calls calls (req_ToolName req)) \<le> length live"
    using assms(1) False by (meson calls_bounded_def le_trans not_less)
  then have ov: "overwritten live (stored_calls calls (req_ToolName req)) = stored_calls calls (req_ToolName req)"
    unfolding live_def by (rule overwritten_id)
  from False assms(2) ov have r: "d \<noteq> Allow"
    "calls' = (if m_get calls (req_ToolName req) = None then calls
       else m_put (req_ToolName req) (stored_calls calls (req_ToolName req)) calls)"
    by (auto simp: rateLimitRule_Evaluate_def live_def stored_calls_def Let_def nat_le_iff not_less
        split: if_splits)
  then have "stored_calls calls' t = stored_calls calls t" for t
    by (auto simp: stored_calls_def split: option.splits)
  with r(1) False assms(1) show ?thesis by (auto simp: calls_bounded_def)
qed

fun rate_allowed ::
  "int \<Rightarrow> (string, time list) gomap \<Rightarrow> string \<Rightarrow> (time \<times> tool_call_request) list \<Rightarrow> time list" where
  "rate_allowed m calls tool [] = []"
| "rate_allowed m calls tool ((now, req) # evs) =
     (case rateLimitRule_Evaluate m calls now req of (calls', d) \<Rightarrow>
        if d = Allow \<and> req_ToolName req = tool then now # rate_allowed m calls' tool evs
        else rate_allowed m calls' tool evs)"

lemma rate_allowed_admitted:
  "calls_bounded m calls \<Longrightarrow> rate_allowed m calls tool evs
     = admitted (\<lambda>now t. now - minute < t) (nat m) (stored_calls calls tool)
         (map fst (filter (\<lambda>(now, req). req_ToolName req = tool) evs))"
proof (induction evs arbitrary: calls)
  case (Cons ev evs)
  obtain now req where ev: "ev = (now, req)" by (cases ev)
  obtain calls' d where e: "rateLimitRule_Evaluate m calls now req = (calls', d)" by fastforce
  note step = rate_step [OF Cons.prems e, of tool]
  from Cons.IH [of calls'] step show ?case by (auto simp: ev e Let_def)
qed simp

text \<open>
  C13. However calls of different tools interleave, the rate limiter never allows more than its
  limit of calls of one tool in a window of one minute: each time it allows a call, fewer than
  the limit of that tool's earlier allowed calls are less than a minute old.
\<close>

theorem rate_limit_per_minute:
  assumes "sorted (map fst evs)" and "i < length (rate_allowed m [] tool evs)"
  shows "int (length (filter (\<lambda>t. rate_allowed m [] tool evs ! i - minute < t)
     (take i (rate_allowed m [] tool evs)))) < m"
proof -
  have eq: "rate_allowed m [] tool evs = admitted (\<lambda>now t. now - minute < t) (nat m) []
      (map fst (filter (\<lambda>(now, req). req_ToolName req = tool) evs))"
    using rate_allowed_admitted [of m "[]" tool evs] by (simp add: calls_bounded_def stored_calls_def)
  have "sorted (map fst (filter (\<lambda>(now, req). req_ToolName req = tool) evs))"
    using assms(1) by (rule sorted_filter)
  from minute_window.admitted_never_exceeds [OF this, of i "nat m"] assms(2) show ?thesis
    unfolding eq by (simp add: zless_nat_eq_int_zless)
qed

theorem rate_limit_per_minute_witness:
  "rate_allowed 1 [] ''bash'' [(0, demo_request), (second, demo_request), (61 * second, demo_request)]
     = [0, 61 * second]
   \<and> int (length (filter (\<lambda>t. 61 * second - minute < t) [0 :: int])) < 1"
proof -
  let ?evs = "[(0, demo_request), (second, demo_request), (61 * second, demo_request)]"
  have run: "rate_allowed 1 [] ''bash'' ?evs = [0, 61 * second]"
    by (simp add: rateLimitRule_Evaluate_def demo_request_def Let_def duration_units overwritten_def)
  have sorted: "sorted (map fst ?evs)" by (simp add: duration_units)
  have "1 < length (rate_allowed 1 [] ''bash'' ?evs)" unfolding run by simp
  from rate_limit_per_minute [OF sorted this] show ?thesis unfolding run by simp
qed

section \<open>Which rule denies\<close>

lemma rule_denial_name: "rule_decides lib now req reg r = Deny n x \<Longrightarrow> n = rule_Name r"
proof (induction r)
  case (FinancialRule m)
  have "financial_scan lib m args keys = Deny n x \<Longrightarrow> n = ''financial''" for args keys
    by (induction keys) (auto simp: Let_def split: option.splits if_splits)
  with FinancialRule show ?case by (auto simp: financialRule_Evaluate_def split: option.splits)
next
  case (PathProtectionRule w ps)
  have "path_scan lib ps args keys = Deny n x \<Longrightarrow> n = ''path_protection''" for args keys
    by (induction keys) (auto split: option.splits if_splits)
  with PathProtectionRule show ?case
    by (auto simp: pathProtectionRule_Evaluate_def split: option.splits if_splits)
qed (auto simp: authorityRule_Evaluate_def commandSafetyRule_Evaluate_def rateLimitRule_Evaluate_def
    validationRule_Evaluate_def configProtectionRule_Evaluate_def financialDrainRule_Evaluate_def Let_def
    split: option.splits if_splits)

definition default_chain :: "policy_config \<Rightarrow> (string, time list) gomap \<Rightarrow> engine" where
  "default_chain cfg calls = butlast (butlast (butlast (NewEngine cfg)))
     @ [RateLimitRule (pol_RateLimitPerMinute cfg) calls] @ drop 5 (NewEngine cfg)"

lemma default_chain_eq: "default_chain cfg calls =
    [AuthorityRule, CommandSafetyRule, FinancialRule (pol_MaxTransferCents cfg),
     PathProtectionRule (pol_WorkspaceOnly cfg) (pol_AllowedPaths cfg),
     RateLimitRule (pol_RateLimitPerMinute cfg) calls, ValidationRule (pol_MaxParamBytes cfg),
     ConfigProtectionRule]"
  by (simp add: default_chain_def NewEngine_def)

lemma config_rule_subsumed:
  "configProtectionRule_Evaluate req \<noteq> Allow \<Longrightarrow> pathProtectionRule_Evaluate lib w ps req \<noteq> Allow"
proof -
  assume "configProtectionRule_Evaluate req \<noteq> Allow"
  then have "pattern_scan (to_lower (req_Arguments req)) ProtectedConfigFiles \<noteq> None"
    by (auto simp: configProtectionRule_Evaluate_def ReferencesProtectedConfigFile_def Let_def
        split: if_splits)
  then obtain f where "f \<in> set ProtectedConfigFiles" "contains (to_lower (req_Arguments req)) f"
    by (meson pattern_scan_None_iff)
  then have "pattern_scan (to_lower (req_Arguments req)) protectedPatterns \<noteq> None"
    by (auto simp: pattern_scan_None_iff ProtectedConfigFiles_def protectedPatterns_def
        simp del: pattern_scan.simps)
  then show ?thesis by (auto simp: pathProtectionRule_Evaluate_def split: option.splits)
qed

text \<open>
  In the default chain the configuration-protection rule never decides: whatever it would
  deny, the path-protection rule before it has already denied, for every tool.
\<close>

theorem config_protection_never_decides:
  "snd (EvaluateWithTools lib now req reg (default_chain cfg calls)) \<noteq> Deny ''config_protection'' x"
proof
  let ?rules = "default_chain cfg calls"
  assume d: "snd (EvaluateWithTools lib now req reg ?rules) = Deny ''config_protection'' x"
  then obtain pre r post where split: "?rules = pre @ r # post"
    and pre: "\<forall>p \<in> set pre. rule_decides lib now req reg p = Allow"
    and r: "rule_decides lib now req reg r = Deny ''config_protection'' x"
    using engine_denies [of lib now req reg ?rules] by auto
  from r have "rule_Name r = ''config_protection''" by (metis rule_denial_name)
  with split have rc: "r = ConfigProtectionRule" and "post = []"
    and "PathProtectionRule (pol_WorkspaceOnly cfg) (pol_AllowedPaths cfg) \<in> set pre"
    by (auto simp: default_chain_eq Cons_eq_append_conv)
  with pre have "pathProtectionRule_Evaluate lib (pol_WorkspaceOnly cfg) (pol_AllowedPaths cfg) req = Allow"
    by force
  moreover have "configProtectionRule_Evaluate req \<noteq> Allow" using r rc by simp
  ultimately show False using config_rule_subsumed by metis
qed

end
