(* ===== verification/Circuit.thy ===== *)
theory Circuit
  imports Prelude
begin

text \<open>
  The circuit breaker in front of every LLM provider (\<^verbatim>\<open>internal/llm/circuit.go\<close>): the breaker
  and its operations, the per-provider registry and the completer wrapped by a breaker. Every
  operation runs under the breaker's mutex, so a run of a breaker is a sequence of operations,
  each with the clock value it reads. \<^verbatim>\<open>pressureCounter\<close> keeps its 64 bits; doubling the
  cooldown is the 64-bit multiplication of \<^verbatim>\<open>time.Duration\<close>.
\<close>

section \<open>State\<close>

datatype CircuitState = CircuitClosed | CircuitOpen | CircuitHalfOpen

record CircuitBreakerConfig =
  Threshold :: int
  Window :: duration
  Cooldown :: duration
  MaxCooldown :: duration
  HalfOpenProbes :: int

definition DefaultCircuitBreakerConfig :: CircuitBreakerConfig where
  "DefaultCircuitBreakerConfig =
     \<lparr>Threshold = 5, Window = 60 * second, Cooldown = 30 * second, MaxCooldown = 300 * second,
      HalfOpenProbes = 1\<rparr>"

record CircuitBreaker =
  config :: CircuitBreakerConfig
  state :: CircuitState
  failures :: "time list"
  lastTripped :: time
  cooldown :: duration
  halfOpenUsed :: int
  creditTripped :: bool
  forcedOpen :: bool
  capacityPressure :: bool
  pressureCounter :: "64 word"

definition NewCircuitBreaker :: "CircuitBreakerConfig \<Rightarrow> CircuitBreaker" where
  "NewCircuitBreaker cfg =
     \<lparr>config = cfg, state = CircuitClosed, failures = [], lastTripped = zero_time,
      cooldown = Cooldown cfg, halfOpenUsed = 0, creditTripped = False, forcedOpen = False,
      capacityPressure = False, pressureCounter = 0\<rparr>"

section \<open>Operations\<close>

definition Allow :: "time \<Rightarrow> CircuitBreaker \<Rightarrow> bool \<times> CircuitBreaker" where
  "Allow now cb =
     (if forcedOpen cb then (False, cb)
      else if creditTripped cb then (False, cb)
      else case state cb of
        CircuitClosed \<Rightarrow>
          if capacityPressure cb
          then (let n = pressureCounter cb + 1 in (n mod 4 = 1, cb\<lparr>pressureCounter := n\<rparr>))
          else (True, cb)
      | CircuitOpen \<Rightarrow>
          if time_sub now (lastTripped cb) \<ge> cooldown cb
          then (True, cb\<lparr>state := CircuitHalfOpen, halfOpenUsed := 0\<rparr>)
          else (False, cb)
      | CircuitHalfOpen \<Rightarrow>
          if halfOpenUsed cb < HalfOpenProbes (config cb)
          then (True, cb\<lparr>halfOpenUsed := halfOpenUsed cb + 1\<rparr>)
          else (False, cb))"

definition RecordSuccess :: "CircuitBreaker \<Rightarrow> CircuitBreaker" where
  "RecordSuccess cb =
     (if state cb = CircuitHalfOpen
      then cb\<lparr>state := CircuitClosed, failures := [], cooldown := Cooldown (config cb)\<rparr>
      else cb)"

definition trip :: "time \<Rightarrow> CircuitBreaker \<Rightarrow> CircuitBreaker" where
  "trip now cb =
     (let wasOpen = (state cb = CircuitOpen \<or> state cb = CircuitHalfOpen);
          cb1 = cb\<lparr>state := CircuitOpen, lastTripped := now\<rparr>
      in if wasOpen then cb1\<lparr>cooldown := min (i64 (cooldown cb * 2)) (MaxCooldown (config cb))\<rparr>
         else cb1)"

definition RecordFailure :: "time \<Rightarrow> CircuitBreaker \<Rightarrow> CircuitBreaker" where
  "RecordFailure now cb =
     (if state cb = CircuitHalfOpen then trip now cb
      else let cutoff = now - Window (config cb);
               fs = filter (\<lambda>t. t > cutoff) (failures cb) @ [now];
               cb1 = cb\<lparr>failures := fs\<rparr>
           in if int (length fs) \<ge> Threshold (config cb) then trip now cb1 else cb1)"

definition RecordCreditError :: "time \<Rightarrow> CircuitBreaker \<Rightarrow> CircuitBreaker" where
  "RecordCreditError now cb =
     cb\<lparr>state := CircuitOpen, creditTripped := True, lastTripped := now\<rparr>"

definition ForceOpen :: "CircuitBreaker \<Rightarrow> CircuitBreaker" where
  "ForceOpen cb = cb\<lparr>forcedOpen := True, state := CircuitOpen\<rparr>"

definition SetCapacityPressure :: "bool \<Rightarrow> CircuitBreaker \<Rightarrow> CircuitBreaker" where
  "SetCapacityPressure hot cb =
     (let cb1 = cb\<lparr>capacityPressure := hot\<rparr>
      in if \<not> hot then cb1\<lparr>pressureCounter := 0\<rparr> else cb1)"

definition Reset :: "CircuitBreaker \<Rightarrow> CircuitBreaker" where
  "Reset cb =
     cb\<lparr>state := CircuitClosed, failures := [], creditTripped := False, forcedOpen := False,
        capacityPressure := False, pressureCounter := 0, cooldown := Cooldown (config cb)\<rparr>"

definition State :: "CircuitBreaker \<Rightarrow> CircuitState" where
  "State cb =
     (if state cb = CircuitClosed \<and> capacityPressure cb then CircuitHalfOpen else state cb)"

definition TryPreemptiveHalfOpen :: "time \<Rightarrow> CircuitBreaker \<Rightarrow> bool \<times> CircuitBreaker" where
  "TryPreemptiveHalfOpen now cb =
     (if state cb \<noteq> CircuitClosed \<or> \<not> capacityPressure cb then (False, cb)
      else if forcedOpen cb \<or> creditTripped cb then (False, cb)
      else (True, cb\<lparr>state := CircuitHalfOpen, halfOpenUsed := 0, lastTripped := now\<rparr>))"

section \<open>Registry and wrapped completer\<close>

record BreakerRegistry =
  breakers :: "(string, CircuitBreaker) gomap"
  reg_config :: CircuitBreakerConfig

definition NewBreakerRegistry :: "CircuitBreakerConfig \<Rightarrow> BreakerRegistry" where
  "NewBreakerRegistry cfg = \<lparr>breakers = [], reg_config = cfg\<rparr>"

definition Get_breaker :: "string \<Rightarrow> BreakerRegistry \<Rightarrow> CircuitBreaker \<times> BreakerRegistry" where
  "Get_breaker providerName r =
     (case m_get (breakers r) providerName of
        Some cb \<Rightarrow> (cb, r)
      | None \<Rightarrow> let cb = NewCircuitBreaker (reg_config r)
                in (cb, r\<lparr>breakers := m_put providerName cb (breakers r)\<rparr>))"

definition ResetProvider :: "string \<Rightarrow> BreakerRegistry \<Rightarrow> bool \<times> BreakerRegistry" where
  "ResetProvider providerName r =
     (case m_get (breakers r) providerName of
        None \<Rightarrow> (False, r)
      | Some cb \<Rightarrow> (True, r\<lparr>breakers := m_put providerName (Reset cb) (breakers r)\<rparr>))"

definition ResetAll :: "BreakerRegistry \<Rightarrow> nat \<times> BreakerRegistry" where
  "ResetAll r = (length (breakers r), r\<lparr>breakers := m_map Reset (breakers r)\<rparr>)"

record breaker_status =
  st_state :: string
  st_credit_tripped :: bool
  st_forced_open :: bool
  st_capacity_pressure :: bool
  st_recent_failures :: nat
  st_allowed :: bool

definition breaker_snapshot :: "CircuitBreaker \<Rightarrow> breaker_status" where
  "breaker_snapshot cb =
     \<lparr>st_state = (case state cb of CircuitOpen \<Rightarrow> ''open'' | CircuitHalfOpen \<Rightarrow> ''half_open''
                  | _ \<Rightarrow> ''closed''),
      st_credit_tripped = creditTripped cb, st_forced_open = forcedOpen cb,
      st_capacity_pressure = capacityPressure cb, st_recent_failures = length (failures cb),
      st_allowed = (\<not> creditTripped cb \<and> \<not> forcedOpen cb \<and> state cb \<noteq> CircuitOpen)\<rparr>"

definition Status :: "BreakerRegistry \<Rightarrow> (string, breaker_status) gomap" where
  "Status r = map (\<lambda>(name, cb). (name, breaker_snapshot cb)) (breakers r)"

datatype breaker_error = BreakerOpen | InnerError string

text \<open>
  \<^verbatim>\<open>breakerCompleter.Complete\<close>: \<open>inner\<close> is the wrapped provider call, \<open>t0\<close> and \<open>t1\<close> the clock
  before and after it. The third component says whether the provider was called.
\<close>

definition breaker_Complete ::
  "('req \<Rightarrow> string + 'resp) \<Rightarrow> time \<Rightarrow> time \<Rightarrow> 'req \<Rightarrow> CircuitBreaker
     \<Rightarrow> (breaker_error + 'resp) \<times> CircuitBreaker \<times> bool" where
  "breaker_Complete inner t0 t1 req cb =
     (case Allow t0 cb of
        (False, cb1) \<Rightarrow> (Inl BreakerOpen, cb1, False)
      | (True, cb1) \<Rightarrow>
          (case inner req of
             Inl e \<Rightarrow> (Inl (InnerError e), RecordFailure t1 cb1, True)
           | Inr resp \<Rightarrow> (Inr resp, RecordSuccess cb1, True)))"

text \<open>\<^verbatim>\<open>breakerCompleter.Stream\<close>: the outcome of the stream is not recorded.\<close>

definition breaker_Stream ::
  "('req \<Rightarrow> 'stream) \<Rightarrow> time \<Rightarrow> 'req \<Rightarrow> CircuitBreaker
     \<Rightarrow> (breaker_error + 'stream) \<times> CircuitBreaker \<times> bool" where
  "breaker_Stream inner t0 req cb =
     (case Allow t0 cb of
        (False, cb1) \<Rightarrow> (Inl BreakerOpen, cb1, False)
      | (True, cb1) \<Rightarrow> (Inr (inner req), cb1, True))"

section \<open>Runs of a breaker\<close>

datatype breaker_op = OpAllow | OpSuccess | OpFailure | OpCredit | OpForce | OpPressure bool
  | OpPreempt | OpReset

fun breaker_step :: "breaker_op \<times> time \<Rightarrow> CircuitBreaker \<Rightarrow> CircuitBreaker" where
  "breaker_step (OpAllow, now) cb = snd (Allow now cb)"
| "breaker_step (OpSuccess, now) cb = RecordSuccess cb"
| "breaker_step (OpFailure, now) cb = RecordFailure now cb"
| "breaker_step (OpCredit, now) cb = RecordCreditError now cb"
| "breaker_step (OpForce, now) cb = ForceOpen cb"
| "breaker_step (OpPressure hot, now) cb = SetCapacityPressure hot cb"
| "breaker_step (OpPreempt, now) cb = snd (TryPreemptiveHalfOpen now cb)"
| "breaker_step (OpReset, now) cb = Reset cb"

definition breaker_run :: "(breaker_op \<times> time) list \<Rightarrow> CircuitBreaker \<Rightarrow> CircuitBreaker" where
  "breaker_run evs cb = fold breaker_step evs cb"

text \<open>The answers of \<^verbatim>\<open>Allow\<close> along a run.\<close>

fun allow_answers :: "(breaker_op \<times> time) list \<Rightarrow> CircuitBreaker \<Rightarrow> bool list" where
  "allow_answers [] cb = []"
| "allow_answers (e # evs) cb =
     (if fst e = OpAllow then [fst (Allow (snd e) cb)] else [])
       @ allow_answers evs (breaker_step e cb)"

lemmas breaker_ops = Allow_def RecordSuccess_def RecordFailure_def trip_def RecordCreditError_def
  ForceOpen_def SetCapacityPressure_def Reset_def TryPreemptiveHalfOpen_def

lemma config_step [simp]: "config (breaker_step e cb) = config cb"
  by (cases "(e, cb)" rule: breaker_step.cases)
    (auto simp: breaker_ops Let_def split: CircuitState.splits)

lemma config_run [simp]: "config (breaker_run evs cb) = config cb"
  unfolding breaker_run_def by (induction evs arbitrary: cb) simp_all

lemma breaker_run_simps [simp]:
  "breaker_run [] cb = cb"
  "breaker_run (e # evs) cb = breaker_run evs (breaker_step e cb)"
  by (simp_all add: breaker_run_def)

lemma breaker_run_append: "breaker_run (es @ fs) cb = breaker_run fs (breaker_run es cb)"
  by (simp add: breaker_run_def)

section \<open>Kill switch and credit errors\<close>

definition latched :: "CircuitBreaker \<Rightarrow> bool" where
  "latched cb \<longleftrightarrow> forcedOpen cb \<or> creditTripped cb"

lemma latched_step: "latched cb \<Longrightarrow> fst e \<noteq> OpReset \<Longrightarrow> latched (breaker_step e cb)"
  by (cases "(e, cb)" rule: breaker_step.cases)
    (auto simp: latched_def breaker_ops Let_def split: CircuitState.splits)

lemma latched_blocks: "latched cb \<Longrightarrow> \<not> fst (Allow now cb)"
  by (auto simp: latched_def Allow_def)

text \<open>
  A breaker opened by the operator's kill switch or by a payment error admits no request,
  whatever requests, outcomes and pressure reports follow and however long it waits, until
  somebody resets it.
\<close>

theorem kill_switch_holds_until_reset:
  assumes "forcedOpen cb \<or> creditTripped cb" and "\<forall>e \<in> set evs. fst e \<noteq> OpReset"
  shows "set (allow_answers evs cb) \<subseteq> {False}"
  using assms
proof (induction evs arbitrary: cb)
  case (Cons e evs)
  have l: "latched cb" using Cons.prems(1) by (simp add: latched_def)
  have "latched (breaker_step e cb)" using latched_step [OF l] Cons.prems(2) by simp
  then have "set (allow_answers evs (breaker_step e cb)) \<subseteq> {False}"
    using Cons.IH [of "breaker_step e cb"] Cons.prems(2) by (auto simp: latched_def)
  then show ?case using latched_blocks [OF l] by auto
qed simp

theorem kill_switch_holds_until_reset_witness:
  "set (allow_answers [(OpAllow, hour), (OpSuccess, hour), (OpAllow, 2 * hour)]
     (ForceOpen (NewCircuitBreaker DefaultCircuitBreakerConfig))) \<subseteq> {False}"
  by (rule kill_switch_holds_until_reset) (simp_all add: ForceOpen_def)

section \<open>Cooldown\<close>

definition sane_config :: "CircuitBreakerConfig \<Rightarrow> bool" where
  "sane_config cfg \<longleftrightarrow> 0 \<le> Cooldown cfg \<and> Cooldown cfg \<le> MaxCooldown cfg \<and> MaxCooldown cfg < 2 ^ 62"

definition cooldown_ok :: "CircuitBreaker \<Rightarrow> bool" where
  "cooldown_ok cb \<longleftrightarrow> (sane_config (config cb) \<longrightarrow>
     Cooldown (config cb) \<le> cooldown cb \<and> cooldown cb \<le> MaxCooldown (config cb))"

lemma doubled_cooldown:
  assumes "sane_config cfg" and "Cooldown cfg \<le> c" and "c \<le> MaxCooldown cfg"
  shows "c \<le> min (i64 (c * 2)) (MaxCooldown cfg)"
    and "min (i64 (c * 2)) (MaxCooldown cfg) = min (c * 2) (MaxCooldown cfg)"
  using assms by (auto simp: sane_config_def)

lemma cooldown_ok_step: "cooldown_ok cb \<Longrightarrow> cooldown_ok (breaker_step e cb)"
  using doubled_cooldown(1) [of "config cb" "cooldown cb"]
  by (cases "(e, cb)" rule: breaker_step.cases)
    (auto simp: cooldown_ok_def sane_config_def breaker_ops Let_def split: CircuitState.splits)

interpretation breaker_system: event_system "NewCircuitBreaker cfg" breaker_step cooldown_ok for cfg
proof unfold_locales
  show "cooldown_ok (NewCircuitBreaker cfg)" for cfg
    by (simp add: cooldown_ok_def sane_config_def NewCircuitBreaker_def)
qed (rule cooldown_ok_step)

definition blocked_until :: "time \<Rightarrow> CircuitBreaker \<Rightarrow> bool" where
  "blocked_until d cb \<longleftrightarrow> latched cb \<or> (state cb = CircuitOpen \<and> d \<le> lastTripped cb + cooldown cb)"

lemma blocked_blocks:
  assumes "blocked_until d cb" and "cooldown_ok cb" and "sane_config (config cb)" and "now < d"
  shows "Allow now cb = (False, cb)"
proof -
  have "- (2 ^ 63) < cooldown cb" "cooldown cb \<le> 2 ^ 63 - 1"
    using assms(2,3) by (auto simp: cooldown_ok_def sane_config_def)
  with assms(1,4) show ?thesis
    by (auto simp: blocked_until_def latched_def Allow_def time_sub_ge_iff)
qed

lemma blocked_step:
  assumes "blocked_until d cb" and "cooldown_ok cb" and "sane_config (config cb)"
    and "lastTripped cb \<le> snd e" and "snd e < d" and "fst e \<noteq> OpReset"
  shows "blocked_until d (breaker_step e cb) \<and> lastTripped (breaker_step e cb) \<le> snd e"
proof (cases "latched cb")
  case True
  then show ?thesis using latched_step [OF True assms(6)] assms(4)
    by (cases "(e, cb)" rule: breaker_step.cases)
      (auto simp: blocked_until_def breaker_ops Let_def split: CircuitState.splits)
next
  case False
  have c: "cooldown cb \<le> min (i64 (cooldown cb * 2)) (MaxCooldown (config cb))"
    using doubled_cooldown(1) assms(2,3) by (auto simp: cooldown_ok_def)
  have o: "state cb = CircuitOpen" "d \<le> lastTripped cb + cooldown cb"
    using assms(1) False by (auto simp: blocked_until_def)
  have a: "Allow (snd e) cb = (False, cb)" using blocked_blocks assms(1,2,3,5) by blast
  show ?thesis using c o a assms(4,6)
    by (cases "(e, cb)" rule: breaker_step.cases)
      (auto simp: blocked_until_def latched_def RecordSuccess_def RecordFailure_def trip_def
        RecordCreditError_def ForceOpen_def SetCapacityPressure_def TryPreemptiveHalfOpen_def Let_def)
qed

lemma blocked_run:
  assumes "blocked_until d cb" and "cooldown_ok cb" and "sane_config (config cb)"
    and "sorted (map snd evs)" and "\<forall>e \<in> set evs. lastTripped cb \<le> snd e \<and> snd e < d \<and> fst e \<noteq> OpReset"
  shows "set (allow_answers evs cb) \<subseteq> {False}"
  using assms
proof (induction evs arbitrary: cb)
  case (Cons e evs)
  have step: "blocked_until d (breaker_step e cb)" "lastTripped (breaker_step e cb) \<le> snd e"
    using blocked_step [OF Cons.prems(1-3), of e] Cons.prems(5) by auto
  have "set (allow_answers evs (breaker_step e cb)) \<subseteq> {False}"
  proof (rule Cons.IH [OF step(1) cooldown_ok_step [OF Cons.prems(2)]])
    show "\<forall>e' \<in> set evs. lastTripped (breaker_step e cb) \<le> snd e' \<and> snd e' < d \<and> fst e' \<noteq> OpReset"
      using Cons.prems(4,5) step(2) by fastforce
  qed (use Cons.prems in auto)
  then show ?case using blocked_blocks [OF Cons.prems(1-3), of "snd e"] Cons.prems(5) by auto
qed simp

text \<open>
  C19. Once a breaker is open it admits nothing until its cooldown has passed since the last
  trip: in every run, whatever is reported meanwhile (a failure reported while open only
  prolongs the block), no request is admitted before that moment unless the breaker is reset.
\<close>

theorem open_breaker_blocks_for_cooldown:
  assumes "sane_config cfg" and "cb = breaker_run es (NewCircuitBreaker cfg)"
    and "state cb = CircuitOpen" and "sorted (map snd evs)"
    and "\<forall>e \<in> set evs. lastTripped cb \<le> snd e \<and> snd e < lastTripped cb + cooldown cb \<and> fst e \<noteq> OpReset"
  shows "set (allow_answers evs cb) \<subseteq> {False}"
proof (rule blocked_run)
  show "cooldown_ok cb" unfolding assms(2) breaker_run_def by (rule breaker_system.inv_run)
  show "sane_config (config cb)" using assms(1,2) by (simp add: NewCircuitBreaker_def)
qed (use assms in \<open>auto simp: blocked_until_def\<close>)

theorem open_breaker_blocks_for_cooldown_witness:
  "let cb = breaker_run (map (\<lambda>i. (OpFailure, i * second)) [1, 2, 3, 4, 5])
              (NewCircuitBreaker DefaultCircuitBreakerConfig)
   in state cb = CircuitOpen \<and> lastTripped cb + cooldown cb = 35 * second
      \<and> set (allow_answers [(OpAllow, 6 * second), (OpFailure, 7 * second), (OpAllow, 34 * second)] cb) \<subseteq> {False}"
proof -
  let ?es = "map (\<lambda>i. (OpFailure, i * second)) [1, 2, 3, 4, 5]"
  let ?cb = "breaker_run ?es (NewCircuitBreaker DefaultCircuitBreakerConfig)"
  have cb: "?cb = (NewCircuitBreaker DefaultCircuitBreakerConfig)\<lparr>state := CircuitOpen,
      failures := [1 * second, 2 * second, 3 * second, 4 * second, 5 * second], lastTripped := 5 * second\<rparr>"
    by (simp add: NewCircuitBreaker_def DefaultCircuitBreakerConfig_def RecordFailure_def trip_def
        Let_def duration_units)
  have facts: "state ?cb = CircuitOpen" "lastTripped ?cb = 5 * second" "cooldown ?cb = 30 * second"
    unfolding cb by (simp_all add: NewCircuitBreaker_def DefaultCircuitBreakerConfig_def)
  have "set (allow_answers [(OpAllow, 6 * second), (OpFailure, 7 * second), (OpAllow, 34 * second)] ?cb)
      \<subseteq> {False}"
    by (rule open_breaker_blocks_for_cooldown [where es = ?es and cfg = DefaultCircuitBreakerConfig])
      (simp_all only: facts, simp_all add: DefaultCircuitBreakerConfig_def sane_config_def duration_units)
  with facts show ?thesis by (simp add: Let_def)
qed

section \<open>Exponential backoff\<close>

fun probe_rounds :: "(time \<times> time) list \<Rightarrow> (breaker_op \<times> time) list" where
  "probe_rounds [] = []"
| "probe_rounds ((ta, tf) # rs) = (OpAllow, ta) # (OpFailure, tf) # probe_rounds rs"

lemma probe_round:
  assumes "state cb = CircuitOpen" and "fst (Allow ta cb)"
  shows "breaker_step (OpFailure, tf) (breaker_step (OpAllow, ta) cb)
    = cb\<lparr>state := CircuitOpen, halfOpenUsed := 0, lastTripped := tf,
         cooldown := min (i64 (cooldown cb * 2)) (MaxCooldown (config cb))\<rparr>"
proof -
  have "Allow ta cb = (True, cb\<lparr>state := CircuitHalfOpen, halfOpenUsed := 0\<rparr>)"
    using assms by (simp add: Allow_def split: if_splits)
  then show ?thesis by (simp add: RecordFailure_def trip_def)
qed

lemma probe_rounds_cooldown:
  assumes "state cb = CircuitOpen" and "sane_config (config cb)"
    and "cooldown cb = min (Cooldown (config cb) * 2 ^ k) (MaxCooldown (config cb))"
    and "set (allow_answers (probe_rounds rs) cb) \<subseteq> {True}"
  shows "state (breaker_run (probe_rounds rs) cb) = CircuitOpen
    \<and> cooldown (breaker_run (probe_rounds rs) cb)
      = min (Cooldown (config cb) * 2 ^ (k + length rs)) (MaxCooldown (config cb))"
  using assms
proof (induction rs arbitrary: cb k)
  case (Cons r rs)
  obtain ta tf where r: "r = (ta, tf)" by (cases r)
  let ?c = "Cooldown (config cb)" and ?m = "MaxCooldown (config cb)"
  define cb' where "cb' = breaker_step (OpFailure, tf) (breaker_step (OpAllow, ta) cb)"
  have allowed: "fst (Allow ta cb)" using Cons.prems(4) by (auto simp: r)
  note step = probe_round [OF Cons.prems(1) allowed, of tf]
  have pow: "?c \<le> ?c * 2 ^ k" using Cons.prems(2) by (simp add: sane_config_def mult_le_cancel_left1)
  then have "?c \<le> cooldown cb" "cooldown cb \<le> ?m"
    using Cons.prems(2,3) by (auto simp: sane_config_def)
  then have "min (i64 (cooldown cb * 2)) ?m = min (cooldown cb * 2) ?m"
    by (rule doubled_cooldown(2) [OF Cons.prems(2)])
  also have "\<dots> = min (?c * 2 ^ Suc k) ?m"
    using Cons.prems(2,3) by (auto simp: sane_config_def min_def)
  finally have cool: "cooldown cb' = min (?c * 2 ^ Suc k) ?m"
    unfolding cb'_def step by simp
  have cb': "state cb' = CircuitOpen" "config cb' = config cb"
    unfolding cb'_def step by simp_all
  have "set (allow_answers (probe_rounds rs) cb') \<subseteq> {True}"
    using Cons.prems(4) by (auto simp: r cb'_def)
  then have "state (breaker_run (probe_rounds rs) cb') = CircuitOpen
      \<and> cooldown (breaker_run (probe_rounds rs) cb') = min (?c * 2 ^ (Suc k + length rs)) ?m"
    using Cons.IH [of cb' "Suc k"] cool cb' Cons.prems(2) by simp
  then show ?case by (simp add: r cb'_def)
qed simp

text \<open>
  A first trip waits the configured cooldown; when each of the following \<open>k\<close> recovery
  probes fails, the wait has doubled \<open>k\<close> times, up to the configured maximum.
\<close>

theorem failed_probes_double_cooldown:
  assumes "sane_config cfg" and "config cb = cfg" and "state cb = CircuitClosed"
    and "cooldown cb = Cooldown cfg" and "int (length (failures cb)) + 1 \<ge> Threshold cfg"
    and "\<forall>t \<in> set (failures cb). t0 - Window cfg < t"
    and "set (allow_answers (probe_rounds rs) (RecordFailure t0 cb)) \<subseteq> {True}"
  shows "cooldown (breaker_run (probe_rounds rs) (RecordFailure t0 cb))
     = min (Cooldown cfg * 2 ^ length rs) (MaxCooldown cfg)"
proof -
  have "filter (\<lambda>t. t0 - Window cfg < t) (failures cb) = failures cb"
    using assms(6) by (simp add: filter_id_conv)
  with assms(1-5) have "RecordFailure t0 cb =
      cb\<lparr>failures := failures cb @ [t0], state := CircuitOpen, lastTripped := t0\<rparr>"
    by (simp add: RecordFailure_def trip_def Let_def)
  moreover from this have "cooldown (RecordFailure t0 cb)
      = min (Cooldown (config (RecordFailure t0 cb)) * 2 ^ 0) (MaxCooldown (config (RecordFailure t0 cb)))"
    using assms(1,2,4) by (simp add: sane_config_def)
  ultimately show ?thesis
    using probe_rounds_cooldown [of "RecordFailure t0 cb" 0 rs] assms(1,2,7) by simp
qed

theorem failed_probes_double_cooldown_witness:
  "let cb = RecordFailure 0 (NewCircuitBreaker (DefaultCircuitBreakerConfig\<lparr>Threshold := 1\<rparr>))
   in cooldown (breaker_run (probe_rounds [(30 * second, 31 * second), (91 * second, 91 * second)]) cb)
       = 120 * second"
proof -
  let ?cfg = "DefaultCircuitBreakerConfig\<lparr>Threshold := 1\<rparr>"
  let ?rs = "[(30 * second, 31 * second), (91 * second, 91 * second)]"
  have "set (allow_answers (probe_rounds ?rs) (RecordFailure 0 (NewCircuitBreaker ?cfg))) \<subseteq> {True}"
    by (simp add: NewCircuitBreaker_def DefaultCircuitBreakerConfig_def RecordFailure_def trip_def
        Allow_def Let_def duration_units time_sub_def)
  then have "cooldown (breaker_run (probe_rounds ?rs) (RecordFailure 0 (NewCircuitBreaker ?cfg)))
      = min (Cooldown ?cfg * 2 ^ length ?rs) (MaxCooldown ?cfg)"
    by (intro failed_probes_double_cooldown)
      (simp_all add: NewCircuitBreaker_def DefaultCircuitBreakerConfig_def sane_config_def duration_units)
  then show ?thesis by (simp add: DefaultCircuitBreakerConfig_def duration_units Let_def)
qed

section \<open>The failure window\<close>

interpretation failure_window: sliding_window "\<lambda>now t. now - w < t" for w :: duration
  by unfold_locales auto

definition failure_times :: "(breaker_op \<times> time) list \<Rightarrow> time list" where
  "failure_times es = map snd (filter (\<lambda>e. fst e = OpFailure) es)"

text \<open>The run over \<open>es\<close> never left the closed state.\<close>

fun stays_closed :: "(breaker_op \<times> time) list \<Rightarrow> CircuitBreaker \<Rightarrow> bool" where
  "stays_closed [] cb \<longleftrightarrow> state cb = CircuitClosed"
| "stays_closed (e # es) cb \<longleftrightarrow> state cb = CircuitClosed \<and> stays_closed es (breaker_step e cb)"

lemma stays_closed_append:
  "stays_closed (es @ fs) cb \<longleftrightarrow> stays_closed es cb \<and> stays_closed fs (breaker_run es cb)"
  by (induction es arbitrary: cb) (auto elim: stays_closed.elims)

lemma stays_closed_end: "stays_closed es cb \<Longrightarrow> state (breaker_run es cb) = CircuitClosed"
  by (induction es arbitrary: cb) auto

lemma closed_step_failures:
  assumes "state cb = CircuitClosed" and "state (breaker_step e cb) = CircuitClosed"
    and "fst e \<in> {OpAllow, OpSuccess, OpFailure}"
  shows "failures (breaker_step e cb) =
    (if fst e = OpFailure
     then filter (\<lambda>t. snd e - Window (config cb) < t) (failures cb) @ [snd e] else failures cb)"
  using assms by (cases "(e, cb)" rule: breaker_step.cases)
    (auto simp: Allow_def RecordSuccess_def RecordFailure_def trip_def Let_def split: if_splits)

lemma closed_run_failures:
  assumes "stays_closed es (NewCircuitBreaker cfg)" and "sorted (map snd es)"
    and "\<forall>e \<in> set es. snd e \<le> now \<and> fst e \<in> {OpAllow, OpSuccess, OpFailure}"
  shows "filter (\<lambda>t. now - Window cfg < t) (failures (breaker_run es (NewCircuitBreaker cfg)))
    = filter (\<lambda>t. now - Window cfg < t) (failure_times es)"
  using assms
proof (induction es arbitrary: now rule: rev_induct)
  case Nil
  show ?case by (simp add: NewCircuitBreaker_def failure_times_def)
next
  case (snoc e es)
  let ?cb = "breaker_run es (NewCircuitBreaker cfg)"
  have cfg: "config ?cb = cfg" by (simp add: NewCircuitBreaker_def)
  have closed: "state ?cb = CircuitClosed" "state (breaker_step e ?cb) = CircuitClosed"
    "stays_closed es (NewCircuitBreaker cfg)"
    using snoc.prems(1) by (auto simp: stays_closed_append)
  have le: "\<forall>e' \<in> set es. snd e' \<le> snd e" and s: "sorted (map snd es)"
    using snoc.prems(2) by (auto simp: sorted_append)
  have en: "snd e \<le> now" and k: "fst e \<in> {OpAllow, OpSuccess, OpFailure}" using snoc.prems(3) by auto
  have IH: "snd e \<le> u \<Longrightarrow> filter (\<lambda>t. u - Window cfg < t) (failures ?cb)
      = filter (\<lambda>t. u - Window cfg < t) (failure_times es)" for u
    using snoc.IH [OF closed(3) s, of u] le snoc.prems(3) by fastforce
  have f: "failures (breaker_step e ?cb) = (if fst e = OpFailure
     then filter (\<lambda>t. snd e - Window cfg < t) (failures ?cb) @ [snd e] else failures ?cb)"
    using closed_step_failures [OF closed(1,2) k] cfg by simp
  have "failure_times (es @ [e]) = failure_times es @ (if fst e = OpFailure then [snd e] else [])"
    by (simp add: failure_times_def)
  then show ?case
    using f IH [OF en] failure_window.prune_prune [OF en, of "Window cfg" "failures ?cb"]
    by (simp add: breaker_run_append)
qed

text \<open>
  A closed breaker opens exactly when enough failures fall into the window: after any run
  of requests, successes and failures that stayed closed, a failure at \<open>now\<close> opens the breaker if
  and only if that failure and the earlier ones less than a window old number at least the
  threshold (successes do not forgive failures, and pruning never forgets one that counts).
\<close>

theorem opens_exactly_at_threshold:
  assumes "stays_closed es (NewCircuitBreaker cfg)" and "sorted (map snd es)"
    and "\<forall>e \<in> set es. snd e \<le> now \<and> fst e \<in> {OpAllow, OpSuccess, OpFailure}"
  shows "state (RecordFailure now (breaker_run es (NewCircuitBreaker cfg))) = CircuitOpen \<longleftrightarrow>
    Threshold cfg \<le> int (length (filter (\<lambda>t. now - Window cfg < t) (failure_times es))) + 1"
proof -
  have "config (breaker_run es (NewCircuitBreaker cfg)) = cfg" by (simp add: NewCircuitBreaker_def)
  with closed_run_failures [OF assms] stays_closed_end [OF assms(1)] show ?thesis
    by (simp add: RecordFailure_def trip_def Let_def add.commute)
qed

theorem opens_exactly_at_threshold_witness:
  "state (RecordFailure (61 * second)
     (breaker_run [(OpFailure, 0), (OpSuccess, second), (OpFailure, 2 * second)]
       (NewCircuitBreaker DefaultCircuitBreakerConfig))) \<noteq> CircuitOpen
   \<and> state (RecordFailure (61 * second)
     (breaker_run [(OpFailure, 0), (OpSuccess, second), (OpFailure, 2 * second)]
       (NewCircuitBreaker (DefaultCircuitBreakerConfig\<lparr>Threshold := 3, Window := hour\<rparr>)))) = CircuitOpen"
proof -
  let ?es = "[(OpFailure, 0), (OpSuccess, second), (OpFailure, 2 * second)]"
  have *: "state (RecordFailure (61 * second) (breaker_run ?es (NewCircuitBreaker cfg))) = CircuitOpen \<longleftrightarrow>
      Threshold cfg \<le> int (length (filter (\<lambda>t. 61 * second - Window cfg < t) (failure_times ?es))) + 1"
    if "3 \<le> Threshold cfg" for cfg
    by (rule opens_exactly_at_threshold)
      (use that in \<open>auto simp: NewCircuitBreaker_def RecordFailure_def RecordSuccess_def trip_def Let_def duration_units\<close>)
  show ?thesis
    by (subst (1 2) *)
      (simp_all add: DefaultCircuitBreakerConfig_def failure_times_def duration_units)
qed

section \<open>Capacity pressure\<close>

lemma word_of_nat_mod_4: "(word_of_nat n :: 64 word) mod 4 = 1 \<longleftrightarrow> n mod 4 = 1"
proof -
  have "unat ((word_of_nat n :: 64 word) mod 4) = n mod 2 ^ 64 mod 4"
    by (simp add: unat_mod_distrib unat_of_nat)
  also have "\<dots> = n mod 4" by (rule mod_mod_cancel) simp
  finally show ?thesis by (metis unat_1 word_unat_eq_iff)
qed

lemma pressure_answers:
  assumes "state cb = CircuitClosed" and "capacityPressure cb" and "\<not> latched cb"
    and "pressureCounter cb = word_of_nat c"
  shows "allow_answers (map (Pair OpAllow) ts) cb = map (\<lambda>i. (c + i) mod 4 = 0) [0..<length ts]"
  using assms
proof (induction ts arbitrary: cb c)
  case (Cons t ts)
  define cb' where "cb' = cb\<lparr>pressureCounter := word_of_nat (Suc c)\<rparr>"
  have step: "Allow t cb = (c mod 4 = 0, cb')"
    using Cons.prems word_of_nat_mod_4 [of "Suc c"]
    by (simp add: Allow_def latched_def Let_def cb'_def add.commute) (simp add: mod_Suc)
  have "allow_answers (map (Pair OpAllow) ts) cb' = map (\<lambda>i. (Suc c + i) mod 4 = 0) [0..<length ts]"
    using Cons.prems by (intro Cons.IH) (auto simp: cb'_def latched_def)
  also have "\<dots> = map (\<lambda>i. (c + i) mod 4 = 0) [1..<Suc (length ts)]"
    by (intro nth_equalityI) (simp_all del: upt_Suc)
  finally show ?case using step by (simp add: upt_conv_Cons del: upt_Suc)
qed simp

text \<open>
  A closed breaker under capacity pressure lets through the first of every four requests:
  the \<open>i\<close>-th request after pressure sets in is admitted exactly when \<open>i\<close> is a multiple of four,
  also when the 64-bit counter wraps around.
\<close>

theorem pressure_admits_one_in_four:
  assumes "state cb = CircuitClosed" and "\<not> forcedOpen cb" and "\<not> creditTripped cb"
    and "pressureCounter cb = 0"
  shows "allow_answers (map (Pair OpAllow) ts) (SetCapacityPressure True cb)
    = map (\<lambda>i. i mod 4 = 0) [0..<length ts]"
  using pressure_answers [of "SetCapacityPressure True cb" 0 ts] assms
  by (simp add: SetCapacityPressure_def latched_def)

theorem pressure_admits_one_in_four_witness:
  "allow_answers (map (Pair OpAllow) [1, 2, 3, 4, 5])
     (SetCapacityPressure True (NewCircuitBreaker DefaultCircuitBreakerConfig))
   = [True, False, False, False, True]"
  using pressure_admits_one_in_four [of "NewCircuitBreaker DefaultCircuitBreakerConfig" "[1, 2, 3, 4, 5]"]
  by (simp add: NewCircuitBreaker_def upt_rec)

section \<open>Half-open probes\<close>

lemma half_open_answers:
  assumes "state cb = CircuitHalfOpen" and "\<not> latched cb"
  shows "allow_answers (map (Pair OpAllow) ts) cb =
    (let n = nat (HalfOpenProbes (config cb) - halfOpenUsed cb)
     in replicate (min (length ts) n) True @ replicate (length ts - n) False)"
  using assms
proof (induction ts arbitrary: cb)
  case (Cons t ts)
  show ?case
  proof (cases "halfOpenUsed cb < HalfOpenProbes (config cb)")
    case True
    define cb' where "cb' = cb\<lparr>halfOpenUsed := halfOpenUsed cb + 1\<rparr>"
    obtain n where n: "nat (HalfOpenProbes (config cb) - halfOpenUsed cb) = Suc n"
      using True by (metis diff_gt_0_iff_gt gr0_conv_Suc zero_less_nat_eq)
    then have n': "nat (HalfOpenProbes (config cb') - halfOpenUsed cb') = n" by (simp add: cb'_def)
    have "Allow t cb = (True, cb')" using True Cons.prems by (simp add: Allow_def latched_def cb'_def)
    moreover have "state cb' = CircuitHalfOpen" "\<not> latched cb'"
      using Cons.prems by (auto simp: cb'_def latched_def)
    ultimately show ?thesis using Cons.IH [of cb'] by (simp add: n n' Let_def)
  next
    case False
    then have "Allow t cb = (False, cb)" using Cons.prems by (simp add: Allow_def latched_def)
    with False Cons.IH [OF Cons.prems] show ?thesis by (simp add: Let_def)
  qed
qed simp

text \<open>
  When its cooldown has passed, an open breaker admits the request that finds it so and
  then \<^verbatim>\<open>HalfOpenProbes\<close> more, one more than the configuration promises; after that it rejects
  every request, however late, until an outcome is recorded.
\<close>

theorem half_open_admits_one_extra_probe:
  assumes "state cb = CircuitOpen" and "\<not> forcedOpen cb" and "\<not> creditTripped cb"
    and "time_sub t0 (lastTripped cb) \<ge> cooldown cb"
  shows "allow_answers (map (Pair OpAllow) (t0 # ts)) cb =
    (let n = nat (HalfOpenProbes (config cb))
     in replicate (Suc (min (length ts) n)) True @ replicate (length ts - n) False)"
proof -
  define cb' where "cb' = cb\<lparr>state := CircuitHalfOpen, halfOpenUsed := 0\<rparr>"
  have "Allow t0 cb = (True, cb')" using assms by (simp add: Allow_def cb'_def)
  moreover have "\<not> latched cb'" using assms by (simp add: cb'_def latched_def)
  ultimately show ?thesis
    using half_open_answers [of cb' ts] by (simp add: cb'_def Let_def)
qed

theorem half_open_admits_one_extra_probe_witness:
  "allow_answers (map (Pair OpAllow) [30 * second, 31 * second, 32 * second, 1000 * hour])
     ((NewCircuitBreaker DefaultCircuitBreakerConfig)\<lparr>state := CircuitOpen, lastTripped := 0\<rparr>)
   = [True, True, False, False]"
  using half_open_admits_one_extra_probe
    [of "(NewCircuitBreaker DefaultCircuitBreakerConfig)\<lparr>state := CircuitOpen, lastTripped := 0\<rparr>"
      "30 * second" "[31 * second, 32 * second, 1000 * hour]"]
  by (simp add: NewCircuitBreaker_def DefaultCircuitBreakerConfig_def duration_units time_sub_def
      numeral_2_eq_2)

end
