(* ===== verification/Session.thy ===== *)
theory Session
  imports Authority
begin

text \<open>
  The conversation session, package \<^verbatim>\<open>internal/session\<close>: the message history with its pending
  tool calls (\<^verbatim>\<open>session.go\<close>), the evidence the verifier reads (\<^verbatim>\<open>verification_evidence.go\<close>) and
  the artifacts the reflect phase renders (\<^verbatim>\<open>reflection_artifact.go\<close>). Slices the code copies
  before storing are plain lists; a slice whose \<^verbatim>\<open>nil\<close> the code tells apart from the empty
  slice is an option.
\<close>

section \<open>Messages and tool calls\<close>

record ToolCall =
  tc_ID :: string
  tc_Type :: string
  tc_Name :: string
  tc_Arguments :: string

record ContentPart =
  cp_Type :: string
  cp_Text :: string
  cp_URL :: string
  cp_Detail :: string
  cp_MediaType :: string
  cp_Data :: string

record Message =
  msg_Role :: string
  msg_Content :: string
  msg_ContentParts :: "ContentPart list"
  msg_ToolCalls :: "ToolCall list"
  msg_ToolCallID :: string
  msg_Name :: string
  msg_Metadata :: string
  msg_TopicTag :: string

record ToolDef =
  tdef_Type :: string
  tdef_Name :: string
  tdef_Description :: string
  tdef_Parameters :: string

definition plain_message :: "string \<Rightarrow> string \<Rightarrow> Message" where
  "plain_message role content =
     \<lparr>msg_Role = role, msg_Content = content, msg_ContentParts = [], msg_ToolCalls = [], msg_ToolCallID = [],
      msg_Name = [], msg_Metadata = [], msg_TopicTag = []\<rparr>"

section \<open>Verification evidence\<close>

datatype MemoryGapKind = MemoryGapNone | MemoryGapMissingTiers | MemoryGapNoEvidence | MemoryGapLegacy

record ContradictionEvidence =
  ce_Kind :: string
  ce_Topic :: string
  ce_Summary :: string
  ce_SharedKeywords :: "string list"
  ce_EvidenceItems :: "string list"

record VerificationEvidence =
  ve_HasEvidence :: bool
  ve_HasGaps :: bool
  ve_HasFreshnessRisks :: bool
  ve_HasContradictions :: bool
  ve_HasCanonicalEvidence :: bool
  ve_MemoryGapKind :: MemoryGapKind
  ve_MissingMemoryTiers :: "string list"
  ve_MemoryConfidenceInfluence :: int
  ve_Contradictions :: "ContradictionEvidence list"
  ve_EvidenceItems :: "string list"
  ve_UnresolvedQuestions :: "string list"
  ve_VerifiedConclusions :: "string list"
  ve_StoppingCriteria :: "string list"

definition newline :: char where "newline = CHR 0x0A"

definition section_header :: "string \<Rightarrow> bool" where
  "section_header line \<longleftrightarrow> has_prefix line ''['' \<and> has_suffix line '']''"

definition trimTrailingParenthetical :: "string \<Rightarrow> string" where
  "trimTrailingParenthetical s0 =
     (let s = trim_space s0 in
      if \<not> has_suffix s '')'' then s
      else case str_last_index s '' ('' of None \<Rightarrow> s | Some i \<Rightarrow> trim_space (take i s))"

definition executiveLabels :: "string list" where
  "executiveLabels = [''Task:'', ''Plan:'', ''Assumptions:'', ''Decision checkpoints:'',
     ''Verified conclusions:'', ''Unresolved questions:'', ''Stopping criteria:'']"

fun executive_scan :: "string \<Rightarrow> bool \<Rightarrow> string list \<Rightarrow> string list" where
  "executive_scan label inSection [] = []"
| "executive_scan label inSection (raw # lines) =
     (let line = trim_space raw in
      if line = [] then (if inSection then [] else executive_scan label inSection lines)
      else if section_header line then (if inSection then [] else executive_scan label inSection lines)
      else if has_suffix line '':'' then
        (if inSection then []
         else executive_scan label (to_lower (trim_suffix line '':'') = to_lower label) lines)
      else if \<not> inSection then executive_scan label inSection lines
      else if list_ex (has_prefix line) executiveLabels then []
      else if has_prefix line ''- '' then
        (let item = trimTrailingParenthetical (trim_space (trim_prefix line ''- ''))
         in (if item = [] then [] else [item]) @ executive_scan label inSection lines)
      else executive_scan label inSection lines)"

definition verificationExecutiveSection :: "string \<Rightarrow> string \<Rightarrow> string list" where
  "verificationExecutiveSection memoryContext label =
     executive_scan label False (split_on newline memoryContext)"

fun section_scan :: "string \<Rightarrow> bool \<Rightarrow> string list \<Rightarrow> string list" where
  "section_scan header inSection [] = []"
| "section_scan header inSection (raw # lines) =
     (let line = trim_space raw in
      if line = [] then (if inSection then [] else section_scan header inSection lines)
      else if has_prefix line header then section_scan header True lines
      else if \<not> inSection then section_scan header inSection lines
      else if section_header line then []
      else if has_prefix line ''Executive State:'' then []
      else (case str_index line ''] '' of
              Some i \<Rightarrow> trim_space (drop (i + 2) line)
            | None \<Rightarrow> line) # section_scan header inSection lines)"

definition verificationSectionItems :: "string \<Rightarrow> string \<Rightarrow> string list" where
  "verificationSectionItems memoryContext header =
     section_scan header False (split_on newline memoryContext)"

definition deriveContradictionsFromMemoryContext :: "string \<Rightarrow> ContradictionEvidence list" where
  "deriveContradictionsFromMemoryContext memoryContext =
     map (\<lambda>t. \<lparr>ce_Kind = ''rendered_marker'', ce_Topic = [], ce_Summary = t, ce_SharedKeywords = [],
              ce_EvidenceItems = []\<rparr>)
       (filter (\<lambda>t. t \<noteq> [])
         (map (\<lambda>item. trim_space (trim_prefix (trim_space item) ''- ''))
           (verificationSectionItems memoryContext ''[Contradictions]'')))"

fun gap_scan :: "MemoryGapKind \<Rightarrow> string list \<Rightarrow> string list \<Rightarrow> MemoryGapKind \<times> string list" where
  "gap_scan kind tiers [] = (kind, tiers)"
| "gap_scan kind tiers (item # items) =
     (let lower = to_lower item in
      if contains lower ''no evidence retrieved from any tier'' then gap_scan MemoryGapNoEvidence tiers items
      else if contains lower ''past experiences'' \<or> contains lower ''missing episodic''
        then gap_scan kind (tiers @ [''episodic'']) items
      else if contains lower ''factual/policy knowledge'' \<or> contains lower ''missing semantic''
        then gap_scan kind (tiers @ [''semantic'']) items
      else if contains lower ''procedures'' \<or> contains lower ''workflows''
          \<or> contains lower ''missing procedural''
        then gap_scan kind (tiers @ [''procedural'']) items
      else if contains lower ''relationship'' \<or> contains lower ''entity''
          \<or> contains lower ''missing relationship''
        then gap_scan kind (tiers @ [''relationship'']) items
      else gap_scan kind tiers items)"

definition deriveMemoryGapKind :: "string \<Rightarrow> MemoryGapKind \<times> string list" where
  "deriveMemoryGapKind memoryContext =
     (let items = verificationSectionItems memoryContext ''[Gaps]'' in
      if items = [] then (MemoryGapNone, [])
      else let (kind, tiers) = gap_scan MemoryGapLegacy [] items in
        if kind = MemoryGapNoEvidence
        then (kind, [''episodic'', ''semantic'', ''procedural'', ''relationship''])
        else if tiers \<noteq> [] then (MemoryGapMissingTiers, tiers)
        else (kind, []))"

definition deriveMemoryConfidenceInfluence :: "VerificationEvidence \<Rightarrow> int" where
  "deriveMemoryConfidenceInfluence ve =
     (if ve_HasContradictions ve then -1 else if ve_HasEvidence ve then 1 else 0)"

text \<open>
  \<^verbatim>\<open>canonicalQualifierRegex\<close>: an opening bracket, the word \<^verbatim>\<open>canonical\<close> before the next
  closing bracket.
\<close>

definition word_char :: "char \<Rightarrow> bool" where
  "word_char c \<longleftrightarrow> (let n = (of_char c :: nat) in
     (65 \<le> n \<and> n \<le> 90) \<or> (97 \<le> n \<and> n \<le> 122) \<or> (48 \<le> n \<and> n \<le> 57) \<or> n = 95)"

fun has_word :: "bool \<Rightarrow> string \<Rightarrow> string \<Rightarrow> bool" where
  "has_word boundary w [] \<longleftrightarrow> False"
| "has_word boundary w (c # s) \<longleftrightarrow>
     (boundary \<and> has_prefix (c # s) w
       \<and> (case drop (length w) (c # s) of [] \<Rightarrow> True | d # _ \<Rightarrow> \<not> word_char d))
     \<or> has_word (\<not> word_char c) w s"

fun canonical_match :: "string \<Rightarrow> bool" where
  "canonical_match [] \<longleftrightarrow> False"
| "canonical_match (c # s) \<longleftrightarrow>
     (c = CHR ''['' \<and> CHR '']'' \<in> set s
       \<and> has_word True ''canonical'' (takeWhile (\<lambda>x. x \<noteq> CHR '']'') s))
     \<or> canonical_match s"

definition deriveVerificationEvidenceFromMemoryContext :: "string \<Rightarrow> VerificationEvidence option" where
  "deriveVerificationEvidenceFromMemoryContext memoryContext =
     (if trim_space memoryContext = [] then None
      else let gap = deriveMemoryGapKind memoryContext;
               ve = \<lparr>ve_HasEvidence = contains memoryContext ''[Retrieved Evidence]'',
                     ve_HasGaps = contains memoryContext ''[Gaps]'',
                     ve_HasFreshnessRisks = contains memoryContext ''[Freshness Risks]'',
                     ve_HasContradictions = contains memoryContext ''[Contradictions]'',
                     ve_HasCanonicalEvidence = canonical_match memoryContext,
                     ve_MemoryGapKind = fst gap, ve_MissingMemoryTiers = snd gap,
                     ve_MemoryConfidenceInfluence = 0,
                     ve_Contradictions = deriveContradictionsFromMemoryContext memoryContext,
                     ve_EvidenceItems = verificationSectionItems memoryContext ''[Retrieved Evidence]'',
                     ve_UnresolvedQuestions = verificationExecutiveSection memoryContext ''Unresolved questions'',
                     ve_VerifiedConclusions = verificationExecutiveSection memoryContext ''Verified conclusions'',
                     ve_StoppingCriteria = verificationExecutiveSection memoryContext ''Stopping criteria''\<rparr>
           in Some (ve\<lparr>ve_MemoryConfidenceInfluence := deriveMemoryConfidenceInfluence ve\<rparr>))"

section \<open>The session\<close>

record TOTOFToolOutcome =
  to_ToolName :: string
  to_Status :: string
  to_Outcome :: string

record TOTOF =
  tt_UserTask :: string
  tt_AuthoritativeObservedResult :: "string list"
  tt_ToolOutcomes :: "TOTOFToolOutcome list"
  tt_OpenIssues :: "string list"
  tt_FinalizationInstruction :: string

record ContinuationArtifact =
  ca_Task :: string
  ca_AuthoritativeObservations :: "string list"
  ca_ToolOutcomes :: "TOTOFToolOutcome list"
  ca_OpenIssues :: "string list"
  ca_RemainingWork :: string
  ca_ContinuationInstruction :: string

record Session =
  s_ID :: string
  s_AgentID :: string
  s_AgentName :: string
  s_Authority :: authority_level
  s_SecurityClaim :: "security_claim option"
  s_Workspace :: string
  s_AllowedPaths :: "string list"
  s_Channel :: string
  s_ScopeKey :: string
  messages :: "Message list"
  pendingCalls :: "ToolCall list"
  memoryContext :: string
  memoryIndex :: string
  taskIntent :: string
  taskComplexity :: string
  taskPlannedAction :: string
  taskSubgoals :: "string list"
  taskRisk :: string
  taskSourceOfTruth :: string
  taskRequiredTiers :: "string list"
  taskFreshness :: bool
  agentRole :: string
  turnWeight :: string
  turnToolProfile :: string
  turnPolicyReason :: string
  sourceArtifacts :: "string list"
  inspectionTarget :: string
  destinationTarget :: string
  verificationEvidence :: "VerificationEvidence option"
  verificationEvidenceDerived :: bool
  selectedToolDefs :: "ToolDef list option"
  lastAssistantPhase :: string
  continuation :: "ContinuationArtifact option"
  hippocampusSummary :: string

definition New_session :: "string \<Rightarrow> string \<Rightarrow> string \<Rightarrow> Session" where
  "New_session sid agentID agentName =
     \<lparr>s_ID = sid, s_AgentID = agentID, s_AgentName = agentName, s_Authority = AuthorityExternal,
      s_SecurityClaim = None, s_Workspace = [], s_AllowedPaths = [], s_Channel = [], s_ScopeKey = [],
      messages = [], pendingCalls = [], memoryContext = [], memoryIndex = [], taskIntent = [],
      taskComplexity = [], taskPlannedAction = [], taskSubgoals = [], taskRisk = [],
      taskSourceOfTruth = [], taskRequiredTiers = [], taskFreshness = False, agentRole = [],
      turnWeight = [], turnToolProfile = [], turnPolicyReason = [], sourceArtifacts = [],
      inspectionTarget = [], destinationTarget = [], verificationEvidence = None,
      verificationEvidenceDerived = False, selectedToolDefs = None, lastAssistantPhase = [],
      continuation = None, hippocampusSummary = []\<rparr>"

definition SetContinuationArtifact :: "ContinuationArtifact option \<Rightarrow> Session \<Rightarrow> Session" where
  "SetContinuationArtifact a s = s\<lparr>continuation := a\<rparr>"

definition ConsumeContinuationArtifact :: "Session \<Rightarrow> ContinuationArtifact option \<times> Session" where
  "ConsumeContinuationArtifact s = (continuation s, s\<lparr>continuation := None\<rparr>)"

definition SetMessages :: "Message list \<Rightarrow> Session \<Rightarrow> Session" where
  "SetMessages ms s = s\<lparr>messages := ms\<rparr>"

definition AddUserMessage :: "string \<Rightarrow> Session \<Rightarrow> Session" where
  "AddUserMessage content s = s\<lparr>messages := messages s @ [plain_message ''user'' content]\<rparr>"

definition AddSystemMessage :: "string \<Rightarrow> Session \<Rightarrow> Session" where
  "AddSystemMessage content s = s\<lparr>messages := messages s @ [plain_message ''system'' content]\<rparr>"

definition SetMemoryContext :: "string \<Rightarrow> Session \<Rightarrow> Session" where
  "SetMemoryContext block s =
     (let s1 = s\<lparr>memoryContext := block\<rparr> in
      if verificationEvidence s = None \<or> verificationEvidenceDerived s
      then s1\<lparr>verificationEvidence := deriveVerificationEvidenceFromMemoryContext block,
              verificationEvidenceDerived := True\<rparr>
      else s1)"

definition SetVerificationEvidence :: "VerificationEvidence option \<Rightarrow> Session \<Rightarrow> Session" where
  "SetVerificationEvidence ve s = s\<lparr>verificationEvidence := ve, verificationEvidenceDerived := False\<rparr>"

definition SetMemoryIndex :: "string \<Rightarrow> Session \<Rightarrow> Session" where
  "SetMemoryIndex block s = s\<lparr>memoryIndex := block\<rparr>"

definition SetTaskVerificationHints ::
  "string \<Rightarrow> string \<Rightarrow> string \<Rightarrow> string list \<Rightarrow> Session \<Rightarrow> Session" where
  "SetTaskVerificationHints intent complexity plannedAction subgoals s =
     s\<lparr>taskIntent := intent, taskComplexity := complexity, taskPlannedAction := plannedAction,
       taskSubgoals := subgoals\<rparr>"

definition SetPerception :: "string \<Rightarrow> string \<Rightarrow> string list \<Rightarrow> bool \<Rightarrow> Session \<Rightarrow> Session" where
  "SetPerception risk sourceOfTruth requiredTiers freshness s =
     s\<lparr>taskRisk := risk, taskSourceOfTruth := sourceOfTruth, taskRequiredTiers := requiredTiers,
       taskFreshness := freshness\<rparr>"

definition SetAgentRole :: "string \<Rightarrow> Session \<Rightarrow> Session" where
  "SetAgentRole role s = s\<lparr>agentRole := role\<rparr>"

definition SetTurnEnvelopePolicy :: "string \<Rightarrow> string \<Rightarrow> string \<Rightarrow> Session \<Rightarrow> Session" where
  "SetTurnEnvelopePolicy weight toolProfile reason s =
     s\<lparr>turnWeight := weight, turnToolProfile := toolProfile, turnPolicyReason := reason\<rparr>"

definition SetSourceArtifacts :: "string list \<Rightarrow> Session \<Rightarrow> Session" where
  "SetSourceArtifacts paths s = s\<lparr>sourceArtifacts := paths\<rparr>"

definition SetInspectionTargetSummary :: "string \<Rightarrow> Session \<Rightarrow> Session" where
  "SetInspectionTargetSummary summary s = s\<lparr>inspectionTarget := summary\<rparr>"

definition SetDestinationTargetSummary :: "string \<Rightarrow> Session \<Rightarrow> Session" where
  "SetDestinationTargetSummary summary s = s\<lparr>destinationTarget := summary\<rparr>"

definition SetSelectedToolDefs :: "ToolDef list option \<Rightarrow> Session \<Rightarrow> Session" where
  "SetSelectedToolDefs defs s = s\<lparr>selectedToolDefs := defs\<rparr>"

definition SetHippocampusSummary :: "string \<Rightarrow> Session \<Rightarrow> Session" where
  "SetHippocampusSummary summary s = s\<lparr>hippocampusSummary := summary\<rparr>"

definition AddAssistantMessageWithPhase :: "string \<Rightarrow> ToolCall list \<Rightarrow> string \<Rightarrow> Session \<Rightarrow> Session" where
  "AddAssistantMessageWithPhase content toolCalls phase s =
     s\<lparr>messages := messages s @ [(plain_message ''assistant'' content)\<lparr>msg_ToolCalls := toolCalls\<rparr>],
       pendingCalls := toolCalls, lastAssistantPhase := phase\<rparr>"

definition AddAssistantMessage :: "string \<Rightarrow> ToolCall list \<Rightarrow> Session \<Rightarrow> Session" where
  "AddAssistantMessage content toolCalls s = AddAssistantMessageWithPhase content toolCalls [] s"

definition AddToolResultWithMetadata ::
  "string \<Rightarrow> string \<Rightarrow> string \<Rightarrow> string \<Rightarrow> bool \<Rightarrow> Session \<Rightarrow> Session" where
  "AddToolResultWithMetadata callID toolName output metadata isError s =
     (let content = (if isError then ''Error: '' @ output else output) in
      s\<lparr>messages := messages s @ [(plain_message ''tool'' content)
          \<lparr>msg_ToolCallID := callID, msg_Name := toolName, msg_Metadata := metadata\<rparr>],
        pendingCalls := filter (\<lambda>tc. tc_ID tc \<noteq> callID) (pendingCalls s)\<rparr>)"

definition AddToolResult :: "string \<Rightarrow> string \<Rightarrow> string \<Rightarrow> bool \<Rightarrow> Session \<Rightarrow> Session" where
  "AddToolResult callID toolName output isError s =
     AddToolResultWithMetadata callID toolName output [] isError s"

text \<open>The search from the end for a message of one role, as in \<^verbatim>\<open>LastAssistantContent\<close> and
  \<^verbatim>\<open>lastUserTask\<close>.\<close>

definition last_content :: "string \<Rightarrow> Message list \<Rightarrow> string" where
  "last_content role ms =
     (case find (\<lambda>m. msg_Role m = role) (rev ms) of None \<Rightarrow> [] | Some m \<Rightarrow> msg_Content m)"

definition LastAssistantContent :: "Session \<Rightarrow> string" where
  "LastAssistantContent s = last_content ''assistant'' (messages s)"

definition TurnCount :: "Session \<Rightarrow> nat" where
  "TurnCount s = length (filter (\<lambda>m. msg_Role m = ''user'') (messages s))"

definition MessageCount :: "Session \<Rightarrow> nat" where
  "MessageCount s = length (messages s)"

text \<open>What the operations of a turn leave alone.\<close>

lemma session_rights [simp]:
  "s_Authority (AddSystemMessage c s) = s_Authority s"
  "s_Authority (AddAssistantMessageWithPhase c calls p s) = s_Authority s"
  "s_Authority (AddAssistantMessage c calls s) = s_Authority s"
  "s_Authority (AddToolResultWithMetadata i n out md e s) = s_Authority s"
  "s_Authority (AddToolResult i n out e s) = s_Authority s"
  "s_Authority (SetContinuationArtifact a s) = s_Authority s"
  "s_Authority (snd (ConsumeContinuationArtifact s)) = s_Authority s"
  "selectedToolDefs (AddSystemMessage c s) = selectedToolDefs s"
  "selectedToolDefs (AddAssistantMessageWithPhase c calls p s) = selectedToolDefs s"
  "selectedToolDefs (AddAssistantMessage c calls s) = selectedToolDefs s"
  "selectedToolDefs (AddToolResultWithMetadata i n out md e s) = selectedToolDefs s"
  "selectedToolDefs (AddToolResult i n out e s) = selectedToolDefs s"
  "selectedToolDefs (SetContinuationArtifact a s) = selectedToolDefs s"
  "selectedToolDefs (snd (ConsumeContinuationArtifact s)) = selectedToolDefs s"
  by (simp_all add: AddSystemMessage_def AddAssistantMessageWithPhase_def AddAssistantMessage_def
      AddToolResultWithMetadata_def AddToolResult_def SetContinuationArtifact_def
      ConsumeContinuationArtifact_def Let_def)

lemma consume_rights:
  "ConsumeContinuationArtifact s = (a, s')
     \<Longrightarrow> s_Authority s' = s_Authority s \<and> selectedToolDefs s' = selectedToolDefs s"
  by (auto simp: ConsumeContinuationArtifact_def)

section \<open>Reflection artifacts\<close>

definition lastUserTask :: "Message list \<Rightarrow> string" where
  "lastUserTask ms = last_content ''user'' ms"

fun window_scan :: "Message list \<Rightarrow> Message list \<Rightarrow> Message list" where
  "window_scan acc [] = acc"
| "window_scan acc (m # ms) =
     (if msg_Role m = ''tool'' then window_scan (acc @ [m]) ms
      else if acc \<noteq> [] then acc else window_scan acc ms)"

definition tool_outcome :: "Message \<Rightarrow> TOTOFToolOutcome" where
  "tool_outcome m =
     (let content = trim_space (msg_Content m) in
      \<lparr>to_ToolName = trim_space (msg_Name m),
       to_Status = (if has_prefix content ''Error:'' then ''error'' else ''ok''),
       to_Outcome = content\<rparr>)"

definition currentObservationWindow :: "Message list \<Rightarrow> string list \<times> TOTOFToolOutcome list" where
  "currentObservationWindow ms =
     (let toolMessages = rev (window_scan [] (rev ms));
          kept = filter (\<lambda>m. trim_space (msg_Content m) \<noteq> []) toolMessages
      in (map (\<lambda>m. trim_space (msg_Content m)) kept, map tool_outcome kept))"

fun dedupe_scan :: "string list \<Rightarrow> string list \<Rightarrow> string list" where
  "dedupe_scan seen [] = []"
| "dedupe_scan seen (item # items) =
     (let trimmed = trim_space item in
      if trimmed = [] then dedupe_scan seen items
      else if trimmed \<in> set seen then dedupe_scan seen items
      else trimmed # dedupe_scan (trimmed # seen) items)"

definition dedupeStrings :: "string list \<Rightarrow> string list" where
  "dedupeStrings items = dedupe_scan [] items"

definition issuePrefixes :: "string list" where
  "issuePrefixes = [''Your previous response failed verification:'',
     ''Post-observation reflection requires more execution:'',
     ''Your previous response was rejected'']"

text \<open>The loop over the history from its end, while fewer than eight issues are known.\<close>

fun system_issues :: "string list \<Rightarrow> Message list \<Rightarrow> string list" where
  "system_issues issues [] = issues"
| "system_issues issues (m # ms) =
     (if length issues < 8 then
        (let content = trim_space (msg_Content m) in
         if msg_Role m = ''system'' \<and> list_ex (has_prefix content) issuePrefixes
         then system_issues (issues @ [content]) ms
         else system_issues issues ms)
      else issues)"

definition evidence_issues :: "VerificationEvidence option \<Rightarrow> string list" where
  "evidence_issues ve =
     (case ve of None \<Rightarrow> []
      | Some e \<Rightarrow>
          map (\<lambda>c. ''Contradiction: '' @ trim_space (ce_Summary c))
            (filter (\<lambda>c. trim_space (ce_Summary c) \<noteq> []) (ve_Contradictions e))
          @ map (\<lambda>q. ''Unresolved question: '' @ q)
              (filter (\<lambda>q. trim_space q \<noteq> []) (ve_UnresolvedQuestions e)))"

definition currentOpenIssues :: "Session \<Rightarrow> string list" where
  "currentOpenIssues s =
     (let failed = map to_Outcome (filter (\<lambda>oc. to_Status oc = ''error'')
                     (snd (currentObservationWindow (messages s))))
      in dedupeStrings (system_issues (failed @ evidence_issues (verificationEvidence s)) (rev (messages s))))"

definition BuildTOTOF :: "string \<Rightarrow> Session \<Rightarrow> TOTOF" where
  "BuildTOTOF finalizationInstruction s =
     (let w = currentObservationWindow (messages s) in
      \<lparr>tt_UserTask = lastUserTask (messages s), tt_AuthoritativeObservedResult = fst w,
       tt_ToolOutcomes = snd w, tt_OpenIssues = currentOpenIssues s,
       tt_FinalizationInstruction = trim_space finalizationInstruction\<rparr>)"

definition BuildContinuationArtifact :: "string \<Rightarrow> string \<Rightarrow> Session \<Rightarrow> ContinuationArtifact" where
  "BuildContinuationArtifact remainingWork continuationInstr s =
     (let totof = BuildTOTOF [] s in
      \<lparr>ca_Task = tt_UserTask totof,
       ca_AuthoritativeObservations = tt_AuthoritativeObservedResult totof,
       ca_ToolOutcomes = tt_ToolOutcomes totof, ca_OpenIssues = tt_OpenIssues totof,
       ca_RemainingWork = trim_space remainingWork,
       ca_ContinuationInstruction = trim_space continuationInstr\<rparr>)"

definition renderBullets :: "string list \<Rightarrow> string" where
  "renderBullets items =
     str_join [newline] (map (\<lambda>t. ''- '' @ t) (filter (\<lambda>t. t \<noteq> []) (map trim_space items)))"

definition render_section :: "string \<Rightarrow> string \<Rightarrow> string list" where
  "render_section title body = [title @ [newline] @ body]"

definition text_section :: "string \<Rightarrow> string \<Rightarrow> string list" where
  "text_section title body =
     (let t = trim_space body in if t = [] then [] else render_section title t)"

definition bullet_section :: "string \<Rightarrow> string list \<Rightarrow> string list" where
  "bullet_section title items = (if items = [] then [] else render_section title (renderBullets items))"

definition outcome_line :: "TOTOFToolOutcome \<Rightarrow> string" where
  "outcome_line oc =
     (let name = trim_space (to_ToolName oc);
          line = (if name = [] then ''tool'' else name);
          status = trim_space (to_Status oc);
          line1 = (if status = [] then line else line @ '' ['' @ status @ '']'');
          body = trim_space (to_Outcome oc)
      in if body = [] then line1 else line1 @ '': '' @ body)"

definition totof_Render :: "TOTOF \<Rightarrow> string" where
  "totof_Render t = trim_space (str_join [newline, newline]
     (text_section ''TASK'' (tt_UserTask t)
      @ bullet_section ''AUTHORITATIVE OBSERVED RESULTS'' (tt_AuthoritativeObservedResult t)
      @ bullet_section ''KEY TOOL OUTCOMES'' (map outcome_line (tt_ToolOutcomes t))
      @ bullet_section ''OPEN ISSUES'' (tt_OpenIssues t)
      @ text_section ''FINALIZATION INSTRUCTION'' (tt_FinalizationInstruction t)))"

definition artifact_messages :: "string \<Rightarrow> string \<Rightarrow> Message list" where
  "artifact_messages instruction payload =
     (if payload = [] then []
      else (if trim_space instruction = [] then [] else [plain_message ''system'' instruction])
        @ [plain_message ''user'' payload])"

definition totof_Messages :: "TOTOF \<Rightarrow> Message list" where
  "totof_Messages t = artifact_messages (tt_FinalizationInstruction t) (totof_Render t)"

definition continuation_Render :: "ContinuationArtifact \<Rightarrow> string" where
  "continuation_Render c = trim_space (str_join [newline, newline]
     (text_section ''TASK'' (ca_Task c)
      @ bullet_section ''AUTHORITATIVE OBSERVED RESULTS'' (ca_AuthoritativeObservations c)
      @ bullet_section ''KEY TOOL OUTCOMES'' (map outcome_line (ca_ToolOutcomes c))
      @ bullet_section ''OPEN ISSUES'' (ca_OpenIssues c)
      @ text_section ''REMAINING WORK'' (ca_RemainingWork c)
      @ text_section ''CONTINUATION INSTRUCTION'' (ca_ContinuationInstruction c)))"

definition continuation_Messages :: "ContinuationArtifact \<Rightarrow> Message list" where
  "continuation_Messages c = artifact_messages (ca_ContinuationInstruction c) (continuation_Render c)"

section \<open>Pending tool calls\<close>

text \<open>
  The operations of a session that write the history or the evidence, in any order, but for \<^verbatim>\<open>SetMessages\<close>: its
  only use is to store a compacted history, and \<open>Compaction\<close> adds that step.
\<close>

datatype session_op =
  OpUser string | OpSystem string | OpAssistant string "ToolCall list" string
  | OpToolResult string string string string bool | OpMemoryContext string
  | OpEvidence "VerificationEvidence option" | OpContinuation "ContinuationArtifact option" | OpConsume

fun session_step :: "session_op \<Rightarrow> Session \<Rightarrow> Session" where
  "session_step (OpUser c) s = AddUserMessage c s"
| "session_step (OpSystem c) s = AddSystemMessage c s"
| "session_step (OpAssistant c calls phase) s = AddAssistantMessageWithPhase c calls phase s"
| "session_step (OpToolResult i n out md err) s = AddToolResultWithMetadata i n out md err s"
| "session_step (OpMemoryContext b) s = SetMemoryContext b s"
| "session_step (OpEvidence ve) s = SetVerificationEvidence ve s"
| "session_step (OpContinuation a) s = SetContinuationArtifact a s"
| "session_step OpConsume s = snd (ConsumeContinuationArtifact s)"

lemmas session_ops = AddUserMessage_def AddSystemMessage_def AddAssistantMessageWithPhase_def
  AddToolResultWithMetadata_def SetMemoryContext_def SetVerificationEvidence_def
  SetContinuationArtifact_def ConsumeContinuationArtifact_def plain_message_def

text \<open>
  The calls of the history's last assistant message that no later tool message answers: what
  a provider would consider unanswered.
\<close>

definition unanswered :: "Message list \<Rightarrow> ToolCall list" where
  "unanswered ms =
     (let after = takeWhile (\<lambda>m. msg_Role m \<noteq> ''assistant'') (rev ms);
          answered = map msg_ToolCallID (filter (\<lambda>m. msg_Role m = ''tool'') after)
      in case dropWhile (\<lambda>m. msg_Role m \<noteq> ''assistant'') (rev ms) of
           [] \<Rightarrow> []
         | m # _ \<Rightarrow> filter (\<lambda>tc. tc_ID tc \<notin> set answered) (msg_ToolCalls m))"

lemma unanswered_snoc:
  "unanswered (ms @ [m]) =
     (if msg_Role m = ''assistant'' then msg_ToolCalls m
      else if msg_Role m = ''tool'' then filter (\<lambda>tc. tc_ID tc \<noteq> msg_ToolCallID m) (unanswered ms)
      else unanswered ms)"
  by (cases "dropWhile (\<lambda>m. msg_Role m \<noteq> ''assistant'') (rev ms)")
    (auto simp: unanswered_def Let_def conj_commute simp del: dropWhile_eq_Nil_conv intro!: filter_cong)

interpretation session_system:
  event_system "New_session sid agent name" session_step "\<lambda>s. pendingCalls s = unanswered (messages s)"
  for sid agent name
proof unfold_locales
  show "pendingCalls (New_session sid agent name) = unanswered (messages (New_session sid agent name))"
    by (simp add: New_session_def unanswered_def)
next
  fix s :: Session and e
  assume "pendingCalls s = unanswered (messages s)"
  then show "pendingCalls (session_step e s) = unanswered (messages (session_step e s))"
    by (cases e) (simp_all add: session_ops unanswered_snoc Let_def)
qed

text \<open>
  Without compaction, however user, system, assistant and tool messages follow each other, the pending tool
  calls are exactly the calls of the last assistant message that no later tool message answers.
\<close>

lemma pending_without_compaction:
  "let s = fold session_step es (New_session sid agent name)
   in pendingCalls s = unanswered (messages s)"
  unfolding Let_def by (rule session_system.inv_run)

section \<open>The observation window\<close>

lemma window_scan_tools:
  "list_all (\<lambda>m. msg_Role m = ''tool'') ts \<Longrightarrow> window_scan acc (ts @ ms) = window_scan (acc @ ts) ms"
  by (induction ts arbitrary: acc) auto

lemma window_scan_skip:
  "list_all (\<lambda>m. msg_Role m \<noteq> ''tool'') ps \<Longrightarrow> window_scan [] (ps @ ms) = window_scan [] ms"
  by (induction ps) auto

lemma window_scan_block:
  assumes "list_all (\<lambda>m. msg_Role m = ''tool'') ts" and "ts \<noteq> []"
    and "list_all (\<lambda>m. msg_Role m \<noteq> ''tool'') ps" and "pre = [] \<or> msg_Role (last pre) \<noteq> ''tool''"
  shows "rev (window_scan [] (rev (pre @ ts @ ps))) = ts"
proof -
  have "window_scan [] (rev (pre @ ts @ ps)) = window_scan (rev ts) (rev pre)"
    using assms(1,3) by (simp add: window_scan_skip window_scan_tools)
  also have "\<dots> = rev ts"
  proof (cases pre rule: rev_cases)
    case (snoc ys y)
    then show ?thesis using assms(2,4) by simp
  qed simp
  finally show ?thesis by simp
qed

lemma system_issues_extend: "set issues \<subseteq> set (system_issues issues ms)"
  by (induction issues ms rule: system_issues.induct) (auto simp: Let_def)

lemma dedupe_scan_spec:
  "distinct (dedupe_scan seen items) \<and> set (dedupe_scan seen items) = trim_space ` set items - {[]} - set seen"
proof (induction items arbitrary: seen)
  case (Cons item items)
  show ?case using Cons.IH [of seen] Cons.IH [of "trim_space item # seen"] by (auto simp: Let_def)
qed simp

lemma open_issue_kept:
  assumes "c \<in> set (map to_Outcome (filter (\<lambda>oc. to_Status oc = ''error'')
      (snd (currentObservationWindow (messages s)))))"
    and "trim_space c = c" and "c \<noteq> []"
  shows "c \<in> set (currentOpenIssues s)"
proof -
  define issues where "issues = system_issues (map to_Outcome (filter (\<lambda>oc. to_Status oc = ''error'')
      (snd (currentObservationWindow (messages s)))) @ evidence_issues (verificationEvidence s)) (rev (messages s))"
  have "c \<in> set issues"
    using assms(1) unfolding issues_def by (intro subsetD [OF system_issues_extend]) (simp del: set_map)
  then have "c \<in> trim_space ` set issues - {[]}" using assms(2,3) by (metis DiffI imageI singletonD)
  then have "c \<in> set (dedupe_scan [] issues)"
    using dedupe_scan_spec [of "[]" issues] by simp
  then show ?thesis by (simp only: currentOpenIssues_def dedupeStrings_def issues_def Let_def)
qed

text \<open>
  The reflection artifact shows the model exactly the last uninterrupted block of tool
  messages: their trimmed non-empty contents in order, marked as errors exactly when the
  content starts with the error prefix, and every failed outcome among the open issues.
\<close>

theorem reflection_sees_last_tool_block:
  assumes "messages s = pre @ tools @ post" and "tools \<noteq> []"
    and "list_all (\<lambda>m. msg_Role m = ''tool'') tools" and "list_all (\<lambda>m. msg_Role m \<noteq> ''tool'') post"
    and "pre = [] \<or> msg_Role (last pre) \<noteq> ''tool''"
  shows "tt_AuthoritativeObservedResult (BuildTOTOF instr s)
           = filter (\<lambda>c. c \<noteq> []) (map (\<lambda>m. trim_space (msg_Content m)) tools)
       \<and> map to_Outcome (tt_ToolOutcomes (BuildTOTOF instr s)) = tt_AuthoritativeObservedResult (BuildTOTOF instr s)
       \<and> (\<forall>c \<in> set (tt_AuthoritativeObservedResult (BuildTOTOF instr s)).
            has_prefix c ''Error:'' \<longrightarrow> c \<in> set (tt_OpenIssues (BuildTOTOF instr s)))
       \<and> distinct (tt_OpenIssues (BuildTOTOF instr s))"
proof -
  define kept where "kept = filter (\<lambda>m. trim_space (msg_Content m) \<noteq> []) tools"
  have window: "currentObservationWindow (messages s)
      = (map (\<lambda>m. trim_space (msg_Content m)) kept, map tool_outcome kept)"
    unfolding currentObservationWindow_def kept_def assms(1)
    using window_scan_block [OF assms(3,2,4,5)] by (simp add: Let_def)
  have "c \<in> set (currentOpenIssues s)"
    if c: "c \<in> (\<lambda>m. trim_space (msg_Content m)) ` set kept" "has_prefix c ''Error:''" for c
  proof -
    from c obtain m where m: "m \<in> set kept" "c = trim_space (msg_Content m)" by blast
    then have "c \<in> set (map to_Outcome (filter (\<lambda>oc. to_Status oc = ''error'') (map tool_outcome kept)))"
      using c(2) by (force simp: tool_outcome_def Let_def)
    moreover have "trim_space c = c" "c \<noteq> []" using m c(2) by (auto simp: has_prefix_def)
    ultimately show ?thesis by (intro open_issue_kept) (simp_all add: window del: set_map set_filter)
  qed
  moreover have "distinct (currentOpenIssues s)"
    unfolding currentOpenIssues_def dedupeStrings_def Let_def using dedupe_scan_spec by blast
  moreover have "filter (\<lambda>c. c \<noteq> []) (map (\<lambda>m. trim_space (msg_Content m)) tools)
      = map (\<lambda>m. trim_space (msg_Content m)) kept"
    by (simp add: kept_def filter_map comp_def)
  ultimately show ?thesis by (simp add: BuildTOTOF_def window Let_def tool_outcome_def comp_def)
qed

definition demo_session :: Session where
  "demo_session =
     fold session_step
       [OpUser ''go'', OpAssistant [] [\<lparr>tc_ID = ''1'', tc_Type = [], tc_Name = ''bash'', tc_Arguments = ''{}''\<rparr>] [],
        OpToolResult ''1'' ''bash'' '' boom '' [] True, OpSystem ''note'']
       (New_session ''s'' ''a'' ''n'')"

theorem reflection_sees_last_tool_block_witness:
  "tt_AuthoritativeObservedResult (BuildTOTOF ''i'' demo_session) = [''Error:  boom'']
   \<and> ''Error:  boom'' \<in> set (tt_OpenIssues (BuildTOTOF ''i'' demo_session))"
proof -
  let ?call = "\<lparr>tc_ID = ''1'', tc_Type = [], tc_Name = ''bash'', tc_Arguments = ''{}''\<rparr>"
  let ?pre = "[plain_message ''user'' ''go'', (plain_message ''assistant'' [])\<lparr>msg_ToolCalls := [?call]\<rparr>]"
  let ?tools = "[(plain_message ''tool'' ''Error:  boom '')\<lparr>msg_ToolCallID := ''1'', msg_Name := ''bash''\<rparr>]"
  have "messages demo_session = ?pre @ ?tools @ [plain_message ''system'' ''note'']"
    by (simp add: demo_session_def session_ops New_session_def)
  note T = reflection_sees_last_tool_block [OF this, of "''i''"]
  have "trim_space ''Error:  boom '' = ''Error:  boom''"
    by (simp add: trim_space_def is_space_def)
  with T show ?thesis by (simp add: plain_message_def has_prefix_def)
qed

end
