(* ===== verification/ToolSemantics.thy ===== *)
theory ToolSemantics
  imports Prelude
begin

text \<open>
  What the agent loop knows of a tool by its name (\<^verbatim>\<open>internal/agent/tools/semantics.go\<close>): the
  operation class, whether a success may be replayed, and the fingerprint of the resource a
  call changes. And the repair of tool-call arguments and tool results
  (\<^verbatim>\<open>internal/agent/tools/normalization.go\<close>). The JSON library is a record of functions the
  definitions take as an argument; the output filter is a function argument.
\<close>

section \<open>The JSON library\<close>

text \<open>
  A decoded value is a string or another value with the result of encoding it again.
  \<open>jl_value_end\<close> is the input offset after decoding one value from the start of the text,
  \<open>jl_canonical\<close> decodes a value and encodes it again (the inner option is an encoding error).
\<close>

datatype json_value = JString string | JOther "string option"

record artifact_proof =
  ap_ProofType :: string
  ap_ArtifactKind :: string
  ap_Path :: string
  ap_Bytes :: int
  ap_ContentSHA256 :: string
  ap_Append :: bool
  ap_ExactContentIncluded :: bool
  ap_Content :: string
  ap_ContentPreview :: string
  ap_ContentTruncated :: bool

record inspection_proof =
  ip_ProofType :: string
  ip_InspectionKind :: string
  ip_ToolName :: string
  ip_Path :: string
  ip_Pattern :: string
  ip_Query :: string
  ip_Count :: int
  ip_Empty :: bool

record artifact_read_proof =
  rp_ProofType :: string
  rp_ArtifactKind :: string
  rp_Path :: string
  rp_Bytes :: int
  rp_ContentSHA256 :: string
  rp_ExactContentIncluded :: bool
  rp_Content :: string
  rp_ContentPreview :: string
  rp_ContentTruncated :: bool

record json_lib =
  jl_valid :: "string \<Rightarrow> bool"
  jl_string :: "string \<Rightarrow> string option"
  jl_value_end :: "string \<Rightarrow> nat option"
  jl_map :: "string \<Rightarrow> (string, json_value) gomap option"
  jl_canonical :: "string \<Rightarrow> string option option"
  jl_artifact :: "string \<Rightarrow> artifact_proof option"
  jl_inspection :: "string \<Rightarrow> inspection_proof option"
  jl_artifact_read :: "string \<Rightarrow> artifact_read_proof option"

definition ParseArtifactProof :: "json_lib \<Rightarrow> string \<Rightarrow> artifact_proof option" where
  "ParseArtifactProof js raw =
     (if raw = [] then None
      else case jl_artifact js raw of None \<Rightarrow> None
      | Some p \<Rightarrow> if ap_ProofType p \<noteq> ''artifact_write'' \<or> ap_Path p = [] \<or> ap_ArtifactKind p = []
                  then None else Some p)"

definition ParseInspectionProof :: "json_lib \<Rightarrow> string \<Rightarrow> inspection_proof option" where
  "ParseInspectionProof js raw =
     (if raw = [] then None
      else case jl_inspection js raw of None \<Rightarrow> None
      | Some p \<Rightarrow> if ip_ProofType p \<noteq> ''inspection_result'' then None else Some p)"

definition ParseArtifactReadProof :: "json_lib \<Rightarrow> string \<Rightarrow> artifact_read_proof option" where
  "ParseArtifactReadProof js raw =
     (if raw = [] then None
      else case jl_artifact_read js raw of None \<Rightarrow> None
      | Some p \<Rightarrow> if rp_ProofType p \<noteq> ''artifact_read'' \<or> rp_Path p = [] \<or> rp_ArtifactKind p = []
                  then None else Some p)"

section \<open>Operation classes\<close>

datatype OperationClass =
  OperationUnknown | OperationInspection | OperationRuntimeContextRead | OperationArtifactRead
  | OperationWorkspaceInspect | OperationCapabilityInventory | OperationTaskInspection
  | OperationArtifactWrite | OperationAuthorityWrite | OperationScheduling | OperationExecution
  | OperationMemoryRead | OperationDelegation

datatype ReplayClass = ReplayUnknown | ReplaySafe | ReplayProtected

definition OperationClassForName :: "string \<Rightarrow> OperationClass" where
  "OperationClassForName name =
     (let n = trim_space (to_lower name) in
      if n \<in> {''obsidian_write'', ''write_file'', ''edit_file''} then OperationArtifactWrite
      else if n = ''read_file'' then OperationArtifactRead
      else if n = ''ingest_policy'' then OperationAuthorityWrite
      else if n = ''cron'' then OperationScheduling
      else if n = ''get_runtime_context'' then OperationRuntimeContextRead
      else if n \<in> {''glob_files'', ''list_directory'', ''search_files'', ''inventory_projects''}
        then OperationWorkspaceInspect
      else if n \<in> {''task-status'', ''list-open-tasks'', ''get_subagent_status''} then OperationTaskInspection
      else if n \<in> {''list-subagent-roster'', ''list-available-skills''} then OperationCapabilityInventory
      else if n \<in> {''recall_memory'', ''search_memories'', ''get_memory_stats''} then OperationMemoryRead
      else if n \<in> {''compose-subagent'', ''orchestrate-subagents'', ''retry-task''} then OperationDelegation
      else if n \<in> {''bash'', ''echo''} then OperationExecution
      else OperationUnknown)"

definition ReplayClassForName :: "string \<Rightarrow> ReplayClass" where
  "ReplayClassForName name =
     (case OperationClassForName name of
        OperationInspection \<Rightarrow> ReplaySafe | OperationRuntimeContextRead \<Rightarrow> ReplaySafe
      | OperationArtifactRead \<Rightarrow> ReplaySafe | OperationWorkspaceInspect \<Rightarrow> ReplaySafe
      | OperationCapabilityInventory \<Rightarrow> ReplaySafe | OperationTaskInspection \<Rightarrow> ReplaySafe
      | OperationMemoryRead \<Rightarrow> ReplaySafe
      | OperationArtifactWrite \<Rightarrow> ReplayProtected | OperationAuthorityWrite \<Rightarrow> ReplayProtected
      | OperationScheduling \<Rightarrow> ReplayProtected | OperationExecution \<Rightarrow> ReplayProtected
      | OperationDelegation \<Rightarrow> ReplayProtected
      | _ \<Rightarrow> ReplayUnknown)"

definition RequiresReplayProtection :: "string \<Rightarrow> bool" where
  "RequiresReplayProtection name \<longleftrightarrow> ReplayClassForName name = ReplayProtected"

definition IsReadOnlyExploration :: "string \<Rightarrow> bool" where
  "IsReadOnlyExploration name \<longleftrightarrow>
     OperationClassForName name \<in> {OperationInspection, OperationRuntimeContextRead,
       OperationArtifactRead, OperationWorkspaceInspect, OperationCapabilityInventory,
       OperationTaskInspection, OperationMemoryRead}"

definition MakesExecutionProgress :: "string \<Rightarrow> bool" where
  "MakesExecutionProgress name \<longleftrightarrow>
     OperationClassForName name \<in> {OperationArtifactWrite, OperationAuthorityWrite,
       OperationScheduling, OperationExecution, OperationDelegation}"

lemma progress_iff_protected: "MakesExecutionProgress name \<longleftrightarrow> RequiresReplayProtection name"
  by (cases "OperationClassForName name")
    (simp_all add: MakesExecutionProgress_def RequiresReplayProtection_def ReplayClassForName_def)

lemma read_only_iff_safe: "IsReadOnlyExploration name \<longleftrightarrow> ReplayClassForName name = ReplaySafe"
  by (cases "OperationClassForName name") (simp_all add: IsReadOnlyExploration_def ReplayClassForName_def)

section \<open>Replay fingerprints\<close>

record ReplayFingerprint =
  fp_Key :: string
  fp_Resource :: string

definition parseJSONMap :: "json_lib \<Rightarrow> string \<Rightarrow> (string, json_value) gomap" where
  "parseJSONMap js raw0 =
     (let raw = trim_space raw0 in
      if raw = [] then [] else case jl_map js raw of None \<Rightarrow> [] | Some m \<Rightarrow> m)"

fun toStringValue :: "json_value \<Rightarrow> string" where
  "toStringValue (JString s) = s"
| "toStringValue (JOther (Some buf)) = buf"
| "toStringValue (JOther None) = []"

fun semantic_scan :: "(string, json_value) gomap \<Rightarrow> string list \<Rightarrow> string" where
  "semantic_scan parsed [] = []"
| "semantic_scan parsed (key # keys) =
     (case m_get parsed key of None \<Rightarrow> semantic_scan parsed keys
      | Some value \<Rightarrow>
          (let t = trim_space (toStringValue value) in
           if t \<noteq> [] then to_lower t else semantic_scan parsed keys))"

definition firstSemanticResource :: "json_lib \<Rightarrow> string \<Rightarrow> string list \<Rightarrow> string" where
  "firstSemanticResource js rawArgs keys = semantic_scan (parseJSONMap js rawArgs) keys"

definition canonicalArgumentShape :: "json_lib \<Rightarrow> string \<Rightarrow> string" where
  "canonicalArgumentShape js raw0 =
     (let raw = trim_space raw0 in
      if raw = [] then []
      else case jl_canonical js raw of
        Some (Some buf) \<Rightarrow> to_lower buf
      | _ \<Rightarrow> to_lower raw)"

definition pathResourceKeys :: "string list" where
  "pathResourceKeys = [''path'', ''file'', ''file_path'', ''target'', ''target_path'', ''note_path'']"

definition authorityResourceKeys :: "string list" where
  "authorityResourceKeys = [''key'', ''name'', ''target'', ''target_id'', ''id'']"

definition replayFingerprintKeyForOperation ::
  "json_lib \<Rightarrow> OperationClass \<Rightarrow> string \<Rightarrow> string \<Rightarrow> string \<times> string" where
  "replayFingerprintKeyForOperation js opc rawArgs metadata =
     (if opc = OperationArtifactWrite then
        (let byArgs = (let path = firstSemanticResource js rawArgs pathResourceKeys in
                       if path \<noteq> [] then (''artifact_write:'' @ path, path) else ([], []))
         in case ParseArtifactProof js metadata of
              Some proof \<Rightarrow>
                (let path = trim_space (to_lower (ap_Path proof)) in
                 if path \<noteq> [] then (''artifact_write:'' @ path, ap_Path proof) else byArgs)
            | None \<Rightarrow> byArgs)
      else if opc = OperationAuthorityWrite then
        (let resource = firstSemanticResource js rawArgs authorityResourceKeys in
         if resource \<noteq> [] then (''authority_write:'' @ resource, resource) else ([], []))
      else ([], []))"

definition ReplayFingerprintForCall :: "json_lib \<Rightarrow> string \<Rightarrow> string \<Rightarrow> ReplayFingerprint" where
  "ReplayFingerprintForCall js name normalizedArgs =
     (let kr = replayFingerprintKeyForOperation js (OperationClassForName name) normalizedArgs [];
          key = (if fst kr = [] then trim_space (to_lower name) @ '':'' @ canonicalArgumentShape js normalizedArgs
                 else fst kr)
      in \<lparr>fp_Key = key, fp_Resource = snd kr\<rparr>)"

definition ReplayFingerprintForResult ::
  "json_lib \<Rightarrow> string \<Rightarrow> string \<Rightarrow> string \<Rightarrow> ReplayFingerprint" where
  "ReplayFingerprintForResult js name normalizedArgs metadata =
     (case ParseArtifactProof js metadata of
        Some proof \<Rightarrow>
          (let path = trim_space (to_lower (ap_Path proof)) in
           if path \<noteq> [] then \<lparr>fp_Key = ''artifact_write:'' @ path, fp_Resource = ap_Path proof\<rparr>
           else ReplayFingerprintForCall js name normalizedArgs)
      | None \<Rightarrow> ReplayFingerprintForCall js name normalizedArgs)"

lemma call_key_nonempty: "fp_Key (ReplayFingerprintForCall js name args) \<noteq> []"
  by (simp add: ReplayFingerprintForCall_def Let_def)

lemma result_key_nonempty: "fp_Key (ReplayFingerprintForResult js name args md) \<noteq> []"
  by (simp add: ReplayFingerprintForResult_def Let_def call_key_nonempty split: option.splits)

section \<open>Normalization\<close>

datatype NormalizationDisposition =
  NormalizationNoTransformNeeded | NormalizationQualifiedTransform | NormalizationTransformFailed
  | NormalizationNoQualifiedTransformer

datatype NormalizationFidelity = NormalizationExact | NormalizationRepaired

record ToolCallNormalizationResult =
  cn_Arguments :: string
  cn_Transformer :: string
  cn_Disposition :: NormalizationDisposition
  cn_Fidelity :: NormalizationFidelity
  cn_Reason :: string

record Result =
  res_Output :: string
  res_Metadata :: string
  res_Source :: string

record ToolResultNormalizationResult =
  rn_Result :: "Result option"
  rn_Transformer :: string
  rn_Disposition :: NormalizationDisposition
  rn_Fidelity :: NormalizationFidelity
  rn_Reason :: string

text \<open>The implementations of the two normalizer interfaces.\<close>

datatype ToolCallNormalizer =
  identityStructuredArgsNormalizer | quotedStructuredArgsNormalizer | embeddedJSONObjectNormalizer

datatype ToolResultNormalizer = filteredTextResultNormalizer

record NormalizationFactory =
  callNormalizers :: "ToolCallNormalizer list"
  resultNormalizers :: "ToolResultNormalizer list"

definition NewNormalizationFactory :: NormalizationFactory where
  "NewNormalizationFactory =
     \<lparr>callNormalizers = [identityStructuredArgsNormalizer, quotedStructuredArgsNormalizer,
        embeddedJSONObjectNormalizer],
      resultNormalizers = [filteredTextResultNormalizer]\<rparr>"

definition isStructuredJSON :: "json_lib \<Rightarrow> string \<Rightarrow> bool" where
  "isStructuredJSON js raw0 =
     (let raw = trim_space raw0 in
      case raw of [] \<Rightarrow> False
      | c # _ \<Rightarrow> (c = CHR ''{'' \<or> c = CHR ''['') \<and> jl_valid js raw)"

definition embedded_candidate :: "json_lib \<Rightarrow> string \<Rightarrow> nat \<Rightarrow> string option" where
  "embedded_candidate js raw start =
     (if raw ! start \<noteq> CHR ''{'' \<and> raw ! start \<noteq> CHR ''['' then None
      else case jl_value_end js (drop start raw) of None \<Rightarrow> None
      | Some off \<Rightarrow>
          (let stop = start + off in
           if stop \<le> start \<or> stop > length raw then None
           else let candidate = trim_space (take (stop - start) (drop start raw)) in
             if isStructuredJSON js candidate then Some candidate else None))"

definition embedded_step :: "json_lib \<Rightarrow> string \<Rightarrow> string \<Rightarrow> nat \<Rightarrow> string" where
  "embedded_step js raw best start =
     (case embedded_candidate js raw start of None \<Rightarrow> best
      | Some candidate \<Rightarrow> if length candidate \<ge> length best then candidate else best)"

definition lastValidEmbeddedJSONObject :: "json_lib \<Rightarrow> string \<Rightarrow> string option" where
  "lastValidEmbeddedJSONObject js raw =
     (let best = foldl (embedded_step js raw) [] [0..<length raw] in
      if trim_space best = [] then None else Some best)"

primrec call_Name :: "ToolCallNormalizer \<Rightarrow> string" where
  "call_Name identityStructuredArgsNormalizer = ''identity_structured_args''"
| "call_Name quotedStructuredArgsNormalizer = ''quoted_structured_args''"
| "call_Name embeddedJSONObjectNormalizer = ''embedded_json_object''"

primrec call_Qualifies :: "ToolCallNormalizer \<Rightarrow> json_lib \<Rightarrow> string \<Rightarrow> bool" where
  "call_Qualifies identityStructuredArgsNormalizer js raw = isStructuredJSON js raw"
| "call_Qualifies quotedStructuredArgsNormalizer js raw0 =
     (let raw = trim_space raw0 in
      length raw \<ge> 2 \<and> hd raw = CHR 0x22
      \<and> (case jl_string js raw of None \<Rightarrow> False | Some inner \<Rightarrow> isStructuredJSON js inner))"
| "call_Qualifies embeddedJSONObjectNormalizer js raw0 =
     (let raw = trim_space raw0 in
      raw \<noteq> [] \<and> \<not> isStructuredJSON js raw \<and> lastValidEmbeddedJSONObject js raw \<noteq> None)"

text \<open>\<^verbatim>\<open>Normalize\<close>: the arguments, the fidelity and the error.\<close>

primrec call_Normalize ::
  "ToolCallNormalizer \<Rightarrow> json_lib \<Rightarrow> string \<Rightarrow> string \<times> NormalizationFidelity \<times> string option" where
  "call_Normalize identityStructuredArgsNormalizer js raw = (trim_space raw, NormalizationExact, None)"
| "call_Normalize quotedStructuredArgsNormalizer js raw =
     (case jl_string js (trim_space raw) of
        None \<Rightarrow> (raw, NormalizationRepaired, Some ''unmarshal error'')
      | Some inner0 \<Rightarrow>
          (let inner = trim_space inner0 in
           if \<not> isStructuredJSON js inner
           then (raw, NormalizationRepaired, Some ''quoted payload did not contain structured json'')
           else (inner, NormalizationRepaired, None)))"
| "call_Normalize embeddedJSONObjectNormalizer js raw =
     (case lastValidEmbeddedJSONObject js (trim_space raw) of
        None \<Rightarrow> (raw, NormalizationRepaired, Some ''no embedded structured json object could be salvaged'')
      | Some candidate \<Rightarrow> (candidate, NormalizationRepaired, None))"

fun normalize_call_with :: "json_lib \<Rightarrow> string \<Rightarrow> ToolCallNormalizer list \<Rightarrow> ToolCallNormalizationResult" where
  "normalize_call_with js raw [] =
     \<lparr>cn_Arguments = raw, cn_Transformer = [], cn_Disposition = NormalizationNoQualifiedTransformer,
      cn_Fidelity = NormalizationRepaired,
      cn_Reason = ''no qualified tool-call argument transformer for malformed structured input''\<rparr>"
| "normalize_call_with js raw (n # ns) =
     (if \<not> call_Qualifies n js raw then normalize_call_with js raw ns
      else case call_Normalize n js raw of
        (args, fidelity, Some err) \<Rightarrow>
          \<lparr>cn_Arguments = raw, cn_Transformer = call_Name n, cn_Disposition = NormalizationTransformFailed,
           cn_Fidelity = fidelity, cn_Reason = err\<rparr>
      | (args, fidelity, None) \<Rightarrow>
          \<lparr>cn_Arguments = args, cn_Transformer = call_Name n,
           cn_Disposition = (if args = raw then NormalizationNoTransformNeeded else NormalizationQualifiedTransform),
           cn_Fidelity = fidelity, cn_Reason = []\<rparr>)"

definition NormalizeToolCall ::
  "json_lib \<Rightarrow> NormalizationFactory option \<Rightarrow> string \<Rightarrow> ToolCallNormalizationResult" where
  "NormalizeToolCall js f raw =
     normalize_call_with js raw
       (callNormalizers (case f of None \<Rightarrow> NewNormalizationFactory | Some g \<Rightarrow> g))"

definition sameResultPayload :: "Result option \<Rightarrow> Result option \<Rightarrow> bool" where
  "sameResultPayload a b =
     (case (a, b) of
        (None, None) \<Rightarrow> True
      | (Some x, Some y) \<Rightarrow> res_Output x = res_Output y \<and> res_Metadata x = res_Metadata y
          \<and> res_Source x = res_Source y
      | _ \<Rightarrow> False)"

primrec result_Normalize ::
  "ToolResultNormalizer \<Rightarrow> (string \<Rightarrow> string) \<Rightarrow> Result option \<Rightarrow> Result option \<times> NormalizationFidelity" where
  "result_Normalize filteredTextResultNormalizer filterToolOutput r =
     (case r of None \<Rightarrow> (None, NormalizationExact)
      | Some x \<Rightarrow>
          (let out = x\<lparr>res_Output := filterToolOutput (res_Output x)\<rparr>
           in (Some out, if res_Output out \<noteq> res_Output x then NormalizationRepaired else NormalizationExact)))"

text \<open>\<^verbatim>\<open>NormalizeToolResult\<close>; the one implementation qualifies for every result that is not nil.\<close>

fun normalize_result_with ::
  "(string \<Rightarrow> string) \<Rightarrow> Result option \<Rightarrow> ToolResultNormalizer list \<Rightarrow> ToolResultNormalizationResult" where
  "normalize_result_with filt r [] =
     \<lparr>rn_Result = r, rn_Transformer = [], rn_Disposition = NormalizationNoQualifiedTransformer,
      rn_Fidelity = NormalizationRepaired, rn_Reason = ''no qualified tool-result transformer''\<rparr>"
| "normalize_result_with filt r (n # ns) =
     (if r = None then normalize_result_with filt r ns
      else let nr = result_Normalize n filt r in
        \<lparr>rn_Result = fst nr, rn_Transformer = ''filtered_text_result'',
         rn_Disposition = (if sameResultPayload (fst nr) r then NormalizationNoTransformNeeded
                           else NormalizationQualifiedTransform),
         rn_Fidelity = snd nr, rn_Reason = []\<rparr>)"

definition NormalizeToolResult ::
  "(string \<Rightarrow> string) \<Rightarrow> NormalizationFactory option \<Rightarrow> Result option \<Rightarrow> ToolResultNormalizationResult" where
  "NormalizeToolResult filt f r =
     normalize_result_with filt r
       (resultNormalizers (case f of None \<Rightarrow> NewNormalizationFactory | Some g \<Rightarrow> g))"

section \<open>Accepted arguments are JSON\<close>

definition accepted :: "ToolCallNormalizationResult \<Rightarrow> bool" where
  "accepted r \<longleftrightarrow> cn_Disposition r = NormalizationNoTransformNeeded
     \<or> cn_Disposition r = NormalizationQualifiedTransform"

lemma structured_trim [simp]: "isStructuredJSON js (trim_space raw) = isStructuredJSON js raw"
  by (simp add: isStructuredJSON_def)

lemma embedded_candidate_ok:
  "embedded_candidate js raw i = Some c \<Longrightarrow> isStructuredJSON js c \<and> trim_space c = c"
  by (auto simp: embedded_candidate_def Let_def split: if_splits option.splits)

lemma embedded_fold_ok:
  "foldl (embedded_step js raw) best is = c \<Longrightarrow> isStructuredJSON js best \<and> trim_space best = best \<or> best = []
     \<Longrightarrow> isStructuredJSON js c \<and> trim_space c = c \<or> c = []"
proof (induction "is" arbitrary: best)
  case (Cons i "is")
  show ?case
    by (rule Cons.IH [of "embedded_step js raw best i"])
      (use Cons.prems embedded_candidate_ok [of js raw i] in
        \<open>auto simp: embedded_step_def split: option.splits\<close>)
qed simp

lemma lastValid_ok:
  "lastValidEmbeddedJSONObject js raw = Some c \<Longrightarrow> isStructuredJSON js c \<and> trim_space c = c"
  using embedded_fold_ok [of js raw "[]" "[0..<length raw]", OF refl]
  by (auto simp: lastValidEmbeddedJSONObject_def Let_def split: if_splits)

lemma call_Normalize_ok:
  assumes "call_Qualifies n js raw" and "call_Normalize n js raw = (args, fid, None)"
  shows "isStructuredJSON js args \<and> trim_space args = args"
  using assms lastValid_ok
  by (cases n) (auto simp: Let_def split: option.splits if_splits)

lemma accepted_structured:
  "accepted (normalize_call_with js raw ns)
     \<Longrightarrow> isStructuredJSON js (cn_Arguments (normalize_call_with js raw ns))
       \<and> trim_space (cn_Arguments (normalize_call_with js raw ns)) = cn_Arguments (normalize_call_with js raw ns)"
proof (induction ns)
  case (Cons n ns)
  obtain args fid err where r: "call_Normalize n js raw = (args, fid, err)" by (cases "call_Normalize n js raw")
  show ?case
  proof (cases "call_Qualifies n js raw")
    case True
    then show ?thesis using Cons.prems r call_Normalize_ok [OF True, of args fid]
      by (cases err) (simp_all add: accepted_def)
  qed (use Cons in simp)
qed (simp add: accepted_def)

text \<open>
  Whatever bytes a model emits as tool arguments, what the default factory lets through
  is a JSON object or array with no surrounding blanks, and repairing it again changes
  nothing; a structured payload is let through unrepaired.
\<close>

theorem normalized_arguments_stable:
  assumes "accepted (NormalizeToolCall js None raw)"
  shows "isStructuredJSON js (cn_Arguments (NormalizeToolCall js None raw))
    \<and> NormalizeToolCall js None (cn_Arguments (NormalizeToolCall js None raw))
        = \<lparr>cn_Arguments = cn_Arguments (NormalizeToolCall js None raw),
           cn_Transformer = ''identity_structured_args'', cn_Disposition = NormalizationNoTransformNeeded,
           cn_Fidelity = NormalizationExact, cn_Reason = []\<rparr>"
proof -
  let ?args = "cn_Arguments (NormalizeToolCall js None raw)"
  have "isStructuredJSON js ?args" "trim_space ?args = ?args"
    using accepted_structured assms unfolding NormalizeToolCall_def by blast+
  moreover have "NormalizeToolCall js None x = \<lparr>cn_Arguments = x, cn_Transformer = ''identity_structured_args'',
      cn_Disposition = NormalizationNoTransformNeeded, cn_Fidelity = NormalizationExact, cn_Reason = []\<rparr>"
    if "isStructuredJSON js x" "trim_space x = x" for x
    using that by (simp add: NormalizeToolCall_def NewNormalizationFactory_def)
  ultimately show ?thesis by blast
qed

definition demo_json :: json_lib where
  "demo_json = \<lparr>jl_valid = (\<lambda>s. s = ''{}'' \<or> s = ''[]''), jl_string = (\<lambda>_. None),
     jl_value_end = (\<lambda>s. if has_prefix s ''{}'' then Some 2 else None), jl_map = (\<lambda>_. Some []),
     jl_canonical = (\<lambda>_. None), jl_artifact = (\<lambda>_. None), jl_inspection = (\<lambda>_. None),
     jl_artifact_read = (\<lambda>_. None)\<rparr>"

theorem normalized_arguments_stable_witness:
  "cn_Arguments (NormalizeToolCall demo_json None ''Sure {} '') = ''{}''
   \<and> cn_Disposition (NormalizeToolCall demo_json None ''{}'') = NormalizationNoTransformNeeded"
proof -
  have run: "NormalizeToolCall demo_json None ''Sure {} '' = \<lparr>cn_Arguments = ''{}'',
      cn_Transformer = ''embedded_json_object'', cn_Disposition = NormalizationQualifiedTransform,
      cn_Fidelity = NormalizationRepaired, cn_Reason = []\<rparr>"
    by code_simp
  then have "accepted (NormalizeToolCall demo_json None ''Sure {} '')" by (simp add: accepted_def)
  from normalized_arguments_stable [OF this] run show ?thesis by simp
qed

end
