(* ===== verification/AgentLoop.thy ===== *)
theory AgentLoop
  imports Policy Session ToolSemantics Boundary
begin

text \<open>
  The agent's think-act-observe-reflect loop, \<^verbatim>\<open>internal/agent/loop.go\<close>. One goroutine runs the
  loop, so its state is passed along explicitly: the loop's own fields, the session and the
  outside world \<open>'w\<close>. The world and what acts on it (the clock, cancellation, the language
  model, tool execution, the context builder, memory ingestion) are the fields of \<open>env\<close>, a
  parameter of every definition; so are the JSON library, the HMAC, the injection detector, the
  output filter and the text of a policy denial. The records handed to the tool-call recorder
  are kept in the order they are handed over; log lines and observer events, which nothing
  reads back, are left out. A Go panic is the value \<open>None\<close>.
\<close>

section \<open>Requests, responses and the outside world\<close>

record Request =
  lr_Model :: string
  lr_Messages :: "Message list"
  lr_Tools :: "ToolDef list"
  lr_IntentClass :: string
  lr_AgentRole :: string
  lr_TurnWeight :: string
  lr_TaskIntent :: string
  lr_TaskComplexity :: string

record Response =
  resp_Model :: string
  resp_Content :: string
  resp_ToolCalls :: "ToolCall list"
  resp_FinishReason :: string
  resp_Provider :: string

record ToolContext =
  tx_SessionID :: string
  tx_AgentID :: string
  tx_AgentName :: string
  tx_Workspace :: string
  tx_AllowedPaths :: "string list"
  tx_ProtectedReadOnlyPaths :: "string list"
  tx_Channel :: string

record ToolExecutionRecord =
  ter_TurnID :: string
  ter_ToolCallID :: string
  ter_ToolName :: string
  ter_Input :: string
  ter_Output :: string
  ter_Status :: string
  ter_DurationMs :: int

record ('w, 'f) env =
  ev_now :: "'w \<Rightarrow> time \<times> 'w"
  ev_ctx_err :: "'w \<Rightarrow> string option \<times> 'w"
  ev_turn_id :: string
  ev_Complete :: "Request \<Rightarrow> 'w \<Rightarrow> (string + Response) \<times> 'w"
  ev_Execute :: "tool \<Rightarrow> string \<Rightarrow> ToolContext \<Rightarrow> 'w \<Rightarrow> (string + Result option) \<times> 'w"
  ev_BuildRequest :: "Session \<Rightarrow> Message list \<Rightarrow> 'w \<Rightarrow> Request \<times> 'w"
  ev_IngestTurn :: "Session \<Rightarrow> 'w \<Rightarrow> 'w"
  ev_mac :: "string \<Rightarrow> string \<Rightarrow> string"
  ev_blocked :: "(string \<Rightarrow> bool) option"
  ev_js :: json_lib
  ev_lib :: "'f go_lib"
  ev_filter :: "string \<Rightarrow> string"
  ev_reason :: "deny_reason \<Rightarrow> string"

section \<open>Loop state\<close>

datatype LoopState = StateThinking | StateActing | StateObserving | StatePersisting
  | StateReflecting | StateIdle | StateDone

datatype Action = ActionThink | ActionAct | ActionObserve | ActionPersist | ActionReflect
  | ActionNoOp | ActionFinish

record LoopConfig =
  MaxTurns :: int
  IdleThreshold :: int
  LoopWindow :: int
  MaxSameRouteNoProgress :: int
  MaxReadOnlyExploration :: int
  MaxLoopDuration :: duration

definition DefaultLoopConfig :: LoopConfig where
  "DefaultLoopConfig = \<lparr>MaxTurns = 25, IdleThreshold = 3, LoopWindow = 3, MaxSameRouteNoProgress = 2,
     MaxReadOnlyExploration = 4, MaxLoopDuration = 300 * second\<rparr>"

record recentInferenceOutcome =
  ro_route :: string
  ro_skeleton :: string
  ro_placeholderOnly :: bool
  ro_toolResultsSeen :: nat
  ro_streak :: int

definition no_outcome :: recentInferenceOutcome where
  "no_outcome = \<lparr>ro_route = [], ro_skeleton = [], ro_placeholderOnly = False, ro_toolResultsSeen = 0,
     ro_streak = 0\<rparr>"

record ReactTraceEntry =
  rt_ToolName :: string
  rt_DurationMs :: int
  rt_Success :: bool
  rt_ResultSummary :: string
  rt_Source :: string

record 'e Loop =
  lp_config :: LoopConfig
  lp_state :: LoopState
  turnCount :: int
  noOpCount :: int
  recentCalls :: "(string \<times> string) list"
  lastNoProgress :: recentInferenceOutcome
  readOnlyExplorationStreak :: int
  failedCalls :: "(string, int) gomap"
  successfulCalls :: "(string, int) gomap"
  traceEntries :: "ReactTraceEntry list"
  doneReason :: string
  lp_tools :: "'e registry"
  lp_policy :: "engine option"
  lp_normalizer :: "NormalizationFactory option"
  lp_recorded :: "ToolExecutionRecord list"

definition NewLoop ::
  "LoopConfig \<Rightarrow> 'e registry \<Rightarrow> engine option \<Rightarrow> NormalizationFactory option \<Rightarrow> 'e Loop" where
  "NewLoop cfg tools pol norm =
     \<lparr>lp_config = cfg, lp_state = StateThinking, turnCount = 0, noOpCount = 0, recentCalls = [],
      lastNoProgress = no_outcome, readOnlyExplorationStreak = 0, failedCalls = [],
      successfulCalls = [], traceEntries = [], doneReason = [], lp_tools = tools, lp_policy = pol,
      lp_normalizer = norm, lp_recorded = []\<rparr>"

definition transition :: "Action \<Rightarrow> 'e Loop \<Rightarrow> 'e Loop" where
  "transition action l =
     (case action of
        ActionThink \<Rightarrow> l\<lparr>noOpCount := 0, lp_state := StateThinking\<rparr>
      | ActionAct \<Rightarrow> l\<lparr>noOpCount := 0, lp_state := StateActing\<rparr>
      | ActionObserve \<Rightarrow> l\<lparr>noOpCount := 0, lp_state := StateObserving\<rparr>
      | ActionPersist \<Rightarrow> l\<lparr>lp_state := StatePersisting\<rparr>
      | ActionReflect \<Rightarrow> l\<lparr>noOpCount := 0, lp_state := StateReflecting\<rparr>
      | ActionNoOp \<Rightarrow>
          l\<lparr>noOpCount := noOpCount l + 1,
            lp_state := (if noOpCount l + 1 \<ge> IdleThreshold (lp_config l) then StateIdle else StateThinking)\<rparr>
      | ActionFinish \<Rightarrow> l\<lparr>lp_state := StateDone\<rparr>)"

definition terminate :: "string \<Rightarrow> 'e Loop \<Rightarrow> 'e Loop" where
  "terminate reason l = l\<lparr>lp_state := StateDone, doneReason := reason\<rparr>"

section \<open>Detectors\<close>

text \<open>\<^verbatim>\<open>detectLoop\<close>: with a window of zero or less the code indexes outside the slice.\<close>

definition detectLoop :: "string \<Rightarrow> string \<Rightarrow> 'e Loop \<Rightarrow> (bool \<times> 'e Loop) option" where
  "detectLoop toolName params l =
     (let calls = recentCalls l @ [(toolName, params)];
          w = LoopWindow (lp_config l)
      in if w \<le> 0 then None
         else let window = (if int (length calls) > w then drop (length calls - nat w) calls else calls);
                  l1 = l\<lparr>recentCalls := window\<rparr>
              in if int (length window) < w then Some (False, l1)
                 else Some (list_all (\<lambda>c. c = hd window) (tl window), l1))"

definition isPlaceholderAssistantContent :: "string \<Rightarrow> bool" where
  "isPlaceholderAssistantContent content \<longleftrightarrow>
     to_lower (trim_space content) \<in> {''[assistant message]'', ''assistant message'', ''[assistant]'',
       ''assistant'', ''[agent message]'', ''agent message'', ''[agent]'', ''agent''}"

definition promissoryPrefixes :: "string list" where
  "promissoryPrefixes =
     [''let me check'', ''let me inspect'', ''let me look'', ''let me take a look'',
      ''i'' @ [CHR 0x27] @ ''ll check'', ''i will check'', ''i'' @ [CHR 0x27] @ ''ll inspect'',
      ''i will inspect'', ''i'' @ [CHR 0x27] @ ''ll look'', ''i will look'',
      ''i'' @ [CHR 0x27] @ ''ll take a look'', ''i will take a look'']"

definition isPromissoryAssistantContent :: "string \<Rightarrow> bool" where
  "isPromissoryAssistantContent content \<longleftrightarrow>
     (let trimmed = to_lower (trim_space content) in
      trimmed \<noteq> [] \<and> list_ex (has_prefix trimmed) promissoryPrefixes)"

definition routeForInferenceOutcome :: "string \<Rightarrow> string \<Rightarrow> string \<Rightarrow> string" where
  "routeForInferenceOutcome requestModel provider0 responseModel =
     (let model = (if trim_space responseModel = [] then trim_space requestModel else trim_space responseModel);
          provider = trim_space provider0
      in if provider \<noteq> [] \<and> model \<noteq> [] then provider @ ''/'' @ model
         else if model \<noteq> [] then model else ''unknown'')"

definition toolResultCount :: "Session \<Rightarrow> nat" where
  "toolResultCount s = length (filter (\<lambda>m. msg_Role m = ''tool'') (messages s))"

fun skeleton_scan :: "string \<Rightarrow> bool \<Rightarrow> string \<Rightarrow> string" where
  "skeleton_scan b lastSpace [] = b"
| "skeleton_scan b lastSpace (r # rs) =
     (let n = (of_char r :: nat);
          bl = (if (97 \<le> n \<and> n \<le> 122) \<or> (48 \<le> n \<and> n \<le> 57) then (b @ [r], False)
                else if n \<in> {32, 10, 9, 13}
                  then (if \<not> lastSpace then (b @ [CHR '' ''], True) else (b, lastSpace))
                else (b, lastSpace))
      in if length (fst bl) \<ge> 160 then fst bl else skeleton_scan (fst bl) (snd bl) rs)"

definition responseSkeleton :: "string \<Rightarrow> bool \<Rightarrow> string" where
  "responseSkeleton content placeholderOnly =
     (if placeholderOnly then ''placeholder''
      else let trimmed = to_lower (trim_space content) in
        if trimmed = [] then ''empty''
        else let skeleton = trim_space (skeleton_scan [] False trimmed) in
          if skeleton = [] then ''empty'' else skeleton)"

definition detectSameRouteNoProgress ::
  "string \<Rightarrow> Response \<Rightarrow> bool \<Rightarrow> nat \<Rightarrow> 'e Loop \<Rightarrow> bool \<times> 'e Loop" where
  "detectSameRouteNoProgress route resp placeholderOnly toolResultsSeen l =
     (let threshold = MaxSameRouteNoProgress (lp_config l) in
      if threshold \<le> 0 then (False, l)
      else if resp_ToolCalls resp \<noteq> [] then (False, l\<lparr>lastNoProgress := no_outcome\<rparr>)
      else let skel = responseSkeleton (resp_Content resp) placeholderOnly;
               prev = lastNoProgress l;
               streak = (if ro_route prev = route \<and> ro_skeleton prev = skel
                           \<and> ro_toolResultsSeen prev = toolResultsSeen then ro_streak prev + 1 else 1)
           in (streak \<ge> threshold,
               l\<lparr>lastNoProgress := \<lparr>ro_route = route, ro_skeleton = skel, ro_placeholderOnly = placeholderOnly,
                  ro_toolResultsSeen = toolResultsSeen, ro_streak = streak\<rparr>\<rparr>))"

definition isDirectExecutionTurn :: "Session \<Rightarrow> bool" where
  "isDirectExecutionTurn s \<longleftrightarrow>
     trim_space (taskPlannedAction s) = ''execute_directly''
     \<and> trim_space (taskIntent s) \<in> {''task'', ''code''}"

definition shouldTerminateReadOnlyExploration :: "Session \<Rightarrow> string \<Rightarrow> 'e Loop \<Rightarrow> bool" where
  "shouldTerminateReadOnlyExploration s toolName l \<longleftrightarrow>
     isDirectExecutionTurn s \<and> IsReadOnlyExploration toolName
     \<and> 0 < MaxReadOnlyExploration (lp_config l)
     \<and> readOnlyExplorationStreak l \<ge> MaxReadOnlyExploration (lp_config l)"

definition turnProfileCountsReadOnlyEvidenceAsProgress :: "string \<Rightarrow> bool" where
  "turnProfileCountsReadOnlyEvidenceAsProgress profile \<longleftrightarrow>
     trim_space profile \<in> {''focused_inspection'', ''focused_analysis_authoring'', ''focused_source_code''}"

definition inspectionEvidenceCountsAsProgress :: "json_lib \<Rightarrow> Session \<Rightarrow> string \<Rightarrow> Result \<Rightarrow> bool" where
  "inspectionEvidenceCountsAsProgress js s toolName result =
     (if \<not> turnProfileCountsReadOnlyEvidenceAsProgress (turnToolProfile s) then False
      else case OperationClassForName toolName of
        OperationWorkspaceInspect \<Rightarrow>
          (case ParseInspectionProof js (res_Metadata result) of
             Some proof \<Rightarrow> ip_Count proof > 0 \<and> \<not> ip_Empty proof | None \<Rightarrow> False)
      | OperationArtifactRead \<Rightarrow>
          (case ParseArtifactReadProof js (res_Metadata result) of
             Some proof \<Rightarrow> trim_space (rp_Content proof) \<noteq> [] | None \<Rightarrow> False)
      | _ \<Rightarrow> False)"

definition noteToolOutcome :: "json_lib \<Rightarrow> Session \<Rightarrow> string \<Rightarrow> Result \<Rightarrow> 'e Loop \<Rightarrow> 'e Loop" where
  "noteToolOutcome js s toolName result l =
     (if MakesExecutionProgress toolName then l\<lparr>readOnlyExplorationStreak := 0\<rparr>
      else if inspectionEvidenceCountsAsProgress js s toolName result then l\<lparr>readOnlyExplorationStreak := 0\<rparr>
      else if IsReadOnlyExploration toolName
        then l\<lparr>readOnlyExplorationStreak := readOnlyExplorationStreak l + 1\<rparr>
      else l\<lparr>readOnlyExplorationStreak := 0\<rparr>)"

definition resetReadOnlyExploration :: "'e Loop \<Rightarrow> 'e Loop" where
  "resetReadOnlyExploration l = l\<lparr>readOnlyExplorationStreak := 0\<rparr>"

definition toolAllowedForTurnSurface :: "Session \<Rightarrow> string \<Rightarrow> bool" where
  "toolAllowedForTurnSurface s toolName =
     (case selectedToolDefs s of None \<Rightarrow> True
      | Some selected \<Rightarrow>
          (let normalized = trim_space toolName in
           normalized \<noteq> []
           \<and> list_ex (\<lambda>d. to_lower (trim_space (tdef_Name d)) = to_lower normalized) selected))"

definition successfulReplayCount :: "json_lib \<Rightarrow> Session \<Rightarrow> string \<Rightarrow> ReplayFingerprint \<Rightarrow> int" where
  "successfulReplayCount js s toolName fingerprint =
     (if fp_Key fingerprint = [] then 0
      else int (length (filter (\<lambda>m. msg_Role m = ''tool'' \<and> msg_Name m = toolName
          \<and> \<not> has_prefix (msg_Content m) ''Error:''
          \<and> fp_Key (ReplayFingerprintForResult js toolName [] (msg_Metadata m)) = fp_Key fingerprint)
        (messages s))))"

definition truncate_to :: "string \<Rightarrow> nat \<Rightarrow> string" where
  "truncate_to s maxLen = (if length s \<le> maxLen then s else take maxLen s @ ''...'')"

definition recordToolExecution :: "ToolExecutionRecord \<Rightarrow> 'e Loop \<Rightarrow> 'e Loop" where
  "recordToolExecution rec l =
     (if ter_ToolName rec = [] then l else l\<lparr>lp_recorded := lp_recorded l @ [rec]\<rparr>)"

text \<open>\<^verbatim>\<open>synthesizeFromToolResults\<close>: the last five tool results, latest first.\<close>

definition synthesizeFromToolResults :: "Session \<Rightarrow> string" where
  "synthesizeFromToolResults s =
     (let toolResults = take 5 (map (\<lambda>m. truncate_to (msg_Content m) 200)
            (filter (\<lambda>m. msg_Role m = ''tool'') (rev (messages s))))
      in if toolResults = [] then LastAssistantContent s
         else foldl (\<lambda>sb r. (if sb \<noteq> [] then sb @ [newline] else sb) @ r) [] toolResults)"

definition instructionReminder :: string where
  "instructionReminder = ''[Instruction reminder: Stay focused on the user'' @ [CHR 0x27] @
     ''s request. Use tools when needed. Be concise and direct. If a task is complete, say so clearly.]''"

definition injectInstructionReminder :: "Session \<Rightarrow> Session" where
  "injectInstructionReminder s = AddSystemMessage instructionReminder s"

section \<open>Thinking and reflecting\<close>

datatype loop_error = ErrMaxTurns int | ErrThinking string | ErrReflection string | ErrContext string

fun error_text :: "loop_error \<Rightarrow> string" where
  "error_text (ErrMaxTurns n) = ''max turns exceeded: exceeded max turns ('' @ show_int n @ '')''"
| "error_text (ErrThinking e) = ''llm error: thinking failed: '' @ e"
| "error_text (ErrReflection e) = ''llm error: reflection failed: '' @ e"
| "error_text (ErrContext e) = e"

type_synonym ('w, 'e) config = "'e Loop \<times> Session \<times> 'w"

text \<open>What \<^verbatim>\<open>think\<close> makes of the model's answer.\<close>

definition think_answer :: "('w, 'f) env \<Rightarrow> Request \<Rightarrow> Response \<Rightarrow> 'e Loop \<Rightarrow> Session \<Rightarrow> Action \<times> 'e Loop \<times> Session" where
  "think_answer env req resp0 l s =
     (let content = SanitizeModelOutput (ev_mac env) (ev_blocked env) (resp_Content resp0) [];
          resp = resp0\<lparr>resp_Content := content\<rparr>;
          placeholderOnly = isPlaceholderAssistantContent content;
          promissoryOnly = isPromissoryAssistantContent content;
          nonTerminalFiller = (placeholderOnly \<or> (promissoryOnly \<and> isDirectExecutionTurn s));
          route = routeForInferenceOutcome (lr_Model req) (resp_Provider resp) (resp_Model resp);
          (churn, l1) = detectSameRouteNoProgress route resp nonTerminalFiller (toolResultCount s) l
      in if churn then
           let l2 = terminate ''loop terminated: same-route no-progress churn'' l1
           in if nonTerminalFiller then (ActionFinish, l2, s)
              else (ActionFinish, l2, AddAssistantMessageWithPhase content [] ''think'' s)
         else if resp_ToolCalls resp \<noteq> [] then
           (ActionAct, l1,
            AddAssistantMessageWithPhase (if nonTerminalFiller then [] else content)
              (resp_ToolCalls resp) ''think'' s)
         else if nonTerminalFiller then (ActionNoOp, l1, s)
         else (ActionFinish, l1, AddAssistantMessageWithPhase content [] ''think'' s))"

definition think :: "('w, 'f) env \<Rightarrow> ('w, 'e) config \<Rightarrow> (loop_error + Action) \<times> ('w, 'e) config" where
  "think env c =
     (case c of (l0, s0, w0) \<Rightarrow>
      let l = (if lp_state l0 = StateThinking \<or> lp_state l0 = StateReflecting
               then l0\<lparr>turnCount := turnCount l0 + 1\<rparr> else l0)
      in if turnCount l > MaxTurns (lp_config l)
         then (Inl (ErrMaxTurns (MaxTurns (lp_config l))), l, s0, w0)
         else
           let (cont, s) = ConsumeContinuationArtifact s0;
               (req, w1) = ev_BuildRequest env s
                 (case cont of Some a \<Rightarrow> continuation_Messages a | None \<Rightarrow> messages s) w0;
               (answer, w) = ev_Complete env req w1
           in case answer of
                Inl e \<Rightarrow> (Inl (ErrThinking e), l, s, w)
              | Inr resp \<Rightarrow>
                  let (action, l1, s1) = think_answer env req resp l s in (Inr action, l1, s1, w))"

definition reflectContinuePrefix :: string where
  "reflectContinuePrefix = ''CONTINUE_EXECUTION''"

definition reflectInstruction :: string where
  "reflectInstruction = ''Post-observation reflection mode: tools are disabled. You are receiving a canonical TOTOF artifact: task, authoritative observed results, key tool outcomes, open issues, and a bounded finalization instruction. Interpret the artifact, finalize directly when the observed results are sufficient, and only if more execution is strictly required start the first line with CONTINUE_EXECUTION and then briefly explain what remains to be done.''"

definition continuationInstruction :: string where
  "continuationInstruction = ''Post-observation continuation mode: you are resuming execution from a canonical continuation artifact rather than raw session replay. Use the authoritative observations, tool outcomes, and explicit remaining-work summary to decide the next bounded execution step. Continue execution only as far as needed to close the named remaining work, then return to observation/reflection.''"

definition llmIntentClassForSession :: "Session \<Rightarrow> string" where
  "llmIntentClassForSession s =
     (let i = trim_space (to_lower (taskIntent s)) in
      if i \<in> {''conversational'', ''creative''} then ''CONVERSATION''
      else if i = ''code'' then ''CODING''
      else if i = ''task'' then ''TOOL_USE''
      else if i = ''question'' then ''EXECUTION''
      else [])"

text \<open>What \<^verbatim>\<open>reflect\<close> makes of the model's answer.\<close>

definition reflect_answer :: "('w, 'f) env \<Rightarrow> Response \<Rightarrow> Session \<Rightarrow> Action \<times> Session" where
  "reflect_answer env resp s =
     (let content = SanitizeModelOutput (ev_mac env) (ev_blocked env) (resp_Content resp) [];
          trimmed = trim_space content
      in if has_prefix trimmed reflectContinuePrefix then
           let remainder = trim_space (trim_prefix trimmed reflectContinuePrefix);
               artifact = BuildContinuationArtifact remainder continuationInstruction s
           in (ActionThink, SetContinuationArtifact (Some artifact) s)
         else if resp_ToolCalls resp \<noteq> [] then
           let artifact = BuildContinuationArtifact trimmed continuationInstruction s
           in (ActionAct, AddAssistantMessageWithPhase content (resp_ToolCalls resp) ''reflect''
                 (SetContinuationArtifact (Some artifact) s))
         else if trimmed = [] then
           (ActionFinish,
            (if toolResultCount s > 0 then
               let text = trim_space (synthesizeFromToolResults s)
               in if text \<noteq> [] then AddAssistantMessageWithPhase text [] ''reflect'' s else s
             else s))
         else (ActionFinish, AddAssistantMessageWithPhase content [] ''reflect'' s))"

definition reflect :: "('w, 'f) env \<Rightarrow> ('w, 'e) config \<Rightarrow> (loop_error + Action) \<times> ('w, 'e) config" where
  "reflect env c =
     (case c of (l0, s, w0) \<Rightarrow>
      let l = (if lp_state l0 = StateReflecting then l0\<lparr>turnCount := turnCount l0 + 1\<rparr> else l0)
      in if turnCount l > MaxTurns (lp_config l)
         then (Inl (ErrMaxTurns (MaxTurns (lp_config l))), l, s, w0)
         else
           let totof = BuildTOTOF reflectInstruction s;
               req = \<lparr>lr_Model = [], lr_Messages = totof_Messages totof, lr_Tools = [],
                      lr_IntentClass = llmIntentClassForSession s, lr_AgentRole = agentRole s,
                      lr_TurnWeight = turnWeight s, lr_TaskIntent = taskIntent s,
                      lr_TaskComplexity = taskComplexity s\<rparr>;
               (answer, w) = ev_Complete env req w0
           in case answer of
                Inl e \<Rightarrow> (Inl (ErrReflection e), l, s, w)
              | Inr resp \<Rightarrow> let (action, s1) = reflect_answer env resp s in (Inr action, l, s1, w))"

section \<open>Acting\<close>

definition call_record ::
  "('w, 'f) env \<Rightarrow> ToolCall \<Rightarrow> string \<Rightarrow> string \<Rightarrow> string \<Rightarrow> int \<Rightarrow> ToolExecutionRecord" where
  "call_record env tc input output status ms =
     \<lparr>ter_TurnID = ev_turn_id env, ter_ToolCallID = tc_ID tc, ter_ToolName = tc_Name tc,
      ter_Input = input, ter_Output = output, ter_Status = status, ter_DurationMs = ms\<rparr>"

text \<open>A call answered without executing the tool: the result message and its record.\<close>

definition answer_call ::
  "('w, 'f) env \<Rightarrow> ToolCall \<Rightarrow> string \<Rightarrow> string \<Rightarrow> bool \<Rightarrow> string \<Rightarrow> ('w, 'e) config \<Rightarrow> ('w, 'e) config" where
  "answer_call env tc input output isError status c =
     (case c of (l, s, w) \<Rightarrow>
      (recordToolExecution (call_record env tc input output status 0) l,
       AddToolResult (tc_ID tc) (tc_Name tc) output isError s, w))"

definition m_count :: "(string, int) gomap \<Rightarrow> string \<Rightarrow> int" where
  "m_count m k = (case m_get m k of None \<Rightarrow> 0 | Some n \<Rightarrow> n)"

definition m_incr :: "string \<Rightarrow> (string, int) gomap \<Rightarrow> (string, int) gomap" where
  "m_incr k m = m_put k (m_count m k + 1) m"

definition to_ms :: "duration \<Rightarrow> int" where
  "to_ms d = (if d < 0 then - ((- d) div millisecond) else d div millisecond)"

definition callKeyOf :: "ToolCall \<Rightarrow> string" where
  "callKeyOf tc = tc_Name tc @ '':'' @ tc_Arguments tc"

definition tool_context :: "Session \<Rightarrow> ToolContext" where
  "tool_context s = \<lparr>tx_SessionID = s_ID s, tx_AgentID = s_AgentID s, tx_AgentName = s_AgentName s,
     tx_Workspace = s_Workspace s, tx_AllowedPaths = s_AllowedPaths s,
     tx_ProtectedReadOnlyPaths = sourceArtifacts s, tx_Channel = s_Channel s\<rparr>"

text \<open>The end of an iteration whose tool failed, and of one whose tool succeeded.\<close>

definition record_failure ::
  "('w, 'f) env \<Rightarrow> ToolCall \<Rightarrow> string \<Rightarrow> int \<Rightarrow> string \<Rightarrow> 'e Loop \<Rightarrow> Session \<Rightarrow> 'e Loop \<times> Session" where
  "record_failure env tc execArgs ms err l s =
     (let l1 = (resetReadOnlyExploration l)
                 \<lparr>failedCalls := m_incr (callKeyOf tc) (failedCalls l),
                  traceEntries := traceEntries l @
                    [\<lparr>rt_ToolName = tc_Name tc, rt_DurationMs = ms, rt_Success = False,
                      rt_ResultSummary = truncate_to err 120, rt_Source = ''builtin''\<rparr>]\<rparr>;
          output = ''error: '' @ err
      in (recordToolExecution (call_record env tc execArgs output ''error'' ms) l1,
          AddToolResult (tc_ID tc) (tc_Name tc) output True s))"

definition record_success ::
  "('w, 'f) env \<Rightarrow> ToolCall \<Rightarrow> string \<Rightarrow> int \<Rightarrow> Result \<Rightarrow> 'e Loop \<Rightarrow> Session \<Rightarrow> 'e Loop \<times> Session" where
  "record_success env tc execArgs ms result1 l s =
     (let result = (case ev_blocked env of
             Some b \<Rightarrow> if b (res_Output result1)
               then result1\<lparr>res_Output := ''[Tool output filtered: potential injection detected]''\<rparr>
               else result1
           | None \<Rightarrow> result1);
          l1 = l\<lparr>traceEntries := traceEntries l @
                [\<lparr>rt_ToolName = tc_Name tc, rt_DurationMs = ms, rt_Success = True,
                  rt_ResultSummary = truncate_to (res_Output result) 120,
                  rt_Source = res_Source result\<rparr>]\<rparr>;
          s1 = AddToolResultWithMetadata (tc_ID tc) (tc_Name tc) (res_Output result)
                 (res_Metadata result) False s;
          l2 = (if RequiresReplayProtection (tc_Name tc)
                then l1\<lparr>successfulCalls := m_incr
                  (fp_Key (ReplayFingerprintForResult (ev_js env) (tc_Name tc) execArgs (res_Metadata result)))
                  (successfulCalls l1)\<rparr>
                else l1);
          l3 = noteToolOutcome (ev_js env) s1 (tc_Name tc) result l2
      in (recordToolExecution (call_record env tc execArgs (res_Output result) ''success'' ms) l3, s1))"

text \<open>Executing one admitted call; a tool that returns neither a result nor an error makes the
  loop dereference a nil pointer.\<close>

definition execute_call ::
  "('w, 'f) env \<Rightarrow> ToolCall \<Rightarrow> tool \<Rightarrow> string \<Rightarrow> ('w, 'e) config \<Rightarrow> ('w, 'e) config option" where
  "execute_call env tc tool execArgs c =
     (case c of (l, s, w0) \<Rightarrow>
      let (toolStart, w1) = ev_now env w0;
          (answer, w2) = ev_Execute env tool execArgs (tool_context s) w1;
          (toolEnd, w) = ev_now env w2;
          ms = to_ms (time_sub toolEnd toolStart)
      in case answer of
           Inl err \<Rightarrow> let (l1, s1) = record_failure env tc execArgs ms err l s in Some (l1, s1, w)
         | Inr result0 \<Rightarrow>
             let norm = NormalizeToolResult (ev_filter env) (lp_normalizer l) result0 in
             case (case rn_Result norm of None \<Rightarrow> result0 | Some r \<Rightarrow> Some r) of
               None \<Rightarrow> None
             | Some result \<Rightarrow> let (l1, s1) = record_success env tc execArgs ms result l s in Some (l1, s1, w))"

text \<open>The policy check of one call.\<close>

definition policy_decision ::
  "('w, 'f) env \<Rightarrow> ToolCall \<Rightarrow> string \<Rightarrow> ('w, 'e) config \<Rightarrow> decision_result \<times> ('w, 'e) config" where
  "policy_decision env tc execArgs c =
     (case c of (l, s, w0) \<Rightarrow>
      case lp_policy l of None \<Rightarrow> (Allow, c)
      | Some engine \<Rightarrow>
          let (now, w) = ev_now env w0;
              (engine', decision) = EvaluateWithTools (ev_lib env) now
                \<lparr>req_ToolName = tc_Name tc, req_Arguments = execArgs, req_Authority = s_Authority s,
                 req_SecurityClaim = None\<rparr> (Some (lp_tools l)) engine
          in (decision, l\<lparr>lp_policy := Some engine'\<rparr>, s, w))"

definition normalized_args :: "('w, 'f) env \<Rightarrow> ToolCall \<Rightarrow> 'e Loop \<Rightarrow> ToolCallNormalizationResult" where
  "normalized_args env tc l = NormalizeToolCall (ev_js env) (lp_normalizer l) (tc_Arguments tc)"

definition prior_successes :: "('w, 'f) env \<Rightarrow> ToolCall \<Rightarrow> string \<Rightarrow> 'e Loop \<Rightarrow> Session \<Rightarrow> int" where
  "prior_successes env tc execArgs l s =
     (let fp = ReplayFingerprintForCall (ev_js env) (tc_Name tc) execArgs in
      max (m_count (successfulCalls l) (fp_Key fp)) (successfulReplayCount (ev_js env) s (tc_Name tc) fp))"

text \<open>The checks between a known tool and its execution.\<close>

definition check_and_execute ::
  "('w, 'f) env \<Rightarrow> ToolCall \<Rightarrow> tool \<Rightarrow> ('w, 'e) config \<Rightarrow> ('w, 'e) config option" where
  "check_and_execute env tc tool c =
     (case c of (l, s, w) \<Rightarrow>
      let norm = normalized_args env tc l in
      if cn_Disposition norm = NormalizationTransformFailed
         \<or> cn_Disposition norm = NormalizationNoQualifiedTransformer then
        let output = ''[Tool '' @ tc_Name tc @ '' rejected]: malformed structured arguments could not be normalized before execution''
              @ (if cn_Reason norm \<noteq> [] then '' ('' @ cn_Reason norm @ '')'' else [])
        in Some (answer_call env tc (tc_Arguments tc) output True ''invalid_arguments''
                   (resetReadOnlyExploration l, s, w))
      else
        let execArgs = (if cn_Arguments norm = [] then tc_Arguments tc else cn_Arguments norm) in
        if prior_successes env tc execArgs l s > 0 \<and> RequiresReplayProtection (tc_Name tc) then
          Some (answer_call env tc execArgs
            (''[Tool '' @ tc_Name tc @ '' suppressed]: duplicate replay of a successful side-effecting call was blocked to avoid repeating non-idempotent work'')
            False ''suppressed_replay'' c)
        else
          let (decision, c1) = policy_decision env tc execArgs c in
          case decision of
            Deny rule reason \<Rightarrow>
              (case c1 of (l1, s1, w1) \<Rightarrow>
               Some (answer_call env tc execArgs (''Policy denied: '' @ ev_reason env reason) True ''denied''
                       (resetReadOnlyExploration l1, s1, w1)))
          | Allow \<Rightarrow> execute_call env tc tool execArgs c1)"

text \<open>One pending call: \<open>Some action\<close> when the loop over the calls returns.\<close>

definition act_call ::
  "('w, 'f) env \<Rightarrow> ToolCall \<Rightarrow> ('w, 'e) config \<Rightarrow> (Action option \<times> ('w, 'e) config) option" where
  "act_call env tc c =
     (case c of (l0, s, w) \<Rightarrow>
      case detectLoop (tc_Name tc) (tc_Arguments tc) l0 of
        None \<Rightarrow> None
      | Some (looping, l) \<Rightarrow>
          if looping then Some (Some ActionFinish, terminate ''loop detected: repeated tool calls'' l, s, w)
          else if shouldTerminateReadOnlyExploration s (tc_Name tc) l then
            Some (Some ActionFinish, terminate ''loop terminated: exploratory read-only tool churn'' l,
              AddAssistantMessage ''I stopped because this direct execution turn kept gathering context without taking action. The framework treated that as exploratory churn instead of continuing to spend tool calls.'' [] s, w)
          else
            let failCount = m_count (failedCalls l) (callKeyOf tc) in
            if failCount \<ge> 2 then
              Some (None, answer_call env tc (tc_Arguments tc)
                (''[Tool '' @ tc_Name tc @ '' suppressed]: This call was already attempted and failed ''
                  @ show_int failCount @ '' times'') True ''suppressed'' (resetReadOnlyExploration l, s, w))
            else if \<not> toolAllowedForTurnSurface s (tc_Name tc) then
              Some (None, answer_call env tc (tc_Arguments tc)
                (''[Tool '' @ tc_Name tc @ '' rejected]: this tool was not on the selected tool surface for the current turn'')
                True ''out_of_surface'' (resetReadOnlyExploration l, s, w))
            else case Get (tc_Name tc) (lp_tools l) of
              None \<Rightarrow> Some (None, answer_call env tc (tc_Arguments tc) ''unknown tool'' True ''unknown_tool''
                (resetReadOnlyExploration l, s, w))
            | Some tool \<Rightarrow> map_option (Pair None) (check_and_execute env tc tool (l, s, w)))"

fun act_calls :: "('w, 'f) env \<Rightarrow> ToolCall list \<Rightarrow> ('w, 'e) config \<Rightarrow> (Action \<times> ('w, 'e) config) option" where
  "act_calls env [] c = Some (ActionObserve, c)"
| "act_calls env (tc # tcs) c =
     (case act_call env tc c of
        None \<Rightarrow> None
      | Some (Some action, c1) \<Rightarrow> Some (action, c1)
      | Some (None, c1) \<Rightarrow> act_calls env tcs c1)"

definition act :: "('w, 'f) env \<Rightarrow> ('w, 'e) config \<Rightarrow> (Action \<times> ('w, 'e) config) option" where
  "act env c =
     (case c of (l, s, w) \<Rightarrow>
      if pendingCalls s = [] then Some (ActionNoOp, c) else act_calls env (pendingCalls s) c)"

section \<open>Run\<close>

datatype run_result = Returned string "loop_error option" | Panicked

definition after_llm ::
  "string \<Rightarrow> (loop_error + Action) \<times> ('w, 'e) config
     \<Rightarrow> ('w, 'e) config + run_result \<times> ('w, 'e) config" where
  "after_llm what r =
     (case r of
        (Inl (ErrMaxTurns n), (l, s, w)) \<Rightarrow>
          Inr (Returned (LastAssistantContent s) (Some (ErrMaxTurns n)), (terminate ''max turns exceeded'' l, s, w))
      | (Inl e, (l, s, w)) \<Rightarrow>
          Inr (Returned [] (Some e), (terminate (what @ '' error: '' @ error_text e) l, s, w))
      | (Inr action, (l, s, w)) \<Rightarrow> Inl (transition action l, s, w))"

definition loop_body ::
  "('w, 'f) env \<Rightarrow> time \<Rightarrow> ('w, 'e) config \<Rightarrow> ('w, 'e) config + run_result \<times> ('w, 'e) config" where
  "loop_body env deadline c =
     (case c of (l, s, w0) \<Rightarrow>
      let (now, w1) = ev_now env w0 in
      if now > deadline then
        Inr (Returned (LastAssistantContent s) None, (terminate ''wall-clock deadline exceeded'' l, s, w1))
      else let (cancelled, w) = ev_ctx_err env w1 in
      case cancelled of
        Some e \<Rightarrow> Inr (Returned [] (Some (ErrContext e)), (terminate ''context cancelled'' l, s, w))
      | None \<Rightarrow>
          (case lp_state l of
             StateDone \<Rightarrow>
               let content = LastAssistantContent s
               in Inr (Returned (if content = [] \<and> turnCount l > 1 then synthesizeFromToolResults s else content)
                         None, (l, s, w))
           | StateThinking \<Rightarrow>
               after_llm ''thinking'' (think env (l,
                 (if turnCount l \<ge> 8 \<and> turnCount l mod 4 = 0 then injectInstructionReminder s else s), w))
           | StateActing \<Rightarrow>
               (case act env (l, s, w) of
                  None \<Rightarrow> Inr (Panicked, (l, s, w))
                | Some (action, (l1, s1, w2)) \<Rightarrow> Inl (transition action l1, s1, w2))
           | StateObserving \<Rightarrow> Inl (transition ActionPersist l, s, w)
           | StatePersisting \<Rightarrow> Inl (transition ActionReflect l, s, ev_IngestTurn env s w)
           | StateReflecting \<Rightarrow> after_llm ''reflection'' (reflect env (l, s, w))
           | StateIdle \<Rightarrow>
               Inr (Returned (LastAssistantContent s) None, (terminate ''idle: no progress'' l, s, w))))"

primrec run_loop ::
  "('w, 'f) env \<Rightarrow> time \<Rightarrow> nat \<Rightarrow> ('w, 'e) config \<Rightarrow> (run_result \<times> ('w, 'e) config) option" where
  "run_loop env deadline 0 c = None"
| "run_loop env deadline (Suc n) c =
     (case loop_body env deadline c of Inl c1 \<Rightarrow> run_loop env deadline n c1 | Inr r \<Rightarrow> Some r)"

definition loopDuration :: "LoopConfig \<Rightarrow> duration" where
  "loopDuration cfg = (if MaxLoopDuration cfg \<le> 0 then 300 * second else MaxLoopDuration cfg)"

definition Run :: "('w, 'f) env \<Rightarrow> nat \<Rightarrow> ('w, 'e) config \<Rightarrow> (run_result \<times> ('w, 'e) config) option" where
  "Run env fuel c =
     (case c of (l, s, w0) \<Rightarrow>
      let (now, w) = ev_now env w0 in run_loop env (now + loopDuration (lp_config l)) fuel (l, s, w))"

section \<open>What each phase leaves alone\<close>

text \<open>
  The fields of the loop that neither thinking, reflecting nor answering a call without
  executing it may change: the configuration, the tools, the failure and success counts and the
  flight recorder.
\<close>

definition core_fields :: "'e Loop \<Rightarrow> LoopConfig \<times> 'e registry \<times> NormalizationFactory option
    \<times> (string, int) gomap \<times> (string, int) gomap \<times> ReactTraceEntry list" where
  "core_fields l = (lp_config l, lp_tools l, lp_normalizer l, failedCalls l, successfulCalls l, traceEntries l)"

lemma core_fields_simps [simp]:
  "core_fields (l\<lparr>turnCount := n\<rparr>) = core_fields l"
  "core_fields (l\<lparr>lastNoProgress := r\<rparr>) = core_fields l"
  "core_fields (l\<lparr>recentCalls := cs\<rparr>) = core_fields l"
  "core_fields (l\<lparr>lp_policy := pol\<rparr>) = core_fields l"
  "core_fields (terminate reason l) = core_fields l"
  "core_fields (transition a l) = core_fields l"
  "core_fields (resetReadOnlyExploration l) = core_fields l"
  "core_fields (recordToolExecution rec l) = core_fields l"
  by (simp_all add: core_fields_def terminate_def transition_def resetReadOnlyExploration_def
      recordToolExecution_def split: Action.splits)

lemma kept_simps [simp]:
  "lp_policy (terminate reason l) = lp_policy l" "turnCount (terminate reason l) = turnCount l"
  "lp_policy (transition a l) = lp_policy l" "turnCount (transition a l) = turnCount l"
  "lp_policy (resetReadOnlyExploration l) = lp_policy l"
  "turnCount (resetReadOnlyExploration l) = turnCount l"
  "lp_policy (recordToolExecution rec l) = lp_policy l"
  "turnCount (recordToolExecution rec l) = turnCount l"
  by (simp_all add: terminate_def transition_def resetReadOnlyExploration_def recordToolExecution_def
      split: Action.splits)

lemma core_config: "core_fields l = core_fields l' \<Longrightarrow> lp_config l = lp_config l'"
  by (simp add: core_fields_def)

lemma detectSameRoute_frame:
  assumes "detectSameRouteNoProgress route resp ph n l = (churn, l')"
  shows "core_fields l' = core_fields l \<and> lp_policy l' = lp_policy l \<and> turnCount l' = turnCount l"
  using assms by (auto simp: detectSameRouteNoProgress_def Let_def split: if_splits)

lemma detectLoop_frame:
  assumes "detectLoop n a l = Some (b, l')"
  shows "core_fields l' = core_fields l \<and> lp_policy l' = lp_policy l \<and> turnCount l' = turnCount l"
  using assms by (auto simp: detectLoop_def Let_def split: if_splits)

lemma think_answer_frame:
  assumes "think_answer env req resp l s = (a, l', s')"
  shows "core_fields l' = core_fields l \<and> lp_policy l' = lp_policy l \<and> turnCount l' = turnCount l
    \<and> s_Authority s' = s_Authority s \<and> selectedToolDefs s' = selectedToolDefs s"
proof -
  let ?content = "SanitizeModelOutput (ev_mac env) (ev_blocked env) (resp_Content resp) []"
  let ?filler = "isPlaceholderAssistantContent ?content
    \<or> isPromissoryAssistantContent ?content \<and> isDirectExecutionTurn s"
  obtain churn l1 where d: "detectSameRouteNoProgress
      (routeForInferenceOutcome (lr_Model req) (resp_Provider resp) (resp_Model resp))
      (resp\<lparr>resp_Content := ?content\<rparr>) ?filler (toolResultCount s) l = (churn, l1)"
    by fastforce
  have "(l' = l1 \<or> l' = terminate ''loop terminated: same-route no-progress churn'' l1)
      \<and> (s' = s \<or> (\<exists>c calls. s' = AddAssistantMessageWithPhase c calls ''think'' s))"
    using assms by (auto simp: think_answer_def Let_def d split: if_splits)
  with detectSameRoute_frame [OF d] show ?thesis by auto
qed

lemma reflect_answer_frame:
  assumes "reflect_answer env resp s = (a, s')"
  shows "s_Authority s' = s_Authority s \<and> selectedToolDefs s' = selectedToolDefs s"
  using assms by (auto simp: reflect_answer_def Let_def split: if_splits)

lemma think_frame:
  assumes "think env (l, s, w) = (r, l', s', w')"
  shows "core_fields l' = core_fields l \<and> lp_policy l' = lp_policy l
    \<and> s_Authority s' = s_Authority s \<and> selectedToolDefs s' = selectedToolDefs s"
  using assms
  by (auto simp: think_def Let_def split: prod.splits sum.splits if_splits
      dest!: think_answer_frame consume_rights)

lemma think_turn:
  assumes "think env (l, s, w) = (Inr a, l', s', w')" and "lp_state l = StateThinking"
  shows "turnCount l' = turnCount l + 1 \<and> turnCount l + 1 \<le> MaxTurns (lp_config l)"
  using assms
  by (auto simp: think_def Let_def split: prod.splits sum.splits if_splits dest!: think_answer_frame)

lemma reflect_frame:
  assumes "reflect env (l, s, w) = (r, l', s', w')"
  shows "core_fields l' = core_fields l \<and> lp_policy l' = lp_policy l
    \<and> s_Authority s' = s_Authority s \<and> selectedToolDefs s' = selectedToolDefs s"
  using assms
  by (auto simp: reflect_def Let_def split: prod.splits sum.splits if_splits dest!: reflect_answer_frame)

lemma reflect_turn:
  assumes "reflect env (l, s, w) = (Inr a, l', s', w')" and "lp_state l = StateReflecting"
  shows "turnCount l' = turnCount l + 1 \<and> turnCount l + 1 \<le> MaxTurns (lp_config l)"
  using assms by (auto simp: reflect_def Let_def split: prod.splits sum.splits if_splits)

section \<open>Every pending call is answered\<close>

text \<open>The session after a call was answered: one tool message more, the call no longer pending.\<close>

definition answers :: "ToolCall \<Rightarrow> Session \<Rightarrow> Session \<Rightarrow> bool" where
  "answers tc s s' \<longleftrightarrow>
     pendingCalls s' = filter (\<lambda>t. tc_ID t \<noteq> tc_ID tc) (pendingCalls s)
     \<and> (\<exists>m. messages s' = messages s @ [m] \<and> msg_Role m = ''tool'' \<and> msg_ToolCallID m = tc_ID tc)
     \<and> s_Authority s' = s_Authority s \<and> selectedToolDefs s' = selectedToolDefs s"

lemma AddToolResultWithMetadata_answers [simp]:
  "answers tc s (AddToolResultWithMetadata (tc_ID tc) n out md e s)"
  by (simp add: answers_def AddToolResultWithMetadata_def plain_message_def Let_def)

lemma AddToolResult_answers [simp]: "answers tc s (AddToolResult (tc_ID tc) n out e s)"
  by (simp add: AddToolResult_def)

lemma noteToolOutcome_frame [simp]:
  "core_fields (noteToolOutcome js s n r l) = core_fields l"
  "lp_policy (noteToolOutcome js s n r l) = lp_policy l"
  "turnCount (noteToolOutcome js s n r l) = turnCount l"
  by (simp_all add: noteToolOutcome_def core_fields_def)

text \<open>What a loop step may do to the counts and the flight recorder.\<close>

definition fixed_fields :: "'e Loop \<Rightarrow> LoopConfig \<times> 'e registry \<times> NormalizationFactory option \<times> int" where
  "fixed_fields l = (lp_config l, lp_tools l, lp_normalizer l, turnCount l)"

lemma fixed_of_core:
  "core_fields l' = core_fields l \<Longrightarrow> turnCount l' = turnCount l \<Longrightarrow> fixed_fields l' = fixed_fields l"
  by (simp add: core_fields_def fixed_fields_def)

lemma m_count_incr: "m_count (m_incr k m) j = (if j = k then m_count m k + 1 else m_count m j)"
  by (simp add: m_incr_def m_count_def)

lemma core_fields_unfold:
  "core_fields l' = core_fields l \<longleftrightarrow> lp_config l' = lp_config l \<and> lp_tools l' = lp_tools l
     \<and> lp_normalizer l' = lp_normalizer l \<and> failedCalls l' = failedCalls l
     \<and> successfulCalls l' = successfulCalls l \<and> traceEntries l' = traceEntries l"
  by (auto simp: core_fields_def)

lemma frame_fields [simp]:
  "lp_config (recordToolExecution rec l) = lp_config l" "lp_tools (recordToolExecution rec l) = lp_tools l"
  "lp_normalizer (recordToolExecution rec l) = lp_normalizer l"
  "failedCalls (recordToolExecution rec l) = failedCalls l"
  "successfulCalls (recordToolExecution rec l) = successfulCalls l"
  "traceEntries (recordToolExecution rec l) = traceEntries l"
  "lp_config (noteToolOutcome js s n r l) = lp_config l" "lp_tools (noteToolOutcome js s n r l) = lp_tools l"
  "lp_normalizer (noteToolOutcome js s n r l) = lp_normalizer l"
  "failedCalls (noteToolOutcome js s n r l) = failedCalls l"
  "successfulCalls (noteToolOutcome js s n r l) = successfulCalls l"
  "traceEntries (noteToolOutcome js s n r l) = traceEntries l"
  "lp_config (resetReadOnlyExploration l) = lp_config l" "lp_tools (resetReadOnlyExploration l) = lp_tools l"
  "lp_normalizer (resetReadOnlyExploration l) = lp_normalizer l"
  "successfulCalls (resetReadOnlyExploration l) = successfulCalls l"
  by (simp_all add: recordToolExecution_def noteToolOutcome_def resetReadOnlyExploration_def)

definition executed_frame :: "ToolCall \<Rightarrow> 'e Loop \<Rightarrow> Session \<Rightarrow> 'e Loop \<Rightarrow> Session \<Rightarrow> bool" where
  "executed_frame tc l s l' s' \<longleftrightarrow>
     fixed_fields l' = fixed_fields l \<and> lp_policy l' = lp_policy l \<and> answers tc s s'
     \<and> (\<exists>e. traceEntries l' = traceEntries l @ [e] \<and> rt_ToolName e = tc_Name tc)
     \<and> failedCalls l' \<in> {failedCalls l, m_incr (callKeyOf tc) (failedCalls l)}
     \<and> (\<forall>k. m_count (successfulCalls l) k \<le> m_count (successfulCalls l') k)"

lemma record_failure_frame:
  "record_failure env tc args ms err l s = (l', s') \<Longrightarrow> executed_frame tc l s l' s'"
  by (auto simp: record_failure_def executed_frame_def fixed_fields_def Let_def)

lemma record_success_frame:
  "record_success env tc args ms r l s = (l', s') \<Longrightarrow> executed_frame tc l s l' s'"
  by (auto simp: record_success_def executed_frame_def fixed_fields_def Let_def m_count_incr)

lemma execute_call_frame:
  "execute_call env tc tool args (l, s, w) = Some (l', s', w') \<Longrightarrow> executed_frame tc l s l' s'"
  by (auto simp: execute_call_def Let_def split: prod.splits sum.splits option.splits
      intro: record_failure_frame record_success_frame)

lemma policy_decision_frame:
  assumes "policy_decision env tc args (l, s, w) = (d, l', s', w')"
  shows "core_fields l' = core_fields l \<and> turnCount l' = turnCount l \<and> s' = s"
  using assms by (auto simp: policy_decision_def Let_def split: option.splits prod.splits)

lemma policy_decision_sound:
  assumes "policy_decision env tc args (l, s, w) = (d, l', s', w')"
    and "lp_policy l = Some engine" and "engine_ok engine"
  shows "(\<exists>engine'. lp_policy l' = Some engine' \<and> engine_ok engine')
    \<and> (d = Allow \<longrightarrow> Get (tc_Name tc) (lp_tools l) = Some tool \<longrightarrow> risk_permitted (s_Authority s) (t_Risk tool))"
proof -
  obtain now w1 where n: "ev_now env w = (now, w1)" by fastforce
  let ?req = "\<lparr>req_ToolName = tc_Name tc, req_Arguments = args, req_Authority = s_Authority s,
    req_SecurityClaim = None\<rparr>"
  let ?r = "EvaluateWithTools (ev_lib env) now ?req (Some (lp_tools l)) engine"
  have "d = snd ?r" "lp_policy l' = Some (fst ?r)"
    using assms(1,2) by (auto simp: policy_decision_def Let_def n split: prod.splits)
  with assms(3) show ?thesis
    using engine_ok_Evaluate engine_ok_permits [OF assms(3), of ?req "lp_tools l" tool "ev_lib env" now]
    by simp
qed

lemma answer_call_frame:
  assumes "answer_call env tc input out e st (l, s, w) = (l', s', w')"
  shows "core_fields l' = core_fields l \<and> turnCount l' = turnCount l \<and> lp_policy l' = lp_policy l
    \<and> answers tc s s' \<and> w' = w"
  using assms by (auto simp: answer_call_def)

text \<open>The ways out of \<^verbatim>\<open>check_and_execute\<close>: answered without executing, or executed.\<close>

lemma check_and_execute_cases:
  assumes "check_and_execute env tc tool (l, s, w) = Some (l', s', w')"
  obtains (answered) l1 where "core_fields l1 = core_fields l" "turnCount l1 = turnCount l"
      "answers tc s s'" "core_fields l' = core_fields l" "turnCount l' = turnCount l"
      "lp_policy l' = lp_policy l
        \<or> (\<exists>args d s1 w2. policy_decision env tc args (l, s, w) = (d, l1, s1, w2) \<and> lp_policy l' = lp_policy l1)"
    | (executed) args l1 w1 where "policy_decision env tc args (l, s, w) = (Allow, l1, s, w1)"
      "execute_call env tc tool args (l1, s, w1) = Some (l', s', w')"
      "accepted (normalized_args env tc l)"
      "\<not> (prior_successes env tc args l s > 0 \<and> RequiresReplayProtection (tc_Name tc))"
      "args = (if cn_Arguments (normalized_args env tc l) = [] then tc_Arguments tc
               else cn_Arguments (normalized_args env tc l))"
proof -
  let ?norm = "normalized_args env tc l"
  let ?args = "if cn_Arguments ?norm = [] then tc_Arguments tc else cn_Arguments ?norm"
  obtain d l1 s1 w1 where p: "policy_decision env tc ?args (l, s, w) = (d, l1, s1, w1)"
    by (metis prod_cases4)
  note fr = policy_decision_frame [OF p]
  show thesis
  proof (cases "accepted ?norm")
    case False
    then have "cn_Disposition ?norm = NormalizationTransformFailed
        \<or> cn_Disposition ?norm = NormalizationNoQualifiedTransformer"
      by (cases "cn_Disposition ?norm") (simp_all add: accepted_def)
    with assms have "\<exists>out. answer_call env tc (tc_Arguments tc) out True ''invalid_arguments''
        (resetReadOnlyExploration l, s, w) = (l', s', w')"
      by (auto simp: check_and_execute_def Let_def)
    then show thesis using answered [of l] answer_call_frame by fastforce
  next
    case acc: True
    then have nd: "cn_Disposition ?norm \<noteq> NormalizationTransformFailed"
        "cn_Disposition ?norm \<noteq> NormalizationNoQualifiedTransformer"
      by (auto simp: accepted_def)
    show thesis
    proof (cases "prior_successes env tc ?args l s > 0 \<and> RequiresReplayProtection (tc_Name tc)")
      case True
      with assms nd have "\<exists>out. answer_call env tc ?args out False ''suppressed_replay'' (l, s, w) = (l', s', w')"
        by (simp only: check_and_execute_def Let_def prod.case if_False simp_thms if_True option.inject) blast
      then show thesis using answered [of l] answer_call_frame by fastforce
    next
      case False
      then have run: "(case d of Deny rule reason \<Rightarrow> Some (answer_call env tc ?args (''Policy denied: '' @ ev_reason env reason)
            True ''denied'' (resetReadOnlyExploration l1, s1, w1))
          | Allow \<Rightarrow> execute_call env tc tool ?args (l1, s1, w1)) = Some (l', s', w')"
        using assms nd p by (simp only: check_and_execute_def Let_def prod.case if_False simp_thms)
      show thesis
      proof (cases d)
        case Allow
        then show thesis using run p fr acc False by (intro executed [of ?args l1 w1]) simp_all
      next
        case (Deny rule reason)
        with run have "answer_call env tc ?args (''Policy denied: '' @ ev_reason env reason)
            True ''denied'' (resetReadOnlyExploration l1, s1, w1) = (l', s', w')" by simp
        from answer_call_frame [OF this] fr p show thesis by (intro answered [of l1]) auto
      qed
    qed
  qed
qed

lemma check_and_execute_answers:
  assumes "check_and_execute env tc tool (l, s, w) = Some (l', s', w')"
  shows "answers tc s s' \<and> fixed_fields l' = fixed_fields l
    \<and> (\<forall>k. m_count (successfulCalls l) k \<le> m_count (successfulCalls l') k)"
  using assms
proof (cases rule: check_and_execute_cases)
  case (answered l1)
  then show ?thesis using core_fields_unfold [of l' l] fixed_of_core [of l' l] by simp
next
  case (executed args l1 w1)
  from policy_decision_frame [OF executed(1)] execute_call_frame [OF executed(2)]
  show ?thesis using core_fields_unfold [of l1 l] fixed_of_core [of l1 l]
    by (simp add: executed_frame_def)
qed

text \<open>
  One pending call: either the loop stops here, or the call is answered (rejected up front or by
  \<^verbatim>\<open>check_and_execute\<close>).
\<close>

lemma act_call_cases:
  assumes "act_call env tc (l, s, w) = Some (r, l', s', w')"
  obtains (stopped) "r = Some ActionFinish" "core_fields l' = core_fields l" "turnCount l' = turnCount l"
      "lp_policy l' = lp_policy l" "s' = s \<or> (\<exists>text. s' = AddAssistantMessage text [] s)" "w' = w"
    | (rejected) "r = None" "core_fields l' = core_fields l" "turnCount l' = turnCount l"
      "lp_policy l' = lp_policy l" "answers tc s s'" "w' = w"
    | (checked) l1 tool where "r = None" "core_fields l1 = core_fields l" "turnCount l1 = turnCount l"
      "lp_policy l1 = lp_policy l" "Get (tc_Name tc) (lp_tools l) = Some tool"
      "toolAllowedForTurnSurface s (tc_Name tc)" "m_count (failedCalls l) (callKeyOf tc) < 2"
      "check_and_execute env tc tool (l1, s, w) = Some (l', s', w')"
proof -
  obtain looping l1 where d: "detectLoop (tc_Name tc) (tc_Arguments tc) l = Some (looping, l1)"
    using assms by (cases "detectLoop (tc_Name tc) (tc_Arguments tc) l") (auto simp: act_call_def)
  note fr = detectLoop_frame [OF d]
  then have same: "failedCalls l1 = failedCalls l" "lp_tools l1 = lp_tools l"
    by (simp_all add: core_fields_unfold)
  show thesis
  proof (cases "looping \<or> shouldTerminateReadOnlyExploration s (tc_Name tc) l1")
    case True
    with assms fr show thesis by (intro stopped) (auto simp: act_call_def d split: if_splits)
  next
    case go: False
    show thesis
    proof (cases "m_count (failedCalls l) (callKeyOf tc) < 2 \<and> toolAllowedForTurnSurface s (tc_Name tc)
        \<and> Get (tc_Name tc) (lp_tools l) \<noteq> None")
      case True
      then obtain tool where "Get (tc_Name tc) (lp_tools l) = Some tool" by blast
      with True assms fr go same show thesis
        by (intro checked [of l1 tool]) (auto simp: act_call_def d Let_def)
    next
      case False
      with assms go same have "r = None \<and> (\<exists>out st. answer_call env tc (tc_Arguments tc) out True st
          (resetReadOnlyExploration l1, s, w) = (l', s', w'))"
        by (auto simp: act_call_def d Let_def split: if_splits option.splits)
      with answer_call_frame fr show thesis by (intro rejected) fastforce+
    qed
  qed
qed

lemma act_call_answers:
  assumes "act_call env tc (l, s, w) = Some (r, l', s', w')"
  shows "fixed_fields l' = fixed_fields l \<and> (r = None \<longrightarrow> answers tc s s') \<and> (r \<noteq> None \<longrightarrow> r = Some ActionFinish)
    \<and> (\<forall>k. m_count (successfulCalls l) k \<le> m_count (successfulCalls l') k)"
  using assms
proof (cases rule: act_call_cases)
  case (checked l1 tool)
  then show ?thesis using check_and_execute_answers [OF checked(8)] fixed_of_core [of l1 l]
      core_fields_unfold [of l1 l] by simp
qed (use fixed_of_core [of l' l] core_fields_unfold [of l' l] in simp_all)

lemma act_calls_answers:
  assumes "act_calls env tcs (l, s, w) = Some (a, l', s', w')"
  shows "fixed_fields l' = fixed_fields l \<and> a \<in> {ActionObserve, ActionFinish}
    \<and> (\<forall>k. m_count (successfulCalls l) k \<le> m_count (successfulCalls l') k)
    \<and> (a = ActionObserve \<longrightarrow>
        (\<exists>ms. messages s' = messages s @ ms \<and> map msg_ToolCallID ms = map tc_ID tcs
          \<and> (\<forall>m \<in> set ms. msg_Role m = ''tool''))
        \<and> pendingCalls s' = filter (\<lambda>t. tc_ID t \<notin> tc_ID ` set tcs) (pendingCalls s))"
  using assms
proof (induction tcs arbitrary: l s w)
  case (Cons tc tcs)
  from Cons.prems obtain r l1 s1 w1 where c: "act_call env tc (l, s, w) = Some (r, l1, s1, w1)"
    by (cases "act_call env tc (l, s, w)") auto
  note A = act_call_answers [OF c]
  show ?case
  proof (cases r)
    case (Some x)
    then show ?thesis using A Cons.prems c by auto
  next
    case None
    then have rest: "act_calls env tcs (l1, s1, w1) = Some (a, l', s', w')" using Cons.prems c by simp
    from None A obtain m where m: "messages s1 = messages s @ [m]" "msg_Role m = ''tool''"
      "msg_ToolCallID m = tc_ID tc" and p: "pendingCalls s1 = filter (\<lambda>t. tc_ID t \<noteq> tc_ID tc) (pendingCalls s)"
      by (auto simp: answers_def)
    note IH = Cons.IH [OF rest]
    have "\<exists>ms. messages s' = messages s @ ms \<and> map msg_ToolCallID ms = map tc_ID (tc # tcs)
          \<and> (\<forall>m \<in> set ms. msg_Role m = ''tool'')" if "a = ActionObserve"
    proof -
      from IH that obtain ms where "messages s' = messages s1 @ ms" "map msg_ToolCallID ms = map tc_ID tcs"
        "\<forall>m \<in> set ms. msg_Role m = ''tool''" by blast
      then show ?thesis using m by (intro exI [of _ "m # ms"]) simp
    qed
    moreover have "pendingCalls s' = filter (\<lambda>t. tc_ID t \<notin> tc_ID ` set (tc # tcs)) (pendingCalls s)"
      if "a = ActionObserve"
      using IH that p by (auto simp: conj_commute intro: filter_cong)
    ultimately show ?thesis using IH A by (auto intro: order_trans)
  qed
qed simp

text \<open>A concrete environment: the model calls one tool with the arguments it is given, then
  answers; the tool succeeds with an output.\<close>

definition demo_call :: ToolCall where
  "demo_call = \<lparr>tc_ID = ''1'', tc_Type = ''function'', tc_Name = ''bash'', tc_Arguments = ''{}''\<rparr>"

definition demo_response :: "string \<Rightarrow> ToolCall list \<Rightarrow> Response" where
  "demo_response content calls = \<lparr>resp_Model = ''m'', resp_Content = content, resp_ToolCalls = calls,
     resp_FinishReason = ''stop'', resp_Provider = ''p''\<rparr>"

definition demo_env :: "(string + Result option) \<Rightarrow> nat \<Rightarrow> (nat, int) env" where
  "demo_env tool_answer rounds = \<lparr>ev_now = (\<lambda>w. (0, w)), ev_ctx_err = (\<lambda>w. (None, w)), ev_turn_id = ''t'',
     ev_Complete = (\<lambda>req w. (Inr (if w < rounds then demo_response [] [demo_call] else demo_response ''done'' []), w + 1)),
     ev_Execute = (\<lambda>t args tctx w. (tool_answer, w)),
     ev_BuildRequest = (\<lambda>s ms w. (\<lparr>lr_Model = ''m'', lr_Messages = ms, lr_Tools = [], lr_IntentClass = [],
        lr_AgentRole = [], lr_TurnWeight = [], lr_TaskIntent = [], lr_TaskComplexity = []\<rparr>, w)),
     ev_IngestTurn = (\<lambda>s w. w), ev_mac = (\<lambda>k d. ''0a''), ev_blocked = None, ev_js = demo_json,
     ev_lib = demo_lib, ev_filter = (\<lambda>x. x), ev_reason = (\<lambda>_. ''denied'')\<rparr>"

definition demo_ok :: "string + Result option" where
  "demo_ok = Inr (Some \<lparr>res_Output = ''out'', res_Metadata = [], res_Source = ''builtin''\<rparr>)"

definition demo_loop :: "unit Loop" where
  "demo_loop = NewLoop DefaultLoopConfig demo_registry (Some (NewEngine DefaultConfig)) None"

definition creator_session :: Session where
  "creator_session = (New_session ''s'' ''a'' ''n'')\<lparr>s_Authority := AuthorityCreator\<rparr>"

text \<open>
  C9. When the act phase hands over to observation, every pending tool call has got exactly one
  tool message, in the order of the calls and under the call's id, and nothing is pending any
  more: rejected, suppressed and failed calls are answered like executed ones.
\<close>

theorem act_answers_every_call:
  assumes "act env (l, s, w) = Some (ActionObserve, l', s', w')"
  shows "pendingCalls s' = []
    \<and> (\<exists>ms. messages s' = messages s @ ms \<and> map msg_ToolCallID ms = map tc_ID (pendingCalls s)
          \<and> list_all (\<lambda>m. msg_Role m = ''tool'') ms)"
proof -
  from assms have "act_calls env (pendingCalls s) (l, s, w) = Some (ActionObserve, l', s', w')"
    by (auto simp: act_def split: if_splits)
  from act_calls_answers [OF this] show ?thesis by (auto simp: list_all_iff filter_empty_conv)
qed

theorem act_answers_every_call_witness:
  "\<exists>l' s' w'. act (demo_env demo_ok 1) (demo_loop, AddAssistantMessage [] [demo_call] creator_session, 0)
      = Some (ActionObserve, l', s', w')
    \<and> pendingCalls s' = []
    \<and> (\<exists>ms. messages s' = messages (AddAssistantMessage [] [demo_call] creator_session) @ ms
          \<and> map msg_ToolCallID ms = [''1''])"
proof -
  let ?s = "AddAssistantMessage [] [demo_call] creator_session"
  have "case act (demo_env demo_ok 1) (demo_loop, ?s, 0) of
      Some (a, l, s, w) \<Rightarrow> a = ActionObserve | None \<Rightarrow> False" by code_simp
  then obtain l' s' w' where run: "act (demo_env demo_ok 1) (demo_loop, ?s, 0) = Some (ActionObserve, l', s', w')"
    by (auto split: option.splits)
  have "map tc_ID (pendingCalls ?s) = [''1'']"
    by (simp add: AddAssistantMessage_def AddAssistantMessageWithPhase_def demo_call_def)
  with act_answers_every_call [OF run] run show ?thesis by auto
qed

section \<open>Termination\<close>

fun state_rank :: "LoopState \<Rightarrow> nat" where
  "state_rank StateActing = 4"
| "state_rank StateObserving = 3"
| "state_rank StatePersisting = 2"
| "state_rank StateReflecting = 1"
| "state_rank StateThinking = 1"
| "state_rank StateIdle = 0"
| "state_rank StateDone = 0"

definition react_variant :: "('w, 'e) config \<Rightarrow> nat" where
  "react_variant c =
     (case c of (l, s, w) \<Rightarrow> 6 * nat (MaxTurns (lp_config l) + 1 - turnCount l) + state_rank (lp_state l))"

lemma state_rank_le: "state_rank st \<le> 4"
  by (cases st) simp_all

lemma transition_config [simp]:
  "lp_config (transition a l) = lp_config l" "successfulCalls (transition a l) = successfulCalls l"
  by (simp_all add: transition_def split: Action.splits)

lemma after_llm_continues:
  assumes "after_llm what r = Inl c'"
  obtains action l s w where "r = (Inr action, l, s, w)" "c' = (transition action l, s, w)"
proof -
  obtain o1 l s w where r: "r = (o1, l, s, w)" by (metis prod_cases4)
  show thesis
  proof (cases o1)
    case (Inl e)
    with assms r show thesis by (cases e) (simp_all add: after_llm_def)
  next
    case (Inr action)
    with assms r have "c' = (transition action l, s, w)" by (auto simp: after_llm_def)
    with Inr r show thesis by (intro that) simp_all
  qed
qed

lemma variant_turn:
  assumes "turnCount l' = turnCount l + 1" and "turnCount l + 1 \<le> MaxTurns (lp_config l)"
    and "lp_config l' = lp_config l" and "state_rank (lp_state l) = 1"
  shows "react_variant (transition a l', s', w') < react_variant (l, s, w)"
proof -
  have "nat (MaxTurns (lp_config l) + 1 - turnCount l) = Suc (nat (MaxTurns (lp_config l) + 1 - turnCount l'))"
    using assms(1,2) by simp
  then show ?thesis using state_rank_le [of "lp_state (transition a l')"] assms(3,4)
    by (simp add: react_variant_def)
qed

lemma loop_body_decreases:
  assumes "loop_body env deadline c = Inl c'"
  shows "react_variant c' < react_variant c"
proof -
  obtain l s w where c: "c = (l, s, w)" by (metis prod_cases3)
  obtain t w1 where n: "ev_now env w = (t, w1)" by fastforce
  obtain e w2 where x: "ev_ctx_err env w1 = (e, w2)" by fastforce
  note body = assms [unfolded loop_body_def c prod.case Let_def n x]
  have e: "e = None" using body by (cases e) (auto split: if_splits)
  show ?thesis
  proof (cases "lp_state l")
    case StateThinking
    let ?s = "if turnCount l \<ge> 8 \<and> turnCount l mod 4 = 0 then injectInstructionReminder s else s"
    from StateThinking body e have "after_llm ''thinking'' (think env (l, ?s, w2)) = Inl c'"
      by (auto split: if_split_asm)
    then obtain a l1 s1 w3 where t: "think env (l, ?s, w2) = (Inr a, l1, s1, w3)"
      and c': "c' = (transition a l1, s1, w3)" by (rule after_llm_continues)
    show ?thesis unfolding c c'
      using think_turn [OF t StateThinking] think_frame [OF t] core_config [of l1 l]
      by (intro variant_turn) (simp_all add: StateThinking)
  next
    case StateReflecting
    with body e have "after_llm ''reflection'' (reflect env (l, s, w2)) = Inl c'" by (auto split: if_splits)
    then obtain a l1 s1 w3 where t: "reflect env (l, s, w2) = (Inr a, l1, s1, w3)"
      and c': "c' = (transition a l1, s1, w3)" by (rule after_llm_continues)
    show ?thesis unfolding c c'
      using reflect_turn [OF t StateReflecting] reflect_frame [OF t] core_config [of l1 l]
      by (intro variant_turn) (simp_all add: StateReflecting)
  next
    case StateActing
    with body e obtain a l1 s1 w3 where act: "act env (l, s, w2) = Some (a, l1, s1, w3)"
      and c': "c' = (transition a l1, s1, w3)"
      by (cases "act env (l, s, w2)") (auto split: if_splits)
    have "fixed_fields l1 = fixed_fields l \<and> a \<in> {ActionNoOp, ActionObserve, ActionFinish}"
      using act act_calls_answers [of env "pendingCalls s" l s w2 a l1 s1 w3]
      by (auto simp: act_def split: if_splits)
    then show ?thesis unfolding c c'
      by (auto simp: react_variant_def fixed_fields_def transition_def StateActing)
  qed (use body e in \<open>auto simp: c react_variant_def transition_def split: if_splits\<close>)
qed

interpretation react: bounded_loop "loop_body env deadline" react_variant "\<lambda>_. True" "run_loop env deadline"
  for env deadline
  by unfold_locales (simp_all add: loop_body_decreases)

text \<open>
  C8. The agent loop always comes to an end: whatever the model, the tools, the clock and the
  cancellation do, it returns within six loop iterations per remaining turn and six more, and
  letting it run longer does not change its result.
\<close>

theorem react_loop_terminates:
  "\<exists>r. \<forall>more. Run env (6 * nat (MaxTurns (lp_config l) + 1 - turnCount l) + 6 + more) (l, s, w) = Some r"
proof -
  let ?n = "6 * nat (MaxTurns (lp_config l) + 1 - turnCount l) + 6"
  obtain now w1 where n: "ev_now env w = (now, w1)" by fastforce
  let ?d = "now + loopDuration (lp_config l)"
  have "react_variant (l, s, w1) < ?n" using state_rank_le [of "lp_state l"] by (simp add: react_variant_def)
  from react.terminates [OF TrueI this] obtain r where "run_loop env ?d ?n (l, s, w1) = Some r" by blast
  then have "run_loop env ?d (?n + more) (l, s, w1) = Some r" for more
    by (rule react.run_mono) simp
  then show ?thesis by (intro exI [of _ r]) (simp add: Run_def n)
qed

section \<open>Only permitted calls are executed\<close>

definition permitted_entry :: "Session \<Rightarrow> 'e registry \<Rightarrow> ReactTraceEntry \<Rightarrow> bool" where
  "permitted_entry s0 reg e \<longleftrightarrow>
     (\<exists>tool. Get (rt_ToolName e) reg = Some tool \<and> risk_permitted (s_Authority s0) (t_Risk tool))
     \<and> toolAllowedForTurnSurface s0 (rt_ToolName e)"

definition loop_safe :: "Session \<Rightarrow> 'e registry \<Rightarrow> ('w, 'e) config \<Rightarrow> bool" where
  "loop_safe s0 reg c \<longleftrightarrow> (case c of (l, s, w) \<Rightarrow>
     s_Authority s = s_Authority s0 \<and> selectedToolDefs s = selectedToolDefs s0 \<and> lp_tools l = reg
     \<and> (\<exists>engine. lp_policy l = Some engine \<and> engine_ok engine)
     \<and> (\<forall>k. m_count (failedCalls l) k \<le> 2)
     \<and> (\<forall>e \<in> set (traceEntries l). permitted_entry s0 reg e))"

lemma loop_safe_kept:
  fixes w w' :: 'w
  assumes "loop_safe s0 reg (l, s, w)" and "core_fields l' = core_fields l" and "lp_policy l' = lp_policy l"
    and "s_Authority s' = s_Authority s" and "selectedToolDefs s' = selectedToolDefs s"
  shows "loop_safe s0 reg (l', s', w')"
  using assms by (simp add: loop_safe_def core_fields_unfold)

lemma surface_cong:
  "selectedToolDefs s' = selectedToolDefs s
     \<Longrightarrow> toolAllowedForTurnSurface s' n = toolAllowedForTurnSurface s n"
  by (simp add: toolAllowedForTurnSurface_def)

lemma check_and_execute_safe:
  assumes "check_and_execute env tc tool (l, s, w) = Some (l', s', w')" and "loop_safe s0 reg (l, s, w)"
    and "Get (tc_Name tc) (lp_tools l) = Some tool" and "toolAllowedForTurnSurface s (tc_Name tc)"
    and "m_count (failedCalls l) (callKeyOf tc) < 2"
  shows "loop_safe s0 reg (l', s', w')"
proof -
  obtain engine where eng: "lp_policy l = Some engine" "engine_ok engine"
    using assms(2) by (auto simp: loop_safe_def)
  from assms(1) show ?thesis
  proof (cases rule: check_and_execute_cases)
    case (answered l1)
    have "\<exists>engine'. lp_policy l' = Some engine' \<and> engine_ok engine'"
      using answered(6) eng policy_decision_sound by metis
    then show ?thesis using assms(2) answered(3,4)
      by (auto simp: loop_safe_def core_fields_unfold answers_def)
  next
    case (executed args l1 w1)
    note frame = policy_decision_frame [OF executed(1)]
      execute_call_frame [OF executed(2), unfolded executed_frame_def]
    note sound = policy_decision_sound [OF executed(1) eng, of tool]
    from sound assms(2,3,4) have "permitted_entry s0 reg e" if "rt_ToolName e = tc_Name tc" for e
      using that surface_cong [of s s0] by (auto simp: permitted_entry_def loop_safe_def)
    then show ?thesis using assms(2,5) frame sound
      by (auto simp: loop_safe_def core_fields_unfold fixed_fields_def answers_def m_count_incr)
  qed
qed

lemma act_call_safe:
  assumes "act_call env tc (l, s, w) = Some (r, l', s', w')" and "loop_safe s0 reg (l, s, w)"
  shows "loop_safe s0 reg (l', s', w')"
  using assms(1)
proof (cases rule: act_call_cases)
  case stopped
  then show ?thesis by (intro loop_safe_kept [OF assms(2)]) auto
next
  case rejected
  then show ?thesis by (intro loop_safe_kept [OF assms(2)]) (auto simp: answers_def)
next
  case (checked l1 tool)
  have "loop_safe s0 reg (l1, s, w)" using checked by (intro loop_safe_kept [OF assms(2)]) auto
  with checked show ?thesis
    by (intro check_and_execute_safe [OF checked(8)]) (auto simp: core_fields_unfold)
qed

lemma act_calls_safe:
  "act_calls env tcs (l, s, w) = Some (a, l', s', w') \<Longrightarrow> loop_safe s0 reg (l, s, w)
     \<Longrightarrow> loop_safe s0 reg (l', s', w')"
proof (induction tcs arbitrary: l s w)
  case (Cons tc tcs)
  from Cons.prems(1) obtain r l1 s1 w1 where c: "act_call env tc (l, s, w) = Some (r, l1, s1, w1)"
    by (cases "act_call env tc (l, s, w)") auto
  note safe = act_call_safe [OF c Cons.prems(2)]
  then show ?case using Cons.prems(1) Cons.IH [OF _ safe] c by (cases r) auto
qed simp

lemma act_safe:
  "act env (l, s, w) = Some (a, l', s', w') \<Longrightarrow> loop_safe s0 reg (l, s, w) \<Longrightarrow> loop_safe s0 reg (l', s', w')"
  by (auto simp: act_def split: if_splits intro: act_calls_safe)

lemma after_llm_safe:
  assumes "\<And>r l' s' w'. x = (r, l', s', w') \<Longrightarrow> loop_safe s0 reg (l', s', w')"
  shows "case after_llm what x of Inl c \<Rightarrow> loop_safe s0 reg c | Inr (r, c) \<Rightarrow> loop_safe s0 reg c"
proof -
  obtain r l s w where x: "x = (r, l, s, w)" by (metis prod_cases4)
  from assms [OF x] have "loop_safe s0 reg (terminate t l, s, w)" "loop_safe s0 reg (transition a l, s, w)" for t a
    by (auto intro: loop_safe_kept)
  then show ?thesis unfolding x after_llm_def by (auto split: sum.splits loop_error.splits)
qed

lemma loop_body_safe:
  fixes env :: "('w, 'f) env"
  assumes "loop_safe s0 reg c"
  shows "case loop_body env deadline c of Inl c' \<Rightarrow> loop_safe s0 reg c' | Inr (r, c') \<Rightarrow> loop_safe s0 reg c'"
proof -
  obtain l s w where c: "c = (l, s, w)" by (metis prod_cases3)
  obtain t w1 where n: "ev_now env w = (t, w1)" by fastforce
  obtain e w2 where x: "ev_ctx_err env w1 = (e, w2)" by fastforce
  note kept = loop_safe_kept [OF assms [unfolded c]]
  have base: "loop_safe s0 reg (l, s', v)" if "s' = s \<or> s' = injectInstructionReminder s" for s' and v :: 'w
    using that by (intro kept) (auto simp: injectInstructionReminder_def)
  have moved: "loop_safe s0 reg (terminate r l, s, v)" "loop_safe s0 reg (transition a l, s, v)" for r a and v :: 'w
    by (auto intro: kept)
  have think: "case after_llm ''thinking'' (think env (l, s', w2)) of
      Inl c' \<Rightarrow> loop_safe s0 reg c' | Inr (r, c') \<Rightarrow> loop_safe s0 reg c'"
    if "s' = s \<or> s' = injectInstructionReminder s" for s'
  proof (rule after_llm_safe)
    fix r l' s'' w'
    assume "think env (l, s', w2) = (r, l', s'', w')"
    from think_frame [OF this] show "loop_safe s0 reg (l', s'', w')"
      by (intro loop_safe_kept [OF base [OF that, of w2]]) simp_all
  qed
  have reflect: "case after_llm ''reflection'' (reflect env (l, s, w2)) of
      Inl c' \<Rightarrow> loop_safe s0 reg c' | Inr (r, c') \<Rightarrow> loop_safe s0 reg c'"
  proof (rule after_llm_safe)
    fix r l' s'' w'
    assume "reflect env (l, s, w2) = (r, l', s'', w')"
    from reflect_frame [OF this] show "loop_safe s0 reg (l', s'', w')"
      by (intro loop_safe_kept [OF base [OF disjI1 [OF refl], of w2]]) simp_all
  qed
  have act: "loop_safe s0 reg (transition a l1, s1, w3)" if "act env (l, s, w2) = Some (a, l1, s1, w3)" for a l1 s1 w3
    using act_safe [OF that base] by (auto intro: loop_safe_kept)
  let ?s = "if turnCount l \<ge> 8 \<and> turnCount l mod 4 = 0 then injectInstructionReminder s else s"
  show ?thesis
  proof (cases "deadline < t \<or> e \<noteq> None")
    case True
    then show ?thesis using moved by (cases e) (simp_all add: c loop_body_def n x)
  next
    case False
    then have body: "loop_body env deadline c = loop_body env deadline (l, s, w)" "\<not> deadline < t" "e = None"
      by (auto simp: c)
    show ?thesis
    proof (cases "lp_state l")
      case StateThinking
      then show ?thesis using think [of ?s] body by (simp add: loop_body_def n x split: if_split_asm)
    next
      case StateActing
      show ?thesis
      proof (cases "act env (l, s, w2)")
        case (Some r)
        obtain a l1 s1 w3 where r: "r = (a, l1, s1, w3)" by (metis prod_cases4)
        from act Some r show ?thesis using body StateActing by (simp add: loop_body_def n x)
      qed (use body StateActing base in \<open>simp add: loop_body_def n x\<close>)
    qed (use body reflect moved base in \<open>simp_all add: loop_body_def n x Let_def\<close>)
  qed
qed

lemma run_loop_safe:
  "loop_safe s0 reg c \<Longrightarrow> run_loop env deadline n c = Some (r, c') \<Longrightarrow> loop_safe s0 reg c'"
proof (induction n arbitrary: c)
  case (Suc n)
  show ?case using loop_body_safe [OF Suc.prems(1), of env deadline] Suc.prems(2) Suc.IH
    by (auto split: sum.splits)
qed simp

lemma Run_safe:
  assumes "loop_safe s0 reg (l, s, w)" and "Run env fuel (l, s, w) = Some (r, c')"
  shows "loop_safe s0 reg c'"
proof -
  obtain now w1 where n: "ev_now env w = (now, w1)" by fastforce
  have "loop_safe s0 reg (l, s, w1)" by (rule loop_safe_kept [OF assms(1)]) simp_all
  from run_loop_safe [OF this] assms(2) show ?thesis by (simp add: Run_def n)
qed

lemma NewLoop_safe:
  assumes "pol = Some (fold policy_step es (NewEngine pcfg))"
  shows "loop_safe s reg (NewLoop cfg reg pol norm, s, w)"
  using assms pol.inv_run [of es pcfg] by (simp add: loop_safe_def NewLoop_def m_count_def)

text \<open>
  C1. In every run of a loop built with a policy engine, each tool the loop executed (each entry
  of its flight recorder) is a registered tool, was on the tool surface selected for the turn,
  and its risk level is one the session's authority permits: never a forbidden tool, a dangerous
  one only with self-generated authority or more, a caution one only for peers or more.
\<close>

theorem executed_tools_are_permitted:
  assumes "Run env fuel (NewLoop cfg reg (Some (fold policy_step es (NewEngine pcfg))) norm, s, w)
      = Some (r, l', s', w')"
    and "e \<in> set (traceEntries l')"
  shows "(\<exists>tool. Get (rt_ToolName e) reg = Some tool \<and> risk_permitted (s_Authority s) (t_Risk tool))
    \<and> toolAllowedForTurnSurface s (rt_ToolName e)"
  using Run_safe [OF NewLoop_safe [OF refl] assms(1)] assms(2)
  by (auto simp: loop_safe_def permitted_entry_def)

theorem executed_tools_are_permitted_witness:
  "\<exists>r l' s' w'. Run (demo_env demo_ok 1) 20 (demo_loop, creator_session, 0) = Some (r, l', s', w')
    \<and> map rt_ToolName (traceEntries l') = [''bash'']
    \<and> (\<exists>tool. Get ''bash'' demo_registry = Some tool \<and> risk_permitted AuthorityCreator (t_Risk tool))"
proof -
  have "case Run (demo_env demo_ok 1) 20 (demo_loop, creator_session, 0) of
      Some (r, l, s, w) \<Rightarrow> map rt_ToolName (traceEntries l) = [''bash''] | None \<Rightarrow> False" by code_simp
  then obtain r l' s' w' where run: "Run (demo_env demo_ok 1) 20 (demo_loop, creator_session, 0) = Some (r, l', s', w')"
    and trace: "map rt_ToolName (traceEntries l') = [''bash'']"
    by (auto split: option.splits)
  from trace obtain e where e: "e \<in> set (traceEntries l')" "rt_ToolName e = ''bash''" by auto
  have "demo_loop = NewLoop DefaultLoopConfig demo_registry
      (Some (fold policy_step ([] :: (int, unit) policy_event list) (NewEngine DefaultConfig))) None"
    by (simp add: demo_loop_def)
  with executed_tools_are_permitted [OF run [unfolded this] e(1)] run trace e(2) show ?thesis
    by (auto simp: creator_session_def)
qed



section \<open>Replay protection\<close>

primrec loop_steps :: "('w, 'f) env \<Rightarrow> time \<Rightarrow> nat \<Rightarrow> ('w, 'e) config \<Rightarrow> ('w, 'e) config option" where
  "loop_steps env deadline 0 c = Some c"
| "loop_steps env deadline (Suc n) c =
     (case loop_body env deadline c of Inl c1 \<Rightarrow> loop_steps env deadline n c1 | Inr _ \<Rightarrow> None)"

lemma after_llm_successes:
  assumes "after_llm what x = Inl (l', s', w')" and "\<And>r l1 s1 w1. x = (r, l1, s1, w1) \<Longrightarrow> core_fields l1 = core_fields l"
  shows "successfulCalls l' = successfulCalls l"
  using assms(1)
proof (rule after_llm_continues)
  fix action l1 s1 w1
  assume x: "x = (Inr action, l1, s1, w1)" and c: "(l', s', w') = (transition action l1, s1, w1)"
  then have "core_fields l' = core_fields l" using assms(2) [OF x] by simp
  then show ?thesis by (simp add: core_fields_unfold)
qed

lemma loop_body_successes:
  assumes "loop_body env deadline (l, s, w) = Inl (l', s', w')"
  shows "m_count (successfulCalls l) k \<le> m_count (successfulCalls l') k"
proof -
  obtain t w1 where n: "ev_now env w = (t, w1)" by fastforce
  obtain e w2 where x: "ev_ctx_err env w1 = (e, w2)" by fastforce
  note body = assms [unfolded loop_body_def prod.case Let_def n x]
  have e: "e = None" "\<not> deadline < t" using body by (cases e; auto split: if_splits)+
  show ?thesis
  proof (cases "lp_state l")
    case StateThinking
    let ?s = "if turnCount l \<ge> 8 \<and> turnCount l mod 4 = 0 then injectInstructionReminder s else s"
    have "after_llm ''thinking'' (think env (l, ?s, w2)) = Inl (l', s', w')"
      using body e StateThinking by (auto split: if_split_asm)
    from after_llm_successes [OF this, of l] think_frame show ?thesis by (metis order_refl)
  next
    case StateReflecting
    then have "after_llm ''reflection'' (reflect env (l, s, w2)) = Inl (l', s', w')" using body e by simp
    from after_llm_successes [OF this, of l] reflect_frame show ?thesis by (metis order_refl)
  next
    case StateActing
    with body e obtain a l1 where act: "act env (l, s, w2) = Some (a, l1, s', w')" and l': "l' = transition a l1"
      by (cases "act env (l, s, w2)") auto
    then show ?thesis using act_calls_answers [of env "pendingCalls s" l s w2 a l1 s' w']
      by (auto simp: act_def split: if_splits)
  qed (use body e in auto)
qed

lemma loop_steps_successes:
  "loop_steps env deadline n (l, s, w) = Some (l', s', w')
     \<Longrightarrow> m_count (successfulCalls l) k \<le> m_count (successfulCalls l') k"
proof (induction n arbitrary: l s w)
  case (Suc n)
  from Suc.prems obtain l1 s1 w1 where b: "loop_body env deadline (l, s, w) = Inl (l1, s1, w1)"
    and r: "loop_steps env deadline n (l1, s1, w1) = Some (l', s', w')"
    by (auto split: sum.splits)
  from loop_body_successes [OF b, of k] Suc.IH [OF r] show ?case by (rule order_trans)
qed simp

lemma structured_nonempty: "isStructuredJSON js a \<Longrightarrow> a \<noteq> []"
  by (auto simp: isStructuredJSON_def)

lemma check_replay:
  assumes "accepted (normalized_args env tc l)" and "args = cn_Arguments (normalized_args env tc l)"
    and "prior_successes env tc args l s > 0" and "RequiresReplayProtection (tc_Name tc)"
    and "check_and_execute env tc tool (l, s, w) = Some (l', s', w')"
  shows "core_fields l' = core_fields l \<and> w' = w"
proof -
  have "isStructuredJSON (ev_js env) args"
    using accepted_structured assms(1) by (simp only: assms(2) normalized_args_def NormalizeToolCall_def)
  then have "args \<noteq> []" by (rule structured_nonempty)
  then have "\<exists>out. answer_call env tc args out False ''suppressed_replay'' (l, s, w) = (l', s', w')"
    using assms by (auto simp: check_and_execute_def Let_def accepted_def)
  with answer_call_frame show ?thesis by fastforce
qed

text \<open>
  C10. A side effect that succeeded once in a turn is not repeated: when a success is on record
  under the fingerprint of a protected call, then after any number of further loop iterations
  that call, however its arguments were written, reaches neither the tool nor the outside world.
\<close>

theorem successful_side_effect_not_replayed:
  assumes "0 < m_count (successfulCalls l) (fp_Key (ReplayFingerprintForCall (ev_js env) (tc_Name tc) args))"
    and "RequiresReplayProtection (tc_Name tc)"
    and "loop_steps env deadline n (l, s, w) = Some (l1, s1, w1)"
    and "accepted (normalized_args env tc l1)" and "args = cn_Arguments (normalized_args env tc l1)"
    and "act_call env tc (l1, s1, w1) = Some (r, l2, s2, w2)"
  shows "w2 = w1 \<and> traceEntries l2 = traceEntries l1"
  using assms(6)
proof (cases rule: act_call_cases)
  case (checked l' tool)
  then have norm: "normalized_args env tc l' = normalized_args env tc l1"
    and counts: "successfulCalls l' = successfulCalls l1"
    by (simp_all add: normalized_args_def core_fields_unfold)
  have "0 < m_count (successfulCalls l1) (fp_Key (ReplayFingerprintForCall (ev_js env) (tc_Name tc) args))"
    using assms(1) loop_steps_successes [OF assms(3)] by (rule less_le_trans)
  then have "prior_successes env tc args l' s1 > 0" by (simp add: prior_successes_def counts Let_def)
  from check_replay [OF _ _ this assms(2) checked(8)] assms(4,5) norm checked(2) show ?thesis
    by (simp add: core_fields_unfold)
qed (simp_all add: core_fields_unfold)

theorem successful_side_effect_not_replayed_witness:
  "\<exists>r l2 s2 w2. act_call (demo_env demo_ok 1) demo_call
      (demo_loop\<lparr>successfulCalls := [(''bash:{}'', 1)]\<rparr>, creator_session, 7) = Some (r, l2, s2, w2)
    \<and> w2 = 7 \<and> traceEntries l2 = []"
proof -
  let ?l = "demo_loop\<lparr>successfulCalls := [(''bash:{}'', 1)]\<rparr>"
  let ?env = "demo_env demo_ok 1"
  have "case act_call ?env demo_call (?l, creator_session, 7) of Some x \<Rightarrow> True | None \<Rightarrow> False"
    by code_simp
  then obtain r l2 s2 w2 where run: "act_call ?env demo_call (?l, creator_session, 7) = Some (r, l2, s2, w2)"
    by (auto split: option.splits)
  have "0 < m_count (successfulCalls ?l) (fp_Key (ReplayFingerprintForCall (ev_js ?env) (tc_Name demo_call) ''{}''))"
    "RequiresReplayProtection (tc_Name demo_call)" "accepted (normalized_args ?env demo_call ?l)"
    "''{}'' = cn_Arguments (normalized_args ?env demo_call ?l)"
    by code_simp+
  from successful_side_effect_not_replayed [OF this(1,2) _ this(3,4) run, of 0 0 creator_session 7]
  have "w2 = 7" "traceEntries l2 = traceEntries ?l" by simp_all
  with run show ?thesis by (auto simp: demo_loop_def NewLoop_def)
qed

section \<open>The repeated-call detector\<close>

fun detect_all :: "(string \<times> string) list \<Rightarrow> 'e Loop \<Rightarrow> 'e Loop option" where
  "detect_all [] l = Some l"
| "detect_all ((n, a) # cs) l =
     (case detectLoop n a l of None \<Rightarrow> None | Some (b, l1) \<Rightarrow> detect_all cs l1)"

lemma all_equal_iff: "xs \<noteq> [] \<Longrightarrow> list_all (\<lambda>c. c = hd xs) (tl xs) \<longleftrightarrow> list_all (\<lambda>c. c = last xs) xs"
proof (cases xs)
  case (Cons x ys)
  show ?thesis
  proof (cases "ys = []")
    case False
    then have "last ys \<in> set ys" by simp
    then have "(\<forall>c \<in> set ys. c = x) \<longleftrightarrow> x = last ys \<and> (\<forall>c \<in> set ys. c = last ys)" by metis
    with Cons False show ?thesis by (simp add: list_all_iff)
  qed (simp add: Cons)
qed simp

lemma detectLoop_window:
  assumes "0 < k" and "LoopWindow (lp_config l) = int k" and "recentCalls l = drop (length hist - k) hist"
  shows "let calls = hist @ [(n, a)]; window = drop (length calls - k) calls in
    detectLoop n a l = Some (k \<le> length calls \<and> list_all (\<lambda>c. c = (n, a)) window, l\<lparr>recentCalls := window\<rparr>)"
proof -
  define calls where "calls = hist @ [(n, a)]"
  define win where "win = drop (length calls - k) calls"
  have eq: "(if int (length (recentCalls l @ [(n, a)])) > int k
      then drop (length (recentCalls l @ [(n, a)]) - nat (int k)) (recentCalls l @ [(n, a)])
      else recentCalls l @ [(n, a)]) = win"
    unfolding assms(3) win_def calls_def using assms(1) by (auto simp: Suc_diff_le)
  have ne: "win \<noteq> []" "last win = (n, a)" and len: "length win = min k (length calls)"
    using assms(1) by (auto simp: last_drop win_def calls_def)
  have "detectLoop n a l = (if int (length win) < int k then Some (False, l\<lparr>recentCalls := win\<rparr>)
      else Some (list_all (\<lambda>c. c = hd win) (tl win), l\<lparr>recentCalls := win\<rparr>))"
    using assms(1) by (simp only: detectLoop_def Let_def assms(2) eq) simp
  then have "detectLoop n a l = Some (k \<le> length calls \<and> list_all (\<lambda>c. c = (n, a)) win, l\<lparr>recentCalls := win\<rparr>)"
    using all_equal_iff [OF ne(1)] ne(2) len by (auto simp: min_def)
  then show ?thesis by (simp only: Let_def calls_def win_def)
qed

lemma detect_all_window:
  assumes "0 < k" and "LoopWindow (lp_config l) = int k" and "recentCalls l = drop (length h0 - k) h0"
  shows "detect_all hist l = Some (l\<lparr>recentCalls := drop (length (h0 @ hist) - k) (h0 @ hist)\<rparr>)"
  using assms
proof (induction hist arbitrary: l h0)
  case (Cons c hist)
  obtain n a where c: "c = (n, a)" by (cases c)
  note step = detectLoop_window [OF Cons.prems, of n a, unfolded Let_def]
  have "detect_all hist (l\<lparr>recentCalls := drop (length (h0 @ [(n, a)]) - k) (h0 @ [(n, a)])\<rparr>)
      = Some (l\<lparr>recentCalls := drop (length ((h0 @ [(n, a)]) @ hist) - k) ((h0 @ [(n, a)]) @ hist)\<rparr>)"
    using Cons.IH [of "l\<lparr>recentCalls := drop (length (h0 @ [(n, a)]) - k) (h0 @ [(n, a)])\<rparr>" "h0 @ [(n, a)]"]
      Cons.prems by simp
  then show ?case by (simp add: c step)
qed simp

text \<open>
  With a positive window, the repeated-call detector never panics and fires exactly when the
  last calls, as many as the window holds, are all the same call with the same arguments; with
  a window of zero or less it panics on the first call.
\<close>

theorem loop_detector_exact:
  "(0 < LoopWindow cfg \<longrightarrow>
     (\<exists>l l'. detect_all hist (NewLoop cfg reg pol norm) = Some l
        \<and> detectLoop n a l = Some (nat (LoopWindow cfg) \<le> length hist + 1
             \<and> list_all (\<lambda>c. c = (n, a)) (drop (length hist + 1 - nat (LoopWindow cfg)) hist), l')))
   \<and> (LoopWindow cfg \<le> 0 \<longrightarrow> detectLoop n a (NewLoop cfg reg pol norm) = None)"
proof (intro conjI impI)
  assume w: "0 < LoopWindow cfg"
  let ?k = "nat (LoopWindow cfg)" and ?l = "NewLoop cfg reg pol norm"
  have k: "0 < ?k" "LoopWindow (lp_config ?l) = int ?k" "recentCalls ?l = drop (length [] - ?k) []"
    using w by (simp_all add: NewLoop_def)
  let ?l1 = "?l\<lparr>recentCalls := drop (length hist - ?k) hist\<rparr>"
  have "detect_all hist ?l = Some ?l1" using detect_all_window [OF k, of hist] by simp
  moreover have "\<exists>l'. detectLoop n a ?l1 = Some (?k \<le> length hist + 1
      \<and> list_all (\<lambda>c. c = (n, a)) (drop (length hist + 1 - ?k) hist), l')"
    using detectLoop_window [of ?k ?l1 hist n a] k by (simp add: Let_def list_all_iff)
  ultimately show "\<exists>l l'. detect_all hist ?l = Some l
        \<and> detectLoop n a l = Some (?k \<le> length hist + 1
             \<and> list_all (\<lambda>c. c = (n, a)) (drop (length hist + 1 - ?k) hist), l')" by blast
qed (simp add: detectLoop_def NewLoop_def)

theorem loop_detector_exact_witness:
  "\<exists>l l'. detect_all [(''bash'', ''a''), (''bash'', ''b''), (''bash'', ''b'')] demo_loop = Some l
     \<and> detectLoop ''bash'' ''b'' l = Some (True, l')"
  using loop_detector_exact [of DefaultLoopConfig "[(''bash'', ''a''), (''bash'', ''b''), (''bash'', ''b'')]"
      demo_registry "Some (NewEngine DefaultConfig)" None "''bash''" "''b''"]
  by (simp add: demo_loop_def DefaultLoopConfig_def)

end
