(* ===== verification/GoHeap.thy ===== *)
theory GoHeap
  imports Main "HOL-Library.Multiset"
begin

text \<open>
  The binary heap of Go's standard library (\<^verbatim>\<open>container/heap\<close>) on a slice, as the delivery queue
  uses it: \<^verbatim>\<open>Push\<close> appends and sifts up, \<^verbatim>\<open>Pop\<close> swaps the root with the last element, sifts
  down and removes it. The order is given by an integer key. The locale \<open>min_queue\<close> is what a
  client may rely on; the heap is an instance of it.
\<close>

section \<open>Sifting\<close>

definition swap :: "'a list \<Rightarrow> nat \<Rightarrow> nat \<Rightarrow> 'a list" where
  "swap h i j = h[i := h ! j, j := h ! i]"

definition par :: "nat \<Rightarrow> nat" where
  "par j = (j - 1) div 2"

function up :: "('a \<Rightarrow> int) \<Rightarrow> 'a list \<Rightarrow> nat \<Rightarrow> 'a list" where
  "up key h j =
     (if j = 0 \<or> \<not> key (h ! j) < key (h ! par j) then h else up key (swap h (par j) j) (par j))"
  by pat_completeness auto
termination by (relation "measure (\<lambda>(key, h, j). j)") (auto simp: par_def)

definition least_child :: "('a \<Rightarrow> int) \<Rightarrow> 'a list \<Rightarrow> nat \<Rightarrow> nat \<Rightarrow> nat" where
  "least_child key h i n =
     (if 2 * i + 2 < n \<and> key (h ! (2 * i + 2)) < key (h ! (2 * i + 1)) then 2 * i + 2 else 2 * i + 1)"

function down :: "('a \<Rightarrow> int) \<Rightarrow> 'a list \<Rightarrow> nat \<Rightarrow> nat \<Rightarrow> 'a list" where
  "down key h i n =
     (if 2 * i + 1 \<ge> n then h
      else let j = least_child key h i n in
        if \<not> key (h ! j) < key (h ! i) then h else down key (swap h i j) j n)"
  by pat_completeness auto
termination by (relation "measure (\<lambda>(key, h, i, n). n - i)") (auto simp: least_child_def)

declare up.simps [simp del] down.simps [simp del]

definition heap_Push :: "('a \<Rightarrow> int) \<Rightarrow> 'a \<Rightarrow> 'a list \<Rightarrow> 'a list" where
  "heap_Push key x h = up key (h @ [x]) (length h)"

definition heap_Pop :: "('a \<Rightarrow> int) \<Rightarrow> 'a list \<Rightarrow> 'a \<times> 'a list" where
  "heap_Pop key h =
     (let n = length h - 1;
          h1 = down key (swap h 0 n) 0 n
      in (last h1, butlast h1))"

section \<open>The heap order\<close>

definition edge_ok :: "('a \<Rightarrow> int) \<Rightarrow> 'a list \<Rightarrow> nat \<Rightarrow> bool" where
  "edge_ok key h k \<longleftrightarrow> key (h ! par k) \<le> key (h ! k)"

definition is_heap :: "('a \<Rightarrow> int) \<Rightarrow> nat \<Rightarrow> 'a list \<Rightarrow> bool" where
  "is_heap key n h \<longleftrightarrow> (\<forall>k. 0 < k \<longrightarrow> k < n \<longrightarrow> edge_ok key h k)"

lemma length_swap [simp]: "length (swap h i j) = length h"
  by (simp add: swap_def)

lemma mset_swap_heap: "i < length h \<Longrightarrow> j < length h \<Longrightarrow> mset (swap h i j) = mset h"
  unfolding swap_def by (metis list_update_swap mset_swap list_update_id)

lemma nth_swap: "i < length h \<Longrightarrow> j < length h \<Longrightarrow>
    swap h i j ! k = (if k = j then h ! i else if k = i then h ! j else h ! k)"
  by (simp add: swap_def nth_list_update)

lemma par_less [simp]: "0 < k \<Longrightarrow> par k < k"
  by (auto simp: par_def)

lemma par_bound [simp]: "k < n \<Longrightarrow> par k < n"
  by (auto simp: par_def)

lemma par_child: "par k = i \<longleftrightarrow> k = 2 * i + 1 \<or> k = 2 * i + 2 \<or> (k = 0 \<and> i = 0)"
  by (auto simp: par_def)

lemma least_child_par: "par (least_child key h i n) = i"
  by (simp add: least_child_def par_child)

lemma least_child_bounds: "2 * i + 1 < n \<Longrightarrow> i < least_child key h i n \<and> least_child key h i n < n"
  by (auto simp: least_child_def)

lemma least_child_min:
  assumes "0 < k" and "k < n" and "par k = i"
  shows "key (h ! least_child key h i n) \<le> key (h ! k)"
  using assms by (auto simp: least_child_def par_child)

lemma up_length [simp]: "length (up key h j) = length h"
  by (induction key h j rule: up.induct) (subst up.simps, simp)

lemma up_mset: "j < length h \<Longrightarrow> mset (up key h j) = mset h"
proof (induction key h j rule: up.induct)
  case (1 key h j)
  have "par j < length h" using 1(2) by (cases "j = 0") (auto simp: par_def)
  then show ?case using 1 by (subst up.simps) (simp add: mset_swap_heap)
qed

text \<open>Sifting up repairs the one edge above \<open>j\<close> that may be broken.\<close>

lemma up_heap:
  assumes "j < length h" and "\<forall>k. 0 < k \<longrightarrow> k < length h \<longrightarrow> k \<noteq> j \<longrightarrow> edge_ok key h k"
    and "\<forall>k. 0 < k \<longrightarrow> k < length h \<longrightarrow> par k = j \<longrightarrow> 0 < j \<longrightarrow> key (h ! par j) \<le> key (h ! k)"
  shows "is_heap key (length h) (up key h j)"
  using assms
proof (induction key h j rule: up.induct)
  case (1 key h j)
  show ?case
  proof (cases "j = 0 \<or> \<not> key (h ! j) < key (h ! par j)")
    case True
    then have "edge_ok key h j" if "0 < j" using that by (auto simp: edge_ok_def)
    then show ?thesis using "1.prems"(2) True by (subst up.simps) (auto simp: is_heap_def)
  next
    case False
    let ?i = "par j" and ?h = "swap h (par j) j"
    have j: "0 < j" and lt: "key (h ! j) < key (h ! ?i)" using False by auto
    have i: "?i < j" "?i < length h" using j "1.prems"(1) par_less [OF j] by auto
    note nth = nth_swap [OF i(2) "1.prems"(1)]
    have edges: "edge_ok key ?h k" if k: "0 < k" "k < length h" "k \<noteq> ?i" for k
    proof -
      have old: "k \<noteq> j \<Longrightarrow> key (h ! par k) \<le> key (h ! k)"
        using "1.prems"(2) k by (auto simp: edge_ok_def)
      have "par k = j \<Longrightarrow> key (h ! ?i) \<le> key (h ! k)" using "1.prems"(3) k j by blast
      then show ?thesis using old lt k i(1) par_less [OF k(1)]
        by (cases "par k = j"; cases "par k = ?i") (auto simp: edge_ok_def nth)
    qed
    have above: "key (?h ! par ?i) \<le> key (?h ! k)"
      if k: "0 < k" "k < length h" "par k = ?i" "0 < ?i" for k
    proof -
      have pi: "key (h ! par ?i) \<le> key (h ! ?i)"
        using "1.prems"(2) i k(4) by (auto simp: edge_ok_def)
      have "k \<noteq> j \<Longrightarrow> key (h ! ?i) \<le> key (h ! k)" using "1.prems"(2) k unfolding edge_ok_def by metis
      then show ?thesis using pi par_less [OF k(4)] i(1) k(1,3) by (auto simp: nth)
    qed
    have "is_heap key (length ?h) (up key ?h ?i)"
      using "1.IH" [OF False] edges above i(2) by simp
    then show ?thesis using False by (subst up.simps) simp
  qed
qed

lemma down_length [simp]: "length (down key h i n) = length h"
  by (induction key h i n rule: down.induct) (subst down.simps, simp add: Let_def)

lemma down_frame:
  assumes "n \<le> length h"
  shows "(\<forall>k. n \<le> k \<longrightarrow> k < length h \<longrightarrow> down key h i n ! k = h ! k) \<and> mset (down key h i n) = mset h"
  using assms
proof (induction key h i n rule: down.induct)
  case (1 key h i n)
  show ?case
  proof (cases "2 * i + 1 \<ge> n \<or> \<not> key (h ! least_child key h i n) < key (h ! i)")
    case True
    then show ?thesis by (subst (1 2) down.simps) (auto simp: Let_def)
  next
    case False
    let ?j = "least_child key h i n"
    have b: "i < ?j" "?j < n" using least_child_bounds [of i n key h] False by auto
    have bl: "i < length h" "?j < length h" using b "1.prems" by auto
    have rec: "down key h i n = down key (swap h i ?j) ?j n"
      using False by (subst down.simps) (simp add: Let_def)
    from "1.IH" [OF _ refl] False "1.prems" have
      "(\<forall>k. n \<le> k \<longrightarrow> k < length h \<longrightarrow> down key (swap h i ?j) ?j n ! k = swap h i ?j ! k)
        \<and> mset (down key (swap h i ?j) ?j n) = mset (swap h i ?j)" by simp
    then show ?thesis unfolding rec using b by (simp add: nth_swap [OF bl] mset_swap_heap [OF bl])
  qed
qed

text \<open>Sifting down repairs the edges below \<open>i\<close>.\<close>

lemma down_heap:
  assumes "n \<le> length h" and "\<forall>k. 0 < k \<longrightarrow> k < n \<longrightarrow> par k \<noteq> i \<longrightarrow> edge_ok key h k"
    and "\<forall>k. 0 < k \<longrightarrow> k < n \<longrightarrow> par k = i \<longrightarrow> 0 < i \<longrightarrow> key (h ! par i) \<le> key (h ! k)"
  shows "is_heap key n (down key h i n)"
  using assms
proof (induction key h i n rule: down.induct)
  case (1 key h i n)
  let ?j = "least_child key h i n"
  show ?case
  proof (cases "2 * i + 1 \<ge> n \<or> \<not> key (h ! ?j) < key (h ! i)")
    case True
    have "edge_ok key h k" if k: "0 < k" "k < n" for k
    proof (cases "par k = i")
      case p: True
      then have "\<not> 2 * i + 1 \<ge> n" using k by (auto simp: par_child)
      then show ?thesis using True least_child_min [OF k p, of key h] p by (auto simp: edge_ok_def)
    qed (use "1.prems"(2) k in blast)
    moreover have "down key h i n = h" using True by (subst down.simps) (auto simp: Let_def)
    ultimately show ?thesis by (simp add: is_heap_def)
  next
    case False
    let ?h = "swap h i ?j"
    have b: "i < ?j" "?j < n" using least_child_bounds [of i n key h] False by auto
    have bl: "i < length h" "?j < length h" using b "1.prems"(1) by auto
    have pj: "par ?j = i" by (rule least_child_par)
    note nth = nth_swap [OF bl]
    have edges: "edge_ok key ?h k" if k: "0 < k" "k < n" "par k \<noteq> ?j" for k
    proof (cases "par k = i")
      case p: True
      then show ?thesis using least_child_min [OF k(1,2) p, of key h] False b k(1)
        by (auto simp: edge_ok_def nth)
    next
      case p: False
      then have old: "key (h ! par k) \<le> key (h ! k)" using "1.prems"(2) k by (auto simp: edge_ok_def)
      have "k = i \<Longrightarrow> key (h ! par i) \<le> key (h ! ?j)" using "1.prems"(3) b pj k(1) by auto
      then show ?thesis using old p pj k(3) by (auto simp: edge_ok_def nth)
    qed
    have below: "key (?h ! par ?j) \<le> key (?h ! k)" if k: "0 < k" "k < n" "par k = ?j" for k
    proof -
      have "key (h ! ?j) \<le> key (h ! k)"
        using "1.prems"(2) k b(1) unfolding edge_ok_def by (metis less_irrefl)
      then show ?thesis using k par_less [OF k(1)] b by (auto simp: nth pj)
    qed
    have "is_heap key n (down key ?h ?j n)"
      using "1.IH" [OF _ refl] False edges below "1.prems"(1) by simp
    then show ?thesis using False by (subst down.simps) (simp add: Let_def)
  qed
qed

lemma heap_root_least:
  assumes "is_heap key n h" and "k < n"
  shows "key (h ! 0) \<le> key (h ! k)"
  using assms(2)
proof (induction k rule: less_induct)
  case (less k)
  show ?case
  proof (cases "k = 0")
    case False
    then have "key (h ! 0) \<le> key (h ! par k)" using less.IH [of "par k"] less.prems par_less [of k] par_bound [of k n] by simp
    also have "\<dots> \<le> key (h ! k)" using assms(1) False less.prems by (simp add: is_heap_def edge_ok_def)
    finally show ?thesis .
  qed simp
qed

definition heap_ok :: "('a \<Rightarrow> int) \<Rightarrow> 'a list \<Rightarrow> bool" where
  "heap_ok key h \<longleftrightarrow> is_heap key (length h) h"

lemma heap_ok_Nil [simp]: "heap_ok key []"
  by (simp add: heap_ok_def is_heap_def)

lemma heap_Push_mset [simp]: "mset (heap_Push key x h) = add_mset x (mset h)"
  by (simp add: heap_Push_def up_mset)

lemma heap_Push_ok: "heap_ok key h \<Longrightarrow> heap_ok key (heap_Push key x h)"
proof -
  assume ok: "heap_ok key h"
  have "edge_ok key (h @ [x]) k" if "0 < k" "k < length h" for k
    using ok that par_less [of k] by (simp add: heap_ok_def is_heap_def edge_ok_def nth_append)
  moreover have "\<not> (par k = length h \<and> k < Suc (length h) \<and> 0 < k)" for k
    using par_less [of k] by (metis less_Suc_eq_le not_less)
  ultimately have "is_heap key (length (h @ [x])) (up key (h @ [x]) (length h))"
    by (intro up_heap) auto
  then show ?thesis by (simp add: heap_ok_def heap_Push_def)
qed

lemma heap_Pop_spec:
  assumes "heap_ok key h" and "h \<noteq> []" and "heap_Pop key h = (x, h')"
  shows "x = h ! 0 \<and> heap_ok key h' \<and> mset h = add_mset x (mset h')"
proof -
  define n where "n = length h - 1"
  define h1 where "h1 = down key (swap h 0 n) 0 n"
  have n: "length h = Suc n" using assms(2) by (simp add: n_def)
  have nth: "swap h 0 n ! k = (if k = n then h ! 0 else if k = 0 then h ! n else h ! k)" for k
    using n by (intro nth_swap) auto
  have edges: "edge_ok key (swap h 0 n) k" if k: "0 < k" "k < n" "par k \<noteq> 0" for k
  proof -
    have "par k \<noteq> n" using par_bound [OF k(2)] by (rule less_imp_neq)
    then show ?thesis using assms(1) k n by (simp add: heap_ok_def is_heap_def edge_ok_def nth)
  qed
  have heap: "is_heap key n h1" unfolding h1_def by (rule down_heap) (use edges n in auto)
  have frame: "h1 ! n = h ! 0" "mset h1 = mset h" "length h1 = Suc n"
    using down_frame [of n "swap h 0 n" key 0] n by (simp_all add: h1_def nth mset_swap_heap)
  have ne: "h1 \<noteq> []" using frame(3) by auto
  have "last h1 = h ! 0" using frame ne by (simp add: last_conv_nth)
  moreover have "heap_ok key (butlast h1)"
    using heap frame(3) by (auto simp: heap_ok_def is_heap_def edge_ok_def nth_butlast par_less less_trans [OF par_less])
  moreover have "mset h1 = add_mset (last h1) (mset (butlast h1))"
    using ne by (metis append_butlast_last_id mset_append mset.simps add_mset_add_single)
  moreover have "heap_Pop key h = (last h1, butlast h1)" by (simp add: heap_Pop_def n_def h1_def Let_def)
  ultimately show ?thesis using assms(3) frame(2) by auto
qed

section \<open>Queues with a minimum\<close>

text \<open>
  A client's view: a multiset of elements of which the first one has a least key. \<open>drain now\<close>
  takes elements from the front while their key has come.
\<close>

locale min_queue =
  fixes key :: "'a \<Rightarrow> int"
    and elems :: "'q \<Rightarrow> 'a multiset"
    and wf :: "'q \<Rightarrow> bool"
    and front :: "'q \<Rightarrow> 'a"
    and pop :: "'q \<Rightarrow> 'a \<times> 'q"
    and drain :: "int \<Rightarrow> 'q \<Rightarrow> 'a list \<times> 'q"
  assumes pop_front: "wf q \<Longrightarrow> elems q \<noteq> {#} \<Longrightarrow> pop q = (x, q') \<Longrightarrow>
      x = front q \<and> wf q' \<and> elems q = add_mset x (elems q')"
    and front_least: "wf q \<Longrightarrow> y \<in># elems q \<Longrightarrow> key (front q) \<le> key y"
    and drain_step: "wf q \<Longrightarrow> drain now q =
      (if elems q = {#} \<or> now < key (front q) then ([], q)
       else let (x, q') = pop q; (xs, q'') = drain now q' in (x # xs, q''))"
begin

lemma drain_spec:
  assumes "wf q" and "drain now q = (xs, q')"
  shows "wf q' \<and> elems q = mset xs + elems q' \<and> sorted (map key xs)
    \<and> (\<forall>x \<in> set xs. key x \<le> now) \<and> (\<forall>y. y \<in># elems q' \<longrightarrow> now < key y)"
  using assms
proof (induction "size (elems q)" arbitrary: q xs q' rule: less_induct)
  case less
  show ?case
  proof (cases "elems q = {#} \<or> now < key (front q)")
    case True
    then have "xs = []" "q' = q" using less.prems drain_step by auto
    moreover have "now < key y" if "y \<in># elems q" for y
      using True that front_least [OF less.prems(1) that] by auto
    ultimately show ?thesis using less.prems(1) by simp
  next
    case False
    obtain x q1 where p: "pop q = (x, q1)" by fastforce
    obtain ys q2 where d: "drain now q1 = (ys, q2)" by fastforce
    have res: "xs = x # ys" "q' = q2" using less.prems drain_step False p d by auto
    have P: "x = front q" "wf q1" "elems q = add_mset x (elems q1)"
      using pop_front [OF less.prems(1) _ p] False by auto
    have "size (elems q1) < size (elems q)" using P(3) by simp
    note IH = less.hyps [OF this P(2) d]
    have "key x \<le> key y" if "y \<in> set ys" for y
      using front_least [OF less.prems(1), of y] P(1,3) IH that by auto
    then show ?thesis using IH P False res by (auto simp: not_less)
  qed
qed

end

function drain_heap :: "('a \<Rightarrow> int) \<Rightarrow> int \<Rightarrow> 'a list \<Rightarrow> 'a list \<times> 'a list" where
  "drain_heap key now h =
     (if h = [] \<or> now < key (h ! 0) then ([], h)
      else let (x, h1) = heap_Pop key h; (xs, h2) = drain_heap key now h1 in (x # xs, h2))"
  by pat_completeness auto
termination
  by (relation "measure (\<lambda>(key, now, h). length h)")
    (auto simp: heap_Pop_def Let_def)

declare drain_heap.simps [simp del]

interpretation go_heap: min_queue key mset "heap_ok key" "\<lambda>h. h ! 0" "heap_Pop key" "drain_heap key" for key
proof unfold_locales
  fix q x q' assume "heap_ok key q" "mset q \<noteq> {#}" "heap_Pop key q = (x, q')"
  then show "x = q ! 0 \<and> heap_ok key q' \<and> mset q = add_mset x (mset q')"
    by (intro heap_Pop_spec) simp_all
next
  fix q y assume ok: "heap_ok key q" and "y \<in># mset q"
  then obtain k where "k < length q" "y = q ! k" by (metis in_set_conv_nth set_mset_mset)
  with ok show "key (q ! 0) \<le> key y" using heap_root_least by (auto simp: heap_ok_def)
next
  fix q now assume "heap_ok key q"
  show "drain_heap key now q = (if mset q = {#} \<or> now < key (q ! 0) then ([], q)
      else let (x, q') = heap_Pop key q; (xs, q'') = drain_heap key now q' in (x # xs, q''))"
    by (subst drain_heap.simps) simp
qed

end
