(* ===== verification/Delivery.thy ===== *)
theory Delivery
  imports Prelude GoHeap
begin

text \<open>
  The outbound message queue of \<^verbatim>\<open>internal/channel/delivery.go\<close>: a heap ordered by retry time,
  retries with backoff, dead letters, a SQLite table for recovery and the worker that sends.
  Times are stored with a resolution of one second and the idempotency key is not stored at all.
  The queue writes its status as an integer; whether the table accepts the write is a parameter
  \<open>accepts\<close>, and \<open>schema_accepts\<close> is what the constraint of \<^verbatim>\<open>internal/db/schema.go\<close> accepts. A
  rejected write is only logged. The model's table holds the rows the queue can see: rows that
  \<^verbatim>\<open>DeliveryRepository\<close> writes have textual statuses, which no query of the queue matches. Items
  are values: the code's pointers are never shared after an item leaves the heap. The field
  \<^verbatim>\<open>index\<close>, which no code reads, is left out, and so are the read-only reports \<^verbatim>\<open>DeadLetters\<close> and
  \<^verbatim>\<open>DeadLettersFromStore\<close>.
\<close>

section \<open>Items and backoff\<close>

datatype DeliveryStatus = DeliveryPending | DeliveryInFlight | DeliveryDelivered | DeliveryFailed
  | DeliveryDeadLetter

record DeliveryItem =
  di_ID :: string
  di_Channel :: string
  di_RecipientID :: string
  di_Content :: string
  di_IdempotencyKey :: string
  di_Status :: DeliveryStatus
  di_Attempts :: int
  di_MaxAttempts :: int
  di_NextRetryAt :: time
  di_CreatedAt :: time
  di_LastError :: string

definition backoffDelay :: "int \<Rightarrow> duration" where
  "backoffDelay attempt =
     (if attempt = 0 then 0 else if attempt = 1 then 1 * second else if attempt = 2 then 5 * second
      else if attempt = 3 then 30 * second else if attempt = 4 then 5 * minute else 15 * minute)"

definition permanentErrorPatterns :: "string list" where
  "permanentErrorPatterns =
     [''403 forbidden'', ''401 unauthorized'', ''400 bad request'', ''blocked by the user'',
      ''bot was blocked'', ''chat not found'', ''user is deactivated'', ''bot was kicked'',
      ''peer_id_invalid'']"

definition isPermanentError :: "string \<Rightarrow> bool" where
  "isPermanentError errMsg \<longleftrightarrow> list_ex (contains (to_lower errMsg)) permanentErrorPatterns"

section \<open>The table\<close>

definition rfc3339 :: "time \<Rightarrow> time" where
  "rfc3339 t = t - t mod second"

text \<open>The row \<^verbatim>\<open>persistItem\<close> writes, read back.\<close>

definition stored_item :: "DeliveryItem \<Rightarrow> DeliveryItem" where
  "stored_item x = x\<lparr>di_IdempotencyKey := [], di_NextRetryAt := rfc3339 (di_NextRetryAt x),
     di_CreatedAt := rfc3339 (di_CreatedAt x)\<rparr>"

text \<open>
  A status is bound as its integer, which a \<^verbatim>\<open>TEXT\<close> column stores as its digits; the
  constraint on the column lists the admissible texts.
\<close>

primrec status_value :: "DeliveryStatus \<Rightarrow> int" where
  "status_value DeliveryPending = 0"
| "status_value DeliveryInFlight = 1"
| "status_value DeliveryDelivered = 2"
| "status_value DeliveryFailed = 3"
| "status_value DeliveryDeadLetter = 4"

definition delivery_status_check :: "string list" where
  "delivery_status_check = [''pending'', ''in_flight'', ''delivered'', ''dead_letter'']"

definition schema_accepts :: "DeliveryStatus \<Rightarrow> bool" where
  "schema_accepts st \<longleftrightarrow> show_int (status_value st) \<in> set delivery_status_check"

type_synonym delivery_table = "(string, DeliveryItem) gomap"

definition persistItem :: "(DeliveryStatus \<Rightarrow> bool) \<Rightarrow> DeliveryItem \<Rightarrow> delivery_table option \<Rightarrow> delivery_table option" where
  "persistItem accepts x store =
     (case store of None \<Rightarrow> None
      | Some rows \<Rightarrow> Some (if accepts (di_Status x) then m_put (di_ID x) (stored_item x) rows else rows))"

definition updateItemStatus :: "(DeliveryStatus \<Rightarrow> bool) \<Rightarrow> DeliveryItem \<Rightarrow> delivery_table option \<Rightarrow> delivery_table option" where
  "updateItemStatus accepts x store =
     (case store of None \<Rightarrow> None
      | Some rows \<Rightarrow> Some (if accepts (di_Status x) then m_modify (\<lambda>r. r\<lparr>di_Status := di_Status x, di_Attempts := di_Attempts x,
            di_NextRetryAt := rfc3339 (di_NextRetryAt x), di_LastError := di_LastError x\<rparr>) (di_ID x) rows
          else rows))"

section \<open>The queue\<close>

record DeliveryQueue =
  pending :: "DeliveryItem list"
  deadLetters :: "DeliveryItem list"
  dq_store :: "delivery_table option"

abbreviation push_item :: "DeliveryItem \<Rightarrow> DeliveryItem list \<Rightarrow> DeliveryItem list" where
  "push_item \<equiv> heap_Push di_NextRetryAt"

definition recoverFromStore :: "DeliveryQueue \<Rightarrow> DeliveryQueue" where
  "recoverFromStore dq =
     (case dq_store dq of None \<Rightarrow> dq
      | Some rows \<Rightarrow>
          let found = take 2000 (filter (\<lambda>r. di_Status r = DeliveryPending \<or> di_Status r = DeliveryInFlight)
                (map snd rows))
          in dq\<lparr>pending := fold (\<lambda>r. push_item (r\<lparr>di_Status := DeliveryPending\<rparr>)) found (pending dq)\<rparr>)"

definition NewDeliveryQueue :: "delivery_table option \<Rightarrow> DeliveryQueue" where
  "NewDeliveryQueue store = recoverFromStore \<lparr>pending = [], deadLetters = [], dq_store = store\<rparr>"

text \<open>\<open>newid\<close> is what \<^verbatim>\<open>db.NewID\<close> returns, \<open>now1\<close> and \<open>now2\<close> are the two clock readings.\<close>

definition EnqueueWithOptions ::
  "(DeliveryStatus \<Rightarrow> bool) \<Rightarrow> string \<Rightarrow> time \<Rightarrow> time \<Rightarrow> string \<Rightarrow> string \<Rightarrow> string \<Rightarrow> string \<Rightarrow> int \<Rightarrow> DeliveryQueue
     \<Rightarrow> string \<times> DeliveryQueue" where
  "EnqueueWithOptions accepts newid now1 now2 channel recipientID content idempotencyKey maxAttempts dq =
     (case (if idempotencyKey \<noteq> [] then find (\<lambda>x. di_IdempotencyKey x = idempotencyKey) (pending dq) else None) of
        Some existing \<Rightarrow> (di_ID existing, dq)
      | None \<Rightarrow>
          let item = \<lparr>di_ID = newid, di_Channel = channel, di_RecipientID = recipientID, di_Content = content,
                di_IdempotencyKey = idempotencyKey, di_Status = DeliveryPending, di_Attempts = 0,
                di_MaxAttempts = maxAttempts, di_NextRetryAt = now1, di_CreatedAt = now2, di_LastError = []\<rparr>
          in (newid, dq\<lparr>pending := push_item item (pending dq), dq_store := persistItem accepts item (dq_store dq)\<rparr>))"

definition Enqueue ::
  "(DeliveryStatus \<Rightarrow> bool) \<Rightarrow> string \<Rightarrow> time \<Rightarrow> time \<Rightarrow> string \<Rightarrow> string \<Rightarrow> string \<Rightarrow> DeliveryQueue \<Rightarrow> string \<times> DeliveryQueue" where
  "Enqueue accepts newid now1 now2 channel recipientID content dq =
     EnqueueWithOptions accepts newid now1 now2 channel recipientID content [] 5 dq"

definition DrainReady :: "time \<Rightarrow> DeliveryQueue \<Rightarrow> DeliveryItem list \<times> DeliveryQueue" where
  "DrainReady now dq =
     (let (xs, h) = drain_heap di_NextRetryAt now (pending dq)
      in (map (\<lambda>x. x\<lparr>di_Status := DeliveryInFlight\<rparr>) xs, dq\<lparr>pending := h\<rparr>))"

definition MarkDelivered :: "(DeliveryStatus \<Rightarrow> bool) \<Rightarrow> DeliveryItem \<Rightarrow> DeliveryQueue \<Rightarrow> DeliveryQueue" where
  "MarkDelivered accepts x dq =
     dq\<lparr>dq_store := updateItemStatus accepts (x\<lparr>di_Status := DeliveryDelivered\<rparr>) (dq_store dq)\<rparr>"

definition RequeueFailed :: "(DeliveryStatus \<Rightarrow> bool) \<Rightarrow> time \<Rightarrow> DeliveryItem \<Rightarrow> string \<Rightarrow> DeliveryQueue \<Rightarrow> DeliveryQueue" where
  "RequeueFailed accepts now x0 errMsg dq =
     (let x = x0\<lparr>di_Attempts := di_Attempts x0 + 1, di_LastError := errMsg\<rparr> in
      if isPermanentError errMsg \<or> di_Attempts x \<ge> di_MaxAttempts x then
        let y = x\<lparr>di_Status := DeliveryDeadLetter\<rparr>
        in dq\<lparr>deadLetters := deadLetters dq @ [y], dq_store := updateItemStatus accepts y (dq_store dq)\<rparr>
      else
        let y = x\<lparr>di_Status := DeliveryPending, di_NextRetryAt := now + backoffDelay (di_Attempts x)\<rparr>
        in dq\<lparr>pending := push_item y (pending dq), dq_store := updateItemStatus accepts y (dq_store dq)\<rparr>)"

definition replayDeadLetterFromStore :: "(DeliveryStatus \<Rightarrow> bool) \<Rightarrow> time \<Rightarrow> time \<Rightarrow> string \<Rightarrow> DeliveryQueue \<Rightarrow> bool \<times> DeliveryQueue" where
  "replayDeadLetterFromStore accepts now1 now2 i dq =
     (case dq_store dq of None \<Rightarrow> (False, dq)
      | Some rows \<Rightarrow>
          (case m_get rows i of None \<Rightarrow> (False, dq)
           | Some r \<Rightarrow>
               if di_Status r \<noteq> DeliveryDeadLetter then (False, dq)
               else let item = \<lparr>di_ID = di_ID r, di_Channel = di_Channel r, di_RecipientID = di_RecipientID r,
                        di_Content = di_Content r, di_IdempotencyKey = [], di_Status = DeliveryPending,
                        di_Attempts = 0, di_MaxAttempts = di_MaxAttempts r, di_NextRetryAt = now1,
                        di_CreatedAt = now2, di_LastError = []\<rparr>
                    in (True, dq\<lparr>pending := push_item item (pending dq),
                         dq_store := updateItemStatus accepts item (dq_store dq)\<rparr>)))"

fun remove_first :: "('a \<Rightarrow> bool) \<Rightarrow> 'a list \<Rightarrow> 'a list" where
  "remove_first P [] = []"
| "remove_first P (x # xs) = (if P x then xs else x # remove_first P xs)"

definition ReplayDeadLetter :: "(DeliveryStatus \<Rightarrow> bool) \<Rightarrow> time \<Rightarrow> time \<Rightarrow> string \<Rightarrow> DeliveryQueue \<Rightarrow> bool \<times> DeliveryQueue" where
  "ReplayDeadLetter accepts now1 now2 i dq =
     (case find (\<lambda>x. di_ID x = i) (deadLetters dq) of
        Some x \<Rightarrow>
          let y = x\<lparr>di_Status := DeliveryPending, di_Attempts := 0, di_NextRetryAt := now1, di_LastError := []\<rparr>
          in (True, dq\<lparr>pending := push_item y (pending dq),
                deadLetters := remove_first (\<lambda>x. di_ID x = i) (deadLetters dq),
                dq_store := updateItemStatus accepts y (dq_store dq)\<rparr>)
      | None \<Rightarrow> if dq_store dq \<noteq> None then replayDeadLetterFromStore accepts now1 now2 i dq else (False, dq))"

definition PendingCount :: "DeliveryQueue \<Rightarrow> nat" where
  "PendingCount dq = length (pending dq)"

section \<open>The worker\<close>

record OutboundMessage =
  om_Content :: string
  om_RecipientID :: string
  om_Platform :: string

text \<open>
  \<open>adapters\<close> maps a channel to its send operation on the outside world; \<open>Some e\<close> is an error.
  \<open>clock\<close> reads the time and \<open>accepts\<close> tells which statuses the table accepts.
\<close>

fun drain_items ::
  "('w \<Rightarrow> time) \<Rightarrow> ('w \<Rightarrow> DeliveryStatus \<Rightarrow> bool) \<Rightarrow> (string \<Rightarrow> (OutboundMessage \<Rightarrow> 'w \<Rightarrow> string option \<times> 'w) option)
     \<Rightarrow> DeliveryItem list \<Rightarrow> DeliveryQueue \<times> 'w \<Rightarrow> DeliveryQueue \<times> 'w" where
  "drain_items clock accepts adapters [] c = c"
| "drain_items clock accepts adapters (x # xs) (dq, w) =
     drain_items clock accepts adapters xs
       (case adapters (di_Channel x) of
          None \<Rightarrow> (RequeueFailed (accepts w) (clock w) x (''unknown channel: '' @ di_Channel x) dq, w)
        | Some send \<Rightarrow>
            (case send \<lparr>om_Content = di_Content x, om_RecipientID = di_RecipientID x, om_Platform = di_Channel x\<rparr> w of
               (Some e, w1) \<Rightarrow> (RequeueFailed (accepts w1) (clock w1) x e dq, w1)
             | (None, w1) \<Rightarrow> (MarkDelivered (accepts w1) x dq, w1)))"

definition worker_drain ::
  "('w \<Rightarrow> time) \<Rightarrow> ('w \<Rightarrow> DeliveryStatus \<Rightarrow> bool) \<Rightarrow> (string \<Rightarrow> (OutboundMessage \<Rightarrow> 'w \<Rightarrow> string option \<times> 'w) option)
     \<Rightarrow> DeliveryQueue \<times> 'w \<Rightarrow> DeliveryQueue \<times> 'w" where
  "worker_drain clock accepts adapters c =
     (case c of (dq, w) \<Rightarrow> let (items, dq1) = DrainReady (clock w) dq in drain_items clock accepts adapters items (dq1, w))"

section \<open>Draining is exact\<close>

lemma push_set [simp]: "set (push_item x h) = insert x (set h)"
  by (metis heap_Push_mset set_mset_add_mset_insert set_mset_mset)

lemma push_ok [simp]: "heap_ok di_NextRetryAt h \<Longrightarrow> heap_ok di_NextRetryAt (push_item x h)"
  by (rule heap_Push_ok)

lemma DrainReady_spec:
  assumes "heap_ok di_NextRetryAt (pending dq)" and "DrainReady now dq = (items, dq')"
  shows "\<exists>xs. items = map (\<lambda>x. x\<lparr>di_Status := DeliveryInFlight\<rparr>) xs
    \<and> mset (pending dq) = mset xs + mset (pending dq') \<and> sorted (map di_NextRetryAt xs)
    \<and> (\<forall>x \<in> set xs. di_NextRetryAt x \<le> now) \<and> (\<forall>y \<in> set (pending dq'). now < di_NextRetryAt y)
    \<and> heap_ok di_NextRetryAt (pending dq')
    \<and> deadLetters dq' = deadLetters dq \<and> dq_store dq' = dq_store dq"
proof -
  obtain xs h where d: "drain_heap di_NextRetryAt now (pending dq) = (xs, h)" by fastforce
  have "items = map (\<lambda>x. x\<lparr>di_Status := DeliveryInFlight\<rparr>) xs" "dq' = dq\<lparr>pending := h\<rparr>"
    using assms(2) d by (auto simp: DrainReady_def)
  with go_heap.drain_spec [OF assms(1) d] show ?thesis by (intro exI [of _ xs]) simp
qed

section \<open>The queue as a system\<close>

text \<open>
  The queue with the items the worker holds between \<^verbatim>\<open>DrainReady\<close> and their outcome, the ids
  delivered and the ids issued so far. Operations of other goroutines may come in between, and
  the process may restart at any time, which loses the memory but not the table. An id that was
  issued before is not issued again by \<^verbatim>\<open>db.NewID\<close>.
\<close>

record delivery_sys =
  queue :: DeliveryQueue
  inflight :: "DeliveryItem list"
  delivered :: "string list"
  issued :: "string list"

datatype delivery_event =
  EvEnqueue string time time string string string string int | EvDrain time | EvDelivered nat
  | EvFailed nat time string | EvReplay string time time | EvRestart

definition drop_nth :: "nat \<Rightarrow> 'a list \<Rightarrow> 'a list" where
  "drop_nth i xs = take i xs @ drop (Suc i) xs"

fun delivery_step :: "(DeliveryStatus \<Rightarrow> bool) \<Rightarrow> delivery_event \<Rightarrow> delivery_sys \<Rightarrow> delivery_sys" where
  "delivery_step acc (EvEnqueue newid now1 now2 ch rcpt content key maxAttempts) s =
     (if newid \<in> set (issued s) then s
      else let (i, q) = EnqueueWithOptions acc newid now1 now2 ch rcpt content key maxAttempts (queue s)
           in s\<lparr>queue := q, issued := (if i = newid then newid # issued s else issued s)\<rparr>)"
| "delivery_step acc (EvDrain now) s =
     (let (items, q) = DrainReady now (queue s) in s\<lparr>queue := q, inflight := inflight s @ items\<rparr>)"
| "delivery_step acc (EvDelivered i) s =
     (if i < length (inflight s)
      then s\<lparr>queue := MarkDelivered acc (inflight s ! i) (queue s), inflight := drop_nth i (inflight s),
             delivered := di_ID (inflight s ! i) # delivered s\<rparr>
      else s)"
| "delivery_step acc (EvFailed i now err) s =
     (if i < length (inflight s)
      then s\<lparr>queue := RequeueFailed acc now (inflight s ! i) err (queue s), inflight := drop_nth i (inflight s)\<rparr>
      else s)"
| "delivery_step acc (EvReplay i now1 now2) s =
     s\<lparr>queue := snd (ReplayDeadLetter acc now1 now2 i (queue s))\<rparr>"
| "delivery_step acc EvRestart s = s\<lparr>queue := NewDeliveryQueue (dq_store (queue s)), inflight := []\<rparr>"

definition delivery_init :: delivery_sys where
  "delivery_init = \<lparr>queue = NewDeliveryQueue (Some []), inflight = [], delivered = [], issued = []\<rparr>"

abbreviation delivery_run :: "(DeliveryStatus \<Rightarrow> bool) \<Rightarrow> delivery_event list \<Rightarrow> delivery_sys" where
  "delivery_run acc es \<equiv> fold (delivery_step acc) es delivery_init"

abbreviation live_items :: "delivery_sys \<Rightarrow> DeliveryItem list" where
  "live_items s \<equiv> pending (queue s) @ inflight s"

lemma delivery_init_queue: "delivery_init = \<lparr>queue = \<lparr>pending = [], deadLetters = [], dq_store = Some []\<rparr>,
    inflight = [], delivered = [], issued = []\<rparr>"
  by (simp add: delivery_init_def NewDeliveryQueue_def recoverFromStore_def)

lemma mset_drop_nth: "i < length xs \<Longrightarrow> mset xs = add_mset (xs ! i) (mset (drop_nth i xs))"
  by (subst id_take_nth_drop [of i xs]) (simp_all add: drop_nth_def)

lemma mset_remove_first: "find P xs = Some x \<Longrightarrow> mset xs = add_mset x (mset (remove_first P xs))"
  by (induction xs) (auto split: if_splits)

lemma fold_push:
  "heap_ok di_NextRetryAt h \<Longrightarrow> heap_ok di_NextRetryAt (fold (\<lambda>r. push_item (f r)) rs h)
     \<and> mset (fold (\<lambda>r. push_item (f r)) rs h) = mset (map f rs) + mset h"
  by (induction rs arbitrary: h) (auto simp: heap_Push_mset)

section \<open>The heap stays a heap\<close>

lemma recover_heap: "heap_ok di_NextRetryAt (pending q) \<Longrightarrow> heap_ok di_NextRetryAt (pending (recoverFromStore q))"
  by (auto simp: recoverFromStore_def Let_def fold_push split: option.splits)

lemma heap_step:
  assumes "heap_ok di_NextRetryAt (pending (queue s))"
  shows "heap_ok di_NextRetryAt (pending (queue (delivery_step acc e s)))"
proof (cases e)
  case (EvDrain now)
  obtain items q where d: "DrainReady now (queue s) = (items, q)" by fastforce
  then show ?thesis using EvDrain DrainReady_spec [OF assms d] by auto
qed (auto simp: assms EnqueueWithOptions_def MarkDelivered_def RequeueFailed_def ReplayDeadLetter_def
    replayDeadLetterFromStore_def NewDeliveryQueue_def recover_heap Let_def split: option.splits)

interpretation delivery_heap: event_system delivery_init "delivery_step acc" "\<lambda>s. heap_ok di_NextRetryAt (pending (queue s))"
  for acc
  by unfold_locales (simp_all only: heap_step, simp add: delivery_init_queue)

text \<open>
  \<^verbatim>\<open>DrainReady\<close> takes exactly the items whose retry time has come, earliest first, whatever
  happened before: they are marked in flight and every other item stays queued.
\<close>

theorem drain_ready_exact:
  assumes "DrainReady now (queue (delivery_run acc es)) = (items, q)"
  shows "\<exists>xs. items = map (\<lambda>x. x\<lparr>di_Status := DeliveryInFlight\<rparr>) xs \<and> sorted (map di_NextRetryAt items)
    \<and> mset xs = filter_mset (\<lambda>x. di_NextRetryAt x \<le> now) (mset (pending (queue (delivery_run acc es))))
    \<and> mset (pending q) = filter_mset (\<lambda>x. now < di_NextRetryAt x) (mset (pending (queue (delivery_run acc es))))"
proof -
  have "heap_ok di_NextRetryAt (pending (queue (delivery_run acc es)))" by (rule delivery_heap.inv_run)
  from DrainReady_spec [OF this assms] obtain xs where x: "items = map (\<lambda>x. x\<lparr>di_Status := DeliveryInFlight\<rparr>) xs"
    "mset (pending (queue (delivery_run acc es))) = mset xs + mset (pending q)" "sorted (map di_NextRetryAt xs)"
    "\<forall>x \<in> set xs. di_NextRetryAt x \<le> now" "\<forall>y \<in> set (pending q). now < di_NextRetryAt y" by blast
  have "filter_mset (\<lambda>x. di_NextRetryAt x \<le> now) (mset xs) = mset xs"
    "filter_mset (\<lambda>x. di_NextRetryAt x \<le> now) (mset (pending q)) = {#}"
    "filter_mset (\<lambda>x. now < di_NextRetryAt x) (mset xs) = {#}"
    "filter_mset (\<lambda>x. now < di_NextRetryAt x) (mset (pending q)) = mset (pending q)"
    using x(4,5) by (auto simp: filter_mset_eq_conv)
  then show ?thesis using x(1,2,3) by (intro exI [of _ xs]) (simp add: comp_def)
qed

theorem drain_ready_exact_witness:
  "\<exists>xs. fst (DrainReady 5 (queue (delivery_run schema_accepts
        [EvEnqueue ''m1'' 9 0 ''telegram'' ''bob'' ''hello'' [] 5, EvEnqueue ''m2'' 3 0 ''telegram'' ''bob'' ''bye'' [] 5])))
      = map (\<lambda>x. x\<lparr>di_Status := DeliveryInFlight\<rparr>) xs \<and> map di_ID xs = [''m2'']"
proof -
  let ?q = "queue (delivery_run schema_accepts [EvEnqueue ''m1'' 9 0 ''telegram'' ''bob'' ''hello'' [] 5,
     EvEnqueue ''m2'' 3 0 ''telegram'' ''bob'' ''bye'' [] 5])"
  obtain xs where xs: "fst (DrainReady 5 ?q) = map (\<lambda>x. x\<lparr>di_Status := DeliveryInFlight\<rparr>) xs"
    using drain_ready_exact [OF prod.collapse [symmetric]] by blast
  have "map di_ID (fst (DrainReady 5 ?q)) = [''m2'']" by code_simp
  with xs show ?thesis by (intro exI [of _ xs]) (simp add: comp_def del: fold_Cons fold.simps delivery_step.simps)
qed

section \<open>The worker pass as steps\<close>

definition outcome_event :: "delivery_event \<Rightarrow> bool" where
  "outcome_event e = (case e of EvDelivered i \<Rightarrow> i = 0 | EvFailed i _ _ \<Rightarrow> i = 0 | _ \<Rightarrow> False)"

lemma drain_items_steps:
  fixes ad :: "string \<Rightarrow> (OutboundMessage \<Rightarrow> 'w \<Rightarrow> string option \<times> 'w) option"
  shows "inflight s = items @ rest \<Longrightarrow> \<exists>es. length es = length items \<and> list_all outcome_event es
    \<and> queue (fold (delivery_step acc) es s) = fst (drain_items clock (\<lambda>_. acc) ad items (queue s, w))
    \<and> inflight (fold (delivery_step acc) es s) = rest"
proof (induction items arbitrary: s w)
  case (Cons x xs)
  obtain c where c: "c = (case ad (di_Channel x) of
      None \<Rightarrow> (RequeueFailed acc (clock w) x (''unknown channel: '' @ di_Channel x) (queue s), w)
    | Some send \<Rightarrow>
        (case send \<lparr>om_Content = di_Content x, om_RecipientID = di_RecipientID x, om_Platform = di_Channel x\<rparr> w of
           (Some e, w1) \<Rightarrow> (RequeueFailed acc (clock w1) x e (queue s), w1)
         | (None, w1) \<Rightarrow> (MarkDelivered acc x (queue s), w1)))" by blast
  have "\<exists>e. outcome_event e \<and> queue (delivery_step acc e s) = fst c \<and> inflight (delivery_step acc e s) = xs @ rest"
  proof (cases "\<exists>t err. fst c = RequeueFailed acc t x err (queue s)")
    case True
    then obtain t err where "fst c = RequeueFailed acc t x err (queue s)" by blast
    then show ?thesis using Cons.prems
      by (intro exI [of _ "EvFailed 0 t err"]) (simp add: drop_nth_def outcome_event_def)
  next
    case False
    then have "fst c = MarkDelivered acc x (queue s)"
      unfolding c by (auto split: option.splits prod.splits)
    then show ?thesis using Cons.prems
      by (intro exI [of _ "EvDelivered 0"]) (simp add: drop_nth_def outcome_event_def)
  qed
  then obtain e where e: "outcome_event e" "queue (delivery_step acc e s) = fst c"
    "inflight (delivery_step acc e s) = xs @ rest" by blast
  from Cons.IH [OF e(3), of "snd c"] obtain es where
    "length es = length xs" "list_all outcome_event es"
    "queue (fold (delivery_step acc) es (delivery_step acc e s)) = fst (drain_items clock (\<lambda>_. acc) ad xs (fst c, snd c))"
    "inflight (fold (delivery_step acc) es (delivery_step acc e s)) = rest" by (auto simp: e(2))
  then show ?case using e(1) by (intro exI [of _ "e # es"]) (simp add: c)
qed simp

text \<open>
  One pass of the delivery worker, for any adapters, clock and table, is a drain step of the
  queue system followed by one outcome step for each drained item, and leaves nothing in flight:
  every drained item is delivered, requeued or dead-lettered in that pass.
\<close>

theorem worker_drain_refines_steps:
  fixes adapters :: "string \<Rightarrow> (OutboundMessage \<Rightarrow> 'w \<Rightarrow> string option \<times> 'w) option"
  assumes "inflight s = []"
  shows "\<exists>es. length es = length (fst (DrainReady (clock w) (queue s))) \<and> list_all outcome_event es
    \<and> queue (fold (delivery_step acc) (EvDrain (clock w) # es) s)
        = fst (worker_drain clock (\<lambda>_. acc) adapters (queue s, w))
    \<and> inflight (fold (delivery_step acc) (EvDrain (clock w) # es) s) = []"
proof -
  obtain items q where d: "DrainReady (clock w) (queue s) = (items, q)" by fastforce
  have s1: "delivery_step acc (EvDrain (clock w)) s = s\<lparr>queue := q, inflight := items\<rparr>" using assms d by simp
  obtain es where "length es = length items" "list_all outcome_event es"
    "queue (fold (delivery_step acc) es (s\<lparr>queue := q, inflight := items\<rparr>))
      = fst (drain_items clock (\<lambda>_. acc) adapters items (q, w))"
    "inflight (fold (delivery_step acc) es (s\<lparr>queue := q, inflight := items\<rparr>)) = []"
    using drain_items_steps [of "s\<lparr>queue := q, inflight := items\<rparr>" items "[]" acc clock adapters w] by auto
  then show ?thesis using d s1 by (intro exI [of _ es]) (simp add: worker_drain_def)
qed

theorem worker_drain_refines_steps_witness:
  "\<exists>es. length es = 1 \<and> list_all outcome_event es
    \<and> queue (fold (delivery_step schema_accepts) (EvDrain 7 # es)
        (delivery_run schema_accepts [EvEnqueue ''m1'' 0 0 ''telegram'' ''bob'' ''hello'' [] 5]))
      = fst (worker_drain (\<lambda>w. 7) (\<lambda>_. schema_accepts) (\<lambda>c. if c = ''telegram'' then Some (\<lambda>m w. (None, Suc w)) else None)
          (queue (delivery_run schema_accepts [EvEnqueue ''m1'' 0 0 ''telegram'' ''bob'' ''hello'' [] 5]), 0))"
proof -
  let ?s = "delivery_run schema_accepts [EvEnqueue ''m1'' 0 0 ''telegram'' ''bob'' ''hello'' [] 5]"
  have idle: "inflight ?s = []" and len: "length (fst (DrainReady 7 (queue ?s))) = 1" by code_simp+
  show ?thesis
    using worker_drain_refines_steps [OF idle, where clock = "\<lambda>w. 7" and w = 0 and acc = schema_accepts
        and adapters = "\<lambda>c. if c = ''telegram'' then Some (\<lambda>m w. (None, Suc w)) else None"] len by metis
qed

section \<open>Messages are conserved\<close>

definition given_up :: "DeliveryItem \<Rightarrow> bool" where
  "given_up x \<longleftrightarrow> isPermanentError (di_LastError x) \<or> di_MaxAttempts x \<le> di_Attempts x"

definition retriable :: "DeliveryItem \<Rightarrow> bool" where
  "retriable x \<longleftrightarrow> di_Attempts x = 0 \<or> 0 < di_Attempts x \<and> di_Attempts x < di_MaxAttempts x"

text \<open>Every id issued is in exactly one place: live, dead-lettered or delivered.\<close>

definition placed_ids :: "delivery_sys \<Rightarrow> string multiset" where
  "placed_ids s = image_mset di_ID (mset (pending (queue s))) + image_mset di_ID (mset (inflight s))
     + image_mset di_ID (mset (deadLetters (queue s))) + mset (delivered s)"

definition conserved :: "delivery_sys \<Rightarrow> bool" where
  "conserved s \<longleftrightarrow> placed_ids s = mset (issued s) \<and> distinct (issued s)
     \<and> (\<forall>x. x \<in> set (pending (queue s)) \<or> x \<in> set (inflight s) \<longrightarrow> retriable x)
     \<and> (\<forall>x. x \<in> set (deadLetters (queue s)) \<longrightarrow> given_up x \<and> di_Status x = DeliveryDeadLetter)
     \<and> dq_store (queue s) = Some []"

lemma schema_rejects: "\<not> schema_accepts st"
  by (cases st) (simp_all add: schema_accepts_def delivery_status_check_def show_int_def show_nat.simps)

lemma writes_rejected [simp]: "persistItem schema_accepts x st = st" "updateItemStatus schema_accepts x st = st"
  by (simp_all add: persistItem_def updateItemStatus_def schema_rejects split: option.splits)

lemma retriable_status [simp]: "retriable (x\<lparr>di_Status := st\<rparr>) = retriable x"
  by (simp add: retriable_def)

lemma conserved_enqueue:
  assumes "conserved s"
  shows "conserved (delivery_step schema_accepts (EvEnqueue newid now1 now2 ch rcpt content key maxAttempts) s)"
proof -
  obtain i q where q: "EnqueueWithOptions schema_accepts newid now1 now2 ch rcpt content key maxAttempts (queue s) = (i, q)"
    by fastforce
  show ?thesis
  proof (cases "if key \<noteq> [] then find (\<lambda>x. di_IdempotencyKey x = key) (pending (queue s)) else None")
    case None
    then show ?thesis using assms q
      by (auto simp: EnqueueWithOptions_def Let_def conserved_def placed_ids_def heap_Push_mset retriable_def)
  next
    case (Some x)
    then have x: "x \<in> set (pending (queue s))" by (auto simp: find_Some_iff split: if_splits)
    have "di_ID x \<in># placed_ids s" using x by (simp add: placed_ids_def)
    then have "di_ID x \<in> set (issued s)" using assms by (simp add: conserved_def)
    then show ?thesis using assms q Some by (auto simp: EnqueueWithOptions_def Let_def conserved_def placed_ids_def)
  qed
qed

lemma conserved_drain:
  assumes "conserved s" and "heap_ok di_NextRetryAt (pending (queue s))"
  shows "conserved (delivery_step acc (EvDrain now) s)"
proof -
  obtain items q where d: "DrainReady now (queue s) = (items, q)" by fastforce
  from DrainReady_spec [OF assms(2) d] obtain xs where x: "items = map (\<lambda>x. x\<lparr>di_Status := DeliveryInFlight\<rparr>) xs"
    "mset (pending (queue s)) = mset xs + mset (pending q)"
    "deadLetters q = deadLetters (queue s)" "dq_store q = dq_store (queue s)" by blast
  have "set (pending (queue s)) = set xs \<union> set (pending q)" by (metis x(2) mset_append set_append set_mset_mset)
  then show ?thesis using assms(1) d x
    by (auto simp: conserved_def placed_ids_def image_mset.compositionality comp_def ac_simps)
qed

lemma conserved_outcome:
  assumes "conserved s"
  shows "conserved (delivery_step schema_accepts (EvDelivered i) s)"
    and "conserved (delivery_step schema_accepts (EvFailed i now err) s)"
proof -
  have "mset (inflight s) = add_mset (inflight s ! i) (mset (drop_nth i (inflight s)))"
    "set (inflight s) = insert (inflight s ! i) (set (drop_nth i (inflight s)))" if "i < length (inflight s)"
    using mset_drop_nth [OF that] by (auto dest: arg_cong [of _ _ set_mset])
  then show "conserved (delivery_step schema_accepts (EvDelivered i) s)"
    "conserved (delivery_step schema_accepts (EvFailed i now err) s)"
    using assms by (auto simp: conserved_def placed_ids_def MarkDelivered_def RequeueFailed_def Let_def heap_Push_mset
        given_up_def retriable_def)
qed

lemma conserved_replay:
  assumes "conserved s"
  shows "conserved (delivery_step schema_accepts (EvReplay i now1 now2) s)"
proof (cases "find (\<lambda>x. di_ID x = i) (deadLetters (queue s))")
  case None
  then show ?thesis using assms by (simp add: ReplayDeadLetter_def replayDeadLetterFromStore_def conserved_def)
next
  case (Some x)
  note m = mset_remove_first [OF Some]
  then have "set (deadLetters (queue s)) = insert x (set (remove_first (\<lambda>x. di_ID x = i) (deadLetters (queue s))))"
    by (metis set_mset_add_mset_insert set_mset_mset)
  then show ?thesis using assms Some m
    by (auto simp: ReplayDeadLetter_def Let_def conserved_def placed_ids_def heap_Push_mset retriable_def)
qed

lemma conserved_run: "EvRestart \<notin> set es \<Longrightarrow> conserved (delivery_run schema_accepts es)"
proof (induction es rule: rev_induct)
  case Nil
  show ?case by (simp add: conserved_def placed_ids_def delivery_init_queue)
next
  case (snoc e es)
  then have IH: "conserved (delivery_run schema_accepts es)" and "e \<noteq> EvRestart" by auto
  then show ?case
    using conserved_enqueue [OF IH] conserved_drain [OF IH delivery_heap.inv_run] conserved_outcome [OF IH]
      conserved_replay [OF IH]
    by (cases e) simp_all
qed

text \<open>
  C22. While the process runs no message is lost or duplicated: under any interleaving of
  enqueues, drains, outcomes and replays, the ids issued are, without repetition, exactly the ids
  waiting, in flight, dead-lettered or delivered. A message that may still be sent has attempts left
  (or none used), and a dead letter hit a permanent error or used up its attempts.
\<close>

theorem messages_are_conserved:
  assumes "EvRestart \<notin> set es" and "s = delivery_run schema_accepts es"
  shows "mset (map di_ID (live_items s) @ map di_ID (deadLetters (queue s)) @ delivered s) = mset (issued s)
    \<and> distinct (issued s) \<and> list_all retriable (live_items s) \<and> list_all given_up (deadLetters (queue s))"
  using conserved_run [OF assms(1)] assms(2)
  by (auto simp: conserved_def placed_ids_def list_all_iff add.assoc)

theorem messages_are_conserved_witness:
  "mset (map di_ID (live_items (delivery_run schema_accepts
      [EvEnqueue ''m1'' 0 0 ''telegram'' ''bob'' ''hello'' [] 5, EvEnqueue ''m2'' 0 0 ''telegram'' ''eve'' ''hi'' [] 5,
       EvDrain 1, EvFailed 0 2 ''timeout'', EvDelivered 0]))) = {#''m1''#}"
proof -
  let ?es = "[EvEnqueue ''m1'' 0 0 ''telegram'' ''bob'' ''hello'' [] 5, EvEnqueue ''m2'' 0 0 ''telegram'' ''eve'' ''hi'' [] 5,
       EvDrain 1, EvFailed 0 2 ''timeout'', EvDelivered 0]"
  let ?s = "delivery_run schema_accepts ?es"
  have "EvRestart \<notin> set ?es" by simp
  from messages_are_conserved [OF this refl]
  have "mset (map di_ID (live_items ?s) @ map di_ID (deadLetters (queue ?s)) @ delivered ?s) = mset (issued ?s)" by blast
  moreover have "deadLetters (queue ?s) = []" "delivered ?s = [''m2'']" "issued ?s = [''m2'', ''m1'']" by code_simp+
  ultimately show ?thesis by (simp only: list.map append_Nil append_Nil2 mset_append mset.simps) simp
qed

section \<open>The production table\<close>

lemma store_step: "dq_store (queue s) = Some [] \<Longrightarrow> dq_store (queue (delivery_step schema_accepts e s)) = Some []"
  by (cases e) (auto simp: EnqueueWithOptions_def DrainReady_def MarkDelivered_def RequeueFailed_def ReplayDeadLetter_def
      replayDeadLetterFromStore_def NewDeliveryQueue_def recoverFromStore_def Let_def
      split: option.splits prod.splits)

interpretation delivery_schema: event_system delivery_init "delivery_step schema_accepts" "\<lambda>s. dq_store (queue s) = Some []"
  by unfold_locales (simp_all only: store_step, simp add: delivery_init_queue)

text \<open>
  C23. Under the constraint of the production schema the queue never gets a row into its table, so
  a restart loses every message that is not delivered yet: nothing is recovered, and a dead letter
  can no longer be replayed. The constraint wants \<open>pending\<close>, the code writes \<open>0\<close>.
\<close>

theorem restart_loses_undelivered_messages:
  "dq_store (queue (delivery_run schema_accepts es)) = Some []
    \<and> live_items (delivery_run schema_accepts (es @ [EvRestart])) = []
    \<and> \<not> fst (ReplayDeadLetter schema_accepts now1 now2 i (queue (delivery_run schema_accepts (es @ [EvRestart]))))"
  using delivery_schema.inv_run [of es]
  by (simp add: NewDeliveryQueue_def recoverFromStore_def ReplayDeadLetter_def replayDeadLetterFromStore_def)

end
