(* ===== verification/DeliveryTable.thy ===== *)
theory DeliveryTable
  imports Delivery
begin

text \<open>
  The table of the delivery queue when it accepts the writes, which the production constraint does
  not (\<open>Delivery.restart_loses_undelivered_messages\<close>): the statements of
  \<^verbatim>\<open>internal/channel/delivery.go\<close> then keep the table in step with the memory, and recovery
  restores what a restart lost.
\<close>

section \<open>The system\<close>

definition unfinished :: "delivery_table \<Rightarrow> DeliveryItem list" where
  "unfinished rows =
     filter (\<lambda>r. di_Status r = DeliveryPending \<or> di_Status r = DeliveryInFlight) (map snd rows)"

text \<open>A restart with more unfinished rows than the 2000 that \<^verbatim>\<open>recoverFromStore\<close> reads is left out.\<close>

definition table_step :: "delivery_event \<Rightarrow> delivery_sys \<Rightarrow> delivery_sys" where
  "table_step e s =
     (case (e, dq_store (queue s)) of
        (EvRestart, Some rows) \<Rightarrow> if length (unfinished rows) \<le> 2000 then delivery_step (\<lambda>_. True) e s else s
      | _ \<Rightarrow> delivery_step (\<lambda>_. True) e s)"

abbreviation table_run :: "delivery_event list \<Rightarrow> delivery_sys" where
  "table_run es \<equiv> fold table_step es delivery_init"

text \<open>What the table keeps of an item: its payload and its retry state, to the second.\<close>

definition row_view :: "DeliveryItem \<Rightarrow> string \<times> string \<times> string \<times> string \<times> int \<times> int \<times> time \<times> string" where
  "row_view x = (di_ID x, di_Channel x, di_RecipientID x, di_Content x, di_MaxAttempts x, di_Attempts x,
     rfc3339 (di_NextRetryAt x), di_LastError x)"

definition has_row :: "delivery_table \<Rightarrow> DeliveryStatus \<Rightarrow> DeliveryItem \<Rightarrow> bool" where
  "has_row rows st x \<longleftrightarrow> (\<exists>r. m_get rows (di_ID x) = Some r \<and> di_Status r = st \<and> row_view r = row_view x)"

definition row_ok :: "string set \<Rightarrow> string set \<Rightarrow> string \<Rightarrow> DeliveryItem \<Rightarrow> bool" where
  "row_ok I V i r \<longleftrightarrow> di_ID r = i \<and>
     (case di_Status r of
        DeliveryPending \<Rightarrow> i \<in> I | DeliveryDeadLetter \<Rightarrow> given_up r
      | DeliveryDelivered \<Rightarrow> i \<in> V | _ \<Rightarrow> False)"

text \<open>
  The table mirrors the memory: the live items \<open>L\<close> (pending or in flight) are the pending rows,
  dead letters \<open>D\<close> and delivered ids \<open>V\<close> have a row that says so, and no id is in two places.
\<close>

definition table_ok :: "delivery_table \<Rightarrow> DeliveryItem list \<Rightarrow> DeliveryItem list \<Rightarrow> string list \<Rightarrow> bool" where
  "table_ok rows L D V \<longleftrightarrow> m_ok rows \<and> distinct (map di_ID L) \<and> distinct (map di_ID D) \<and> distinct V
     \<and> (\<forall>x. x \<in> set L \<longrightarrow> has_row rows DeliveryPending x \<and> retriable x)
     \<and> (\<forall>x. x \<in> set D \<longrightarrow> has_row rows DeliveryDeadLetter x)
     \<and> (\<forall>i. i \<in> set V \<longrightarrow> (\<exists>r. m_get rows i = Some r \<and> di_Status r = DeliveryDelivered))
     \<and> (\<forall>i r. m_get rows i = Some r \<longrightarrow> row_ok (di_ID ` set L) (set V) i r)"

definition delivery_inv :: "delivery_sys \<Rightarrow> bool" where
  "delivery_inv s \<longleftrightarrow> heap_ok di_NextRetryAt (pending (queue s)) \<and>
     (\<exists>rows. dq_store (queue s) = Some rows
        \<and> table_ok rows (pending (queue s) @ inflight s) (deadLetters (queue s)) (delivered s)
        \<and> dom (map_of rows) \<subseteq> set (issued s))"

lemma rfc3339_idem [simp]: "rfc3339 (rfc3339 t) = rfc3339 t"
  by (simp add: rfc3339_def)

lemma row_view_stored [simp]: "row_view (stored_item x) = row_view x"
  by (simp add: row_view_def stored_item_def)

lemma row_view_status [simp]: "row_view (x\<lparr>di_Status := st\<rparr>) = row_view x"
  by (simp add: row_view_def)

lemma row_view_id: "row_view x = row_view y \<Longrightarrow> di_ID x = di_ID y"
  by (simp add: row_view_def)

lemma table_ok_perm:
  assumes "mset L = mset L'" and "mset D = mset D'" and "table_ok rows L D V"
  shows "table_ok rows L' D' V"
proof -
  have "set L = set L'" "set D = set D'" using assms(1,2) by (auto dest: mset_eq_setD)
  moreover have "distinct (map di_ID L) = distinct (map di_ID L')" "distinct (map di_ID D) = distinct (map di_ID D')"
    using assms(1,2) by (auto intro!: mset_eq_imp_distinct_iff simp: mset_map)
  ultimately show ?thesis using assms(3) by (simp add: table_ok_def)
qed

text \<open>A live item as the table sees it may be replaced by another version of it.\<close>

lemma table_ok_map:
  assumes "\<And>x. row_view (f x) = row_view x" and "table_ok rows (L @ L') D V"
  shows "table_ok rows (L @ map f L') D V"
proof -
  have id: "di_ID (f x) = di_ID x" for x using assms(1) by (rule row_view_id)
  then have ids: "map di_ID (L @ map f L') = map di_ID (L @ L')" by simp
  then have "di_ID ` set (L @ map f L') = di_ID ` set (L @ L')" by (metis set_map)
  moreover have "has_row rows st (f x) = has_row rows st x" for x st by (simp add: has_row_def assms(1) id)
  moreover have "retriable (f x) = retriable x" for x
    using assms(1) [of x] by (simp add: retriable_def row_view_def)
  moreover have "x \<in> set L \<or> (\<exists>y \<in> set L'. x = f y)" if "x \<in> set (L @ map f L')" for x using that by auto
  ultimately show ?thesis using assms(2) ids unfolding table_ok_def by (metis Un_iff set_append)
qed

text \<open>Everything but the id \<open>i\<close> is in order, and \<open>i\<close> is nowhere in memory.\<close>

definition table_frame :: "string \<Rightarrow> delivery_table \<Rightarrow> DeliveryItem list \<Rightarrow> DeliveryItem list \<Rightarrow> string list \<Rightarrow> bool" where
  "table_frame i rows L D V \<longleftrightarrow> m_ok rows \<and> distinct (map di_ID L) \<and> distinct (map di_ID D) \<and> distinct V
     \<and> i \<notin> di_ID ` set L \<and> i \<notin> di_ID ` set D \<and> i \<notin> set V
     \<and> (\<forall>x. x \<in> set L \<longrightarrow> has_row rows DeliveryPending x \<and> retriable x)
     \<and> (\<forall>x. x \<in> set D \<longrightarrow> has_row rows DeliveryDeadLetter x)
     \<and> (\<forall>j. j \<in> set V \<longrightarrow> (\<exists>r. m_get rows j = Some r \<and> di_Status r = DeliveryDelivered))
     \<and> (\<forall>j r. j \<noteq> i \<longrightarrow> m_get rows j = Some r \<longrightarrow> row_ok (di_ID ` set L) (set V) j r)"

lemma row_ok_mono: "row_ok I V j r \<Longrightarrow> I \<subseteq> I' \<Longrightarrow> V \<subseteq> V' \<Longrightarrow> row_ok I' V' j r"
  by (auto simp: row_ok_def split: DeliveryStatus.splits)

lemma frame_of_live:
  assumes "table_ok rows (x # L) D V"
  shows "table_frame (di_ID x) rows L D V"
proof -
  obtain r where r: "m_get rows (di_ID x) = Some r" "di_Status r = DeliveryPending"
    using assms by (auto simp: table_ok_def has_row_def)
  have "di_ID x \<notin> di_ID ` set D" "di_ID x \<notin> set V" using assms r by (auto simp: table_ok_def has_row_def)
  moreover have "row_ok (di_ID ` set L) (set V) j q" if "j \<noteq> di_ID x" "m_get rows j = Some q" for j q
  proof -
    have "row_ok (di_ID ` set (x # L)) (set V) j q" using assms that(2) by (simp only: table_ok_def)
    with that(1) show ?thesis by (auto simp: row_ok_def split: DeliveryStatus.splits)
  qed
  ultimately show ?thesis using assms by (simp add: table_ok_def table_frame_def)
qed

lemma frame_of_other:
  assumes "table_ok rows L D V" and "i \<notin> di_ID ` set D"
    and "\<And>r. m_get rows i = Some r \<Longrightarrow> di_Status r = DeliveryDeadLetter"
  shows "table_frame i rows L D V"
proof -
  have "i \<notin> di_ID ` set L" "i \<notin> set V" using assms(1,3) by (fastforce simp: table_ok_def has_row_def)+
  then show ?thesis using assms(1,2) by (simp add: table_ok_def table_frame_def)
qed

lemma frame_of_dead:
  assumes "table_ok rows L (x # D) V"
  shows "table_frame (di_ID x) rows L D V"
proof (rule frame_of_other)
  show "table_ok rows L D V" using assms by (simp add: table_ok_def)
qed (use assms in \<open>auto simp: table_ok_def has_row_def\<close>)

text \<open>A write of the row of \<open>i\<close>, which leaves every other row alone.\<close>

definition row_write :: "string \<Rightarrow> delivery_table \<Rightarrow> delivery_table \<Rightarrow> DeliveryItem \<Rightarrow> bool" where
  "row_write i rows rows' r \<longleftrightarrow> m_ok rows' \<and> m_get rows' i = Some r \<and> di_ID r = i
     \<and> (\<forall>j. j \<noteq> i \<longrightarrow> m_get rows' j = m_get rows j)"

lemma frame_kept:
  assumes "table_frame i rows L D V" and "row_write i rows rows' r"
  shows "x \<in> set L \<Longrightarrow> has_row rows' DeliveryPending x \<and> retriable x"
    and "x \<in> set D \<Longrightarrow> has_row rows' DeliveryDeadLetter x"
    and "j \<in> set V \<Longrightarrow> \<exists>q. m_get rows' j = Some q \<and> di_Status q = DeliveryDelivered"
  using assms by (auto simp: table_frame_def has_row_def row_write_def image_iff) metis+

lemma frame_rows_kept:
  assumes "table_frame i rows L D V" and "row_write i rows rows' r"
    and "row_ok I W i r" and "di_ID ` set L \<subseteq> I" and "set V \<subseteq> W" and "m_get rows' j = Some q"
  shows "row_ok I W j q"
proof (cases "j = i")
  case True
  then show ?thesis using assms by (simp add: row_write_def)
next
  case False
  then have "row_ok (di_ID ` set L) (set V) j q" using assms by (auto simp: table_frame_def row_write_def)
  then show ?thesis using assms(4,5) by (rule row_ok_mono)
qed

lemma write_to_live:
  assumes fr: "table_frame i rows L D V" and wr: "row_write i rows rows' r"
    and "di_Status r = DeliveryPending" and "row_view r = row_view y" and "retriable y"
  shows "table_ok rows' (y # L) D V"
proof -
  have id: "di_ID r = i" and y: "di_ID y = i" using assms(4) wr by (auto simp: row_view_def row_write_def)
  have "row_ok (di_ID ` set (y # L)) (set V) j q" if "m_get rows' j = Some q" for j q
    by (rule frame_rows_kept [OF fr wr _ _ _ that]) (auto simp: row_ok_def id y assms(3))
  moreover have "has_row rows' DeliveryPending y" using wr assms(3,4) by (simp add: has_row_def row_write_def y)
  moreover have "m_ok rows'" using wr by (simp add: row_write_def)
  ultimately show ?thesis
    using fr frame_kept [OF fr wr] assms(5) unfolding table_ok_def table_frame_def by (simp add: y)
qed

lemma write_to_dead:
  assumes fr: "table_frame i rows L D V" and wr: "row_write i rows rows' r"
    and "di_Status r = DeliveryDeadLetter" and "row_view r = row_view y" and "given_up y"
  shows "table_ok rows' L (y # D) V"
proof -
  have id: "di_ID r = i" and y: "di_ID y = i" using assms(4) wr by (auto simp: row_view_def row_write_def)
  have g: "given_up r" using assms(4,5) by (simp add: given_up_def row_view_def)
  have "row_ok (di_ID ` set L) (set V) j q" if "m_get rows' j = Some q" for j q
    by (rule frame_rows_kept [OF fr wr _ _ _ that]) (auto simp: row_ok_def id assms(3) g)
  moreover have "has_row rows' DeliveryDeadLetter y" using wr assms(3,4) by (simp add: has_row_def row_write_def y)
  moreover have "m_ok rows'" using wr by (simp add: row_write_def)
  ultimately show ?thesis
    using fr frame_kept [OF fr wr] unfolding table_ok_def table_frame_def by (simp add: y)
qed

lemma write_to_delivered:
  assumes fr: "table_frame i rows L D V" and wr: "row_write i rows rows' r"
    and "di_Status r = DeliveryDelivered"
  shows "table_ok rows' L D (i # V)"
proof -
  have id: "di_ID r = i" "m_get rows' i = Some r" "m_ok rows'" using wr by (auto simp: row_write_def)
  have "row_ok (di_ID ` set L) (set (i # V)) j q" if "m_get rows' j = Some q" for j q
    by (rule frame_rows_kept [OF fr wr _ _ _ that]) (auto simp: row_ok_def id assms(3))
  then show ?thesis
    using fr frame_kept [OF fr wr] id assms(3) unfolding table_ok_def table_frame_def by simp
qed

lemma updateItemStatus_dom: "updateItemStatus acc y (Some rows) = Some rows' \<Longrightarrow> dom (map_of rows') = dom (map_of rows)"
  by (auto simp: updateItemStatus_def split: if_splits)

lemma persistItem_dom: "persistItem acc y (Some rows) = Some rows' \<Longrightarrow> dom (map_of rows') \<subseteq> insert (di_ID y) (dom (map_of rows))"
  by (auto simp: persistItem_def split: if_splits)

section \<open>Every operation keeps the table in step\<close>

text \<open>The row of an item after \<^verbatim>\<open>updateItemStatus\<close>.\<close>

definition updated_row :: "DeliveryItem \<Rightarrow> DeliveryItem \<Rightarrow> DeliveryItem" where
  "updated_row y r = r\<lparr>di_Status := di_Status y, di_Attempts := di_Attempts y,
     di_NextRetryAt := rfc3339 (di_NextRetryAt y), di_LastError := di_LastError y\<rparr>"

definition same_message :: "DeliveryItem \<Rightarrow> DeliveryItem \<Rightarrow> bool" where
  "same_message x y \<longleftrightarrow> di_ID x = di_ID y \<and> di_Channel x = di_Channel y \<and> di_RecipientID x = di_RecipientID y
     \<and> di_Content x = di_Content y \<and> di_MaxAttempts x = di_MaxAttempts y"

lemma updated_row_view: "same_message r y \<Longrightarrow> row_view (updated_row y r) = row_view y"
  by (simp add: same_message_def row_view_def updated_row_def)

lemma updated_row_status [simp]: "di_Status (updated_row y r) = di_Status y" "di_ID (updated_row y r) = di_ID r"
  by (simp_all add: updated_row_def)

lemma updateItemStatus_write:
  assumes "m_ok rows" and "m_get rows (di_ID y) = Some r" and "di_ID r = di_ID y"
  obtains rows' where "updateItemStatus (\<lambda>_. True) y (Some rows) = Some rows'"
    and "row_write (di_ID y) rows rows' (updated_row y r)"
  using assms by (simp add: updateItemStatus_def row_write_def updated_row_def)

lemma persistItem_write:
  assumes "m_ok rows"
  obtains rows' where "persistItem (\<lambda>_. True) y (Some rows) = Some rows'"
    and "row_write (di_ID y) rows rows' (stored_item y)"
  using assms by (simp add: persistItem_def row_write_def stored_item_def)

lemma has_row_same: "has_row rows st x \<Longrightarrow> \<exists>r. m_get rows (di_ID x) = Some r \<and> di_Status r = st \<and> same_message r x"
  by (auto simp: has_row_def row_view_def same_message_def)

lemma same_message_trans: "same_message x y \<Longrightarrow> same_message y z \<Longrightarrow> same_message x z"
  by (simp add: same_message_def)

lemma live_update:
  assumes "table_ok rows (x # L) D V" and "same_message x y"
  obtains rows' r where "updateItemStatus (\<lambda>_. True) y (Some rows) = Some rows'"
    and "row_write (di_ID x) rows rows' r" and "di_Status r = di_Status y" and "row_view r = row_view y"
proof -
  have id: "di_ID y = di_ID x" using assms(2) by (simp add: same_message_def)
  have "has_row rows DeliveryPending x" "m_ok rows" using assms(1) by (auto simp: table_ok_def)
  then obtain r where r: "m_get rows (di_ID x) = Some r" "same_message r x" using has_row_same by blast
  obtain rows' where "updateItemStatus (\<lambda>_. True) y (Some rows) = Some rows'"
    "row_write (di_ID y) rows rows' (updated_row y r)"
    using updateItemStatus_write [OF \<open>m_ok rows\<close>, of y r] r id by (auto simp: same_message_def)
  moreover have "row_view (updated_row y r) = row_view y"
    using updated_row_view same_message_trans [OF r(2) assms(2)] .
  ultimately show thesis using that id by simp
qed

lemma dead_update:
  assumes "table_ok rows L D V" and "m_get rows (di_ID y) = Some r" and "same_message r y"
  obtains rows' r' where "updateItemStatus (\<lambda>_. True) y (Some rows) = Some rows'"
    and "row_write (di_ID y) rows rows' r'" and "di_Status r' = di_Status y" and "row_view r' = row_view y"
proof -
  have "m_ok rows" using assms(1) by (simp add: table_ok_def)
  then obtain rows' where "updateItemStatus (\<lambda>_. True) y (Some rows) = Some rows'"
    "row_write (di_ID y) rows rows' (updated_row y r)"
    using updateItemStatus_write [OF _ assms(2)] assms(3) by (auto simp: same_message_def)
  with updated_row_view [OF assms(3)] that show thesis by simp
qed

lemma delivery_invE:
  assumes "delivery_inv s"
  obtains rows where "heap_ok di_NextRetryAt (pending (queue s))" and "dq_store (queue s) = Some rows"
    and "table_ok rows (pending (queue s) @ inflight s) (deadLetters (queue s)) (delivered s)"
    and "dom (map_of rows) \<subseteq> set (issued s)"
  using assms by (auto simp: delivery_inv_def)

lemma inv_taken:
  assumes "i < length (inflight s)"
    and "table_ok rows (pending (queue s) @ inflight s) D V"
  shows "table_ok rows (inflight s ! i # pending (queue s) @ drop_nth i (inflight s)) D V"
  by (rule table_ok_perm [OF _ refl assms(2)]) (simp add: mset_drop_nth [OF assms(1)])

lemma inv_pushed:
  assumes "table_ok rows (y # h @ F) D V"
  shows "table_ok rows (push_item y h @ F) D V"
  by (rule table_ok_perm [OF _ refl assms]) (simp add: heap_Push_mset)

lemma enqueue_keeps:
  assumes "delivery_inv s"
  shows "delivery_inv (delivery_step (\<lambda>_. True) (EvEnqueue newid now1 now2 ch rcpt content key maxAttempts) s)"
proof -
  from assms obtain rows where s: "heap_ok di_NextRetryAt (pending (queue s))" "dq_store (queue s) = Some rows"
    "table_ok rows (pending (queue s) @ inflight s) (deadLetters (queue s)) (delivered s)"
    "dom (map_of rows) \<subseteq> set (issued s)" by (rule delivery_invE)
  define x where "x = \<lparr>di_ID = newid, di_Channel = ch, di_RecipientID = rcpt, di_Content = content,
    di_IdempotencyKey = key, di_Status = DeliveryPending, di_Attempts = 0, di_MaxAttempts = maxAttempts,
    di_NextRetryAt = now1, di_CreatedAt = now2, di_LastError = []\<rparr>"
  have x: "di_ID x = newid" "di_Status (stored_item x) = DeliveryPending" "retriable x"
    by (simp_all add: x_def stored_item_def retriable_def)
  define dup where "dup = (if key \<noteq> [] then find (\<lambda>x. di_IdempotencyKey x = key) (pending (queue s)) else None)"
  show ?thesis
  proof (cases "newid \<in> set (issued s) \<or> dup \<noteq> None")
    case True
    have "di_ID y \<in> set (issued s)" if "dup = Some y" for y
    proof -
      have "y \<in> set (pending (queue s))" using that by (auto simp: dup_def find_Some_iff split: if_splits)
      then have "di_ID y \<in> dom (map_of rows)" using s(3) by (auto simp: table_ok_def has_row_def)
      with s(4) show ?thesis by blast
    qed
    with True have "delivery_step (\<lambda>_. True) (EvEnqueue newid now1 now2 ch rcpt content key maxAttempts) s = s"
      by (auto simp: EnqueueWithOptions_def dup_def [symmetric])
    then show ?thesis using assms by simp
  next
    case False
    then have new: "m_get rows newid = None" using s(4) by (auto simp: dom_def)
    have "di_ID y \<noteq> newid" if "y \<in> set (deadLetters (queue s))" for y
      using s(3) new that by (auto simp: table_ok_def has_row_def)
    then have fr: "table_frame newid rows (pending (queue s) @ inflight s) (deadLetters (queue s)) (delivered s)"
      using s(3) new by (intro frame_of_other) auto
    have "m_ok rows" using s(3) by (simp add: table_ok_def)
    then obtain rows' where w: "persistItem (\<lambda>_. True) x (Some rows) = Some rows'" "row_write newid rows rows' (stored_item x)"
      using persistItem_write [of rows x] x(1) by metis
    have "table_ok rows' (x # pending (queue s) @ inflight s) (deadLetters (queue s)) (delivered s)"
      by (rule write_to_live [OF fr w(2) x(2) _ x(3)]) simp
    moreover have "delivery_step (\<lambda>_. True) (EvEnqueue newid now1 now2 ch rcpt content key maxAttempts) s
        = s\<lparr>queue := (queue s)\<lparr>pending := push_item x (pending (queue s)), dq_store := Some rows'\<rparr>,
            issued := newid # issued s\<rparr>"
      using s(2) False w(1) by (simp add: EnqueueWithOptions_def dup_def [symmetric] x_def [symmetric] Let_def)
    moreover have "dom (map_of rows') \<subseteq> set (newid # issued s)" using persistItem_dom [OF w(1)] s(4) x(1) by auto
    ultimately show ?thesis using s(1) by (simp add: delivery_inv_def inv_pushed)
  qed
qed

lemma drain_keeps:
  assumes "delivery_inv s"
  shows "delivery_inv (delivery_step (\<lambda>_. True) (EvDrain now) s)"
proof -
  from assms obtain rows where s: "heap_ok di_NextRetryAt (pending (queue s))" "dq_store (queue s) = Some rows"
    "table_ok rows (pending (queue s) @ inflight s) (deadLetters (queue s)) (delivered s)"
    "dom (map_of rows) \<subseteq> set (issued s)" by (rule delivery_invE)
  obtain items q where d: "DrainReady now (queue s) = (items, q)" by fastforce
  from DrainReady_spec [OF s(1) d] obtain xs where x: "items = map (\<lambda>x. x\<lparr>di_Status := DeliveryInFlight\<rparr>) xs"
    "mset (pending (queue s)) = mset xs + mset (pending q)" "heap_ok di_NextRetryAt (pending q)"
    "deadLetters q = deadLetters (queue s)" "dq_store q = dq_store (queue s)" by blast
  have "table_ok rows ((pending q @ inflight s) @ xs) (deadLetters (queue s)) (delivered s)"
    by (rule table_ok_perm [OF _ refl s(3)]) (simp add: x(2))
  from table_ok_map [OF _ this, of "\<lambda>x. x\<lparr>di_Status := DeliveryInFlight\<rparr>"] show ?thesis
    using s(2,4) x d by (simp add: delivery_inv_def)
qed

lemma delivered_keeps:
  assumes "delivery_inv s"
  shows "delivery_inv (delivery_step (\<lambda>_. True) (EvDelivered i) s)"
proof (cases "i < length (inflight s)")
  case True
  from assms obtain rows where s: "heap_ok di_NextRetryAt (pending (queue s))" "dq_store (queue s) = Some rows"
    "table_ok rows (pending (queue s) @ inflight s) (deadLetters (queue s)) (delivered s)"
    "dom (map_of rows) \<subseteq> set (issued s)" by (rule delivery_invE)
  define x where "x = inflight s ! i"
  note taken = inv_taken [OF True s(3), folded x_def]
  obtain rows' r where w: "updateItemStatus (\<lambda>_. True) (x\<lparr>di_Status := DeliveryDelivered\<rparr>) (Some rows) = Some rows'"
    "row_write (di_ID x) rows rows' r" "di_Status r = DeliveryDelivered"
    by (rule live_update [OF taken, of "x\<lparr>di_Status := DeliveryDelivered\<rparr>"]) (auto simp: same_message_def)
  from write_to_delivered [OF frame_of_live [OF taken] w(2,3)] w(1) updateItemStatus_dom [OF w(1)] s(1,2,4) True show ?thesis
    by (simp add: delivery_inv_def MarkDelivered_def x_def)
qed (use assms in simp)

lemma failed_keeps:
  assumes "delivery_inv s"
  shows "delivery_inv (delivery_step (\<lambda>_. True) (EvFailed i now err) s)"
proof (cases "i < length (inflight s)")
  case True
  from assms obtain rows where s: "heap_ok di_NextRetryAt (pending (queue s))" "dq_store (queue s) = Some rows"
    "table_ok rows (pending (queue s) @ inflight s) (deadLetters (queue s)) (delivered s)"
    "dom (map_of rows) \<subseteq> set (issued s)" by (rule delivery_invE)
  define x where "x = inflight s ! i"
  define y where "y = x\<lparr>di_Attempts := di_Attempts x + 1, di_LastError := err\<rparr>"
  note taken = inv_taken [OF True s(3), folded x_def]
  have att: "0 \<le> di_Attempts x" using taken by (auto simp: table_ok_def retriable_def)
  show ?thesis
  proof (cases "given_up y")
    case dead: True
    obtain rows' r where w: "updateItemStatus (\<lambda>_. True) (y\<lparr>di_Status := DeliveryDeadLetter\<rparr>) (Some rows) = Some rows'"
      "row_write (di_ID x) rows rows' r" "di_Status r = DeliveryDeadLetter"
      "row_view r = row_view (y\<lparr>di_Status := DeliveryDeadLetter\<rparr>)"
      by (rule live_update [OF taken, of "y\<lparr>di_Status := DeliveryDeadLetter\<rparr>"]) (auto simp: same_message_def y_def)
    have "given_up (y\<lparr>di_Status := DeliveryDeadLetter\<rparr>)" using dead by (simp add: given_up_def)
    from write_to_dead [OF frame_of_live [OF taken] w(2,3,4) this]
    have "table_ok rows' (pending (queue s) @ drop_nth i (inflight s))
        (deadLetters (queue s) @ [y\<lparr>di_Status := DeliveryDeadLetter\<rparr>]) (delivered s)"
      by (rule table_ok_perm [OF refl, rotated]) simp
    with dead w(1) updateItemStatus_dom [OF w(1)] s(1,2,4) True show ?thesis
      by (simp add: delivery_inv_def RequeueFailed_def x_def y_def given_up_def)
  next
    case live: False
    define z where "z = y\<lparr>di_Status := DeliveryPending, di_NextRetryAt := now + backoffDelay (di_Attempts y)\<rparr>"
    obtain rows' r where w: "updateItemStatus (\<lambda>_. True) z (Some rows) = Some rows'"
      "row_write (di_ID x) rows rows' r" "di_Status r = DeliveryPending" "row_view r = row_view z"
      by (rule live_update [OF taken, of z]) (auto simp: same_message_def y_def z_def)
    have "retriable z" using live att by (auto simp: retriable_def given_up_def z_def y_def)
    from inv_pushed [OF write_to_live [OF frame_of_live [OF taken] w(2,3,4) this]] live w(1) updateItemStatus_dom [OF w(1)] s(1,2,4) True
    show ?thesis
      by (simp add: delivery_inv_def RequeueFailed_def x_def y_def z_def given_up_def)
  qed
qed (use assms in simp)

lemma replay_keeps:
  assumes "delivery_inv s"
  shows "delivery_inv (delivery_step (\<lambda>_. True) (EvReplay i now1 now2) s)"
proof -
  from assms obtain rows where s: "heap_ok di_NextRetryAt (pending (queue s))" "dq_store (queue s) = Some rows"
    "table_ok rows (pending (queue s) @ inflight s) (deadLetters (queue s)) (delivered s)"
    "dom (map_of rows) \<subseteq> set (issued s)" by (rule delivery_invE)
  show ?thesis
  proof (cases "find (\<lambda>x. di_ID x = i) (deadLetters (queue s))")
    case (Some x)
    define D where "D = remove_first (\<lambda>x. di_ID x = i) (deadLetters (queue s))"
    define y where "y = x\<lparr>di_Status := DeliveryPending, di_Attempts := 0, di_NextRetryAt := now1, di_LastError := []\<rparr>"
    have dead: "table_ok rows (pending (queue s) @ inflight s) (x # D) (delivered s)"
      by (rule table_ok_perm [OF refl _ s(3)]) (simp add: D_def mset_remove_first [OF Some])
    then have "has_row rows DeliveryDeadLetter x" by (simp add: table_ok_def)
    then obtain r where r: "m_get rows (di_ID y) = Some r" "same_message r y"
      using has_row_same [of rows DeliveryDeadLetter x] by (auto simp: y_def same_message_def)
    obtain rows' r' where w: "updateItemStatus (\<lambda>_. True) y (Some rows) = Some rows'"
      "row_write (di_ID x) rows rows' r'" "di_Status r' = DeliveryPending" "row_view r' = row_view y"
      by (rule dead_update [OF s(3) r]) (auto simp: y_def)
    have "retriable y" by (simp add: y_def retriable_def)
    from inv_pushed [OF write_to_live [OF frame_of_dead [OF dead] w(2,3,4) this]] w(1) updateItemStatus_dom [OF w(1)] s(1,2,4) Some show ?thesis
      by (simp add: delivery_inv_def ReplayDeadLetter_def D_def y_def)
  next
    case None
    then have notin: "i \<notin> di_ID ` set (deadLetters (queue s))" by (auto simp: find_None_iff)
    show ?thesis
    proof (cases "\<exists>r. m_get rows i = Some r \<and> di_Status r = DeliveryDeadLetter")
      case False
      then have "snd (ReplayDeadLetter (\<lambda>_. True) now1 now2 i (queue s)) = queue s"
        using None s(2) by (auto simp: ReplayDeadLetter_def replayDeadLetterFromStore_def split: option.splits)
      then show ?thesis using assms by simp
    next
      case True
      then obtain r where r: "m_get rows i = Some r" "di_Status r = DeliveryDeadLetter" by blast
      have id: "di_ID r = i" using s(3) r(1) by (auto simp: table_ok_def row_ok_def)
      define y where "y = \<lparr>di_ID = di_ID r, di_Channel = di_Channel r, di_RecipientID = di_RecipientID r,
        di_Content = di_Content r, di_IdempotencyKey = [], di_Status = DeliveryPending, di_Attempts = 0,
        di_MaxAttempts = di_MaxAttempts r, di_NextRetryAt = now1, di_CreatedAt = now2, di_LastError = []\<rparr>"
      have y: "m_get rows (di_ID y) = Some r" "same_message r y" "retriable y" "di_ID y = i"
        using r(1) id by (auto simp: y_def same_message_def retriable_def)
      obtain rows' r' where w: "updateItemStatus (\<lambda>_. True) y (Some rows) = Some rows'"
        "row_write i rows rows' r'" "di_Status r' = DeliveryPending" "row_view r' = row_view y"
        by (rule dead_update [OF s(3) y(1,2)]) (use y(4) in \<open>auto simp: y_def\<close>)
      have "table_frame i rows (pending (queue s) @ inflight s) (deadLetters (queue s)) (delivered s)"
        by (rule frame_of_other [OF s(3) notin]) (use r in auto)
      from inv_pushed [OF write_to_live [OF this w(2,3,4) y(3)]] w(1) updateItemStatus_dom [OF w(1)] s(1,2,4) None r show ?thesis
        by (simp add: delivery_inv_def ReplayDeadLetter_def replayDeadLetterFromStore_def y_def)
    qed
  qed
qed

section \<open>Recovery\<close>

lemma NewDeliveryQueue_spec:
  assumes "length (unfinished rows) \<le> 2000"
  shows "heap_ok di_NextRetryAt (pending (NewDeliveryQueue (Some rows)))"
    and "mset (pending (NewDeliveryQueue (Some rows)))
      = mset (map (\<lambda>r. r\<lparr>di_Status := DeliveryPending\<rparr>) (unfinished rows))"
    and "dq_store (NewDeliveryQueue (Some rows)) = Some rows" and "deadLetters (NewDeliveryQueue (Some rows)) = []"
proof -
  note f = fold_push [OF heap_ok_Nil, of "\<lambda>r. r\<lparr>di_Status := DeliveryPending\<rparr>" "unfinished rows"]
  have p: "pending (NewDeliveryQueue (Some rows)) = fold (\<lambda>r. push_item (r\<lparr>di_Status := DeliveryPending\<rparr>)) (unfinished rows) []"
    using assms by (simp add: NewDeliveryQueue_def recoverFromStore_def unfinished_def)
  show "heap_ok di_NextRetryAt (pending (NewDeliveryQueue (Some rows)))" using f by (simp add: p)
  show "mset (pending (NewDeliveryQueue (Some rows)))
      = mset (map (\<lambda>r. r\<lparr>di_Status := DeliveryPending\<rparr>) (unfinished rows))" using f by (simp add: p)
qed (simp_all add: NewDeliveryQueue_def recoverFromStore_def)

lemma m_get_iff: "m_ok rows \<Longrightarrow> r \<in> set (map snd rows) \<longleftrightarrow> (\<exists>i. m_get rows i = Some r)"
  by (force simp: m_ok_def)

lemma table_ok_unfinished:
  assumes "table_ok rows L D V"
  shows "r \<in> set (unfinished rows) \<longleftrightarrow> m_get rows (di_ID r) = Some r \<and> di_Status r = DeliveryPending"
proof -
  have ok: "m_ok rows" and rows: "\<And>i r. m_get rows i = Some r \<Longrightarrow> row_ok (di_ID ` set L) (set V) i r"
    using assms by (auto simp: table_ok_def)
  have "r \<in> set (unfinished rows) \<longleftrightarrow> (\<exists>i. m_get rows i = Some r)
      \<and> (di_Status r = DeliveryPending \<or> di_Status r = DeliveryInFlight)"
    using m_get_iff [OF ok] by (auto simp: unfinished_def)
  moreover have "di_ID r = i \<and> di_Status r \<noteq> DeliveryInFlight" if "m_get rows i = Some r" for i
    using rows [OF that] by (auto simp: row_ok_def)
  ultimately show ?thesis by blast
qed

lemma unfinished_distinct:
  assumes "m_ok rows" and "\<And>i r. m_get rows i = Some r \<Longrightarrow> di_ID r = i"
  shows "distinct (map di_ID (unfinished rows))"
proof -
  have "map di_ID (map snd rows) = map fst rows"
    using assms by (auto simp: m_ok_def)
  then have "distinct (map di_ID (map snd rows))" using assms(1) by (simp only: m_ok_def)
  then show ?thesis unfolding unfinished_def by (rule distinct_map_filter)
qed

lemma table_ok_recovered:
  assumes "table_ok rows L D V"
  shows "table_ok rows (unfinished rows) [] V"
proof -
  have un: "r \<in> set (unfinished rows) \<longleftrightarrow> m_get rows (di_ID r) = Some r \<and> di_Status r = DeliveryPending" for r
    by (rule table_ok_unfinished [OF assms])
  have rows: "row_ok (di_ID ` set L) (set V) i r" if "m_get rows i = Some r" for i r
    using assms that by (simp add: table_ok_def)
  have "distinct (map di_ID (unfinished rows))"
    by (rule unfinished_distinct) (use assms rows in \<open>auto simp: table_ok_def row_ok_def\<close>)
  moreover have "retriable r" if u: "r \<in> set (unfinished rows)" for r
  proof -
    from un u have "m_get rows (di_ID r) = Some r" "di_Status r = DeliveryPending" by blast+
    with rows [of "di_ID r" r] have "di_ID r \<in> di_ID ` set L" by (simp add: row_ok_def)
    then obtain x where x: "x \<in> set L" "di_ID x = di_ID r" by auto
    with assms have "has_row rows DeliveryPending x" "retriable x" by (auto simp: table_ok_def)
    moreover have "m_get rows (di_ID x) = Some r" using un u x(2) by simp
    ultimately show ?thesis by (simp add: has_row_def retriable_def row_view_def)
  qed
  moreover have "has_row rows DeliveryPending r" if "r \<in> set (unfinished rows)" for r
    using un that by (simp add: has_row_def)
  moreover have "row_ok (di_ID ` set (unfinished rows)) (set V) i r" if "m_get rows i = Some r" for i r
    using rows [OF that] that un by (auto simp: row_ok_def split: DeliveryStatus.splits)
  ultimately show ?thesis using assms by (simp add: table_ok_def)
qed

lemma restart_keeps:
  assumes "delivery_inv s"
  shows "delivery_inv (table_step EvRestart s)"
proof -
  from assms obtain rows where s: "dq_store (queue s) = Some rows"
    "table_ok rows (pending (queue s) @ inflight s) (deadLetters (queue s)) (delivered s)"
    "dom (map_of rows) \<subseteq> set (issued s)" by (rule delivery_invE)
  show ?thesis
  proof (cases "length (unfinished rows) \<le> 2000")
    case True
    from table_ok_map [of "\<lambda>r. r\<lparr>di_Status := DeliveryPending\<rparr>" rows "[]" "unfinished rows"] table_ok_recovered [OF s(2)]
    have "table_ok rows (map (\<lambda>r. r\<lparr>di_Status := DeliveryPending\<rparr>) (unfinished rows)) [] (delivered s)" by simp
    then have "table_ok rows (pending (NewDeliveryQueue (Some rows)) @ []) [] (delivered s)"
      by (rule table_ok_perm [rotated -1]) (simp_all add: NewDeliveryQueue_spec [OF True])
    then show ?thesis using True s(1,3) NewDeliveryQueue_spec [OF True] by (simp add: delivery_inv_def table_step_def)
  qed (use s(1) assms in \<open>simp add: table_step_def\<close>)
qed

lemma table_step_keeps:
  assumes "delivery_inv s"
  shows "delivery_inv (table_step e s)"
proof (cases "e = EvRestart")
  case False
  then have "table_step e s = delivery_step (\<lambda>_. True) e s" by (cases e) (simp_all add: table_step_def)
  then show ?thesis
    using enqueue_keeps [OF assms] drain_keeps [OF assms] delivered_keeps [OF assms] failed_keeps [OF assms]
      replay_keeps [OF assms] False by (cases e) (simp_all only: simp_thms)
qed (simp only: restart_keeps [OF assms])

interpretation delivery: event_system delivery_init table_step delivery_inv
  by unfold_locales (simp_all only: table_step_keeps, simp add: delivery_inv_def table_ok_def delivery_init_queue)

lemma distinct_views: "distinct (map di_ID xs) \<Longrightarrow> distinct (map row_view xs)"
proof -
  have "map di_ID xs = map fst (map row_view xs)" by (simp add: row_view_def)
  then show "distinct (map di_ID xs) \<Longrightarrow> distinct (map row_view xs)" by (metis distinct_map)
qed

lemma table_ok_views:
  assumes "table_ok rows L D V"
  shows "mset (map row_view (unfinished rows)) = mset (map row_view L)"
proof -
  note un = table_ok_unfinished [OF assms]
  have L: "distinct (map di_ID L)" "\<And>x. x \<in> set L \<Longrightarrow> has_row rows DeliveryPending x"
    using assms by (auto simp: table_ok_def)
  have U: "distinct (map di_ID (unfinished rows))" using table_ok_recovered [OF assms] by (simp add: table_ok_def)
  have "row_view x \<in> row_view ` set (unfinished rows)" if x: "x \<in> set L" for x
  proof -
    obtain r where r: "m_get rows (di_ID x) = Some r" "di_Status r = DeliveryPending" "row_view r = row_view x"
      using L(2) [OF x] by (auto simp: has_row_def)
    then have "r \<in> set (unfinished rows)" using un row_view_id [OF r(3)] by simp
    then show ?thesis using r(3) by (metis image_eqI)
  qed
  moreover have "row_view r \<in> row_view ` set L" if "r \<in> set (unfinished rows)" for r
  proof -
    have r: "m_get rows (di_ID r) = Some r" "di_Status r = DeliveryPending" using un that by blast+
    then have "row_ok (di_ID ` set L) (set V) (di_ID r) r" using assms by (simp only: table_ok_def)
    then obtain x where x: "x \<in> set L" "di_ID x = di_ID r" using r(2) by (auto simp: row_ok_def)
    then have "row_view x = row_view r" using L(2) [OF x(1)] r(1) by (auto simp: has_row_def)
    with x(1) show ?thesis by (metis image_eqI)
  qed
  ultimately have "set (map row_view (unfinished rows)) = set (map row_view L)" by auto
  then show ?thesis using distinct_views [OF L(1)] distinct_views [OF U] set_eq_iff_mset_eq_distinct by blast
qed

text \<open>
  C24. With a table that accepts the writes, crash recovery is complete: after any history, a new
  queue on the same table (of at most 2000 unfinished rows) holds exactly the items that were
  waiting or in flight, with their payload, attempts, last error and retry time to the second;
  nothing delivered or dead-lettered comes back.
\<close>

theorem recovery_restores_live_items:
  assumes "dq_store (queue (table_run es)) = Some rows" and "length (unfinished rows) \<le> 2000"
  shows "mset (map row_view (pending (NewDeliveryQueue (Some rows))))
      = mset (map row_view (live_items (table_run es)))
    \<and> heap_ok di_NextRetryAt (pending (NewDeliveryQueue (Some rows)))"
proof -
  have "delivery_inv (table_run es)" by (rule delivery.inv_run)
  then have "table_ok rows (live_items (table_run es)) (deadLetters (queue (table_run es))) (delivered (table_run es))"
    using assms(1) by (auto simp: delivery_inv_def)
  from table_ok_views [OF this] show ?thesis
    using NewDeliveryQueue_spec [OF assms(2)] by (simp add: image_mset.compositionality comp_def)
qed

theorem recovery_restores_live_items_witness:
  "let s = table_run [EvEnqueue ''m1'' 0 0 ''telegram'' ''bob'' ''hello'' [] 5,
      EvEnqueue ''m2'' 3 0 ''telegram'' ''bob'' ''bye'' [] 5, EvDrain 1] in
   mset (map row_view (pending (NewDeliveryQueue (dq_store (queue s))))) = mset (map row_view (live_items s))
   \<and> map di_ID (live_items s) = [''m2'', ''m1'']"
proof -
  let ?es = "[EvEnqueue ''m1'' 0 0 ''telegram'' ''bob'' ''hello'' [] 5,
      EvEnqueue ''m2'' 3 0 ''telegram'' ''bob'' ''bye'' [] 5, EvDrain 1]"
  let ?rows = "the (dq_store (queue (table_run ?es)))"
  have rows: "dq_store (queue (table_run ?es)) = Some ?rows" and len: "length (unfinished ?rows) \<le> 2000" by code_simp+
  have "map di_ID (live_items (table_run ?es)) = [''m2'', ''m1'']" by code_simp
  with recovery_restores_live_items [OF rows len] rows show ?thesis unfolding Let_def by metis
qed

end
