(* ===== verification/Approvals.thy ===== *)
theory Approvals
  imports Prelude
begin

text \<open>
  The approval manager of \<^verbatim>\<open>internal/agent/policy/approvals.go\<close>: requests to run gated tools,
  which an operator approves or denies or which time out. Requests are values of a table keyed by
  id; the order in which the lists are returned is that of the table (the code's map order is
  unspecified). The clock readings are arguments. \<open>fmt\<close> stands for \<^verbatim>\<open>Time.Format\<close>, and the
  generic maps of the JSON methods have their values as text.
\<close>

section \<open>Requests and configuration\<close>

datatype ToolClassification = ToolSafe | ToolGated | ToolBlocked

datatype ApprovalStatus = ApprovalPending | ApprovalApproved | ApprovalDenied | ApprovalTimedOut

primrec status_text :: "ApprovalStatus \<Rightarrow> string" where
  "status_text ApprovalPending = ''pending''"
| "status_text ApprovalApproved = ''approved''"
| "status_text ApprovalDenied = ''denied''"
| "status_text ApprovalTimedOut = ''timed_out''"

record ApprovalRequest =
  ar_ID :: string
  ar_ToolName :: string
  ar_ToolInput :: string
  ar_SessionID :: string
  ar_TurnID :: string
  ar_Status :: ApprovalStatus
  ar_Operator :: string
  ar_Reason :: string
  ar_CreatedAt :: time
  ar_DecidedAt :: "time option"
  ar_TimeoutAt :: time

record ApprovalsConfig =
  ap_Enabled :: bool
  ap_GatedTools :: "string list"
  ap_BlockedTools :: "string list"
  ap_TimeoutSeconds :: int

record ApprovalManager =
  am_config :: ApprovalsConfig
  requests :: "(string, ApprovalRequest) gomap"
  gated :: "(string, bool) gomap"
  blocked :: "(string, bool) gomap"

section \<open>Operations\<close>

definition NewApprovalManager :: "ApprovalsConfig \<Rightarrow> ApprovalManager" where
  "NewApprovalManager cfg0 =
     (let cfg = (if ap_TimeoutSeconds cfg0 \<le> 0 then cfg0\<lparr>ap_TimeoutSeconds := 300\<rparr> else cfg0)
      in \<lparr>am_config = cfg, requests = [], gated = fold (\<lambda>t. m_put t True) (ap_GatedTools cfg) [],
          blocked = fold (\<lambda>t. m_put t True) (ap_BlockedTools cfg) []\<rparr>)"

definition ClassifyTool :: "string \<Rightarrow> ApprovalManager \<Rightarrow> ToolClassification" where
  "ClassifyTool name m =
     (if m_get (blocked m) name = Some True then ToolBlocked
      else if m_get (gated m) name = Some True then ToolGated else ToolSafe)"

definition RequestApproval ::
  "time \<Rightarrow> string \<Rightarrow> string \<Rightarrow> string \<Rightarrow> string \<Rightarrow> string \<Rightarrow> ApprovalManager \<Rightarrow> ApprovalRequest \<times> ApprovalManager" where
  "RequestApproval now i toolName toolInput sessionID turnID m =
     (let req = \<lparr>ar_ID = i, ar_ToolName = toolName, ar_ToolInput = toolInput, ar_SessionID = sessionID,
            ar_TurnID = turnID, ar_Status = ApprovalPending, ar_Operator = [], ar_Reason = [],
            ar_CreatedAt = now, ar_DecidedAt = None,
            ar_TimeoutAt = now + i64 (ap_TimeoutSeconds (am_config m) * second)\<rparr>
      in (req, m\<lparr>requests := m_put i req (requests m)\<rparr>))"

text \<open>The result is the error, if any.\<close>

datatype approval_error = NotFound string | AlreadyDecided string ApprovalStatus

definition decide_request ::
  "string \<Rightarrow> (ApprovalRequest \<Rightarrow> ApprovalRequest) \<Rightarrow> ApprovalManager \<Rightarrow> approval_error option \<times> ApprovalManager" where
  "decide_request i f m =
     (case m_get (requests m) i of
        None \<Rightarrow> (Some (NotFound i), m)
      | Some req \<Rightarrow>
          if ar_Status req \<noteq> ApprovalPending then (Some (AlreadyDecided i (ar_Status req)), m)
          else (None, m\<lparr>requests := m_put i (f req) (requests m)\<rparr>))"

definition Approve :: "time \<Rightarrow> string \<Rightarrow> string \<Rightarrow> ApprovalManager \<Rightarrow> approval_error option \<times> ApprovalManager" where
  "Approve now i operator = decide_request i (\<lambda>req. req\<lparr>ar_Status := ApprovalApproved,
     ar_Operator := operator, ar_DecidedAt := Some now\<rparr>)"

definition Deny_request ::
  "time \<Rightarrow> string \<Rightarrow> string \<Rightarrow> string \<Rightarrow> ApprovalManager \<Rightarrow> approval_error option \<times> ApprovalManager" where
  "Deny_request now i operator reason = decide_request i (\<lambda>req. req\<lparr>ar_Status := ApprovalDenied,
     ar_Operator := operator, ar_Reason := reason, ar_DecidedAt := Some now\<rparr>)"

definition ListAll :: "ApprovalManager \<Rightarrow> ApprovalRequest list" where
  "ListAll m = map snd (requests m)"

definition ListPending :: "ApprovalManager \<Rightarrow> ApprovalRequest list" where
  "ListPending m = filter (\<lambda>r. ar_Status r = ApprovalPending) (map snd (requests m))"

definition Get_request :: "string \<Rightarrow> ApprovalManager \<Rightarrow> ApprovalRequest option" where
  "Get_request i m = m_get (requests m) i"

definition timed_out :: "time \<Rightarrow> ApprovalRequest \<Rightarrow> bool" where
  "timed_out now req \<longleftrightarrow> ar_Status req = ApprovalPending \<and> ar_TimeoutAt req < now"

definition ExpireTimedOut :: "time \<Rightarrow> ApprovalManager \<Rightarrow> nat \<times> ApprovalManager" where
  "ExpireTimedOut now m =
     (length (filter (timed_out now) (map snd (requests m))),
      m\<lparr>requests := m_map (\<lambda>req. if timed_out now req
          then req\<lparr>ar_Status := ApprovalTimedOut, ar_DecidedAt := Some now\<rparr> else req) (requests m)\<rparr>)"

definition ClearDecided :: "ApprovalManager \<Rightarrow> nat \<times> ApprovalManager" where
  "ClearDecided m =
     (length (filter (\<lambda>r. ar_Status r \<noteq> ApprovalPending) (map snd (requests m))),
      m\<lparr>requests := m_filter (\<lambda>i r. ar_Status r = ApprovalPending) (requests m)\<rparr>)"

definition toMap :: "(time \<Rightarrow> string) \<Rightarrow> ApprovalRequest \<Rightarrow> (string, string) gomap" where
  "toMap fmt r =
     [(''id'', ar_ID r), (''tool_name'', ar_ToolName r), (''tool_input'', ar_ToolInput r),
      (''session_id'', ar_SessionID r), (''turn_id'', ar_TurnID r), (''status'', status_text (ar_Status r)),
      (''created_at'', fmt (ar_CreatedAt r)), (''timeout_at'', fmt (ar_TimeoutAt r))]
     @ (if ar_Operator r \<noteq> [] then [(''operator'', ar_Operator r)] else [])
     @ (if ar_Reason r \<noteq> [] then [(''reason'', ar_Reason r)] else [])
     @ (case ar_DecidedAt r of Some t \<Rightarrow> [(''decided_at'', fmt t)] | None \<Rightarrow> [])"

definition ListAllJSON :: "(time \<Rightarrow> string) \<Rightarrow> ApprovalManager \<Rightarrow> (string, string) gomap list" where
  "ListAllJSON fmt m = map (toMap fmt) (ListAll m)"

definition ListPendingJSON :: "(time \<Rightarrow> string) \<Rightarrow> ApprovalManager \<Rightarrow> (string, string) gomap list" where
  "ListPendingJSON fmt m = map (toMap fmt) (ListPending m)"

definition GetJSON :: "(time \<Rightarrow> string) \<Rightarrow> string \<Rightarrow> ApprovalManager \<Rightarrow> (string, string) gomap option" where
  "GetJSON fmt i m = map_option (toMap fmt) (Get_request i m)"

section \<open>The manager over time\<close>

datatype approval_event =
  EvRequest time string string string string string | EvApprove time string string
  | EvDeny time string string string | EvExpire time | EvClear

fun approval_step :: "approval_event \<Rightarrow> ApprovalManager \<Rightarrow> ApprovalManager" where
  "approval_step (EvRequest now i t inp sid tid) m = snd (RequestApproval now i t inp sid tid m)"
| "approval_step (EvApprove now i operator) m = snd (Approve now i operator m)"
| "approval_step (EvDeny now i operator reason) m = snd (Deny_request now i operator reason m)"
| "approval_step (EvExpire now) m = snd (ExpireTimedOut now m)"
| "approval_step EvClear m = snd (ClearDecided m)"

fun requests_id :: "string \<Rightarrow> approval_event \<Rightarrow> bool" where
  "requests_id i (EvRequest now j t inp sid tid) = (j = i)"
| "requests_id i _ = False"

text \<open>
  A request carries its id and has a decision time exactly when it is decided; an operator is
  named only by a decision.
\<close>

definition request_ok :: "string \<Rightarrow> ApprovalRequest \<Rightarrow> bool" where
  "request_ok i r \<longleftrightarrow> ar_ID r = i \<and> (ar_DecidedAt r = None \<longleftrightarrow> ar_Status r = ApprovalPending)
     \<and> (ar_Operator r = [] \<or> ar_Status r \<in> {ApprovalApproved, ApprovalDenied})"

definition manager_ok :: "ApprovalManager \<Rightarrow> bool" where
  "manager_ok m \<longleftrightarrow> m_ok (requests m) \<and> (\<forall>i r. m_get (requests m) i = Some r \<longrightarrow> request_ok i r)"

lemmas approval_defs = RequestApproval_def Approve_def Deny_request_def decide_request_def ExpireTimedOut_def
  ClearDecided_def Let_def

lemma approval_step_ok:
  assumes "manager_ok m"
  shows "manager_ok (approval_step e m)"
proof -
  have ok: "m_ok (requests m)" using assms by (simp add: manager_ok_def)
  show ?thesis
    by (cases e) (use assms ok in \<open>fastforce simp: approval_defs manager_ok_def request_ok_def timed_out_def
      split: option.splits if_splits\<close>)+
qed

interpretation approvals: event_system "NewApprovalManager cfg" approval_step manager_ok for cfg
  by unfold_locales (simp_all only: approval_step_ok, simp add: NewApprovalManager_def manager_ok_def Let_def)

section \<open>Decisions are final\<close>

lemma decided_step:
  assumes "manager_ok m" and "m_get (requests m) i = None \<or> m_get (requests m) i = Some r"
    and "ar_Status r \<noteq> ApprovalPending" and "\<not> requests_id i e"
  shows "m_get (requests (approval_step e m)) i = None \<or> m_get (requests (approval_step e m)) i = Some r"
proof -
  have ok: "m_ok (requests m)" using assms(1) by (simp add: manager_ok_def)
  show ?thesis
    by (cases e) (use assms(2-4) ok in \<open>auto simp: approval_defs timed_out_def split: option.splits if_splits\<close>)
qed

lemma decided_fold:
  "manager_ok m \<Longrightarrow> m_get (requests m) i = None \<or> m_get (requests m) i = Some r \<Longrightarrow> ar_Status r \<noteq> ApprovalPending
    \<Longrightarrow> list_all (\<lambda>e. \<not> requests_id i e) es
    \<Longrightarrow> m_get (requests (fold approval_step es m)) i = None \<or> m_get (requests (fold approval_step es m)) i = Some r"
proof (induction es arbitrary: m)
  case (Cons e es)
  have "m_get (requests (approval_step e m)) i = None \<or> m_get (requests (approval_step e m)) i = Some r"
    by (rule decided_step) (use Cons.prems in auto)
  from Cons.IH [OF approval_step_ok [OF Cons.prems(1)] this] Cons.prems show ?case by simp
qed simp

text \<open>
  C25. A decision is final. Once a request is approved, denied or timed out, no later operation
  changes it, as long as its id is not requested again: it can only be cleared away, and
  approving or denying it is an error.
\<close>

theorem approval_decision_is_final:
  assumes "Get_request i (fold approval_step es (NewApprovalManager cfg)) = Some r"
    and "ar_Status r \<noteq> ApprovalPending" and "list_all (\<lambda>e. \<not> requests_id i e) es'"
    and "m = fold approval_step (es @ es') (NewApprovalManager cfg)"
  shows "(Get_request i m = None \<or> Get_request i m = Some r)
    \<and> fst (Approve now i operator m) \<noteq> None \<and> fst (Deny_request now i operator reason m) \<noteq> None"
proof -
  have "m_get (requests m) i = None \<or> m_get (requests m) i = Some r"
    using decided_fold [OF approvals.inv_run, of es cfg i r es'] assms by (simp add: Get_request_def)
  with assms(2) show ?thesis
    by (auto simp: Get_request_def Approve_def Deny_request_def decide_request_def)
qed

theorem approval_decision_is_final_witness:
  "let m = fold approval_step ([EvRequest 0 ''r1'' ''bash'' ''{}'' ''s'' ''t'', EvDeny 5 ''r1'' ''ann'' ''no'']
      @ [EvApprove 6 ''r1'' ''bob'', EvExpire 999999999999]) (NewApprovalManager \<lparr>ap_Enabled = True,
         ap_GatedTools = [''bash''], ap_BlockedTools = [], ap_TimeoutSeconds = 0\<rparr>)
   in map_option ar_Status (Get_request ''r1'' m) = Some ApprovalDenied \<and> fst (Approve 7 ''r1'' ''bob'' m) \<noteq> None"
proof -
  let ?cfg = "\<lparr>ap_Enabled = True, ap_GatedTools = [''bash''], ap_BlockedTools = [], ap_TimeoutSeconds = 0\<rparr>"
  let ?es = "[EvRequest 0 ''r1'' ''bash'' ''{}'' ''s'' ''t'', EvDeny 5 ''r1'' ''ann'' ''no'']"
  let ?es' = "[EvApprove 6 ''r1'' ''bob'', EvExpire 999999999999]"
  let ?r = "the (Get_request ''r1'' (fold approval_step ?es (NewApprovalManager ?cfg)))"
  have r: "Get_request ''r1'' (fold approval_step ?es (NewApprovalManager ?cfg)) = Some ?r"
    "ar_Status ?r \<noteq> ApprovalPending" "list_all (\<lambda>e. \<not> requests_id ''r1'' e) ?es'" by code_simp+
  have "fst (Approve 7 ''r1'' ''bob'' (fold approval_step (?es @ ?es') (NewApprovalManager ?cfg))) \<noteq> None"
    using approval_decision_is_final [OF r refl] by blast
  moreover have "map_option ar_Status (Get_request ''r1'' (fold approval_step (?es @ ?es') (NewApprovalManager ?cfg)))
      = Some ApprovalDenied" by code_simp
  ultimately show ?thesis unfolding Let_def by blast
qed

text \<open>
  Expiry is exact: \<^verbatim>\<open>ExpireTimedOut\<close> times out precisely the requests that are pending past
  their deadline, stamps them with the time, leaves every other request alone and returns how many
  there were; what stays pending is within its deadline.
\<close>

theorem expiry_is_exact:
  "let m = fold approval_step es (NewApprovalManager cfg); (n, m') = ExpireTimedOut now m in
     Get_request i m' = map_option (\<lambda>r. if ar_Status r = ApprovalPending \<and> ar_TimeoutAt r < now
         then r\<lparr>ar_Status := ApprovalTimedOut, ar_DecidedAt := Some now\<rparr> else r) (Get_request i m)
     \<and> list_all (\<lambda>r. now \<le> ar_TimeoutAt r) (ListPending m')
     \<and> n + length (ListPending m') = length (ListPending m)"
proof -
  define rs where "rs = requests (fold approval_step es (NewApprovalManager cfg))"
  define f where "f = (\<lambda>req. if timed_out now req
    then req\<lparr>ar_Status := ApprovalTimedOut, ar_DecidedAt := Some now\<rparr> else req)"
  have "list_all (\<lambda>r. now \<le> ar_TimeoutAt r) (filter (\<lambda>r. ar_Status r = ApprovalPending) (map snd (m_map f rs)))"
    by (auto simp: m_map_def f_def timed_out_def list_all_iff)
  moreover have "length (filter (timed_out now) (map snd rs))
      + length (filter (\<lambda>r. ar_Status r = ApprovalPending) (map snd (m_map f rs)))
      = length (filter (\<lambda>r. ar_Status r = ApprovalPending) (map snd rs))"
    by (induction rs) (auto simp: m_map_def f_def timed_out_def split: if_splits)
  ultimately show ?thesis
    by (simp add: ExpireTimedOut_def Get_request_def ListPending_def rs_def [symmetric] f_def timed_out_def)
qed

end
