(* ===== verification/RateLimit.thy ===== *)
theory RateLimit
  imports Prelude
begin

text \<open>
  The request limiter of the HTTP API, \<^verbatim>\<open>internal/api/ratelimit.go\<close>: a fixed window per client
  address and one per API key. The bucket maps are tables, the clock readings are arguments of the
  operations and \<open>hash\<close> stands for the hexadecimal SHA-256 of \<^verbatim>\<open>hashAPIKey\<close>. Requests pass the
  middleware one after the other; each bucket is locked for its update. The response headers, the
  capacity tiers' JSON tags, the snapshot type and the trusted-proxy set, which nothing uses, are left out.
\<close>

section \<open>Buckets\<close>

record rateBucket =
  rb_count :: int
  windowStart :: time

type_synonym buckets = "(string, rateBucket) gomap"

definition actorRequestsPerWindow :: int where
  "actorRequestsPerWindow = 5000"

text \<open>\<open>now1\<close> is read when the bucket may have to be created, \<open>now2\<close> under its lock.\<close>

definition touch_bucket :: "int \<Rightarrow> duration \<Rightarrow> time \<Rightarrow> time \<Rightarrow> rateBucket option \<Rightarrow> bool \<times> rateBucket" where
  "touch_bucket limit window now1 now2 val =
     (let b0 = (case val of None \<Rightarrow> \<lparr>rb_count = 0, windowStart = now1\<rparr> | Some b \<Rightarrow> b);
          b1 = (if window \<le> time_sub now2 (windowStart b0) then b0\<lparr>rb_count := 0, windowStart := now2\<rparr> else b0);
          b2 = b1\<lparr>rb_count := rb_count b1 + 1\<rparr>
      in (limit < rb_count b2, b2))"

definition checkBucket :: "string \<Rightarrow> int \<Rightarrow> duration \<Rightarrow> time \<Rightarrow> time \<Rightarrow> buckets \<Rightarrow> bool \<times> buckets" where
  "checkBucket key limit window now1 now2 m =
     (let (exceeded, b) = touch_bucket limit window now1 now2 (m_get m key) in (exceeded, m_put key b m))"

section \<open>Requests\<close>

record http_request =
  hr_api_key :: string
  hr_real_ip :: string
  hr_forwarded_for :: string
  hr_remote_addr :: string

text \<open>\<^verbatim>\<open>net.SplitHostPort\<close>, the host only; \<open>None\<close> is an error.\<close>

definition split_host :: "string \<Rightarrow> string option" where
  "split_host s =
     (case str_last_index s '':'' of None \<Rightarrow> None
      | Some i \<Rightarrow>
          if has_prefix s ''['' then
            (case str_index s '']'' of None \<Rightarrow> None
             | Some e \<Rightarrow>
                 if e + 1 = i \<and> str_index (drop 1 s) ''['' = None \<and> str_index (drop (e + 1) s) '']'' = None
                 then Some (drop 1 (take e s)) else None)
          else if str_index (take i s) '':'' \<noteq> None \<or> str_index s ''['' \<noteq> None \<or> str_index s '']'' \<noteq> None
          then None else Some (take i s))"

definition extractIP :: "http_request \<Rightarrow> string" where
  "extractIP r =
     (if hr_real_ip r \<noteq> [] then hr_real_ip r
      else if hr_forwarded_for r \<noteq> [] then takeWhile (\<lambda>c. c \<noteq> CHR '','') (hr_forwarded_for r)
      else case split_host (hr_remote_addr r) of None \<Rightarrow> hr_remote_addr r | Some h \<Rightarrow> h)"

section \<open>The middleware\<close>

record rate_state =
  ipBuckets :: buckets
  actorBuckets :: buckets

datatype rate_response = Served | TooManyActor | TooManyIP

definition rate_window :: "int \<Rightarrow> duration" where
  "rate_window windowSeconds =
     (let window = i64 (windowSeconds * second) in if window \<le> 0 then 60 * second else window)"

text \<open>The handler; \<open>t1\<close> to \<open>t4\<close> are the clock readings of the two bucket checks.\<close>

definition rate_limit_handler ::
  "(string \<Rightarrow> string) \<Rightarrow> int \<Rightarrow> duration \<Rightarrow> time \<Rightarrow> time \<Rightarrow> time \<Rightarrow> time \<Rightarrow> http_request \<Rightarrow> rate_state
     \<Rightarrow> rate_response \<times> rate_state" where
  "rate_limit_handler hash requestsPerWindow window t1 t2 t3 t4 r st =
     (let (over, st1) =
            (if hr_api_key r \<noteq> [] then
               let (x, m) = checkBucket (hash (hr_api_key r)) actorRequestsPerWindow window t1 t2 (actorBuckets st)
               in (x, st\<lparr>actorBuckets := m\<rparr>)
             else (False, st))
      in if over then (TooManyActor, st1)
         else let (x, m) = checkBucket (extractIP r) requestsPerWindow window t3 t4 (ipBuckets st1);
                  st2 = st1\<lparr>ipBuckets := m\<rparr>
              in if x then (TooManyIP, st2) else (Served, st2))"

definition RateLimitMiddleware ::
  "(string \<Rightarrow> string) \<Rightarrow> bool \<Rightarrow> int \<Rightarrow> int \<Rightarrow> time \<Rightarrow> time \<Rightarrow> time \<Rightarrow> time \<Rightarrow> http_request \<Rightarrow> rate_state
     \<Rightarrow> rate_response \<times> rate_state" where
  "RateLimitMiddleware hash enabled requestsPerWindow windowSeconds t1 t2 t3 t4 r st =
     (if \<not> enabled \<or> requestsPerWindow \<le> 0 then (Served, st)
      else rate_limit_handler hash requestsPerWindow (rate_window windowSeconds) t1 t2 t3 t4 r st)"

text \<open>
  The background cleanup, a stale key of either map is deleted from both.
\<close>

definition stale_keys :: "time \<Rightarrow> duration \<Rightarrow> buckets \<Rightarrow> string list" where
  "stale_keys now window m = map fst (filter (\<lambda>(k, b). windowStart b < now - 2 * window) m)"

definition cleanup_buckets :: "duration \<Rightarrow> time \<Rightarrow> rate_state \<Rightarrow> rate_state" where
  "cleanup_buckets window now st =
     (let ks = stale_keys now window (ipBuckets st);
          ip1 = fold m_del ks (ipBuckets st); ac1 = fold m_del ks (actorBuckets st);
          ks' = stale_keys now window ac1
      in st\<lparr>ipBuckets := fold m_del ks' ip1, actorBuckets := fold m_del ks' ac1\<rparr>)"

section \<open>Capacity tiers\<close>

record GlobalCapacityTier =
  gt_Name :: string
  gt_MaxRequestsPerSec :: int
  gt_BurstSize :: int

definition defaultGlobalTiers :: "GlobalCapacityTier list" where
  "defaultGlobalTiers =
     [\<lparr>gt_Name = ''free'', gt_MaxRequestsPerSec = 10, gt_BurstSize = 20\<rparr>,
      \<lparr>gt_Name = ''standard'', gt_MaxRequestsPerSec = 100, gt_BurstSize = 200\<rparr>,
      \<lparr>gt_Name = ''premium'', gt_MaxRequestsPerSec = 1000, gt_BurstSize = 2000\<rparr>]"

definition GlobalCapacity :: "GlobalCapacityTier list" where
  "GlobalCapacity = defaultGlobalTiers"

definition GlobalCapacityForTier :: "string \<Rightarrow> GlobalCapacityTier" where
  "GlobalCapacityForTier name =
     (case find (\<lambda>t. gt_Name t = name) defaultGlobalTiers of Some t \<Rightarrow> t | None \<Rightarrow> hd defaultGlobalTiers)"

section \<open>One bucket over time\<close>

text \<open>
  What happens to the bucket of one key: a check with its two clock readings, or a cleanup, which
  drops it when its window started more than two windows ago. The log holds the times of the checks
  that passed.
\<close>

datatype key_event = Hit time time | Sweep time

definition sweep_bucket :: "duration \<Rightarrow> time \<Rightarrow> rateBucket option \<Rightarrow> rateBucket option" where
  "sweep_bucket window now val =
     (case val of None \<Rightarrow> None | Some b \<Rightarrow> if windowStart b < now - 2 * window then None else Some b)"

fun key_log :: "int \<Rightarrow> duration \<Rightarrow> rateBucket option \<Rightarrow> key_event list \<Rightarrow> time list" where
  "key_log limit window val [] = []"
| "key_log limit window val (Hit now1 now2 # es) =
     (let (exceeded, b) = touch_bucket limit window now1 now2 val
      in if exceeded then key_log limit window (Some b) es else now2 # key_log limit window (Some b) es)"
| "key_log limit window val (Sweep now # es) = key_log limit window (sweep_bucket window now val) es"

fun key_times :: "key_event \<Rightarrow> time list" where
  "key_times (Hit now1 now2) = [now1, now2]"
| "key_times (Sweep now) = [now]"

fun clocked :: "time \<Rightarrow> key_event list \<Rightarrow> bool" where
  "clocked t [] = True"
| "clocked t (Hit now1 now2 # es) = (t \<le> now1 \<and> now1 \<le> now2 \<and> clocked now2 es)"
| "clocked t (Sweep now # es) = (t \<le> now \<and> clocked now es)"

lemma clocked_mono: "clocked t es \<Longrightarrow> u \<le> t \<Longrightarrow> clocked u es"
  by (cases "(u, es)" rule: clocked.cases) auto

lemma key_log_later: "clocked t es \<Longrightarrow> x \<in> set (key_log limit window val es) \<Longrightarrow> t \<le> x"
proof (induction limit window val es arbitrary: t rule: key_log.induct)
  case (2 limit window val now1 now2 es)
  obtain ex b where tb: "touch_bucket limit window now1 now2 val = (ex, b)" by fastforce
  from "2.prems" have "clocked t es" "t \<le> now2" using clocked_mono [of now2 es t] by auto
  with "2.IH" [OF tb [symmetric] refl] "2.prems"(2) show ?case by (auto simp: tb split: if_splits)
next
  case (3 limit window val now es)
  from "3.prems"(1) have "clocked t es" using clocked_mono by auto
  with "3.IH" "3.prems"(2) show ?case by simp
qed simp

definition cnt :: "time \<Rightarrow> time \<Rightarrow> time list \<Rightarrow> int" where
  "cnt lo hi xs = int (length (filter (\<lambda>x. lo \<le> x \<and> x < hi) xs))"

lemma cnt_Nil [simp]: "cnt lo hi [] = 0"
  by (simp add: cnt_def)

lemma cnt_Cons [simp]: "cnt lo hi (x # xs) = (if lo \<le> x \<and> x < hi then 1 else 0) + cnt lo hi xs"
  by (simp add: cnt_def)

lemma cnt_nonneg [simp]: "0 \<le> cnt lo hi xs"
  by (simp add: cnt_def)

lemma cnt_zero: "(\<And>x. x \<in> set xs \<Longrightarrow> hi \<le> x) \<Longrightarrow> cnt lo hi xs = 0"
  by (force simp: cnt_def filter_empty_conv)

lemma cnt_mono: "lo' \<le> lo \<Longrightarrow> hi \<le> hi' \<Longrightarrow> cnt lo hi xs \<le> cnt lo' hi' xs"
  by (induction xs) auto

lemma cnt_split: "cnt lo hi xs \<le> cnt lo mid xs + cnt mid hi xs"
  by (induction xs) auto

lemma cnt_later: "clocked t es \<Longrightarrow> hi \<le> t \<Longrightarrow> cnt lo hi (key_log limit window val es) = 0"
  by (rule cnt_zero) (use key_log_later in \<open>blast intro: order_trans\<close>)

lemma touch_reset:
  assumes "0 < window" and "window < 2 ^ 63" and "windowStart b \<le> now2 - window"
  shows "touch_bucket limit window now1 now2 (Some b) = (limit < 1, b\<lparr>rb_count := 1, windowStart := now2\<rparr>)"
  using assms by (auto simp: touch_bucket_def time_sub_ge_iff)

lemma touch_keep:
  assumes "0 < window" and "window < 2 ^ 63" and "now2 - window < windowStart b"
  shows "touch_bucket limit window now1 now2 (Some b) = (limit < rb_count b + 1, b\<lparr>rb_count := rb_count b + 1\<rparr>)"
  using assms by (simp add: touch_bucket_def time_sub_ge_iff)

lemma touch_new: "touch_bucket limit window now1 now2 None
    = touch_bucket limit window now1 now2 (Some \<lparr>rb_count = 0, windowStart = now1\<rparr>)"
  by (simp add: touch_bucket_def)

text \<open>In its own window a bucket admits what its count leaves of the limit.\<close>

lemma own_window:
  assumes "0 < window" and "window < 2 ^ 63" and "0 \<le> rb_count b" and "0 \<le> limit"
    and "clocked (windowStart b) es"
  shows "cnt lo (windowStart b + window) (key_log limit window (Some b) es) \<le> max 0 (limit - rb_count b)"
  using assms(3,5)
proof (induction es arbitrary: b)
  case (Cons e es)
  show ?case
  proof (cases e)
    case (Hit now1 now2)
    then have clk: "clocked now2 es" "windowStart b \<le> now2" using Cons.prems(2) by auto
    show ?thesis
    proof (cases "windowStart b \<le> now2 - window")
      case True
      then have "cnt lo (windowStart b + window) (key_log limit window val es) = 0" for val
        by (intro cnt_later [OF clk(1)]) simp
      then show ?thesis using True Hit by (simp add: touch_reset [OF assms(1,2)])
    next
      case False
      let ?b = "b\<lparr>rb_count := rb_count b + 1\<rparr>"
      from Cons.IH [of ?b] Cons.prems(1) clocked_mono [OF clk]
      have "cnt lo (windowStart b + window) (key_log limit window (Some ?b) es) \<le> max 0 (limit - (rb_count b + 1))" by simp
      then show ?thesis using False Hit by (auto simp: touch_keep [OF assms(1,2)] split: if_splits)
    qed
  next
    case (Sweep now)
    then have clk: "clocked now es" "windowStart b \<le> now" using Cons.prems(2) by auto
    show ?thesis
    proof (cases "windowStart b < now - 2 * window")
      case True
      then have "cnt lo (windowStart b + window) (key_log limit window None es) = 0"
        by (intro cnt_later [OF clk(1)]) (use assms(1) in simp)
      then show ?thesis using True Sweep by (simp add: sweep_bucket_def)
    next
      case False
      with Cons.IH [OF Cons.prems(1) clocked_mono [OF clk]] Sweep show ?thesis by (simp add: sweep_bucket_def)
    qed
  qed
qed simp

text \<open>In the window after its own it admits at most the limit.\<close>

lemma fresh_window:
  assumes "0 < window" and "window < 2 ^ 63" and "0 \<le> limit" and "clocked now2 es" and "windowStart b \<le> now2 - window"
    and "hi \<le> now2 + window"
  shows "cnt lo hi (key_log limit window (Some b) (Hit now1 now2 # es)) \<le> limit"
proof -
  let ?b = "b\<lparr>rb_count := 1, windowStart := now2\<rparr>"
  have "cnt lo hi (key_log limit window (Some ?b) es) \<le> cnt lo (now2 + window) (key_log limit window (Some ?b) es)"
    using assms(6) by (intro cnt_mono) simp_all
  also have "\<dots> \<le> max 0 (limit - 1)" using own_window [OF assms(1,2) _ assms(3), of ?b es] assms(4) by simp
  finally show ?thesis using assms(3) by (auto simp: touch_reset [OF assms(1,2,5)] split: if_splits)
qed

lemma next_window:
  assumes "0 < window" and "window < 2 ^ 63" and "0 \<le> limit" and "clocked (windowStart b) es"
  shows "cnt (windowStart b + window) (windowStart b + 2 * window) (key_log limit window (Some b) es) \<le> limit"
  using assms(4)
proof (induction es arbitrary: b)
  case (Cons e es)
  show ?case
  proof (cases e)
    case (Hit now1 now2)
    then have clk: "clocked now2 es" "windowStart b \<le> now2" using Cons.prems by auto
    show ?thesis
    proof (cases "windowStart b \<le> now2 - window")
      case True
      then show ?thesis unfolding Hit by (intro fresh_window [OF assms(1-3) clk(1)]) simp_all
    next
      case False
      with Cons.IH [of "b\<lparr>rb_count := rb_count b + 1\<rparr>"] clocked_mono [OF clk] Hit show ?thesis
        by (simp add: touch_keep [OF assms(1,2)])
    qed
  next
    case (Sweep now)
    then have clk: "clocked now es" "windowStart b \<le> now" using Cons.prems by auto
    show ?thesis
    proof (cases "windowStart b < now - 2 * window")
      case True
      then have "cnt (windowStart b + window) (windowStart b + 2 * window) (key_log limit window None es) = 0"
        by (intro cnt_later [OF clk(1)]) (use assms(1) in simp)
      then show ?thesis using True Sweep assms(3) by (simp add: sweep_bucket_def)
    next
      case False
      with Cons.IH [OF clocked_mono [OF clk]] Sweep show ?thesis by (simp add: sweep_bucket_def)
    qed
  qed
qed (simp add: assms(3))

definition bucket_ok :: "time \<Rightarrow> rateBucket option \<Rightarrow> bool" where
  "bucket_ok t val = (case val of None \<Rightarrow> True | Some b \<Rightarrow> 0 \<le> rb_count b \<and> windowStart b \<le> t)"

lemma two_windows_hit:
  assumes "0 < window" and "window < 2 ^ 63" and "0 \<le> limit" and "0 \<le> rb_count b"
    and "clocked (windowStart b) (Hit now1 now2 # es)"
    and IH: "\<And>val. bucket_ok now2 val \<Longrightarrow> cnt t (t + window) (key_log limit window val es) \<le> 2 * limit"
  shows "cnt t (t + window) (key_log limit window (Some b) (Hit now1 now2 # es)) \<le> 2 * limit"
proof (cases "t \<le> now2")
  case False
  have "bucket_ok now2 (Some (snd (touch_bucket limit window now1 now2 (Some b))))"
    using assms(4,5) by (auto simp: touch_bucket_def bucket_ok_def Let_def)
  from IH [OF this] False show ?thesis by (simp add: case_prod_unfold Let_def)
next
  case True
  show ?thesis
  proof (cases "windowStart b \<le> now2 - window")
    case reset: True
    have "cnt t (t + window) (key_log limit window (Some b) (Hit now1 now2 # es)) \<le> limit"
      by (rule fresh_window) (use assms(1-3,5) True reset in auto)
    then show ?thesis using assms(3) by simp
  next
    case False
    let ?log = "key_log limit window (Some b) (Hit now1 now2 # es)" and ?s = "windowStart b"
    have "cnt t (t + window) ?log \<le> cnt t (?s + window) ?log + cnt (?s + window) (t + window) ?log" by (rule cnt_split)
    also have "cnt (?s + window) (t + window) ?log \<le> cnt (?s + window) (?s + 2 * window) ?log"
      using False True by (intro cnt_mono) simp_all
    also have "\<dots> \<le> limit" by (rule next_window [OF assms(1-3,5)])
    also have "cnt t (?s + window) ?log \<le> max 0 (limit - rb_count b)"
      by (rule own_window [OF assms(1,2,4,3,5)])
    finally show ?thesis using assms(3,4) by simp
  qed
qed

lemma two_windows:
  assumes "0 < window" and "window < 2 ^ 63" and "0 \<le> limit"
    and "clocked t0 es" and "bucket_ok t0 val"
  shows "cnt t (t + window) (key_log limit window val es) \<le> 2 * limit"
  using assms(4,5)
proof (induction es arbitrary: t0 val)
  case (Cons e es)
  show ?case
  proof (cases e)
    case (Hit now1 now2)
    define b where "b = (case val of None \<Rightarrow> \<lparr>rb_count = 0, windowStart = now1\<rparr> | Some b \<Rightarrow> b)"
    have log: "key_log limit window val (Hit now1 now2 # es) = key_log limit window (Some b) (Hit now1 now2 # es)"
      by (simp add: b_def touch_new split: option.splits)
    have b: "0 \<le> rb_count b" "clocked (windowStart b) (Hit now1 now2 # es)"
      using Cons.prems Hit by (auto simp: b_def bucket_ok_def split: option.splits)
    show ?thesis unfolding Hit log
      by (rule two_windows_hit [OF assms(1-3) b]) (use Cons.IH [of now2] b(2) in auto)
  next
    case (Sweep now)
    then have "bucket_ok now (sweep_bucket window now val)" "clocked now es"
      using Cons.prems by (auto simp: bucket_ok_def sweep_bucket_def split: option.splits)
    from Cons.IH [OF this(2,1)] Sweep show ?thesis by simp
  qed
qed (simp add: assms(3))

section \<open>The middleware over time\<close>

datatype rate_event = EvHttp http_request time time time time | EvCleanup time

fun rate_step :: "(string \<Rightarrow> string) \<Rightarrow> int \<Rightarrow> int \<Rightarrow> rate_event \<Rightarrow> rate_state \<Rightarrow> (string \<times> time) list \<times> rate_state" where
  "rate_step hash limit windowSeconds (EvHttp r t1 t2 t3 t4) st =
     (let (resp, st') = RateLimitMiddleware hash True limit windowSeconds t1 t2 t3 t4 r st
      in (if resp = Served then [(extractIP r, t4)] else [], st'))"
| "rate_step hash limit windowSeconds (EvCleanup now) st = ([], cleanup_buckets (rate_window windowSeconds) now st)"

text \<open>The requests served, with their client address and time.\<close>

fun serve_log :: "(string \<Rightarrow> string) \<Rightarrow> int \<Rightarrow> int \<Rightarrow> rate_event list \<Rightarrow> rate_state \<Rightarrow> (string \<times> time) list" where
  "serve_log hash limit windowSeconds [] st = []"
| "serve_log hash limit windowSeconds (e # es) st =
     (let (xs, st') = rate_step hash limit windowSeconds e st in xs @ serve_log hash limit windowSeconds es st')"

fun times_ordered :: "time \<Rightarrow> rate_event list \<Rightarrow> bool" where
  "times_ordered t [] = True"
| "times_ordered t (EvHttp r t1 t2 t3 t4 # es) = (t \<le> t1 \<and> t1 \<le> t2 \<and> t2 \<le> t3 \<and> t3 \<le> t4 \<and> times_ordered t4 es)"
| "times_ordered t (EvCleanup now # es) = (t \<le> now \<and> times_ordered now es)"

fun key_events :: "(string \<Rightarrow> string) \<Rightarrow> int \<Rightarrow> int \<Rightarrow> string \<Rightarrow> rate_event list \<Rightarrow> rate_state \<Rightarrow> key_event list" where
  "key_events hash limit windowSeconds k [] st = []"
| "key_events hash limit windowSeconds k (EvHttp r t1 t2 t3 t4 # es) st =
     (let (resp, st') = RateLimitMiddleware hash True limit windowSeconds t1 t2 t3 t4 r st;
          rest = key_events hash limit windowSeconds k es st'
      in if resp \<noteq> TooManyActor \<and> extractIP r = k then Hit t3 t4 # rest else rest)"
| "key_events hash limit windowSeconds k (EvCleanup now # es) st =
     Sweep now # key_events hash limit windowSeconds k es (cleanup_buckets (rate_window windowSeconds) now st)"

lemma rate_window_range: "0 < rate_window ws" "rate_window ws < 2 ^ 63"
  using i64_range [of "ws * second"] by (auto simp: rate_window_def Let_def second_def)

definition apart :: "string \<Rightarrow> rate_state \<Rightarrow> bool" where
  "apart k st \<longleftrightarrow> m_ok (ipBuckets st) \<and> m_get (actorBuckets st) k = None"

lemma m_get_fold_del [simp]: "m_get (fold m_del ks m) j = (if j \<in> set ks then None else m_get m j)"
  by (induction ks arbitrary: m) auto

lemma m_ok_fold_del: "m_ok m \<Longrightarrow> m_ok (fold m_del ks m)"
  by (induction ks arbitrary: m) auto

lemma stale_keys_iff: "m_ok m \<Longrightarrow> k \<in> set (stale_keys now window m)
    \<longleftrightarrow> (\<exists>b. m_get m k = Some b \<and> windowStart b < now - 2 * window)"
  by (force simp: stale_keys_def m_ok_def)

lemma stale_keys_dom: "m_get m k = None \<Longrightarrow> k \<notin> set (stale_keys now window m)"
  by (auto simp: stale_keys_def map_of_eq_None_iff)

lemma cleanup_apart:
  assumes "apart k st"
  shows "apart k (cleanup_buckets window now st)"
    and "m_get (ipBuckets (cleanup_buckets window now st)) k = sweep_bucket window now (m_get (ipBuckets st) k)"
proof -
  let ?ac = "fold m_del (stale_keys now window (ipBuckets st)) (actorBuckets st)"
  have "m_get ?ac k = None" using assms by (simp add: apart_def)
  note ac = this stale_keys_dom [OF this, of now window]
  show "apart k (cleanup_buckets window now st)"
    using assms by (simp add: cleanup_buckets_def Let_def apart_def m_ok_fold_del)
  show "m_get (ipBuckets (cleanup_buckets window now st)) k = sweep_bucket window now (m_get (ipBuckets st) k)"
    using assms ac by (auto simp: cleanup_buckets_def Let_def apart_def sweep_bucket_def stale_keys_iff split: option.splits)
qed

lemma middleware_apart:
  assumes "apart k st" and "\<And>key. hash key \<noteq> k"
    and "RateLimitMiddleware hash True limit ws t1 t2 t3 t4 r st = (resp, st')"
  shows "apart k st'"
  using assms(1,3) assms(2) [of "hr_api_key r"]
  by (auto simp: RateLimitMiddleware_def rate_limit_handler_def checkBucket_def apart_def Let_def
      split: if_splits prod.splits)

lemma middleware_bucket:
  assumes "0 < limit" and "RateLimitMiddleware hash True limit ws t1 t2 t3 t4 r st = (resp, st')"
  shows "if resp \<noteq> TooManyActor \<and> extractIP r = k
    then touch_bucket limit (rate_window ws) t3 t4 (m_get (ipBuckets st) k) = (resp \<noteq> Served, the (m_get (ipBuckets st') k))
      \<and> m_get (ipBuckets st') k \<noteq> None
    else m_get (ipBuckets st') k = m_get (ipBuckets st) k"
  using assms by (auto simp: RateLimitMiddleware_def rate_limit_handler_def checkBucket_def Let_def
      split: if_splits prod.splits)

lemma serve_log_key:
  assumes "0 < limit" and "\<And>key. hash key \<noteq> k"
  shows "apart k st \<Longrightarrow> map snd (filter (\<lambda>x. fst x = k) (serve_log hash limit ws es st))
      = key_log limit (rate_window ws) (m_get (ipBuckets st) k) (key_events hash limit ws k es st)"
proof (induction es arbitrary: st)
  case (Cons e es)
  show ?case
  proof (cases e)
    case (EvHttp r t1 t2 t3 t4)
    obtain resp st' where m: "RateLimitMiddleware hash True limit ws t1 t2 t3 t4 r st = (resp, st')" by fastforce
    note IH = Cons.IH [OF middleware_apart [OF Cons.prems assms(2) m]]
    show ?thesis
    proof (cases "resp \<noteq> TooManyActor \<and> extractIP r = k")
      case True
      with middleware_bucket [OF assms(1) m, of k] obtain b where
        "touch_bucket limit (rate_window ws) t3 t4 (m_get (ipBuckets st) k) = (resp \<noteq> Served, b)"
        "m_get (ipBuckets st') k = Some b" by auto
      with IH True show ?thesis by (simp add: EvHttp m)
    next
      case False
      then have skip: "resp = Served \<Longrightarrow> extractIP r \<noteq> k" by auto
      from False middleware_bucket [OF assms(1) m, of k] have "m_get (ipBuckets st') k = m_get (ipBuckets st) k" by simp
      with IH skip False show ?thesis by (auto simp: EvHttp m)
    qed
  next
    case (EvCleanup now)
    from Cons.IH [OF cleanup_apart(1) [OF Cons.prems]] cleanup_apart(2) [OF Cons.prems] EvCleanup show ?thesis by simp
  qed
qed simp

lemma key_events_clocked: "times_ordered t es \<Longrightarrow> clocked t (key_events hash limit ws k es st)"
proof (induction t es arbitrary: st rule: times_ordered.induct)
  case (2 t r t1 t2 t3 t4 es)
  from "2.prems" have t: "t \<le> t3" "t3 \<le> t4" by auto
  have "clocked t4 (key_events hash limit ws k es st')" for st' using 2 by simp
  with t show ?case
    by (auto simp: Let_def split: prod.splits intro: clocked_mono)
qed auto

text \<open>
  A client address is never served more than twice its limit in any stretch of time as long
  as the window, wherever that stretch begins, whatever other clients do and whenever the cleanup
  runs, provided clock readings do not go back and the address is not the hash of an API key.
\<close>

theorem requests_per_window_bounded:
  assumes "0 < limit" and "times_ordered t0 es" and "\<And>key. hash key \<noteq> k"
  shows "int (length (filter (\<lambda>(ip, x). ip = k \<and> t \<le> x \<and> x < t + rate_window ws)
      (serve_log hash limit ws es \<lparr>ipBuckets = [], actorBuckets = []\<rparr>))) \<le> 2 * limit"
proof -
  define st where "st = \<lparr>ipBuckets = [], actorBuckets = [] :: buckets\<rparr>"
  have "apart k st" by (simp add: st_def apart_def)
  note log = serve_log_key [where hash = hash and k = k, OF assms(1,3) this, where ws = ws and es = es]
  have "cnt t (t + rate_window ws) (map snd (filter (\<lambda>x. fst x = k) (serve_log hash limit ws es st))) \<le> 2 * limit"
    unfolding log by (rule two_windows [OF rate_window_range _ key_events_clocked [OF assms(2)]])
      (use assms(1) in \<open>auto simp: st_def bucket_ok_def\<close>)
  then show ?thesis unfolding st_def cnt_def
    by (simp add: filter_map comp_def conj_commute case_prod_unfold)
qed

theorem requests_per_window_bounded_witness:
  "let r = \<lparr>hr_api_key = ''k'', hr_real_ip = [], hr_forwarded_for = ''10.0.0.7,1.1.1.1'', hr_remote_addr = ''9.9.9.9:80''\<rparr>;
       served = serve_log (\<lambda>key. ''#'' @ key) 1 60 [EvHttp r 1 1 1 1, EvHttp r 2 2 2 2, EvCleanup 3, EvHttp r 60000000001 60000000001 60000000001 60000000001]
         \<lparr>ipBuckets = [], actorBuckets = []\<rparr>
   in served = [(''10.0.0.7'', 1), (''10.0.0.7'', 60000000001)]
     \<and> int (length (filter (\<lambda>(ip, x). ip = ''10.0.0.7'' \<and> 0 \<le> x \<and> x < 0 + rate_window 60) served)) \<le> 2 * 1"
proof -
  let ?r = "\<lparr>hr_api_key = ''k'', hr_real_ip = [], hr_forwarded_for = ''10.0.0.7,1.1.1.1'', hr_remote_addr = ''9.9.9.9:80''\<rparr>"
  let ?es = "[EvHttp ?r 1 1 1 1, EvHttp ?r 2 2 2 2, EvCleanup 3, EvHttp ?r 60000000001 60000000001 60000000001 60000000001]"
  have "serve_log (\<lambda>key. ''#'' @ key) 1 60 ?es \<lparr>ipBuckets = [], actorBuckets = []\<rparr>
      = [(''10.0.0.7'', 1), (''10.0.0.7'', 60000000001)]" by code_simp
  moreover have "int (length (filter (\<lambda>(ip, x). ip = ''10.0.0.7'' \<and> 0 \<le> x \<and> x < 0 + rate_window 60)
      (serve_log (\<lambda>key. ''#'' @ key) 1 60 ?es \<lparr>ipBuckets = [], actorBuckets = []\<rparr>))) \<le> 2 * 1"
    by (rule requests_per_window_bounded [where ?t0.0 = 0]) simp_all
  ultimately show ?thesis unfolding Let_def by blast
qed

end
