(* ===== verification/Guards.thy ===== *)
theory Guards
  imports Session ToolSemantics
begin

text \<open>
  The output guards of the pipeline: the chain and the text guards of
  \<^verbatim>\<open>internal/pipeline/guards.go\<close>, the presets of \<^verbatim>\<open>guard_registry.go\<close>, the context of
  \<^verbatim>\<open>guard_context.go\<close>, the retry loop of \<^verbatim>\<open>guard_retry.go\<close> and the decision of
  \<^verbatim>\<open>post_success_retry_policy.go\<close> whether a retry is still worth it. A guard is its name, its check
  and, for a contextual guard, its check with context. The executor that runs the agent loop, the
  builder of the context and the computation of classifier scores are parameters; a score is of a
  type of its own (the code has floats). The guards of the other files enter as members of a registry.
\<close>

section \<open>Guards and their context\<close>

datatype GuardVerdict = GuardPass | GuardRewritten | GuardRetryRequested

record GuardResult =
  gr_Passed :: bool
  gr_Content :: string
  gr_Retry :: bool
  gr_Reason :: string
  gr_Verdict :: GuardVerdict

record ApplyResult =
  ar_Content :: string
  ar_RetryRequested :: bool
  ar_RetryReason :: string
  ar_Violations :: "string list"

record ToolResultEntry =
  tr_ToolName :: string
  tr_Output :: string
  tr_Metadata :: string
  tr_ArtifactProof :: "artifact_proof option"
  tr_ReadProof :: "artifact_read_proof option"
  tr_Inspection :: "inspection_proof option"

record DelegationProvenance =
  dp_SubagentTaskStarted :: bool
  dp_SubagentTaskCompleted :: bool
  dp_SubagentResultAttached :: bool

record 'f GuardContext =
  gx_UserPrompt :: string
  gx_Intents :: "string list"
  gx_ToolResults :: "ToolResultEntry list"
  gx_AgentName :: string
  gx_ResolvedModel :: string
  gx_PreviousAssistant :: string
  gx_PriorAssistantMessages :: "string list"
  gx_SubagentNames :: "string list"
  gx_SemanticScores :: "(string, 'f) gomap"
  gx_DelegationProvenance :: DelegationProvenance

record 'f guard =
  g_Name :: string
  g_Check :: "string \<Rightarrow> GuardResult"
  g_CheckWithContext :: "(string \<Rightarrow> 'f GuardContext \<Rightarrow> GuardResult) option"

definition HasIntent :: "'f GuardContext \<Rightarrow> string \<Rightarrow> bool" where
  "HasIntent gc label \<longleftrightarrow> list_ex (\<lambda>intent. intent = label) (gx_Intents gc)"

definition HasToolResult :: "'f GuardContext \<Rightarrow> string \<Rightarrow> bool" where
  "HasToolResult gc toolName \<longleftrightarrow> list_ex (\<lambda>tr. tr_ToolName tr = toolName) (gx_ToolResults gc)"

definition toolOutputContainsAny :: "string \<Rightarrow> string list \<Rightarrow> bool" where
  "toolOutputContainsAny output markers \<longleftrightarrow> list_ex (contains (to_lower output)) markers"

definition policyOrSandboxDenialMarkers :: "string list" where
  "policyOrSandboxDenialMarkers =
     [''policy denied:'', ''not allowed'', ''classified as forbidden'', ''requires creator authority'',
      ''requires self-generated or higher authority'', ''requires peer or higher authority'',
      ''approval denied'', ''approval required'', ''absolute paths must be in allowed_paths list'',
      ''home-directory shortcuts are not allowed'', ''path escapes workspace boundary'',
      ''path resolves outside workspace'', ''path traversal detected'']"

definition toolFailureMarkers :: "string list" where
  "toolFailureMarkers = [''error:'', ''failed'', ''failure'', ''insufficient'', ''rejected'', ''denied'']"

definition toolResultSignalsPolicyOrSandboxDenial :: "ToolResultEntry \<Rightarrow> bool" where
  "toolResultSignalsPolicyOrSandboxDenial tr = toolOutputContainsAny (tr_Output tr) policyOrSandboxDenialMarkers"

definition toolResultSignalsFailure :: "ToolResultEntry \<Rightarrow> bool" where
  "toolResultSignalsFailure tr \<longleftrightarrow>
     toolResultSignalsPolicyOrSandboxDenial tr \<or> toolOutputContainsAny (tr_Output tr) toolFailureMarkers"

section \<open>The text guards\<close>

definition passed :: "string \<Rightarrow> GuardResult" where
  "passed content = \<lparr>gr_Passed = True, gr_Content = content, gr_Retry = False, gr_Reason = [], gr_Verdict = GuardPass\<rparr>"

definition rejected :: "string \<Rightarrow> string \<Rightarrow> GuardResult" where
  "rejected content reason =
     \<lparr>gr_Passed = False, gr_Content = content, gr_Retry = False, gr_Reason = reason, gr_Verdict = GuardPass\<rparr>"

definition EmptyResponseGuard_Check :: "string \<Rightarrow> GuardResult" where
  "EmptyResponseGuard_Check content =
     (if trim_space content = []
      then (rejected [] ''empty response'')\<lparr>gr_Retry := True, gr_Verdict := GuardRetryRequested\<rparr>
      else passed content)"

definition systemPromptMarkers :: "string list" where
  "systemPromptMarkers = [''## Platform Instructions'', ''## Identity'', ''## Tool Use'', ''## Safety'',
     ''You are an autonomous AI agent'']"

definition SystemPromptLeakGuard_Check :: "string list \<Rightarrow> string \<Rightarrow> GuardResult" where
  "SystemPromptLeakGuard_Check markers content =
     (if list_ex (\<lambda>m. contains (to_lower content) (to_lower m)) markers
      then rejected (''I can'' @ [CHR 0x27] @ ''t share my system instructions. How else can I help you?'')
             ''system prompt leak detected''
      else passed content)"

text \<open>\<^verbatim>\<open>strings.ReplaceAll(s, p, "")\<close>.\<close>

function remove_all :: "string \<Rightarrow> string \<Rightarrow> string" where
  "remove_all p s =
     (if p = [] then s
      else case s of [] \<Rightarrow> [] | c # r \<Rightarrow> if has_prefix s p then remove_all p (drop (length p) s) else c # remove_all p r)"
  by pat_completeness auto
termination
  by (relation "measure (\<lambda>(p, s). length s)") (auto simp: neq_Nil_conv)

declare remove_all.simps [simp del]

definition internalMarkers :: "string list" where
  "internalMarkers = [''[INTERNAL]'', ''[SYSTEM_NOTE]'', ''[DECOMPOSITION]'', ''[DELEGATION]'']"

definition InternalMarkerGuard_Check :: "string list \<Rightarrow> string \<Rightarrow> GuardResult" where
  "InternalMarkerGuard_Check markers content =
     (let modified = fold remove_all markers content in
      if modified \<noteq> content then rejected (trim_space modified) ''internal markers stripped'' else passed content)"

definition harmfulPatterns :: "string list" where
  "harmfulPatterns = [''how to make a bomb'', ''how to hack into'', ''how to steal'', ''social security number'',
     ''credit card number'']"

definition ContentClassificationGuard_Check :: "string \<Rightarrow> GuardResult" where
  "ContentClassificationGuard_Check content =
     (if list_ex (contains (to_lower content)) harmfulPatterns
      then rejected (''I can'' @ [CHR 0x27] @ ''t assist with that request. Please ask something else.'') ''harmful content detected''
      else passed content)"

definition RepetitionGuard_Check :: "nat \<Rightarrow> string \<Rightarrow> GuardResult" where
  "RepetitionGuard_Check minRepeatLen content =
     (if length content < minRepeatLen * 2 then passed content
      else let mid = length content div 2 in
           if contains (drop mid content) (take minRepeatLen (take mid content))
           then (rejected (take mid content) ''repetitive output detected and truncated'')\<lparr>gr_Retry := True\<rparr>
           else passed content)"

definition text_guard :: "string \<Rightarrow> (string \<Rightarrow> GuardResult) \<Rightarrow> 'f guard" where
  "text_guard name check = \<lparr>g_Name = name, g_Check = check, g_CheckWithContext = None\<rparr>"

definition text_guards :: "'f guard list" where
  "text_guards =
     [text_guard ''empty_response'' EmptyResponseGuard_Check,
      text_guard ''content_classification'' ContentClassificationGuard_Check,
      text_guard ''repetition'' (RepetitionGuard_Check 50),
      text_guard ''system_prompt_leak'' (SystemPromptLeakGuard_Check systemPromptMarkers),
      text_guard ''internal_marker'' (InternalMarkerGuard_Check internalMarkers)]"

section \<open>The chain\<close>

definition start_result :: "string \<Rightarrow> ApplyResult" where
  "start_result content = \<lparr>ar_Content = content, ar_RetryRequested = False, ar_RetryReason = [], ar_Violations = []\<rparr>"

text \<open>One guard of the loop of \<^verbatim>\<open>ApplyFull\<close> and \<^verbatim>\<open>ApplyFrom\<close>.\<close>

definition apply_guard :: "'f guard \<Rightarrow> ApplyResult \<Rightarrow> ApplyResult" where
  "apply_guard g result =
     (let gr = g_Check g (ar_Content result) in
      if gr_Passed gr then result
      else let r1 = result\<lparr>ar_Violations := ar_Violations result @ [g_Name g @ '': '' @ gr_Reason gr]\<rparr>;
               r2 = (if gr_Content gr \<noteq> [] then r1\<lparr>ar_Content := gr_Content gr\<rparr> else r1)
           in if gr_Retry gr then r2\<lparr>ar_RetryRequested := True, ar_RetryReason := gr_Reason gr\<rparr> else r2)"

definition ApplyFull :: "'f guard list \<Rightarrow> string \<Rightarrow> ApplyResult" where
  "ApplyFull gs content = fold apply_guard gs (start_result content)"

definition Apply :: "'f guard list \<Rightarrow> string \<Rightarrow> string" where
  "Apply gs content = ar_Content (ApplyFull gs content)"

text \<open>A negative index reads outside the slice, which panics.\<close>

definition ApplyFrom :: "'f guard list \<Rightarrow> string \<Rightarrow> int \<Rightarrow> ApplyResult option" where
  "ApplyFrom gs content fromIndex =
     (if fromIndex < 0 then None else Some (fold apply_guard (drop (nat fromIndex) gs) (start_result content)))"

fun guard_index_from :: "int \<Rightarrow> 'f guard list \<Rightarrow> string \<Rightarrow> int" where
  "guard_index_from i [] name = - 1"
| "guard_index_from i (g # gs) name = (if g_Name g = name then i else guard_index_from (i + 1) gs name)"

definition GuardIndex :: "'f guard list \<Rightarrow> string \<Rightarrow> int" where
  "GuardIndex gs name = guard_index_from 0 gs name"

definition check_guard :: "'f guard \<Rightarrow> 'f GuardContext option \<Rightarrow> string \<Rightarrow> GuardResult" where
  "check_guard g ctx content =
     (case (g_CheckWithContext g, ctx) of (Some f, Some c) \<Rightarrow> f content c | _ \<Rightarrow> g_Check g content)"

text \<open>The loop that stops at the first guard that asks for a retry.\<close>

fun apply_with_context :: "'f GuardContext option \<Rightarrow> 'f guard list \<Rightarrow> ApplyResult \<Rightarrow> ApplyResult" where
  "apply_with_context ctx [] result = result"
| "apply_with_context ctx (g # gs) result =
     (let gr = check_guard g ctx (ar_Content result) in
      if gr_Passed gr then apply_with_context ctx gs result
      else let r1 = result\<lparr>ar_Violations := ar_Violations result @ [g_Name g]\<rparr> in
           if gr_Retry gr then r1\<lparr>ar_RetryRequested := True, ar_RetryReason := gr_Reason gr\<rparr>
           else apply_with_context ctx gs (if gr_Content gr \<noteq> [] then r1\<lparr>ar_Content := gr_Content gr\<rparr> else r1))"

text \<open>\<open>precompute\<close> stands for \<^verbatim>\<open>precomputeGuardScores\<close>.\<close>

definition ApplyFullWithContext ::
  "(string \<Rightarrow> 'f GuardContext \<Rightarrow> 'f GuardContext) \<Rightarrow> 'f guard list \<Rightarrow> string \<Rightarrow> 'f GuardContext option \<Rightarrow> ApplyResult" where
  "ApplyFullWithContext precompute gs content ctx =
     apply_with_context (map_option (precompute content) ctx) gs (start_result content)"

definition retryWithGuardsResume :: "'f guard list \<Rightarrow> string \<Rightarrow> 'f GuardContext option \<Rightarrow> int \<Rightarrow> ApplyResult option" where
  "retryWithGuardsResume gs content ctx resumeIndex =
     (if resumeIndex < 0 then None else Some (apply_with_context ctx (drop (nat resumeIndex) gs) (start_result content)))"

section \<open>Presets\<close>

datatype GuardSetPreset = GuardSetFull | GuardSetCached | GuardSetStream | GuardSetNone

type_synonym 'f GuardRegistry = "(string, 'f guard) gomap"

definition Register_guard :: "'f guard \<Rightarrow> 'f GuardRegistry \<Rightarrow> 'f GuardRegistry" where
  "Register_guard g r = m_put (g_Name g) g r"

definition Get_guard :: "string \<Rightarrow> 'f GuardRegistry \<Rightarrow> 'f guard option" where
  "Get_guard name r = m_get r name"

definition chainFromNames :: "'f GuardRegistry \<Rightarrow> string list \<Rightarrow> 'f guard list" where
  "chainFromNames r names = List.map_filter (m_get r) names"

definition chainExcluding :: "string list \<Rightarrow> 'f GuardRegistry \<Rightarrow> string list \<Rightarrow> 'f guard list" where
  "chainExcluding exclude r names = List.map_filter (\<lambda>n. if n \<in> set exclude then None else m_get r n) names"

definition guardsExcludedFromCache :: "string list" where
  "guardsExcludedFromCache = [''perspective'', ''declared_action'', ''user_echo'']"

definition fullNames :: "string list" where
  "fullNames =
     [''empty_response'', ''subagent_claim'', ''execution_truth'', ''action_verification'', ''task_deferral'',
      ''clarification_deflection'', ''output_contract'', ''model_identity_truth'', ''current_events_truth'',
      ''literary_quote_retry'', ''personality_integrity'', ''internal_jargon'', ''non_repetition_v2'',
      ''low_value_parroting'', ''perspective'', ''declared_action'', ''user_echo'', ''internal_protocol'',
      ''placeholder_content'', ''content_classification'', ''repetition'', ''system_prompt_leak'',
      ''internal_marker'', ''execution_block'', ''delegation_metadata'', ''filesystem_denial'',
      ''config_protection'', ''financial_action_truth'']"

definition cachedNames :: "string list" where
  "cachedNames =
     [''empty_response'', ''subagent_claim'', ''execution_truth'', ''action_verification'', ''task_deferral'',
      ''clarification_deflection'', ''output_contract'', ''model_identity_truth'', ''current_events_truth'',
      ''literary_quote_retry'', ''personality_integrity'', ''internal_jargon'', ''non_repetition_v2'',
      ''low_value_parroting'', ''internal_protocol'',
      ''placeholder_content'', ''content_classification'', ''repetition'', ''system_prompt_leak'',
      ''internal_marker'', ''execution_block'', ''delegation_metadata'', ''filesystem_denial'',
      ''config_protection'', ''financial_action_truth'']"

definition streamNames :: "string list" where
  "streamNames = [''subagent_claim'', ''current_events_truth'', ''personality_integrity'', ''internal_jargon'',
     ''non_repetition_v2'', ''clarification_deflection'', ''internal_protocol'']"

definition Chain :: "'f GuardRegistry \<Rightarrow> GuardSetPreset \<Rightarrow> 'f guard list" where
  "Chain r preset =
     (case preset of
        GuardSetFull \<Rightarrow> chainFromNames r fullNames
      | GuardSetCached \<Rightarrow> chainExcluding guardsExcludedFromCache r cachedNames
      | GuardSetStream \<Rightarrow> chainFromNames r streamNames
      | GuardSetNone \<Rightarrow> [])"

section \<open>Whether to retry\<close>

record ExecutionProgress =
  ep_SuccessfulToolResults :: int
  ep_SuccessfulArtifactWrites :: int

definition WritesPersistentArtifact :: "string \<Rightarrow> bool" where
  "WritesPersistentArtifact name \<longleftrightarrow> OperationClassForName name = OperationArtifactWrite"

definition executionProgressFromGuardContext :: "'f GuardContext option \<Rightarrow> ExecutionProgress" where
  "executionProgressFromGuardContext ctx =
     (case ctx of
        None \<Rightarrow> \<lparr>ep_SuccessfulToolResults = 0, ep_SuccessfulArtifactWrites = 0\<rparr>
      | Some c \<Rightarrow>
          let ok = filter (\<lambda>tr. \<not> toolResultSignalsFailure tr) (gx_ToolResults c)
          in \<lparr>ep_SuccessfulToolResults = int (length ok),
              ep_SuccessfulArtifactWrites = int (length (filter (\<lambda>tr. WritesPersistentArtifact (tr_ToolName tr)) ok))\<rparr>)"

definition HasSubstantiveExecutionProgress :: "ExecutionProgress \<Rightarrow> bool" where
  "HasSubstantiveExecutionProgress p \<longleftrightarrow> ep_SuccessfulToolResults p > 0"

record RetryDisposition =
  rd_Allow :: bool
  rd_Reason :: string

definition blockingGuards :: "string list" where
  "blockingGuards =
     [''empty_response'', ''subagent_claim'', ''execution_truth'', ''action_verification'', ''task_deferral'',
      ''clarification_deflection'', ''output_contract'', ''model_identity_truth'', ''current_events_truth'',
      ''declared_action'', ''placeholder_content'', ''execution_block'', ''delegation_metadata'',
      ''filesystem_denial'', ''config_protection'', ''financial_action_truth'']"

definition guardRetryRemainsBlockingAfterProgress :: "string \<Rightarrow> bool" where
  "guardRetryRemainsBlockingAfterProgress name \<longleftrightarrow> name \<in> set blockingGuards"

definition decideGuardRetryAfterProgress :: "ApplyResult \<Rightarrow> 'f GuardContext option \<Rightarrow> RetryDisposition" where
  "decideGuardRetryAfterProgress result ctx =
     (if \<not> ar_RetryRequested result then \<lparr>rd_Allow = False, rd_Reason = []\<rparr>
      else if \<not> HasSubstantiveExecutionProgress (executionProgressFromGuardContext ctx) then \<lparr>rd_Allow = True, rd_Reason = []\<rparr>
      else if list_ex guardRetryRemainsBlockingAfterProgress (ar_Violations result) then \<lparr>rd_Allow = True, rd_Reason = []\<rparr>
      else \<lparr>rd_Allow = False,
             rd_Reason = ''turn already made substantive execution progress and the guard finding is narrative-only''\<rparr>)"

section \<open>The retry loop\<close>

record RetryPolicy =
  rp_MaxRetries :: int
  rp_InjectReason :: bool
  rp_PreserveChain :: bool
  rp_ErrorOnExhaust :: bool

definition DefaultRetryPolicy :: RetryPolicy where
  "DefaultRetryPolicy = \<lparr>rp_MaxRetries = 2, rp_InjectReason = True, rp_PreserveChain = True, rp_ErrorOnExhaust = True\<rparr>"

record GuardRetryRun =
  gr_run_Content :: string
  gr_run_Turns :: int
  gr_run_GuardRetried :: bool
  gr_run_RetrySuppressed :: bool
  gr_run_RetrySuppressReason :: string
  gr_run_InitialGuardResult :: ApplyResult
  gr_run_FinalGuardResult :: ApplyResult

definition empty_run :: GuardRetryRun where
  "empty_run = \<lparr>gr_run_Content = [], gr_run_Turns = 0, gr_run_GuardRetried = False, gr_run_RetrySuppressed = False,
     gr_run_RetrySuppressReason = [], gr_run_InitialGuardResult = start_result [], gr_run_FinalGuardResult = start_result []\<rparr>"

datatype retry_error = ExecutorFailed string | GuardExhausted int string

text \<open>\<^verbatim>\<open>guards == nil\<close> is the empty list: the code treats both alike.\<close>

definition applyGuardChainWithOptionalContext ::
  "(string \<Rightarrow> 'f GuardContext \<Rightarrow> 'f GuardContext) \<Rightarrow> 'f guard list \<Rightarrow> string \<Rightarrow> 'f GuardContext option \<Rightarrow> ApplyResult" where
  "applyGuardChainWithOptionalContext precompute gs content ctx =
     (if gs = [] then start_result content
      else case ctx of Some c \<Rightarrow> ApplyFullWithContext precompute gs content (Some c) | None \<Rightarrow> ApplyFull gs content)"

text \<open>
  What the retry loop is given: the executor (session and outside world to answer, number of
  turns and error), the context builder and the decision about a retry.
\<close>

record ('w, 'f) retry_env =
  re_RunLoop :: "Session \<Rightarrow> 'w \<Rightarrow> (string \<times> int \<times> string option) \<times> Session \<times> 'w"
  re_buildGuardContext :: "(Session \<Rightarrow> 'w \<Rightarrow> 'f GuardContext) option"
  re_decideRetry :: "(ApplyResult \<Rightarrow> 'f GuardContext option \<Rightarrow> RetryDisposition) option"
  re_precompute :: "string \<Rightarrow> 'f GuardContext \<Rightarrow> 'f GuardContext"
  re_guards :: "'f guard list"
  re_policy :: RetryPolicy

definition rejection_message :: "string list \<Rightarrow> string \<Rightarrow> string" where
  "rejection_message lastViolations lastReason =
     ''Your previous response was rejected''
     @ (if lastViolations \<noteq> [] then '' by the '' @ str_join '', '' lastViolations @ '' guard'' else [])
     @ '': '' @ lastReason @ ''. Please revise.''"

text \<open>The loop: \<open>left\<close> attempts remain, \<open>attempt\<close> is the number of the next one.\<close>

fun guard_attempts ::
  "('w, 'f) retry_env \<Rightarrow> nat \<Rightarrow> nat \<Rightarrow> string \<Rightarrow> string list \<Rightarrow> GuardRetryRun \<Rightarrow> Session \<Rightarrow> 'w
     \<Rightarrow> (GuardRetryRun \<times> retry_error option) \<times> Session \<times> 'w" where
  "guard_attempts env 0 attempt lastReason lastViolations run s w =
     ((run, if rp_ErrorOnExhaust (re_policy env)
            then Some (GuardExhausted (rp_MaxRetries (re_policy env) + 1) lastReason) else None), s, w)"
| "guard_attempts env (Suc left) attempt lastReason lastViolations run s0 w0 =
     (let s1 = (if attempt > 0 \<and> rp_InjectReason (re_policy env) \<and> lastReason \<noteq> []
                then AddSystemMessage (rejection_message lastViolations lastReason) s0 else s0);
          ((content, turns, err), s, w) = re_RunLoop env s1 w0;
          run1 = run\<lparr>gr_run_Turns := gr_run_Turns run + turns\<rparr>
      in case err of
           Some e \<Rightarrow> ((run1, Some (ExecutorFailed e)), s, w)
         | None \<Rightarrow>
             let ctx = map_option (\<lambda>f. f s w) (re_buildGuardContext env);
                 result = applyGuardChainWithOptionalContext (re_precompute env) (re_guards env) content ctx;
                 run2 = (if attempt = 0 then run1\<lparr>gr_run_InitialGuardResult := result\<rparr> else run1);
                 run3 = run2\<lparr>gr_run_FinalGuardResult := result, gr_run_Content := ar_Content result\<rparr>
             in if re_guards env = [] \<or> \<not> ar_RetryRequested result then ((run3, None), s, w)
                else case (case re_decideRetry env of Some f \<Rightarrow> Some (f result ctx) | None \<Rightarrow> None) of
                  Some d \<Rightarrow>
                    if \<not> rd_Allow d
                    then ((run3\<lparr>gr_run_RetrySuppressed := True, gr_run_RetrySuppressReason := rd_Reason d\<rparr>, None), s, w)
                    else guard_attempts env left (Suc attempt) (ar_RetryReason result) (ar_Violations result)
                           (run3\<lparr>gr_run_GuardRetried := True\<rparr>) s w
                | None \<Rightarrow> guard_attempts env left (Suc attempt) (ar_RetryReason result) (ar_Violations result)
                           (run3\<lparr>gr_run_GuardRetried := True\<rparr>) s w)"

definition retryWithGuardsDetailed ::
  "('w, 'f) retry_env \<Rightarrow> Session \<Rightarrow> 'w \<Rightarrow> (GuardRetryRun \<times> retry_error option) \<times> Session \<times> 'w" where
  "retryWithGuardsDetailed env s w =
     guard_attempts env (nat (rp_MaxRetries (re_policy env) + 1)) 0 [] [] empty_run s w"

definition retryWithGuards ::
  "('w, 'f) retry_env \<Rightarrow> Session \<Rightarrow> 'w \<Rightarrow> (string \<times> int \<times> retry_error option) \<times> Session \<times> 'w" where
  "retryWithGuards env s w =
     (let ((run, err), s1, w1) =
            retryWithGuardsDetailed (env\<lparr>re_buildGuardContext := None, re_decideRetry := None\<rparr>) s w
      in ((if err = None then gr_run_Content run else [], gr_run_Turns run, err), s1, w1))"

section \<open>Properties of the chain\<close>

lemma apply_guard_content:
  "ar_Content (apply_guard g r) = (let gr = g_Check g (ar_Content r) in
     if gr_Passed gr \<or> gr_Content gr = [] then ar_Content r else gr_Content gr)"
  by (simp add: apply_guard_def Let_def)

lemma fold_content: "ar_Content r = ar_Content r' \<Longrightarrow> ar_Content (fold apply_guard gs r) = ar_Content (fold apply_guard gs r')"
proof (induction gs arbitrary: r r')
  case (Cons g gs)
  from Cons.prems have "ar_Content (apply_guard g r) = ar_Content (apply_guard g r')" by (simp only: apply_guard_content)
  from Cons.IH [OF this] show ?case by simp
qed simp

text \<open>
  \<^verbatim>\<open>ApplyFrom\<close> is the full pass over the rest of the chain: from the first index it equals
  \<^verbatim>\<open>ApplyFull\<close>, and a pass up to an index followed by the pass from that index, on the content
  left, has the same final content as one full pass.
\<close>

theorem apply_from_resumes:
  "ApplyFrom gs content 0 = Some (ApplyFull gs content)
   \<and> (\<exists>r. ApplyFrom gs (Apply (take n gs) content) (int n) = Some r \<and> ar_Content r = Apply gs content)"
proof -
  have "Apply gs content = ar_Content (fold apply_guard (drop n gs) (fold apply_guard (take n gs) (start_result content)))"
    by (metis Apply_def ApplyFull_def append_take_drop_id comp_apply fold_append)
  also have "\<dots> = ar_Content (fold apply_guard (drop n gs) (start_result (Apply (take n gs) content)))"
    by (rule fold_content) (simp add: Apply_def ApplyFull_def start_result_def)
  finally show ?thesis by (simp add: ApplyFrom_def ApplyFull_def)
qed

lemma registered_name: "m_get (fold Register_guard gs []) n = Some g \<Longrightarrow> g_Name g = n"
proof (induction gs rule: rev_induct)
  case (snoc h gs)
  then show ?case by (auto simp: Register_guard_def split: if_splits)
qed simp

lemma chain_filter:
  assumes "\<And>n g. m_get r n = Some g \<Longrightarrow> g_Name g = n"
  shows "filter (\<lambda>g. g_Name g \<notin> set ex) (chainFromNames r ns) = chainFromNames r (filter (\<lambda>n. n \<notin> set ex) ns)"
  using assms by (induction ns) (auto simp: chainFromNames_def List.map_filter_def)

lemma chainExcluding_filter: "chainExcluding ex r ns = chainFromNames r (filter (\<lambda>n. n \<notin> set ex) ns)"
  by (induction ns) (auto simp: chainExcluding_def chainFromNames_def List.map_filter_def)

text \<open>
  The preset for cached answers, which the code spells out as a list of its own, is the full
  preset without the three guards excluded from the cache, in the same order, whatever guards are
  registered.
\<close>

theorem cached_chain_is_full_minus_excluded:
  "let r = fold Register_guard gs [] in
   Chain r GuardSetCached = filter (\<lambda>g. g_Name g \<notin> set guardsExcludedFromCache) (Chain r GuardSetFull)"
proof -
  have "filter (\<lambda>n. n \<notin> set guardsExcludedFromCache) cachedNames = filter (\<lambda>n. n \<notin> set guardsExcludedFromCache) fullNames"
    by code_simp
  then show ?thesis
    by (simp add: Chain_def chainExcluding_filter chain_filter [OF registered_name])
qed

text \<open>What a guard leaves of the content when it does not ask for a retry.\<close>

definition guard_rewrite :: "'f GuardContext option \<Rightarrow> 'f guard \<Rightarrow> string \<Rightarrow> string" where
  "guard_rewrite ctx g content =
     (let gr = check_guard g ctx content in if gr_Passed gr \<or> gr_Content gr = [] then content else gr_Content gr)"

definition asks_retry :: "'f GuardContext option \<Rightarrow> 'f guard \<Rightarrow> string \<Rightarrow> bool" where
  "asks_retry ctx g content = (let gr = check_guard g ctx content in \<not> gr_Passed gr \<and> gr_Retry gr)"

lemma apply_with_context_Cons:
  "apply_with_context ctx (g # gs) r =
     (if asks_retry ctx g (ar_Content r)
      then r\<lparr>ar_Violations := ar_Violations r @ [g_Name g], ar_RetryRequested := True,
             ar_RetryReason := gr_Reason (check_guard g ctx (ar_Content r))\<rparr>
      else apply_with_context ctx gs (r\<lparr>ar_Content := guard_rewrite ctx g (ar_Content r),
             ar_Violations := ar_Violations r @ (if gr_Passed (check_guard g ctx (ar_Content r)) then [] else [g_Name g])\<rparr>))"
  by (cases r) (simp add: asks_retry_def guard_rewrite_def Let_def)

declare apply_with_context.simps(2) [simp del]

lemma find_map: "List.find P (map f xs) = map_option f (List.find (\<lambda>x. P (f x)) xs)"
  by (induction xs) auto

lemma find_upt_Suc:
  "List.find P [0..<Suc n] = (if P 0 then Some 0 else map_option Suc (List.find (\<lambda>i. P (Suc i)) [0..<n]))"
  by (simp add: upt_conv_Cons find_map flip: map_Suc_upt del: upt_Suc)

text \<open>The position of the first guard that asks for a retry, on the content the guards before it leave.\<close>

definition first_retry :: "'f GuardContext option \<Rightarrow> 'f guard list \<Rightarrow> string \<Rightarrow> nat option" where
  "first_retry ctx gs content =
     List.find (\<lambda>i. asks_retry ctx (gs ! i) (fold (guard_rewrite ctx) (take i gs) content)) [0..<length gs]"

lemma first_retry_simps [simp]:
  "first_retry ctx [] c = None"
  "first_retry ctx (g # gs) c =
     (if asks_retry ctx g c then Some 0 else map_option Suc (first_retry ctx gs (guard_rewrite ctx g c)))"
  by (simp_all add: first_retry_def find_upt_Suc del: upt_Suc)

lemma apply_with_context_first:
  "\<not> ar_RetryRequested r \<Longrightarrow>
   case first_retry ctx gs (ar_Content r) of
     None \<Rightarrow> \<not> ar_RetryRequested (apply_with_context ctx gs r)
       \<and> ar_Content (apply_with_context ctx gs r) = fold (guard_rewrite ctx) gs (ar_Content r)
   | Some i \<Rightarrow>
       let c = fold (guard_rewrite ctx) (take i gs) (ar_Content r) in
       ar_RetryRequested (apply_with_context ctx gs r) \<and> ar_Content (apply_with_context ctx gs r) = c
       \<and> ar_RetryReason (apply_with_context ctx gs r) = gr_Reason (check_guard (gs ! i) ctx c)
       \<and> last (ar_Violations (apply_with_context ctx gs r)) = g_Name (gs ! i)"
proof (induction gs arbitrary: r)
  case (Cons g gs)
  let ?r = "r\<lparr>ar_Content := guard_rewrite ctx g (ar_Content r), ar_Violations := ar_Violations r
      @ (if gr_Passed (check_guard g ctx (ar_Content r)) then [] else [g_Name g])\<rparr>"
  from Cons.IH [of ?r] Cons.prems show ?case
    by (auto simp: apply_with_context_Cons Let_def split: option.splits)
qed simp

text \<open>
  The chain with a context stops at the first guard that fails with a retry: the answer is what
  the guards before it left, the reason and the last violation are those of that guard, and with no
  such guard no retry is requested and every guard has rewritten the content in turn.
\<close>

theorem chain_stops_at_first_retry:
  "let ctx' = map_option (precompute content) ctx;
       result = ApplyFullWithContext precompute gs content ctx
   in case first_retry ctx' gs content of
        None \<Rightarrow> \<not> ar_RetryRequested result \<and> ar_Content result = fold (guard_rewrite ctx') gs content
      | Some i \<Rightarrow>
          let c = fold (guard_rewrite ctx') (take i gs) content in
          ar_RetryRequested result \<and> ar_Content result = c
          \<and> ar_RetryReason result = gr_Reason (check_guard (gs ! i) ctx' c)
          \<and> last (ar_Violations result) = g_Name (gs ! i)"
  using apply_with_context_first [of "start_result content" "map_option (precompute content) ctx" gs]
  by (auto simp: ApplyFullWithContext_def start_result_def Let_def split: option.splits)

section \<open>Properties of the retry loop\<close>

text \<open>
  What a finished run says; \<open>all_used\<close> tells whether every attempt the policy allows was made. A run without error
  may carry an answer the guards reject: when the retry was refused by the decision, or when the attempts ran out
  under a policy for which that is no error, as in the live pipeline.
\<close>

definition run_outcome_ok :: "('w, 'f) retry_env \<Rightarrow> GuardRetryRun \<Rightarrow> retry_error option \<Rightarrow> bool \<Rightarrow> bool" where
  "run_outcome_ok env run err all_used =
     (let final = gr_run_FinalGuardResult run; rejected = ar_RetryRequested final;
          exhausted = (rejected \<and> \<not> gr_run_RetrySuppressed run \<and> gr_run_GuardRetried run \<and> all_used) in
      case err of
        None \<Rightarrow> gr_run_Content run = ar_Content final
          \<and> (if gr_run_RetrySuppressed run then rejected \<and> re_decideRetry env \<noteq> None
             else \<not> rejected \<or> exhausted \<and> \<not> rp_ErrorOnExhaust (re_policy env))
      | Some (ExecutorFailed e) \<Rightarrow> True
      | Some (GuardExhausted n reason) \<Rightarrow>
          n = rp_MaxRetries (re_policy env) + 1 \<and> exhausted \<and> reason = ar_RetryReason final
          \<and> rp_ErrorOnExhaust (re_policy env))"

lemma no_guards_accept: "re_guards env = [] \<Longrightarrow>
    \<not> ar_RetryRequested (applyGuardChainWithOptionalContext (re_precompute env) (re_guards env) content ctx)"
  by (simp add: applyGuardChainWithOptionalContext_def start_result_def)

text \<open>The executor is called once an attempt, as any counter of its calls shows.\<close>

lemma guard_attempts_outcome:
  assumes "\<And>s w. calls (snd (snd (re_RunLoop env s w))) = Suc (calls w)"
    and "left = 0 \<Longrightarrow> gr_run_GuardRetried run \<and> ar_RetryRequested (gr_run_FinalGuardResult run)
      \<and> lastReason = ar_RetryReason (gr_run_FinalGuardResult run)
      \<and> gr_run_Content run = ar_Content (gr_run_FinalGuardResult run)"
    and "\<not> gr_run_RetrySuppressed run"
    and "guard_attempts env left attempt lastReason lastViolations run s w = ((run', err), s', w')"
  shows "run_outcome_ok env run' err (calls w' = calls w + left) \<and> calls w' \<le> calls w + left"
  using assms(2-)
proof (induction left arbitrary: attempt lastReason lastViolations run s w)
  case 0
  then show ?case by (auto simp: run_outcome_ok_def Let_def split: if_splits)
next
  case (Suc left)
  let ?s1 = "if attempt > 0 \<and> rp_InjectReason (re_policy env) \<and> lastReason \<noteq> []
             then AddSystemMessage (rejection_message lastViolations lastReason) s else s"
  obtain content turns e s1 w1 where call: "re_RunLoop env ?s1 w = ((content, turns, e), s1, w1)"
    by (metis prod.collapse)
  then have one: "calls w1 = Suc (calls w)" using assms(1) [of ?s1 w] by simp
  show ?case
  proof (cases e)
    case (Some x)
    then show ?thesis using Suc.prems(3) one by (auto simp: call Let_def run_outcome_ok_def)
  next
    case None
    define ctx where "ctx = map_option (\<lambda>f. f s1 w1) (re_buildGuardContext env)"
    define result where "result = applyGuardChainWithOptionalContext (re_precompute env) (re_guards env) content ctx"
    define turned where "turned = run\<lparr>gr_run_Turns := gr_run_Turns run + turns\<rparr>"
    define run3 where "run3 = (if attempt = 0 then turned\<lparr>gr_run_InitialGuardResult := result\<rparr> else turned)
        \<lparr>gr_run_FinalGuardResult := result, gr_run_Content := ar_Content result\<rparr>"
    let ?again = "guard_attempts env left (Suc attempt) (ar_RetryReason result) (ar_Violations result)
      (run3\<lparr>gr_run_GuardRetried := True\<rparr>) s1 w1"
    have run3: "gr_run_FinalGuardResult run3 = result" "gr_run_Content run3 = ar_Content result" "\<not> gr_run_RetrySuppressed run3"
      using Suc.prems(2) by (simp_all add: run3_def turned_def)
    have again: "run_outcome_ok env run' err (calls w' = calls w + Suc left) \<and> calls w' \<le> calls w + Suc left"
      if "?again = ((run', err), s', w')" "ar_RetryRequested result"
      using Suc.IH [of "run3\<lparr>gr_run_GuardRetried := True\<rparr>", OF _ _ that(1)] that(2) run3 one by simp
    have unguarded: "\<not> ar_RetryRequested result" if "re_guards env = []"
      unfolding result_def by (rule no_guards_accept [OF that])
    have step: "guard_attempts env (Suc left) attempt lastReason lastViolations run s w =
        (if re_guards env = [] \<or> \<not> ar_RetryRequested result then ((run3, None), s1, w1)
         else case re_decideRetry env of
                None \<Rightarrow> ?again
              | Some d \<Rightarrow> if rd_Allow (d result ctx) then ?again
                  else ((run3\<lparr>gr_run_RetrySuppressed := True, gr_run_RetrySuppressReason := rd_Reason (d result ctx)\<rparr>, None), s1, w1))"
      unfolding guard_attempts.simps call Let_def None run3_def turned_def result_def ctx_def
      by (simp split: option.splits)
    show ?thesis
      using Suc.prems(3) one unguarded run3 again unfolding step
      by (auto simp: run_outcome_ok_def [of env _ None] Let_def split: option.splits if_splits)
  qed
qed

text \<open>
  C37. The retry loop keeps its promises: a run without error gives the content the last guard pass left, and that pass
  asked for no retry, unless the retry was refused by the decision or all \<^verbatim>\<open>MaxRetries + 1\<close> attempts were used under
  a policy with \<^verbatim>\<open>ErrorOnExhaust\<close> off. With that switch on, running out is the exhaustion error, which names the number
  of attempts and the reason of the last pass. The executor is called at most \<^verbatim>\<open>MaxRetries + 1\<close> times. The live
  pipeline switches \<^verbatim>\<open>ErrorOnExhaust\<close> off, so there a rejected answer is delivered without error after two attempts.
\<close>

theorem retry_loop_outcome:
  assumes "0 \<le> rp_MaxRetries (re_policy env)"
    and "\<And>s w. calls (snd (snd (re_RunLoop env s w))) = Suc (calls w)"
    and "retryWithGuardsDetailed env s w = ((run, err), s', w')"
  shows "run_outcome_ok env run err (int (calls w') = int (calls w) + rp_MaxRetries (re_policy env) + 1)
    \<and> int (calls w') \<le> int (calls w) + rp_MaxRetries (re_policy env) + 1"
proof -
  let ?n = "nat (rp_MaxRetries (re_policy env) + 1)"
  have "run_outcome_ok env run err (calls w' = calls w + ?n) \<and> calls w' \<le> calls w + ?n"
    using assms(1,3) unfolding retryWithGuardsDetailed_def
    by (intro guard_attempts_outcome [of calls, OF assms(2)]) (simp_all add: empty_run_def)
  moreover have "calls w' = calls w + ?n \<longleftrightarrow> int (calls w') = int (calls w) + rp_MaxRetries (re_policy env) + 1"
    "calls w' \<le> calls w + ?n \<longleftrightarrow> int (calls w') \<le> int (calls w) + rp_MaxRetries (re_policy env) + 1"
    using assms(1) by linarith+
  ultimately show ?thesis by simp
qed

text \<open>An executor that answers nothing and counts its calls: three attempts, then the error.\<close>

definition silent_env :: "(nat, unit) retry_env" where
  "silent_env = \<lparr>re_RunLoop = (\<lambda>s w. (([], 1, None), s, Suc w)), re_buildGuardContext = None, re_decideRetry = None,
     re_precompute = (\<lambda>c x. x), re_guards = text_guards, re_policy = DefaultRetryPolicy\<rparr>"

definition silent_session :: Session where
  "silent_session = New_session ''s'' ''a'' ''n''"

lemma silent_run:
  "snd (fst (retryWithGuardsDetailed silent_env silent_session 0)) = Some (GuardExhausted 3 ''empty response'')"
  "snd (snd (retryWithGuardsDetailed silent_env silent_session 0)) = 3"
  by code_simp+

theorem retry_loop_outcome_witness:
  "run_outcome_ok silent_env (fst (fst (retryWithGuardsDetailed silent_env silent_session 0)))
     (Some (GuardExhausted 3 ''empty response'')) True
   \<and> int 3 \<le> int 0 + rp_MaxRetries (re_policy silent_env) + 1"
proof -
  have bound: "0 \<le> rp_MaxRetries (re_policy silent_env)" by (simp add: silent_env_def DefaultRetryPolicy_def)
  have one: "id (snd (snd (re_RunLoop silent_env s w))) = Suc (id w)" for s w by (simp add: silent_env_def)
  have "retryWithGuardsDetailed silent_env silent_session 0 =
     ((fst (fst (retryWithGuardsDetailed silent_env silent_session 0)), Some (GuardExhausted 3 ''empty response'')),
      fst (snd (retryWithGuardsDetailed silent_env silent_session 0)), 3)"
    by (metis silent_run prod.collapse)
  from retry_loop_outcome [of silent_env id, OF bound one this] show ?thesis by (simp add: silent_env_def DefaultRetryPolicy_def)
qed

text \<open>
  The markers are removed one after the other, each in one pass: removing a later marker can put an
  earlier one together, which stays in the answer.
\<close>

theorem internal_marker_survives:
  "gr_Content (InternalMarkerGuard_Check internalMarkers ''ok [INT[SYSTEM_NOTE]ERNAL] plan'') = ''ok [INTERNAL] plan''"
  by code_simp

end
