(* ===== verification/Wallet.thy ===== *)
theory Wallet
  imports Prelude
begin

text \<open>
  The wallet's byte and money arithmetic: the RLP encoder of \<^verbatim>\<open>internal/wallet/rlp.go\<close>, which
  serialises transactions for signing, and the saturating cents of \<^verbatim>\<open>internal/wallet/money.go\<close>.
  Bytes are 8-bit words and machine integers 64-bit words. The conversions from and to floating
  point (\<^verbatim>\<open>MoneyFromDollars\<close>, \<^verbatim>\<open>Dollars\<close>, \<^verbatim>\<open>String\<close>) are left out.
\<close>

unbundle bit_operations_syntax

type_synonym byte = "8 word"

section \<open>The RLP encoder\<close>

text \<open>\<open>ROther\<close> stands for an item of a type the encoder does not know.\<close>

datatype rlp_item = RBytes "byte list" | RBig "int option" | RUint "64 word" | RList "rlp_item list" | ROther

definition uint64_buf :: "64 word \<Rightarrow> byte list" where
  "uint64_buf v = [ucast (drop_bit 56 v), ucast (drop_bit 48 v), ucast (drop_bit 40 v), ucast (drop_bit 32 v),
     ucast (drop_bit 24 v), ucast (drop_bit 16 v), ucast (drop_bit 8 v), ucast v]"

definition uint64ToMinBytes :: "64 word \<Rightarrow> byte list" where
  "uint64ToMinBytes v =
     (if v = 0 then []
      else case dropWhile (\<lambda>b. b = 0) (uint64_buf v) of [] \<Rightarrow> drop 7 (uint64_buf v) | bs \<Rightarrow> bs)"

text \<open>\<^verbatim>\<open>big.Int.Bytes\<close>: the absolute value, most significant byte first.\<close>

fun nat_bytes :: "nat \<Rightarrow> byte list" where
  "nat_bytes n = (if n = 0 then [] else nat_bytes (n div 256) @ [of_nat (n mod 256)])"

declare nat_bytes.simps [simp del]

definition rlp_header :: "nat \<Rightarrow> nat \<Rightarrow> nat \<Rightarrow> byte list" where
  "rlp_header short long len =
     (if len \<le> 55 then [of_nat (short + len)]
      else let lenBytes = uint64ToMinBytes (of_nat len) in of_nat (long + length lenBytes) # lenBytes)"

definition rlpEncodeBytes :: "byte list \<Rightarrow> byte list" where
  "rlpEncodeBytes b =
     (if length b = 0 then [0x80]
      else if length b = 1 \<and> b ! 0 < 0x80 then [b ! 0]
      else rlp_header 0x80 0xb7 (length b) @ b)"

definition rlpPrependListHeader :: "byte list \<Rightarrow> byte list" where
  "rlpPrependListHeader payload = rlp_header 0xc0 0xf7 (length payload) @ payload"

fun rlpEncodeItem :: "rlp_item \<Rightarrow> byte list" where
  "rlpEncodeItem (RBytes v) = rlpEncodeBytes v"
| "rlpEncodeItem (RBig v) =
     (case v of None \<Rightarrow> rlpEncodeBytes [] | Some i \<Rightarrow> if i = 0 then rlpEncodeBytes [] else rlpEncodeBytes (nat_bytes (nat \<bar>i\<bar>)))"
| "rlpEncodeItem (RUint v) = (if v = 0 then rlpEncodeBytes [] else rlpEncodeBytes (uint64ToMinBytes v))"
| "rlpEncodeItem (RList vs) = rlpPrependListHeader (concat (map rlpEncodeItem vs))"
| "rlpEncodeItem ROther = rlpEncodeBytes []"

definition rlpEncodeList :: "rlp_item list \<Rightarrow> byte list" where
  "rlpEncodeList items = rlpPrependListHeader (concat (map rlpEncodeItem items))"

section \<open>Money\<close>

record Money =
  cents :: "64 word"

definition addInt64 :: "64 word \<Rightarrow> 64 word \<Rightarrow> 64 word \<times> bool" where
  "addInt64 a b =
     (let result = a + b in
      if (0 <s b \<and> result <s a) \<or> (b <s 0 \<and> a <s result) then (0, True) else (result, False))"

definition subInt64 :: "64 word \<Rightarrow> 64 word \<Rightarrow> 64 word \<times> bool" where
  "subInt64 a b =
     (let result = a - b in
      if (0 <s b \<and> a <s result) \<or> (b <s 0 \<and> result <s a) then (0, True) else (result, False))"

definition MaxInt64 :: "64 word" where "MaxInt64 = 0x7fffffffffffffff"
definition MinInt64 :: "64 word" where "MinInt64 = 0x8000000000000000"

definition MoneyFromCents :: "64 word \<Rightarrow> Money" where "MoneyFromCents c = \<lparr>cents = c\<rparr>"
definition MoneyZero :: Money where "MoneyZero = \<lparr>cents = 0\<rparr>"

definition Add :: "Money \<Rightarrow> Money \<Rightarrow> Money" where
  "Add m n =
     (let (result, overflow) = addInt64 (cents m) (cents n) in
      if overflow then (if 0 <s cents n then \<lparr>cents = MaxInt64\<rparr> else \<lparr>cents = MinInt64\<rparr>) else \<lparr>cents = result\<rparr>)"

definition Sub :: "Money \<Rightarrow> Money \<Rightarrow> Money" where
  "Sub m n =
     (let (result, overflow) = subInt64 (cents m) (cents n) in
      if overflow then (if 0 <s cents n then \<lparr>cents = MinInt64\<rparr> else \<lparr>cents = MaxInt64\<rparr>) else \<lparr>cents = result\<rparr>)"

definition CheckedAdd :: "Money \<Rightarrow> Money \<Rightarrow> Money option" where
  "CheckedAdd m n = (let (result, overflow) = addInt64 (cents m) (cents n) in if overflow then None else Some \<lparr>cents = result\<rparr>)"

definition CheckedSub :: "Money \<Rightarrow> Money \<Rightarrow> Money option" where
  "CheckedSub m n = (let (result, overflow) = subInt64 (cents m) (cents n) in if overflow then None else Some \<lparr>cents = result\<rparr>)"

definition LessThan :: "Money \<Rightarrow> Money \<Rightarrow> bool" where "LessThan m n \<longleftrightarrow> cents m <s cents n"
definition IsZero :: "Money \<Rightarrow> bool" where "IsZero m \<longleftrightarrow> cents m = 0"

section \<open>Saturation\<close>

lemma sint_range: "- (2 ^ 63) \<le> sint (a :: 64 word)" "sint (a :: 64 word) < 2 ^ 63"
  using sint_ge [of a] sint_lt [of a] by simp_all

lemma stb63: "signed_take_bit 63 (x :: int) = (x + 2 ^ 63) mod 2 ^ 64 - 2 ^ 63"
  by (simp add: signed_take_bit_eq_take_bit_shift take_bit_eq_mod)

lemma sint_add_i64: "sint (a + b :: 64 word) = i64 (sint a + sint b)"
  by (simp add: sint_word_ariths stb63 i64_def)

lemma sint_sub_i64: "sint (a - b :: 64 word) = i64 (sint a - sint b)"
  by (simp add: sint_word_ariths stb63 i64_def)

lemma i64_wrap:
  assumes "- (2 ^ 64) \<le> x" and "x < 2 ^ 64"
  shows "i64 x = (if x < - (2 ^ 63) then x + 2 ^ 64 else if x < 2 ^ 63 then x else x - 2 ^ 64)"
proof -
  have "i64 x = x + 2 ^ 64" if low: "x < - (2 ^ 63)"
  proof -
    have "(x + 2 ^ 63) mod 2 ^ 64 = (x + 2 ^ 63 + 2 ^ 64) mod 2 ^ 64" by (rule mod_add_self2 [symmetric])
    also have "\<dots> = x + 2 ^ 63 + 2 ^ 64" using low assms by (intro mod_pos_pos_trivial) simp_all
    finally show ?thesis by (simp add: i64_def)
  qed
  moreover have "i64 x = x - 2 ^ 64" if high: "2 ^ 63 \<le> x"
  proof -
    have "(x + 2 ^ 63) mod 2 ^ 64 = (x + 2 ^ 63 - 2 ^ 64) mod 2 ^ 64" by (rule minus_mod_self2 [symmetric])
    also have "\<dots> = x + 2 ^ 63 - 2 ^ 64" using high assms by (intro mod_pos_pos_trivial) simp_all
    finally show ?thesis by (simp add: i64_def)
  qed
  ultimately show ?thesis by simp
qed

definition fits_i64 :: "int \<Rightarrow> bool" where
  "fits_i64 x \<longleftrightarrow> - (2 ^ 63) \<le> x \<and> x < 2 ^ 63"

lemma addInt64_spec: "addInt64 a b = (if fits_i64 (sint a + sint b) then (a + b, False) else (0, True))"
  using sint_range [of a] sint_range [of b] i64_wrap [of "sint a + sint b"]
  by (auto simp: addInt64_def Let_def word_sless_alt sint_add_i64 fits_i64_def)

lemma subInt64_spec: "subInt64 a b = (if fits_i64 (sint a - sint b) then (a - b, False) else (0, True))"
  using sint_range [of a] sint_range [of b] i64_wrap [of "sint a - sint b"]
  by (auto simp: subInt64_def Let_def word_sless_alt sint_sub_i64 fits_i64_def)

text \<open>
  Money never wraps around: the saturating sum and difference are the exact ones, clamped to the
  range of 64-bit cents, and the checked operations give the exact result or refuse, the latter
  exactly when it does not fit.
\<close>

theorem money_saturates:
  "sint (cents (Add m n)) = max (- (2 ^ 63)) (min (2 ^ 63 - 1) (sint (cents m) + sint (cents n)))
   \<and> sint (cents (Sub m n)) = max (- (2 ^ 63)) (min (2 ^ 63 - 1) (sint (cents m) - sint (cents n)))
   \<and> map_option (\<lambda>r. sint (cents r)) (CheckedAdd m n)
       = (if fits_i64 (sint (cents m) + sint (cents n)) then Some (sint (cents m) + sint (cents n)) else None)
   \<and> map_option (\<lambda>r. sint (cents r)) (CheckedSub m n)
       = (if fits_i64 (sint (cents m) - sint (cents n)) then Some (sint (cents m) - sint (cents n)) else None)"
proof -
  have lim: "sint MaxInt64 = 2 ^ 63 - 1" "sint MinInt64 = - (2 ^ 63)" by (simp_all add: MaxInt64_def MinInt64_def)
  have add: "sint (a + b) = sint a + sint b" if "fits_i64 (sint a + sint b)" for a b :: "64 word"
    using that by (simp add: sint_add_i64 fits_i64_def)
  have sub: "sint (a - b) = sint a - sint b" if "fits_i64 (sint a - sint b)" for a b :: "64 word"
    using that by (simp add: sint_sub_i64 fits_i64_def)
  note r = sint_range [of "cents m"] sint_range [of "cents n"]
  have "sint (cents (Add m n)) = max (- (2 ^ 63)) (min (2 ^ 63 - 1) (sint (cents m) + sint (cents n)))"
    using r lim by (auto simp: Add_def addInt64_spec add word_sless_alt fits_i64_def)
  moreover have "sint (cents (Sub m n)) = max (- (2 ^ 63)) (min (2 ^ 63 - 1) (sint (cents m) - sint (cents n)))"
    using r lim by (auto simp: Sub_def subInt64_spec sub word_sless_alt fits_i64_def)
  ultimately show ?thesis by (simp add: CheckedAdd_def CheckedSub_def addInt64_spec subInt64_spec add sub)
qed

section \<open>A reference decoder\<close>

text \<open>
  The values of RLP are byte strings and lists. What value an item stands for is stated without the encoder: a
  number is the byte string that has it as its big-endian value and no leading zero. Of a big integer only the
  absolute value is encoded, and an item of an unknown type counts as the empty string, as the source says.
\<close>

datatype rlp_val = VStr "byte list" | VList "rlp_val list"

definition be_val :: "byte list \<Rightarrow> nat" where
  "be_val bs = foldl (\<lambda>a b. a * 256 + unat b) 0 bs"

definition numeral_of :: "nat \<Rightarrow> byte list \<Rightarrow> bool" where
  "numeral_of n bs \<longleftrightarrow> be_val bs = n \<and> (case bs of [] \<Rightarrow> True | b # _ \<Rightarrow> b \<noteq> 0)"

fun denotes :: "rlp_item \<Rightarrow> rlp_val \<Rightarrow> bool" where
  "denotes (RBytes v) (VStr bs) \<longleftrightarrow> bs = v"
| "denotes (RBig v) (VStr bs) \<longleftrightarrow> numeral_of (case v of None \<Rightarrow> 0 | Some i \<Rightarrow> nat \<bar>i\<bar>) bs"
| "denotes (RUint v) (VStr bs) \<longleftrightarrow> numeral_of (unat v) bs"
| "denotes (RList xs) (VList vs) \<longleftrightarrow> list_all2 denotes xs vs"
| "denotes ROther (VStr bs) \<longleftrightarrow> bs = []"
| "denotes x v \<longleftrightarrow> False"

definition chunk :: "nat \<Rightarrow> byte list \<Rightarrow> (byte list \<times> byte list) option" where
  "chunk n bs = (if length bs < n then None else Some (take n bs, drop n bs))"

text \<open>
  A strict decoder, as Ethereum nodes use it: the length of a long payload has no leading zero and is above 55, and
  a single byte below 128 has no prefix.
\<close>

definition long_chunk :: "nat \<Rightarrow> byte list \<Rightarrow> (byte list \<times> byte list) option" where
  "long_chunk n bs =
     (case chunk n bs of
        None \<Rightarrow> None
      | Some (len, rest) \<Rightarrow> if numeral_of (be_val len) len \<and> 55 < be_val len then chunk (be_val len) rest else None)"

text \<open>The payload after a prefix byte of value \<open>t\<close>, for the string or the list prefixes.\<close>

definition payload_after :: "nat \<Rightarrow> nat \<Rightarrow> nat \<Rightarrow> byte list \<Rightarrow> (byte list \<times> byte list) option" where
  "payload_after short long t bs = (if t \<le> long then chunk (t - short) bs else long_chunk (t - long) bs)"

definition plain_byte :: "byte list \<Rightarrow> bool" where
  "plain_byte p \<longleftrightarrow> length p = 1 \<and> unat (hd p) < 0x80"

fun rlp_dec :: "nat \<Rightarrow> byte list \<Rightarrow> (rlp_val \<times> byte list) option"
  and rlp_decs :: "nat \<Rightarrow> byte list \<Rightarrow> rlp_val list option" where
  "rlp_dec 0 bs = None"
| "rlp_dec (Suc n) [] = None"
| "rlp_dec (Suc n) (b # bs) =
     (let t = unat b in
      if t < 0x80 then Some (VStr [b], bs)
      else if t < 0xc0 then
        (case payload_after 0x80 0xb7 t bs of None \<Rightarrow> None
         | Some (p, rest) \<Rightarrow> if plain_byte p then None else Some (VStr p, rest))
      else case payload_after 0xc0 0xf7 t bs of None \<Rightarrow> None
           | Some (p, rest) \<Rightarrow> map_option (\<lambda>vs. (VList vs, rest)) (rlp_decs n p))"
| "rlp_decs 0 bs = None"
| "rlp_decs (Suc n) [] = Some []"
| "rlp_decs (Suc n) (b # bs) =
     (case rlp_dec n (b # bs) of None \<Rightarrow> None | Some (v, rest) \<Rightarrow> map_option (Cons v) (rlp_decs n rest))"

lemma be_val_Nil [simp]: "be_val [] = 0"
  by (simp add: be_val_def)

lemma be_val_Cons: "be_val (b # bs) = unat b * 256 ^ length bs + be_val bs"
proof -
  have "foldl (\<lambda>a b. a * 256 + unat b) k bs = k * 256 ^ length bs + foldl (\<lambda>a b. a * 256 + unat b) 0 bs" for k
  proof (induction bs arbitrary: k)
    case (Cons c bs)
    show ?case using Cons [of "k * 256 + unat c"] Cons [of "unat c"] by (simp add: algebra_simps)
  qed simp
  from this [of "unat b"] show ?thesis by (simp add: be_val_def)
qed

lemma be_val_dropWhile: "be_val (dropWhile (\<lambda>b. b = 0) bs) = be_val bs"
  by (induction bs) (auto simp: be_val_Cons)

lemma digit_step: "n div 2 ^ (k + 8) * 256 + n div 2 ^ k mod 256 = n div 2 ^ k" for n :: nat
proof -
  have "n div 2 ^ (k + 8) = n div 2 ^ k div 256" by (simp add: power_add div_mult2_eq)
  then show ?thesis by simp
qed

lemma byte_of: "unat (ucast (drop_bit k v) :: byte) = unat v div 2 ^ k mod 256" for v :: "64 word"
proof -
  have "unat (ucast (drop_bit k v) :: byte) = take_bit 8 (drop_bit k (unat v))"
    by (simp only: unsigned_ucast_eq unat_drop_bit_eq) simp
  then show ?thesis by (simp add: take_bit_eq_mod drop_bit_eq_div)
qed

lemma be_val_buf: "be_val (uint64_buf v) = unat v"
proof -
  have hi: "unat v div 2 ^ 56 mod 256 = unat v div 2 ^ 56"
    using unsigned_less [of v, where ?'a = nat] by (intro mod_less) (simp add: less_mult_imp_div_less)
  have lo: "unat (ucast v :: byte) = unat v mod 256" using byte_of [of 0 v] by simp
  have "be_val (uint64_buf v) = ((((((unat v div 2 ^ 56 * 256 + unat v div 2 ^ 48 mod 256) * 256
      + unat v div 2 ^ 40 mod 256) * 256 + unat v div 2 ^ 32 mod 256) * 256 + unat v div 2 ^ 24 mod 256) * 256
      + unat v div 2 ^ 16 mod 256) * 256 + unat v div 2 ^ 8 mod 256) * 256 + unat v mod 256"
    by (simp only: be_val_def uint64_buf_def foldl.simps byte_of lo hi) simp
  also have "\<dots> = unat v"
    using digit_step [of "unat v" 48] digit_step [of "unat v" 40] digit_step [of "unat v" 32] digit_step [of "unat v" 24]
      digit_step [of "unat v" 16] digit_step [of "unat v" 8] digit_step [of "unat v" 0] by simp
  finally show ?thesis .
qed

lemma min_bytes:
  assumes "v \<noteq> 0"
  shows "uint64ToMinBytes v = dropWhile (\<lambda>b. b = 0) (uint64_buf v)" and "be_val (uint64ToMinBytes v) = unat v"
    and "1 \<le> length (uint64ToMinBytes v)" and "length (uint64ToMinBytes v) \<le> 8"
proof -
  let ?d = "dropWhile (\<lambda>b. b = 0) (uint64_buf v)"
  have val: "be_val ?d = unat v" by (simp add: be_val_dropWhile be_val_buf)
  have ne: "?d \<noteq> []"
  proof
    assume "?d = []"
    with val have "unat v = 0" by simp
    with assms show False by (simp add: unat_eq_0)
  qed
  then show eq: "uint64ToMinBytes v = ?d" using assms by (auto simp: uint64ToMinBytes_def split: list.splits)
  show "be_val (uint64ToMinBytes v) = unat v" using val by (simp add: eq)
  show "1 \<le> length (uint64ToMinBytes v)" using ne unfolding eq by (cases ?d) simp_all
  have "length (uint64_buf v) = 8" by (simp add: uint64_buf_def)
  then show "length (uint64ToMinBytes v) \<le> 8" unfolding eq using length_dropWhile_le [of "\<lambda>b. b = 0" "uint64_buf v"] by simp
qed

lemma be_val_snoc: "be_val (bs @ [b]) = be_val bs * 256 + unat b"
  by (simp add: be_val_def)

lemma be_val_bound: "be_val bs < 256 ^ length bs"
proof (induction bs rule: rev_induct)
  case (snoc b bs)
  have "unat b < 256" using unsigned_less [of b, where ?'a = nat] by simp
  moreover have "be_val bs * 256 + 256 \<le> 256 ^ length bs * 256" using snoc by (simp flip: add_mult_distrib2 add: Suc_leI algebra_simps)
  ultimately show ?case by (simp add: be_val_snoc)
qed simp

text \<open>A number has one numeral, and the encoder writes it.\<close>

lemma numeral_unique: "numeral_of n bs \<Longrightarrow> numeral_of n cs \<Longrightarrow> bs = cs"
proof (induction bs arbitrary: n cs rule: rev_induct)
  case Nil
  have "be_val cs > 0" if "cs \<noteq> []" "hd cs \<noteq> 0"
    using that by (cases cs) (simp_all add: be_val_Cons unat_gt_0)
  with Nil show ?case by (cases cs) (auto simp: numeral_of_def)
next
  case (snoc b bs)
  have small: "unat x < 256" for x :: byte using unsigned_less [of x, where ?'a = nat] by simp
  have pos: "be_val (bs @ [b]) > 0"
    using snoc.prems(1) by (cases bs) (auto simp: numeral_of_def be_val_Cons unat_gt_0)
  with snoc.prems obtain ds d where cs: "cs = ds @ [d]"
    by (cases cs rule: rev_cases) (auto simp: numeral_of_def)
  have eq: "be_val bs * 256 + unat b = be_val ds * 256 + unat d"
    using snoc.prems by (simp add: numeral_of_def cs be_val_snoc)
  have "be_val bs = (be_val bs * 256 + unat b) div 256" "unat b = (be_val bs * 256 + unat b) mod 256"
    "be_val ds = (be_val ds * 256 + unat d) div 256" "unat d = (be_val ds * 256 + unat d) mod 256"
    using small [of b] small [of d] by simp_all
  then have "be_val bs = be_val ds \<and> unat b = unat d" unfolding eq by simp
  moreover have "numeral_of (be_val bs) bs" "numeral_of (be_val ds) ds"
    using snoc.prems by (cases bs; cases ds; auto simp: numeral_of_def cs)+
  ultimately have "bs = ds" "b = d" using snoc.IH by (auto simp: word_unat_eq_iff)
  then show ?case by (simp add: cs)
qed

lemma nat_bytes_numeral: "numeral_of n (nat_bytes n)"
proof (induction n rule: nat_bytes.induct)
  case (1 n)
  show ?case
  proof (cases "n = 0")
    case False
    have "unat (of_nat (n mod 256) :: byte) = n mod 256" by (simp add: unat_of_nat take_bit_eq_mod)
    moreover have "of_nat (n mod 256) \<noteq> (0 :: byte)" if "nat_bytes (n div 256) = []"
    proof -
      have "n div 256 = 0" using 1 [OF False] that by (simp add: numeral_of_def)
      then have "n mod 256 = n" by simp
      with False calculation show ?thesis by (metis unat_0)
    qed
    ultimately show ?thesis
      using 1 [OF False] False
      by (subst nat_bytes.simps) (auto simp: numeral_of_def be_val_snoc split: list.splits)
  qed (simp add: nat_bytes.simps numeral_of_def)
qed

lemma uint64_numeral: "numeral_of (unat v) (uint64ToMinBytes v)"
proof (cases "v = 0")
  case False
  show ?thesis
  proof (cases "uint64ToMinBytes v")
    case Nil
    then show ?thesis using min_bytes(2) [OF False] by (simp add: numeral_of_def)
  next
    case (Cons b bs)
    then have "b \<noteq> 0"
      using hd_dropWhile [of "\<lambda>b. b = 0" "uint64_buf v"] unfolding min_bytes(1) [OF False] by simp
    with Cons show ?thesis using min_bytes(2) [OF False] by (simp add: numeral_of_def)
  qed
qed (simp add: uint64ToMinBytes_def numeral_of_def)

lemma unat_byte: "n < 256 \<Longrightarrow> unat (of_nat n :: byte) = n"
  by (simp add: unat_of_nat take_bit_eq_mod)

text \<open>What the decoder reads after a header the encoder wrote.\<close>

lemma header_payload:
  assumes "length p < 2 ^ 63" and "short + 55 = long" and "long + 8 < 256"
  obtains b hs where "rlp_header short long (length p) = b # hs" and "short \<le> unat b" and "unat b \<le> long + 8"
    and "payload_after short long (unat b) (hs @ p @ rest) = Some (p, rest)"
proof (cases "length p \<le> 55")
  case True
  then have "unat (of_nat (short + length p) :: byte) = short + length p" using assms by (intro unat_byte) simp
  with True assms(2) that [of "of_nat (short + length p)" "[]"] show thesis
    by (simp add: rlp_header_def payload_after_def chunk_def)
next
  case False
  define v where "v = (of_nat (length p) :: 64 word)"
  have v: "unat v = length p" using assms(1) by (simp add: v_def unat_of_nat take_bit_eq_mod)
  with False have "v \<noteq> 0" by auto
  note mb = min_bytes [OF this]
  define t where "t = long + length (uint64ToMinBytes v)"
  have t: "unat (of_nat t :: byte) = t" using mb(4) assms(3) by (intro unat_byte) (simp add: t_def)
  have "\<not> t \<le> long" "t - long = length (uint64ToMinBytes v)" using mb(3) by (auto simp: t_def)
  then have "payload_after short long t (uint64ToMinBytes v @ p @ rest) = Some (p, rest)"
    using mb(2) v False uint64_numeral [of v] by (simp add: payload_after_def long_chunk_def chunk_def)
  with False t mb(3,4) assms(2) that [of "of_nat t" "uint64ToMinBytes v"] show thesis
    by (simp add: rlp_header_def v_def [symmetric] t_def Let_def)
qed

section \<open>Round trip\<close>

text \<open>Every item stands for exactly one value.\<close>

fun rlp_view :: "rlp_item \<Rightarrow> rlp_val" where
  "rlp_view (RBytes v) = VStr v"
| "rlp_view (RBig v) = VStr (nat_bytes (case v of None \<Rightarrow> 0 | Some i \<Rightarrow> nat \<bar>i\<bar>))"
| "rlp_view (RUint v) = VStr (uint64ToMinBytes v)"
| "rlp_view (RList vs) = VList (map rlp_view vs)"
| "rlp_view ROther = VStr []"

lemma denotes_view: "denotes x v \<longleftrightarrow> v = rlp_view x"
proof (induction x arbitrary: v)
  case (RList xs)
  show ?case
  proof (cases v)
    case (VList vs)
    have "list_all2 denotes xs vs = list_all2 (\<lambda>x v. v = rlp_view x) xs vs"
      using RList.IH by (intro list.rel_cong) auto
    also have "\<dots> \<longleftrightarrow> vs = map rlp_view xs"
      by (induction xs arbitrary: vs) (auto simp: list_all2_Cons1)
    finally show ?thesis by (simp add: VList)
  qed simp
qed (case_tac [!] v, auto dest: numeral_unique [OF nat_bytes_numeral] numeral_unique [OF uint64_numeral]
    simp: nat_bytes_numeral uint64_numeral)

lemma encode_nonempty: "rlp_header short long n \<noteq> []" "rlpEncodeBytes b \<noteq> []"
  by (simp_all add: rlp_header_def rlpEncodeBytes_def Let_def)

lemma encode_item_nonempty: "rlpEncodeItem x \<noteq> []"
  by (cases x) (simp_all add: encode_nonempty rlpPrependListHeader_def split: option.splits)

lemma decode_bytes:
  assumes "length b < 2 ^ 63"
  shows "rlp_dec (Suc n) (rlpEncodeBytes b @ rest) = Some (VStr b, rest)"
proof -
  consider "b = []" | c where "b = [c]" "unat c < 0x80" | "b \<noteq> []" "\<not> (length b = 1 \<and> b ! 0 < 0x80)"
    by (cases b) (auto simp: word_less_nat_alt)
  then show ?thesis
  proof cases
    case 3
    obtain h hs where h: "rlp_header 0x80 0xb7 (length b) = h # hs" "0x80 \<le> unat h" "unat h \<le> 0xb7 + 8"
      "payload_after 0x80 0xb7 (unat h) (hs @ b @ rest) = Some (b, rest)"
      by (rule header_payload [OF assms, of "0x80" "0xb7" rest]) simp_all
    from 3 have "rlpEncodeBytes b = rlp_header 0x80 0xb7 (length b) @ b" by (auto simp: rlpEncodeBytes_def)
    moreover have "\<not> plain_byte b" using 3 by (cases b) (auto simp: plain_byte_def word_less_nat_alt)
    ultimately show ?thesis using h by (simp add: Let_def)
  qed (simp_all add: plain_byte_def rlpEncodeBytes_def payload_after_def chunk_def Let_def word_less_nat_alt)
qed

lemma view_bytes:
  "rlpEncodeItem (RBig v) = rlpEncodeBytes (nat_bytes (case v of None \<Rightarrow> 0 | Some i \<Rightarrow> nat \<bar>i\<bar>))"
  "rlpEncodeItem (RUint w) = rlpEncodeBytes (uint64ToMinBytes w)"
  by (auto simp: nat_bytes.simps [of 0] uint64ToMinBytes_def split: option.splits)

lemma encode_bytes_length: "length b \<le> length (rlpEncodeBytes b)"
  by (simp add: rlpEncodeBytes_def)

lemma decode_all:
  assumes "\<And>x n rest. x \<in> set xs \<Longrightarrow> 2 * length (rlpEncodeItem x) \<le> n
      \<Longrightarrow> rlp_dec n (rlpEncodeItem x @ rest) = Some (rlp_view x, rest)"
    and "2 * length (concat (map rlpEncodeItem xs)) + 1 \<le> n"
  shows "rlp_decs n (concat (map rlpEncodeItem xs)) = Some (map rlp_view xs)"
  using assms
proof (induction xs arbitrary: n)
  case Nil
  then show ?case by (cases n) auto
next
  case (Cons x xs)
  let ?r = "concat (map rlpEncodeItem xs)"
  obtain m where n: "n = Suc m" using Cons.prems(2) by (cases n) auto
  obtain c cs where c: "rlpEncodeItem x = c # cs" using encode_item_nonempty by (metis list.exhaust)
  have "rlp_dec m (rlpEncodeItem x @ ?r) = Some (rlp_view x, ?r)"
    using Cons.prems(2) n by (intro Cons.prems(1)) auto
  moreover have "rlp_decs m ?r = Some (map rlp_view xs)"
    using Cons.prems c n by (intro Cons.IH) auto
  ultimately show ?case by (simp add: n c)
qed

lemma decode_item:
  "length (rlpEncodeItem x) < 2 ^ 63 \<Longrightarrow> 2 * length (rlpEncodeItem x) \<le> n
     \<Longrightarrow> rlp_dec n (rlpEncodeItem x @ rest) = Some (rlp_view x, rest)"
proof (induction x arbitrary: n rest)
  case (RList xs)
  let ?p = "concat (map rlpEncodeItem xs)"
  have part: "length (rlpEncodeItem x) \<le> length ?p" if "x \<in> set xs" for x
    using that by (induction xs) auto
  have enc: "rlpEncodeItem (RList xs) = rlp_header 0xc0 0xf7 (length ?p) @ ?p" by (simp add: rlpPrependListHeader_def)
  have p: "length ?p < 2 ^ 63" using RList.prems(1) unfolding enc length_append by linarith
  obtain h hs where h: "rlp_header 0xc0 0xf7 (length ?p) = h # hs" "0xc0 \<le> unat h"
    "payload_after 0xc0 0xf7 (unat h) (hs @ ?p @ rest) = Some (?p, rest)"
    by (rule header_payload [OF p, of "0xc0" "0xf7" rest]) simp_all
  obtain m where n: "n = Suc m" "2 * length ?p + 1 \<le> m" using RList.prems(2) unfolding enc h(1) by (cases n) auto
  have "rlp_decs m ?p = Some (map rlp_view xs)"
    by (rule decode_all [OF RList.IH n(2)]) (use part p in \<open>auto intro: le_less_trans\<close>)
  with h n(1) show ?case unfolding enc by (simp add: Let_def)
next
  case (RBytes b)
  then show ?case using decode_bytes [of b "n - 1" rest] encode_bytes_length [of b] encode_nonempty(2) [of b]
    by (cases n) auto
next
  case (RBig v)
  let ?b = "nat_bytes (case v of None \<Rightarrow> 0 | Some i \<Rightarrow> nat \<bar>i\<bar>)"
  show ?case using RBig.prems decode_bytes [of ?b "n - 1" rest] encode_bytes_length [of ?b] encode_nonempty(2) [of ?b]
    unfolding view_bytes by (cases n) auto
next
  case (RUint w)
  then show ?case using decode_bytes [of "uint64ToMinBytes w" "n - 1" rest] encode_bytes_length [of "uint64ToMinBytes w"]
      encode_nonempty(2) [of "uint64ToMinBytes w"]
    unfolding view_bytes by (cases n) auto
next
  case ROther
  then show ?case using decode_bytes [of "[]" "n - 1" rest] encode_nonempty(2) [of "[]"] by (cases n) auto
qed

text \<open>
  C38. The transaction encoding is faithful: a strict decoder gives, for what the encoder wrote with anything after
  it, the value the item stands for and no other, and leaves the rest, for every nesting of strings, numbers and
  lists whose encoding fits in memory (less than \<open>2 ^ 63\<close> bytes). The encoding is thus the canonical one, two
  items with the same encoding stand for the same value, and no encoding is a prefix of another.
\<close>

theorem rlp_round_trip:
  assumes "length (rlpEncodeItem x) < 2 ^ 63"
  shows "rlp_dec (2 * length (rlpEncodeItem x)) (rlpEncodeItem x @ rest) = Some (v, rest) \<longleftrightarrow> denotes x v"
  using decode_item [OF assms order_refl] by (auto simp: denotes_view)

theorem rlp_round_trip_witness:
  "rlp_dec 18 (rlpEncodeItem (RList [RUint 1024, RBytes [0x7f], RList [RBig None, RBig (Some (- 255))]]) @ [1, 2])
    = Some (VList [VStr [4, 0], VStr [0x7f], VList [VStr [], VStr [255]]], [1, 2])"
proof -
  let ?x = "RList [RUint 1024, RBytes [0x7f], RList [RBig None, RBig (Some (- 255))]]"
  have len: "length (rlpEncodeItem ?x) = 9" by code_simp
  have v: "denotes ?x (VList [VStr [4, 0], VStr [0x7f], VList [VStr [], VStr [255]]])"
    by (simp add: numeral_of_def be_val_def)
  have "length (rlpEncodeItem ?x) < 2 ^ 63" using len by simp
  from rlp_round_trip [OF this, of "[1, 2]"] len v show ?thesis by simp
qed

end
