(* ===== verification/Schedule.thy ===== *)
theory Schedule
  imports Prelude
begin

text \<open>
  The schedule evaluator of \<^verbatim>\<open>internal/schedule/scheduler.go\<close>: cron expressions with time zones,
  intervals, one-shot times and the computation of the next run. A time is its instant (Go's
  \<^verbatim>\<open>time.Time\<close> without location); a location is the offset from UTC in seconds at each Unix second.
  The time-zone database, the zone of the process and the RFC 3339 parser are the parameters
  \<open>cal_LoadLocation\<close>, \<open>cal_Local\<close> and \<open>cal_Parse\<close>; the calendar is written out.
\<close>

section \<open>Calendar\<close>

type_synonym location = "int \<Rightarrow> int"

record calendar =
  cal_LoadLocation :: "string \<Rightarrow> location option"
  cal_Local :: location
  cal_Parse :: "string \<Rightarrow> time option"

text \<open>\<^verbatim>\<open>Time.Truncate(time.Minute)\<close>: the zero time is a whole minute before the Unix epoch.\<close>

definition trunc_minute :: "time \<Rightarrow> time" where
  "trunc_minute t = t - t mod minute"

definition local_seconds :: "location \<Rightarrow> time \<Rightarrow> int" where
  "local_seconds loc t = (let s = t div second in s + loc s)"

definition t_Minute :: "location \<Rightarrow> time \<Rightarrow> int" where
  "t_Minute loc t = local_seconds loc t mod 3600 div 60"

definition t_Hour :: "location \<Rightarrow> time \<Rightarrow> int" where
  "t_Hour loc t = local_seconds loc t mod 86400 div 3600"

text \<open>The epoch was a Thursday; Sunday is 0.\<close>

definition t_Weekday :: "location \<Rightarrow> time \<Rightarrow> int" where
  "t_Weekday loc t = (local_seconds loc t div 86400 + 4) mod 7"

text \<open>Month and day of a day number of the proleptic Gregorian calendar, in years that begin in March.\<close>

definition month_day :: "int \<Rightarrow> int \<times> int" where
  "month_day days =
     (let doe = (days + 719468) mod 146097;
          yoe = (doe - doe div 1460 + doe div 36524 - doe div 146096) div 365;
          doy = doe - (365 * yoe + yoe div 4 - yoe div 100);
          mp = (5 * doy + 2) div 153
      in (if mp < 10 then mp + 3 else mp - 9, doy - (153 * mp + 2) div 5 + 1))"

definition t_Month :: "location \<Rightarrow> time \<Rightarrow> int" where
  "t_Month loc t = fst (month_day (local_seconds loc t div 86400))"

definition t_Day :: "location \<Rightarrow> time \<Rightarrow> int" where
  "t_Day loc t = snd (month_day (local_seconds loc t div 86400))"

section \<open>Time zones\<close>

definition loadLocationWithFixedOffset :: "calendar \<Rightarrow> string \<Rightarrow> location option" where
  "loadLocationWithFixedOffset cal name =
     (case cal_LoadLocation cal name of
        Some loc \<Rightarrow> Some loc
      | None \<Rightarrow>
          if \<not> has_prefix name ''UTC'' \<or> length name < 4 then None
          else
            let rest = drop 4 name;
                hm = (if contains rest '':''
                      then (case split2 CHR '':'' rest of
                              (a, b) \<Rightarrow> (case (atoi a, map_option atoi b) of (Some h, Some (Some m)) \<Rightarrow> Some (h, m) | _ \<Rightarrow> None))
                      else if length rest = 4
                      then (case (atoi (take 2 rest), atoi (drop 2 rest)) of (Some h, Some m) \<Rightarrow> Some (h, m) | _ \<Rightarrow> None)
                      else if length rest \<le> 2 then map_option (\<lambda>h. (h, 0)) (atoi rest)
                      else None)
            in if name ! 3 = CHR ''+'' then map_option (\<lambda>(h, m). \<lambda>_. i64 (h * 3600 + m * 60)) hm
               else if name ! 3 = CHR ''-'' then map_option (\<lambda>(h, m). \<lambda>_. i64 (- (h * 3600 + m * 60))) hm
               else None)"

fun tz_prefix_scan :: "calendar \<Rightarrow> string \<Rightarrow> string list \<Rightarrow> location option \<times> string" where
  "tz_prefix_scan cal expr [] = (None, expr)"
| "tz_prefix_scan cal expr (prefix # ps) =
     (if has_prefix expr prefix then
        (case split2 CHR '' '' expr of
           (a, Some b) \<Rightarrow>
             (case loadLocationWithFixedOffset cal (trim_prefix a prefix) of
                Some loc \<Rightarrow> (Some loc, b)
              | None \<Rightarrow> tz_prefix_scan cal expr ps)
         | (a, None) \<Rightarrow> tz_prefix_scan cal expr ps)
      else tz_prefix_scan cal expr ps)"

definition parseTZPrefix :: "calendar \<Rightarrow> string \<Rightarrow> location option \<times> string" where
  "parseTZPrefix cal expr = tz_prefix_scan cal expr [''CRON_TZ='', ''TZ='']"

section \<open>Cron fields\<close>

text \<open>Go's remainder takes the sign of the dividend.\<close>

definition go_rem :: "int \<Rightarrow> int \<Rightarrow> int" where
  "go_rem a b = sgn a * (\<bar>a\<bar> mod \<bar>b\<bar>)"

lemma go_rem_zero: "go_rem a b = 0 \<longleftrightarrow> b dvd a"
  by (cases a "0 :: int" rule: linorder_cases) (simp_all add: go_rem_def flip: dvd_eq_mod_eq_0)

definition cron_part_matches :: "int \<Rightarrow> string \<Rightarrow> bool" where
  "cron_part_matches v p =
     (let part = trim_space p in
      if has_prefix part ''*/'' then
        (case atoi (trim_prefix part ''*/'') of
           None \<Rightarrow> False
         | Some step \<Rightarrow> step \<noteq> 0 \<and> go_rem v step = 0)
      else if contains part ''-'' then
        (case split2 CHR ''-'' part of
           (a, b) \<Rightarrow> (case (atoi a, map_option atoi b) of (Some lo, Some (Some hi)) \<Rightarrow> lo \<le> v \<and> v \<le> hi | _ \<Rightarrow> False))
      else atoi part = Some v)"

definition cronFieldMatches :: "string \<Rightarrow> int \<Rightarrow> int \<Rightarrow> bool" where
  "cronFieldMatches field v mx \<longleftrightarrow> field = ''*'' \<or> list_ex (cron_part_matches v) (split_on CHR '','' field)"

definition matchesCron :: "string \<Rightarrow> location \<Rightarrow> time \<Rightarrow> bool" where
  "matchesCron expr loc t =
     (case str_fields expr of
        [f0, f1, f2, f3, f4] \<Rightarrow>
          cronFieldMatches f0 (t_Minute loc t) 59 \<and> cronFieldMatches f1 (t_Hour loc t) 23
          \<and> cronFieldMatches f2 (t_Day loc t) 31 \<and> cronFieldMatches f3 (t_Month loc t) 12
          \<and> cronFieldMatches f4 (t_Weekday loc t) 6
      | _ \<Rightarrow> False)"

definition cron_part_valid :: "string \<Rightarrow> bool" where
  "cron_part_valid p =
     (let part = trim_space p in
      if has_prefix part ''*/'' then atoi (trim_prefix part ''*/'') \<noteq> None
      else if contains part ''-'' then
        (case split2 CHR ''-'' part of (a, b) \<Rightarrow> atoi a \<noteq> None \<and> (case b of None \<Rightarrow> False | Some hi \<Rightarrow> atoi hi \<noteq> None))
      else atoi part \<noteq> None)"

definition IsValidCronExpression :: "calendar \<Rightarrow> string \<Rightarrow> bool" where
  "IsValidCronExpression cal expr =
     (let fields = str_fields (snd (parseTZPrefix cal expr)) in
      length fields = 5 \<and> list_all (\<lambda>f. f = ''*'' \<or> list_all cron_part_valid (split_on CHR '','' f)) fields)"

section \<open>Schedules\<close>

record CronJob =
  job_ID :: string
  job_Name :: string
  job_AgentID :: string
  job_Kind :: string
  job_Expression :: string
  job_IntervalMs :: int
  job_PayloadJSON :: string
  job_Enabled :: bool
  job_LastRunAt :: "time option"
  job_NextRunAt :: "time option"
  job_RetryCount :: int
  job_MaxRetries :: int
  job_RetryDelayMs :: int
  job_DeliveryMode :: string
  job_DeliveryChannel :: string

definition ScheduleCron :: string where "ScheduleCron = ''cron''"
definition ScheduleInterval :: string where "ScheduleInterval = ''interval''"
definition ScheduleAt :: string where "ScheduleAt = ''at''"

text \<open>The loop of \<^verbatim>\<open>findNearestCronSlot\<close>, a minute back at a time down to \<open>earliest\<close>.\<close>

function slot_scan :: "string \<Rightarrow> location \<Rightarrow> time \<Rightarrow> time \<Rightarrow> time option" where
  "slot_scan expr loc candidate earliest =
     (if candidate < earliest then None
      else if matchesCron expr loc candidate then Some candidate
      else slot_scan expr loc (candidate - minute) earliest)"
  by pat_completeness auto
termination
  by (relation "measure (\<lambda>(expr, loc, candidate, earliest). nat (candidate - earliest + 1))") (auto simp: go_time)

declare slot_scan.simps [simp del]

definition findNearestCronSlot :: "string \<Rightarrow> location \<Rightarrow> time \<Rightarrow> time option" where
  "findNearestCronSlot expr loc now = slot_scan expr loc (trunc_minute now) (now - 61 * second)"

definition EvaluateCron :: "calendar \<Rightarrow> string \<Rightarrow> time option \<Rightarrow> time \<Rightarrow> bool" where
  "EvaluateCron cal expr lastRun now =
     (let (tz, cronExpr) = parseTZPrefix cal expr;
          loc = (case tz of Some l \<Rightarrow> l | None \<Rightarrow> cal_Local cal)
      in case findNearestCronSlot cronExpr loc now of
           None \<Rightarrow> False
         | Some slot \<Rightarrow>
             if now < slot \<or> \<not> now < slot + 60 * second then False
             else (case lastRun of
                     None \<Rightarrow> True
                   | Some prev \<Rightarrow> \<not> (\<not> prev < slot \<and> prev < slot + 60 * second)))"

definition EvaluateInterval :: "time option \<Rightarrow> int \<Rightarrow> time \<Rightarrow> bool" where
  "EvaluateInterval lastRun intervalMs now =
     (if intervalMs \<le> 0 then False
      else case lastRun of
             None \<Rightarrow> True
           | Some prev \<Rightarrow> i64 (intervalMs * millisecond) \<le> time_sub now prev)"

definition EvaluateAt :: "calendar \<Rightarrow> string \<Rightarrow> time \<Rightarrow> bool" where
  "EvaluateAt cal expr now = (case cal_Parse cal expr of None \<Rightarrow> False | Some t \<Rightarrow> \<not> now < t)"

definition IsDue :: "calendar \<Rightarrow> CronJob \<Rightarrow> time \<Rightarrow> bool" where
  "IsDue cal job now =
     (if job_Kind job = ScheduleCron then EvaluateCron cal (job_Expression job) (job_LastRunAt job) now
      else if job_Kind job = ScheduleInterval then EvaluateInterval (job_LastRunAt job) (job_IntervalMs job) now
      else if job_Kind job = ScheduleAt then EvaluateAt cal (job_Expression job) now
      else False)"

text \<open>The forward scan of \<^verbatim>\<open>CalculateNextRun\<close>.\<close>

function next_scan :: "string \<Rightarrow> location \<Rightarrow> time \<Rightarrow> time \<Rightarrow> time option" where
  "next_scan expr loc candidate limit =
     (if \<not> candidate < limit then None
      else if matchesCron expr loc candidate then Some candidate
      else next_scan expr loc (candidate + minute) limit)"
  by pat_completeness auto
termination
  by (relation "measure (\<lambda>(expr, loc, candidate, limit). nat (limit - candidate))") (auto simp: go_time)

declare next_scan.simps [simp del]

definition CalculateNextRun :: "calendar \<Rightarrow> CronJob \<Rightarrow> time \<Rightarrow> time option" where
  "CalculateNextRun cal job now =
     (if job_Kind job = ScheduleInterval then Some (now + i64 (job_IntervalMs job * millisecond))
      else if job_Kind job = ScheduleAt then cal_Parse cal (job_Expression job)
      else if job_Kind job = ScheduleCron then
        let (tz, cronExpr) = parseTZPrefix cal (job_Expression job);
            loc = (case tz of Some l \<Rightarrow> l | None \<Rightarrow> cal_Local cal)
        in next_scan cronExpr loc (trunc_minute now + minute) (now + 7 * 24 * hour)
      else None)"

section \<open>Properties\<close>

lemma trunc_minute_bounds: "trunc_minute t \<le> t" "t < trunc_minute t + minute"
  using pos_mod_sign [of minute t] pos_mod_bound [of minute t] by (auto simp: trunc_minute_def go_time)

lemma trunc_minute_unique:
  assumes "minute dvd s" shows "trunc_minute t = s \<longleftrightarrow> s \<le> t \<and> t < s + minute"
proof
  assume "trunc_minute t = s" then show "s \<le> t \<and> t < s + minute" using trunc_minute_bounds [of t] by auto
next
  assume "s \<le> t \<and> t < s + minute"
  then have "(t - s) mod minute = t - s" by (intro mod_pos_pos_trivial) auto
  moreover have "t mod minute = (t - s) mod minute" using assms by (metis diff_zero mod_0_imp_dvd mod_diff_right_eq dvd_imp_mod_0)
  ultimately show "trunc_minute t = s" by (simp add: trunc_minute_def)
qed

lemma trunc_minute_dvd [simp]: "minute dvd trunc_minute t"
  by (simp add: trunc_minute_def)

lemma trunc_minute_idem [simp]: "trunc_minute (trunc_minute t) = trunc_minute t"
  by (simp add: trunc_minute_def)

lemma same_minute: "trunc_minute t = trunc_minute u \<longleftrightarrow> trunc_minute u \<le> t \<and> t < trunc_minute u + minute"
  by (rule trunc_minute_unique) simp

text \<open>The zone a schedule is read in, and its expression without the prefix.\<close>

definition cron_location :: "calendar \<Rightarrow> string \<Rightarrow> location" where
  "cron_location cal expr = (case fst (parseTZPrefix cal expr) of Some l \<Rightarrow> l | None \<Rightarrow> cal_Local cal)"

definition cron_matches :: "calendar \<Rightarrow> string \<Rightarrow> time \<Rightarrow> bool" where
  "cron_matches cal expr t = matchesCron (snd (parseTZPrefix cal expr)) (cron_location cal expr) t"

lemma slot_scan_some: "slot_scan expr loc c e = Some s \<Longrightarrow> s = c \<and> matchesCron expr loc c \<or> s \<le> c - minute"
proof (induction expr loc c e rule: slot_scan.induct)
  case (1 expr loc c e)
  from "1.prems" show ?case using "1.IH"
    by (auto simp: slot_scan.simps [of _ _ c] go_time split: if_splits)
qed

text \<open>
  C26. The backward search for a slot comes down to the current minute: a cron job is due exactly
  when the minute that contains the present matches its expression in its zone and the last run
  was not in that minute.
\<close>

theorem cron_due_iff_current_minute:
  "EvaluateCron cal expr lastRun now \<longleftrightarrow>
     cron_matches cal expr (trunc_minute now) \<and> map_option trunc_minute lastRun \<noteq> Some (trunc_minute now)"
proof -
  let ?e = "snd (parseTZPrefix cal expr)" and ?l = "cron_location cal expr" and ?m = "trunc_minute now"
  have m: "?m \<le> now" "now < ?m + 60 * second" using trunc_minute_bounds [of now] by (auto simp: go_time)
  have last: "map_option trunc_minute lastRun = Some ?m \<longleftrightarrow>
      (case lastRun of None \<Rightarrow> False | Some t \<Rightarrow> \<not> t < ?m \<and> t < ?m + 60 * second)"
    by (auto simp: same_minute [of _ now] minute_def split: option.splits)
  show ?thesis
  proof (cases "matchesCron ?e ?l ?m")
    case True
    then have "findNearestCronSlot ?e ?l now = Some ?m"
      using m by (simp add: findNearestCronSlot_def slot_scan.simps [of _ _ ?m] go_time)
    then show ?thesis using True m last
      by (auto simp: EvaluateCron_def cron_matches_def cron_location_def case_prod_unfold Let_def split: option.splits)
  next
    case False
    have "\<not> now < s + 60 * second" if "findNearestCronSlot ?e ?l now = Some s" for s
      using slot_scan_some [of ?e ?l ?m _ s] that False m by (auto simp: findNearestCronSlot_def go_time)
    then show ?thesis using False
      by (auto simp: EvaluateCron_def cron_matches_def cron_location_def case_prod_unfold Let_def split: option.splits)
  qed
qed

lemma next_scan_spec:
  assumes "minute dvd c"
  shows "case next_scan expr loc c limit of
     None \<Rightarrow> (\<forall>t. minute dvd t \<longrightarrow> c \<le> t \<longrightarrow> t < limit \<longrightarrow> \<not> matchesCron expr loc t)
   | Some t \<Rightarrow> minute dvd t \<and> c \<le> t \<and> t < limit \<and> matchesCron expr loc t
       \<and> (\<forall>u. minute dvd u \<longrightarrow> c \<le> u \<longrightarrow> u < t \<longrightarrow> \<not> matchesCron expr loc u)"
  using assms
proof (induction expr loc c limit rule: next_scan.induct)
  case (1 expr loc c limit)
  show ?case
  proof (cases "c < limit \<and> \<not> matchesCron expr loc c")
    case True
    then have no: "\<not> matchesCron expr loc c" and step: "next_scan expr loc c limit = next_scan expr loc (c + minute) limit"
      by (simp_all add: next_scan.simps [of expr loc c])
    have above: "c + minute \<le> u" if "minute dvd u" "c \<le> u" "matchesCron expr loc u" for u
    proof -
      from that no have "c < u" by (cases "c = u") auto
      moreover have "minute dvd u - c" using that "1.prems" by simp
      ultimately show ?thesis using zdvd_imp_le [of minute "u - c"] by simp
    qed
    from "1.IH" True "1.prems" have IH: "case next_scan expr loc (c + minute) limit of
       None \<Rightarrow> (\<forall>t. minute dvd t \<longrightarrow> c + minute \<le> t \<longrightarrow> t < limit \<longrightarrow> \<not> matchesCron expr loc t)
     | Some t \<Rightarrow> minute dvd t \<and> c + minute \<le> t \<and> t < limit \<and> matchesCron expr loc t
         \<and> (\<forall>u. minute dvd u \<longrightarrow> c + minute \<le> u \<longrightarrow> u < t \<longrightarrow> \<not> matchesCron expr loc u)" by simp
    have pos: "0 < minute" by (simp add: go_time)
    show ?thesis
    proof (cases "next_scan expr loc (c + minute) limit")
      case None
      with IH have "\<And>t. minute dvd t \<Longrightarrow> c + minute \<le> t \<Longrightarrow> t < limit \<Longrightarrow> \<not> matchesCron expr loc t" by simp
      then show ?thesis unfolding step None option.case using above by blast
    next
      case (Some t)
      with IH have t: "minute dvd t" "c + minute \<le> t" "t < limit" "matchesCron expr loc t"
        and "\<And>u. minute dvd u \<Longrightarrow> c + minute \<le> u \<Longrightarrow> u < t \<Longrightarrow> \<not> matchesCron expr loc u" by simp_all
      then have "\<forall>u. minute dvd u \<longrightarrow> c \<le> u \<longrightarrow> u < t \<longrightarrow> \<not> matchesCron expr loc u" using above by blast
      then show ?thesis unfolding step Some option.case using t pos by simp
    qed
  next
    case False
    then show ?thesis using "1.prems" by (auto simp: next_scan.simps [of expr loc c])
  qed
qed

lemma after_minute: "minute dvd t \<Longrightarrow> trunc_minute now + minute \<le> t \<longleftrightarrow> now < t"
proof -
  assume t: "minute dvd t"
  have "trunc_minute now < t \<Longrightarrow> trunc_minute now + minute \<le> t"
    using zdvd_imp_le [of minute "t - trunc_minute now"] t by simp
  then show ?thesis using trunc_minute_bounds [of now] trunc_minute_unique [OF t, of now]
    by (cases "now < t") (auto simp: go_time)
qed

text \<open>
  The next run of a cron job is the first whole minute after now, within seven days, that
  matches its expression in its zone; there is none exactly when no minute of the seven days does.
\<close>

theorem next_run_is_first_match:
  assumes "job_Kind job = ScheduleCron"
  shows "case CalculateNextRun cal job now of
     None \<Rightarrow> (\<forall>t. minute dvd t \<longrightarrow> now < t \<longrightarrow> t < now + 7 * 24 * hour \<longrightarrow> \<not> cron_matches cal (job_Expression job) t)
   | Some t \<Rightarrow> minute dvd t \<and> now < t \<and> t < now + 7 * 24 * hour \<and> cron_matches cal (job_Expression job) t
       \<and> (\<forall>u. minute dvd u \<longrightarrow> now < u \<longrightarrow> u < t \<longrightarrow> \<not> cron_matches cal (job_Expression job) u)"
proof -
  have "CalculateNextRun cal job now = next_scan (snd (parseTZPrefix cal (job_Expression job)))
      (cron_location cal (job_Expression job)) (trunc_minute now + minute) (now + 7 * 24 * hour)"
    by (simp add: CalculateNextRun_def assms ScheduleCron_def ScheduleInterval_def ScheduleAt_def cron_location_def
        case_prod_unfold Let_def)
  moreover have "minute dvd trunc_minute now + minute" by simp
  note next_scan_spec [OF this, where expr = "snd (parseTZPrefix cal (job_Expression job))"
      and loc = "cron_location cal (job_Expression job)" and limit = "now + 7 * 24 * hour"]
  ultimately show ?thesis by (auto simp: cron_matches_def after_minute split: option.splits)
qed

definition utc :: calendar where
  "utc = \<lparr>cal_LoadLocation = (\<lambda>_. None), cal_Local = (\<lambda>_. 0), cal_Parse = (\<lambda>_. None)\<rparr>"

definition sample_job :: "string \<Rightarrow> CronJob" where
  "sample_job expr =
     \<lparr>job_ID = ''j'', job_Name = ''n'', job_AgentID = ''a'', job_Kind = ''cron'', job_Expression = expr, job_IntervalMs = 0,
      job_PayloadJSON = [], job_Enabled = True, job_LastRunAt = None, job_NextRunAt = None, job_RetryCount = 0,
      job_MaxRetries = 3, job_RetryDelayMs = 60000, job_DeliveryMode = ''none'', job_DeliveryChannel = []\<rparr>"

theorem next_run_is_first_match_witness:
  "CalculateNextRun utc (sample_job ''TZ=UTC+2 */3 2 * * 4'') 0 = Some (3 * minute)
   \<and> cron_matches utc ''TZ=UTC+2 */3 2 * * 4'' (3 * minute) \<and> \<not> cron_matches utc ''TZ=UTC+2 */3 2 * * 4'' (2 * minute)"
proof -
  have kind: "job_Kind (sample_job ''TZ=UTC+2 */3 2 * * 4'') = ScheduleCron" by (simp add: sample_job_def ScheduleCron_def)
  have run: "CalculateNextRun utc (sample_job ''TZ=UTC+2 */3 2 * * 4'') 0 = Some (3 * minute)" by code_simp
  have expr: "job_Expression (sample_job ''TZ=UTC+2 */3 2 * * 4'') = ''TZ=UTC+2 */3 2 * * 4''" by (simp add: sample_job_def)
  from next_run_is_first_match [OF kind, where cal = utc and now = 0] show ?thesis unfolding run expr
    by (simp add: go_time)
qed

text \<open>The validator accepts schedules that can never fire.\<close>

theorem valid_schedule_never_fires:
  "IsValidCronExpression utc ''*/0 * * * *'' \<and> (\<forall>last now. \<not> EvaluateCron utc ''*/0 * * * *'' last now)"
proof -
  have "snd (parseTZPrefix utc ''*/0 * * * *'') = ''*/0 * * * *''" by code_simp
  moreover have "str_fields ''*/0 * * * *'' = [''*/0'', ''*'', ''*'', ''*'', ''*'']" by code_simp
  moreover have "split_on CHR '','' ''*/0'' = [''*/0'']" "\<not> cron_part_matches v ''*/0''" for v
    by code_simp (simp add: cron_part_matches_def trim_space_def is_space_def has_prefix_def trim_prefix_def atoi_def is_digit_def)
  moreover have "IsValidCronExpression utc ''*/0 * * * *''" by code_simp
  ultimately show ?thesis
    by (simp add: cron_due_iff_current_minute cron_matches_def matchesCron_def cronFieldMatches_def)
qed

text \<open>A one-shot job stays due after it has run, and a scheduled retry time delays nothing.\<close>

theorem due_ignores_bookkeeping:
  "IsDue cal (job\<lparr>job_NextRunAt := next\<rparr>) now = IsDue cal job now
   \<and> (job_Kind job = ScheduleAt \<longrightarrow> IsDue cal (job\<lparr>job_LastRunAt := prev\<rparr>) now = IsDue cal job now)"
  by (simp add: IsDue_def ScheduleCron_def ScheduleInterval_def ScheduleAt_def)

end
