(* ===== verification/CronWorker.thy ===== *)
theory CronWorker
  imports Schedule
begin

text \<open>
  The durable cron worker of \<^verbatim>\<open>internal/schedule/worker.go\<close> over the tables \<^verbatim>\<open>cron_jobs\<close> and
  \<^verbatim>\<open>cron_runs\<close>, the cron tool of \<^verbatim>\<open>internal/agent/tools/cron.go\<close> and the repository of
  \<^verbatim>\<open>internal/db/cron_repo.go\<close>. A row keeps its nullable columns as options; stored times are instants
  cut to the second, as RFC 3339 text written by this code is. The effect of each SQL statement is
  written out. The executor, the clock, statement failures and the order in which a query without
  \<^verbatim>\<open>ORDER BY\<close> returns rows are parameters; log lines are left out.
\<close>

section \<open>Tables\<close>

record cron_row =
  cr_name :: string
  cr_agent_id :: string
  cr_schedule_kind :: string
  cr_schedule_expr :: "string option"
  cr_schedule_every_ms :: "int option"
  cr_payload_json :: string
  cr_enabled :: bool
  cr_last_run_at :: "time option"
  cr_next_run_at :: "time option"
  cr_retry_count :: "int option"
  cr_max_retries :: "int option"
  cr_retry_delay_ms :: "int option"
  cr_delivery_mode :: "string option"
  cr_delivery_channel :: "string option"
  cr_lease_holder :: "string option"
  cr_lease_expires_at :: "int option"

record CronRun =
  run_JobID :: string
  run_Status :: string
  run_DurationMs :: int
  run_ErrorMsg :: string
  run_Timestamp :: time

record cron_db =
  cron_jobs :: "(string, cron_row) gomap"
  cron_runs :: "CronRun list"

datatype cron_stmt = StList | StLoad | StAcquire | StRelease | StRecord | StUpdateLast | StRetry | StReset | StInsert | StDelete

text \<open>What the worker is given; \<open>ce_fails st id\<close> says whether a statement on that job fails.\<close>

record 'w cron_env =
  ce_cal :: calendar
  ce_Now :: "'w \<Rightarrow> time \<times> 'w"
  ce_Execute :: "CronJob \<Rightarrow> cron_db \<Rightarrow> 'w \<Rightarrow> string option \<times> cron_db \<times> 'w"
  ce_fails :: "cron_stmt \<Rightarrow> string \<Rightarrow> bool"
  ce_order :: "(string \<times> cron_row) list \<Rightarrow> (string \<times> cron_row) list"
  ce_instanceID :: string

definition rfc3339_sec :: "time \<Rightarrow> time" where
  "rfc3339_sec t = t - t mod second"

definition update_job :: "(cron_row \<Rightarrow> cron_row) \<Rightarrow> string \<Rightarrow> cron_db \<Rightarrow> cron_db" where
  "update_job f jid db = db\<lparr>cron_jobs := m_modify f jid (cron_jobs db)\<rparr>"

section \<open>Reading jobs\<close>

definition coalesce :: "'a \<Rightarrow> 'a option \<Rightarrow> 'a" where
  "coalesce d x = (case x of Some v \<Rightarrow> v | None \<Rightarrow> d)"

definition row_job :: "string \<Rightarrow> cron_row \<Rightarrow> string \<Rightarrow> int \<Rightarrow> CronJob" where
  "row_job jid r expr every =
     \<lparr>job_ID = jid, job_Name = cr_name r, job_AgentID = cr_agent_id r, job_Kind = cr_schedule_kind r, job_Expression = expr,
      job_IntervalMs = every, job_PayloadJSON = cr_payload_json r, job_Enabled = cr_enabled r,
      job_LastRunAt = cr_last_run_at r, job_NextRunAt = cr_next_run_at r,
      job_RetryCount = coalesce 0 (cr_retry_count r), job_MaxRetries = coalesce 3 (cr_max_retries r),
      job_RetryDelayMs = coalesce 60000 (cr_retry_delay_ms r), job_DeliveryMode = coalesce ''none'' (cr_delivery_mode r),
      job_DeliveryChannel = coalesce [] (cr_delivery_channel r)\<rparr>"

text \<open>
  \<^verbatim>\<open>listEnabledJobs\<close> scans \<^verbatim>\<open>schedule_expr\<close> into a string and \<^verbatim>\<open>schedule_every_ms\<close> into an int64: a NULL in
  either makes \<^verbatim>\<open>Scan\<close> fail and the row is skipped.
\<close>

definition scan_listed :: "string \<times> cron_row \<Rightarrow> CronJob option" where
  "scan_listed jr = (case (cr_schedule_expr (snd jr), cr_schedule_every_ms (snd jr)) of
     (Some expr, Some every) \<Rightarrow> Some (row_job (fst jr) (snd jr) expr every) | _ \<Rightarrow> None)"

definition listEnabledJobs :: "'w cron_env \<Rightarrow> cron_db \<Rightarrow> CronJob list option" where
  "listEnabledJobs env db =
     (if ce_fails env StList [] then None
      else Some (List.map_filter scan_listed (ce_order env (filter (\<lambda>(jid, r). cr_enabled r) (cron_jobs db)))))"

definition loadEnabledJob :: "'w cron_env \<Rightarrow> string \<Rightarrow> cron_db \<Rightarrow> CronJob option" where
  "loadEnabledJob env jid db =
     (if ce_fails env StLoad jid then None
      else case m_get (cron_jobs db) jid of
             None \<Rightarrow> None
           | Some r \<Rightarrow>
               if \<not> cr_enabled r then None
               else case cr_schedule_expr r of
                      None \<Rightarrow> None
                    | Some expr \<Rightarrow> Some (row_job jid r expr (coalesce 0 (cr_schedule_every_ms r))))"

section \<open>Leases\<close>

text \<open>\<open>now\<close> is SQLite's \<^verbatim>\<open>datetime('now')\<close>, in seconds.\<close>

definition lease_free :: "int \<Rightarrow> cron_row \<Rightarrow> bool" where
  "lease_free now r \<longleftrightarrow>
     cr_lease_holder r = None \<or> (case cr_lease_expires_at r of Some e \<Rightarrow> e < now | None \<Rightarrow> False)"

definition lease_stmt :: "string \<Rightarrow> int \<Rightarrow> string \<Rightarrow> cron_db \<Rightarrow> bool \<times> cron_db" where
  "lease_stmt holder now jid db =
     (case m_get (cron_jobs db) jid of
        None \<Rightarrow> (False, db)
      | Some r \<Rightarrow>
          if lease_free now r
          then (True, update_job (\<lambda>r. r\<lparr>cr_lease_holder := Some holder, cr_lease_expires_at := Some (now + 60)\<rparr>) jid db)
          else (False, db))"

definition release_stmt :: "string \<Rightarrow> string \<Rightarrow> cron_db \<Rightarrow> cron_db" where
  "release_stmt holder jid db =
     update_job (\<lambda>r. if cr_lease_holder r = Some holder then r\<lparr>cr_lease_holder := None, cr_lease_expires_at := None\<rparr> else r) jid db"

definition acquireLease :: "'w cron_env \<Rightarrow> string \<Rightarrow> cron_db \<Rightarrow> 'w \<Rightarrow> bool \<times> cron_db \<times> 'w" where
  "acquireLease env jid db w0 =
     (let (t, w) = ce_Now env w0 in
      if ce_fails env StAcquire jid then (False, db, w)
      else let (ok, db1) = lease_stmt (ce_instanceID env) (t div second) jid db in (ok, db1, w))"

definition releaseLease :: "'w cron_env \<Rightarrow> string \<Rightarrow> cron_db \<Rightarrow> cron_db" where
  "releaseLease env jid db = (if ce_fails env StRelease jid then db else release_stmt (ce_instanceID env) jid db)"

text \<open>The maintenance loop of \<^verbatim>\<open>tasks.go\<close> clears the leases that have expired.\<close>

definition clear_expired_leases :: "int \<Rightarrow> cron_db \<Rightarrow> cron_db" where
  "clear_expired_leases now db =
     db\<lparr>cron_jobs := m_map (\<lambda>r. case cr_lease_expires_at r of
          Some e \<Rightarrow> if e < now then r\<lparr>cr_lease_holder := None, cr_lease_expires_at := None\<rparr> else r
        | None \<Rightarrow> r) (cron_jobs db)\<rparr>"

section \<open>Running a job\<close>

text \<open>\<^verbatim>\<open>cron_runs.job_id\<close> references \<^verbatim>\<open>cron_jobs\<close>: a run of a job that is gone is refused.\<close>

definition recordRun :: "'w cron_env \<Rightarrow> CronRun \<Rightarrow> cron_db \<Rightarrow> cron_db" where
  "recordRun env run db =
     (if ce_fails env StRecord (run_JobID run) \<or> m_get (cron_jobs db) (run_JobID run) = None then db
      else db\<lparr>cron_runs := cron_runs db @ [run\<lparr>run_Timestamp := rfc3339_sec (run_Timestamp run)\<rparr>]\<rparr>)"

definition updateLastRun :: "'w cron_env \<Rightarrow> CronJob \<Rightarrow> time \<Rightarrow> cron_db \<Rightarrow> cron_db" where
  "updateLastRun env job now db =
     (let nextRun = map_option rfc3339_sec (CalculateNextRun (ce_cal env) job now) in
      if ce_fails env StUpdateLast (job_ID job) then db
      else update_job (\<lambda>r. r\<lparr>cr_last_run_at := Some (rfc3339_sec now), cr_next_run_at := nextRun\<rparr>) (job_ID job) db)"

definition resetRetry :: "'w cron_env \<Rightarrow> string \<Rightarrow> cron_db \<Rightarrow> cron_db" where
  "resetRetry env jid db =
     (if ce_fails env StReset jid then db else update_job (\<lambda>r. r\<lparr>cr_retry_count := Some 0\<rparr>) jid db)"

fun double :: "nat \<Rightarrow> int \<Rightarrow> int" where
  "double 0 b = b"
| "double (Suc n) b = double n (i64 (b * 2))"

definition max_retries_of :: "CronJob \<Rightarrow> int" where
  "max_retries_of job = (if job_MaxRetries job \<le> 0 then 3 else job_MaxRetries job)"

definition backoff_of :: "CronJob \<Rightarrow> int \<Rightarrow> int" where
  "backoff_of job newCount = double (nat (newCount - 1)) (if job_RetryDelayMs job \<le> 0 then 60000 else job_RetryDelayMs job)"

definition handleRetry :: "'w cron_env \<Rightarrow> CronJob \<Rightarrow> time \<Rightarrow> cron_db \<Rightarrow> cron_db" where
  "handleRetry env job now db =
     (let newCount = job_RetryCount job + 1 in
      if max_retries_of job < newCount
      then updateLastRun env job now (resetRetry env (job_ID job)
             (recordRun env \<lparr>run_JobID = job_ID job, run_Status = ''exhausted'', run_DurationMs = 0,
                run_ErrorMsg = ''max retries exceeded'', run_Timestamp = now\<rparr> db))
      else let retryAt = now + i64 (backoff_of job newCount * millisecond) in
        if ce_fails env StRetry (job_ID job) then db
        else update_job (\<lambda>r. r\<lparr>cr_retry_count := Some newCount, cr_next_run_at := Some (rfc3339_sec retryAt),
               cr_last_run_at := Some (rfc3339_sec now)\<rparr>) (job_ID job) db)"

definition executeJob :: "'w cron_env \<Rightarrow> CronJob \<Rightarrow> time \<Rightarrow> cron_db \<Rightarrow> 'w \<Rightarrow> string option \<times> cron_db \<times> 'w" where
  "executeJob env job now db0 w0 =
     (let (start, w1) = ce_Now env w0;
          (err, db, w2) = ce_Execute env job db0 w1;
          (stop, w3) = ce_Now env w2;
          run = \<lparr>run_JobID = job_ID job, run_Status = ''success'', run_DurationMs = sgn (time_sub stop start) * (\<bar>time_sub stop start\<bar> div millisecond),
                 run_ErrorMsg = [], run_Timestamp = now\<rparr>
      in case err of
           Some e \<Rightarrow>
             (Some e, handleRetry env job now (recordRun env (run\<lparr>run_Status := ''failed'', run_ErrorMsg := e\<rparr>) db), w3)
         | None \<Rightarrow> (None, updateLastRun env job now (resetRetry env (job_ID job) (recordRun env run db)), w3))"

fun tick_jobs :: "'w cron_env \<Rightarrow> time \<Rightarrow> CronJob list \<Rightarrow> cron_db \<Rightarrow> 'w \<Rightarrow> cron_db \<times> 'w" where
  "tick_jobs env now [] db w = (db, w)"
| "tick_jobs env now (job # jobs) db w =
     (if \<not> IsDue (ce_cal env) job now then tick_jobs env now jobs db w
      else case acquireLease env (job_ID job) db w of
             (ok, db1, w1) \<Rightarrow>
               if \<not> ok then tick_jobs env now jobs db1 w1
               else case executeJob env job now db1 w1 of
                      (err, db2, w2) \<Rightarrow> tick_jobs env now jobs (releaseLease env (job_ID job) db2) w2)"

definition tick :: "'w cron_env \<Rightarrow> cron_db \<Rightarrow> 'w \<Rightarrow> cron_db \<times> 'w" where
  "tick env db w0 =
     (let (now, w) = ce_Now env w0 in
      case listEnabledJobs env db of None \<Rightarrow> (db, w) | Some jobs \<Rightarrow> tick_jobs env now jobs db w)"

datatype run_error = JobNotLoaded | LeaseError string string | JobFailed string

definition RunJobNow :: "'w cron_env \<Rightarrow> string \<Rightarrow> cron_db \<Rightarrow> 'w \<Rightarrow> run_error option \<times> cron_db \<times> 'w" where
  "RunJobNow env jid db w =
     (case loadEnabledJob env jid db of
        None \<Rightarrow> (Some JobNotLoaded, db, w)
      | Some job \<Rightarrow>
          case acquireLease env (job_ID job) db w of
            (ok, db1, w1) \<Rightarrow>
              if \<not> ok then (Some (LeaseError (job_ID job) ''another instance''), db1, w1)
              else let (now, w2) = ce_Now env w1;
                       (err, db2, w3) = executeJob env job now db1 w2
                   in (map_option JobFailed err, releaseLease env (job_ID job) db2, w3))"

section \<open>Creating and deleting jobs\<close>

definition new_row :: "string \<Rightarrow> string \<Rightarrow> string \<Rightarrow> string \<Rightarrow> int option \<Rightarrow> string \<Rightarrow> string \<Rightarrow> string \<Rightarrow> cron_row" where
  "new_row name agentID kind expr every payload mode channel =
     \<lparr>cr_name = name, cr_agent_id = agentID, cr_schedule_kind = kind, cr_schedule_expr = Some expr,
      cr_schedule_every_ms = every, cr_payload_json = payload, cr_enabled = True, cr_last_run_at = None,
      cr_next_run_at = None, cr_retry_count = Some 0, cr_max_retries = Some 3, cr_retry_delay_ms = Some 60000,
      cr_delivery_mode = Some mode, cr_delivery_channel = Some channel, cr_lease_holder = None, cr_lease_expires_at = None\<rparr>"

definition insert_job :: "'w cron_env \<Rightarrow> string \<Rightarrow> cron_row \<Rightarrow> cron_db \<Rightarrow> cron_db option" where
  "insert_job env jid r db =
     (if ce_fails env StInsert jid \<or> m_get (cron_jobs db) jid \<noteq> None then None
      else Some (db\<lparr>cron_jobs := m_put jid r (cron_jobs db)\<rparr>))"

definition CreateJob ::
  "'w cron_env \<Rightarrow> string \<Rightarrow> string \<Rightarrow> string \<Rightarrow> string \<Rightarrow> int option \<Rightarrow> string \<Rightarrow> string \<Rightarrow> string \<Rightarrow> string
     \<Rightarrow> cron_db \<Rightarrow> cron_db option" where
  "CreateJob env jid name kind expr intervalMs agentID payloadJSON deliveryMode deliveryChannel db =
     insert_job env jid (new_row name agentID kind expr intervalMs payloadJSON deliveryMode deliveryChannel) db"

text \<open>The tool's insert names no \<^verbatim>\<open>schedule_every_ms\<close>; \<open>marshal\<close> is the JSON of the task.\<close>

definition CronTool_create ::
  "'w cron_env \<Rightarrow> (string \<Rightarrow> string) \<Rightarrow> string \<Rightarrow> string \<Rightarrow> string \<Rightarrow> string \<Rightarrow> string \<Rightarrow> string \<Rightarrow> cron_db \<Rightarrow> string + cron_db" where
  "CronTool_create env marshal newID agentID channel name schedule task db =
     (if trim_space name = [] then Inl ''name is required for create''
      else if trim_space schedule = [] then Inl ''schedule is required for create''
      else if trim_space task = [] then Inl ''task is required for create''
      else case insert_job env newID
                  (new_row name agentID ''cron'' schedule None (marshal task)
                     (if channel \<noteq> [] then ''push'' else ''none'') channel) db of
             None \<Rightarrow> Inl ''insert cron_job''
           | Some db1 \<Rightarrow> Inr db1)"

text \<open>A deletion that would leave a run without its job violates the foreign key and fails as a whole.\<close>

definition delete_jobs :: "(string \<Rightarrow> cron_row \<Rightarrow> bool) \<Rightarrow> cron_db \<Rightarrow> (nat \<times> cron_db) option" where
  "delete_jobs P db =
     (let gone = filter (\<lambda>(jid, r). P jid r) (cron_jobs db) in
      if list_ex (\<lambda>run. run_JobID run \<in> fst ` set gone) (cron_runs db) then None
      else Some (length gone, db\<lparr>cron_jobs := m_filter (\<lambda>jid r. \<not> P jid r) (cron_jobs db)\<rparr>))"

definition CronTool_delete :: "'w cron_env \<Rightarrow> string \<Rightarrow> cron_db \<Rightarrow> string + nat \<times> cron_db" where
  "CronTool_delete env idOrName db =
     (if trim_space idOrName = [] then Inl ''id is required for delete''
      else if ce_fails env StDelete idOrName then Inl ''delete cron_job''
      else case delete_jobs (\<lambda>jid r. jid = idOrName \<or> cr_name r = idOrName) db of
             None \<Rightarrow> Inl ''delete cron_job''
           | Some (n, db1) \<Rightarrow> Inr (n, db1))"

definition DeleteJob :: "'w cron_env \<Rightarrow> string \<Rightarrow> cron_db \<Rightarrow> (nat \<times> cron_db) option" where
  "DeleteJob env jid db =
     (let db1 = (if ce_fails env StDelete jid then db
                 else db\<lparr>cron_runs := filter (\<lambda>run. run_JobID run \<noteq> jid) (cron_runs db)\<rparr>)
      in if ce_fails env StDelete jid then None else delete_jobs (\<lambda>i r. i = jid) db1)"

definition TryAcquireLease :: "'w cron_env \<Rightarrow> time \<Rightarrow> string \<Rightarrow> string \<Rightarrow> cron_db \<Rightarrow> (bool \<times> cron_db) option" where
  "TryAcquireLease env t jid holder db =
     (if ce_fails env StAcquire jid then None else Some (lease_stmt holder (t div second) jid db))"

definition ReleaseLease :: "'w cron_env \<Rightarrow> string \<Rightarrow> string \<Rightarrow> cron_db \<Rightarrow> cron_db option" where
  "ReleaseLease env jid holder db = (if ce_fails env StRelease jid then None else Some (release_stmt holder jid db))"

section \<open>Rows under the statements\<close>

named_theorems cron_get

abbreviation job_row :: "cron_db \<Rightarrow> string \<Rightarrow> cron_row option" where
  "job_row db jid \<equiv> m_get (cron_jobs db) jid"

lemma row_update_job [cron_get]: "job_row (update_job f j db) i = (if i = j then map_option f (job_row db j) else job_row db i)"
  by (simp add: update_job_def)

lemma runs_update_job [cron_get]: "cron_runs (update_job f j db) = cron_runs db"
  by (simp add: update_job_def)

lemma row_recordRun [cron_get]: "cron_jobs (recordRun env run db) = cron_jobs db"
  by (simp add: recordRun_def)

lemma runs_resetRetry [cron_get]: "cron_runs (resetRetry env j db) = cron_runs db"
  by (simp add: resetRetry_def cron_get)

lemma runs_updateLastRun [cron_get]: "cron_runs (updateLastRun env job now db) = cron_runs db"
  by (simp add: updateLastRun_def cron_get Let_def)

lemma runs_releaseLease [cron_get]: "cron_runs (releaseLease env j db) = cron_runs db"
  by (simp add: releaseLease_def release_stmt_def cron_get)

definition lease_of :: "cron_db \<Rightarrow> string \<Rightarrow> (string option \<times> int option) option" where
  "lease_of db jid = map_option (\<lambda>r. (cr_lease_holder r, cr_lease_expires_at r)) (job_row db jid)"

lemma lease_of_bookkeeping [cron_get]:
  "lease_of (recordRun env run db) i = lease_of db i"
  "lease_of (resetRetry env j db) i = lease_of db i"
  "lease_of (updateLastRun env job now db) i = lease_of db i"
  "lease_of (handleRetry env job now db) i = lease_of db i"
  by (auto simp: lease_of_def handleRetry_def resetRetry_def updateLastRun_def recordRun_def Let_def row_update_job option.map_comp comp_def)

section \<open>Leases exclude\<close>

text \<open>What may happen between two attempts to lease a job, by any workers, and the time of each.\<close>

datatype cron_event = EvAcquire string int string | EvRelease string string | EvClear int | EvFinish CronJob time "string option"

fun cron_step :: "'w cron_env \<Rightarrow> cron_event \<Rightarrow> cron_db \<Rightarrow> cron_db" where
  "cron_step env (EvAcquire holder now jid) db = snd (lease_stmt holder now jid db)"
| "cron_step env (EvRelease holder jid) db = release_stmt holder jid db"
| "cron_step env (EvClear now) db = clear_expired_leases now db"
| "cron_step env (EvFinish job now (Some e)) db = handleRetry env job now db"
| "cron_step env (EvFinish job now None) db = updateLastRun env job now (resetRetry env (job_ID job) db)"

text \<open>The events a lease of \<open>holder\<close> up to \<open>limit\<close> (in seconds) has to withstand.\<close>

fun within_lease :: "string \<Rightarrow> string \<Rightarrow> int \<Rightarrow> cron_event \<Rightarrow> bool" where
  "within_lease holder jid limit (EvAcquire h now j) \<longleftrightarrow> now \<le> limit"
| "within_lease holder jid limit (EvRelease h j) \<longleftrightarrow> \<not> (h = holder \<and> j = jid)"
| "within_lease holder jid limit (EvClear now) \<longleftrightarrow> now \<le> limit"
| "within_lease holder jid limit (EvFinish job now err) \<longleftrightarrow> True"

lemma lease_refused:
  assumes "lease_of db jid = Some (Some holder, Some limit)" and "now \<le> limit"
  shows "lease_stmt h now jid db = (False, db)"
  using assms by (auto simp: lease_of_def lease_stmt_def lease_free_def)

lemma lease_other [cron_get]: "i \<noteq> j \<Longrightarrow> lease_of (snd (lease_stmt h now j db)) i = lease_of db i"
  by (auto simp: lease_of_def lease_stmt_def row_update_job split: option.splits)

lemma release_other:
  "job_row db jid = Some r \<Longrightarrow> cr_lease_holder r = Some holder \<Longrightarrow> \<not> (h = holder \<and> j = jid)
     \<Longrightarrow> job_row (release_stmt h j db) jid = Some r"
  by (cases "j = jid") (auto simp: release_stmt_def row_update_job)

lemma lease_step:
  assumes "lease_of db jid = Some (Some holder, Some limit)" and "within_lease holder jid limit e"
  shows "lease_of (cron_step env e db) jid = Some (Some holder, Some limit)"
proof (cases e)
  case (EvAcquire h now j)
  with assms show ?thesis by (cases "j = jid") (auto simp: lease_refused cron_get)
next
  case (EvRelease h j)
  with assms show ?thesis by (auto simp: lease_of_def release_other)
next
  case (EvClear now)
  with assms show ?thesis by (auto simp: clear_expired_leases_def lease_of_def)
next
  case (EvFinish job now err)
  with assms show ?thesis by (cases err) (simp_all add: cron_get)
qed

lemma lease_fold:
  "lease_of db jid = Some (Some holder, Some limit) \<Longrightarrow> list_all (within_lease holder jid limit) es
     \<Longrightarrow> lease_of (fold (cron_step env) es db) jid = Some (Some holder, Some limit)"
  by (induction es arbitrary: db) (auto intro: lease_step)

text \<open>
  C31. A lease excludes every other attempt for sixty seconds: once a worker has leased a job, no
  attempt at most sixty seconds later succeeds, by any worker, whatever other workers, the
  maintenance loop and the bookkeeping of runs do in between, until that worker releases the job.
\<close>

theorem lease_excludes_others:
  assumes "lease_stmt holder now jid db = (True, db1)"
    and "list_all (within_lease holder jid (now + 60)) es"
    and "now' \<le> now + 60"
  shows "lease_stmt other now' jid (fold (cron_step env) es db1) = (False, fold (cron_step env) es db1)"
proof -
  from assms(1) have "lease_of db1 jid = Some (Some holder, Some (now + 60))"
    by (auto simp: lease_stmt_def lease_of_def row_update_job split: option.splits if_splits)
  from lease_refused [OF lease_fold [OF this assms(2)] assms(3)] show ?thesis .
qed

definition idle_env :: "unit cron_env" where
  "idle_env = \<lparr>ce_cal = utc, ce_Now = (\<lambda>w. (0, w)), ce_Execute = (\<lambda>job db w. (None, db, w)), ce_fails = (\<lambda>st i. False),
     ce_order = (\<lambda>xs. xs), ce_instanceID = ''h1''\<rparr>"

definition sample_db :: cron_db where
  "sample_db = \<lparr>cron_jobs = [(''j'', new_row ''n'' ''a'' ''cron'' ''* * * * *'' (Some 0) [] ''none'' [])], cron_runs = []\<rparr>"

theorem lease_excludes_others_witness:
  "lease_stmt ''h2'' 60 ''j'' (fold (cron_step idle_env)
       [EvAcquire ''h2'' 30 ''j'', EvRelease ''h2'' ''j'', EvClear 60] (snd (lease_stmt ''h1'' 0 ''j'' sample_db)))
   = (False, fold (cron_step idle_env) [EvAcquire ''h2'' 30 ''j'', EvRelease ''h2'' ''j'', EvClear 60]
       (snd (lease_stmt ''h1'' 0 ''j'' sample_db)))"
  by (rule lease_excludes_others [of "''h1''" 0 _ sample_db])
    (simp_all add: lease_stmt_def sample_db_def new_row_def lease_free_def)

section \<open>Runs of a job\<close>

text \<open>The statements all succeed, and a query returns the selected rows in some order.\<close>

definition store_works :: "'w cron_env \<Rightarrow> bool" where
  "store_works env \<longleftrightarrow> ce_fails env = (\<lambda>st i. False) \<and> (\<forall>xs. set (ce_order env xs) = set xs)"

lemma store_worksD [simp]: "store_works env \<Longrightarrow> ce_fails env st i = False" "store_works env \<Longrightarrow> set (ce_order env xs) = set xs"
  by (simp_all add: store_works_def)

lemma rfc3339_same_minute [simp]: "trunc_minute (rfc3339_sec t) = trunc_minute t"
proof -
  have "second dvd minute" by (simp add: minute_def)
  then have "second dvd trunc_minute t" by (rule dvd_trans) simp
  then have "trunc_minute t \<le> rfc3339_sec t"
    using trunc_minute_bounds(1) [of t] zdiv_mono1 [of "trunc_minute t" t second]
    by (simp add: rfc3339_sec_def minus_mod_eq_mult_div go_time) (metis dvd_div_mult_self mult.commute mult_le_cancel_left_pos zero_less_numeral)
  moreover have "rfc3339_sec t \<le> t" by (simp add: rfc3339_sec_def go_time)
  ultimately show ?thesis unfolding same_minute using trunc_minute_bounds(2) [of t] by simp
qed

lemma last_run_after_execute:
  assumes "store_works env" and "executeJob env job now db w = (err, db', w')" and "job_row db' (job_ID job) = Some r"
  shows "cr_last_run_at r = Some (rfc3339_sec now)"
  using assms
  by (auto simp: executeJob_def handleRetry_def updateLastRun_def resetRetry_def cron_get Let_def
      split: prod.splits option.splits if_splits)

definition jobs_of :: "'w cron_env \<Rightarrow> cron_db \<Rightarrow> CronJob list" where
  "jobs_of env db = (case listEnabledJobs env db of None \<Rightarrow> [] | Some jobs \<Rightarrow> jobs)"

lemma listed_row:
  assumes "store_works env" and "m_ok (cron_jobs db)" and "job \<in> set (jobs_of env db)"
  obtains r expr every where "job_row db (job_ID job) = Some r" and "job = row_job (job_ID job) r expr every"
    and "cr_schedule_every_ms r = Some every" and "cr_schedule_expr r = Some expr" and "cr_enabled r"
  using assms
  by (auto simp: jobs_of_def listEnabledJobs_def List.map_filter_def scan_listed_def m_ok_def row_job_def
      split: option.splits if_splits)

text \<open>
  No double fire: when a job has been executed at some time, with success or failure, the jobs
  listed afterwards contain no cron job of that id that is due within the same minute, although the
  time of the run is stored to the second only.
\<close>

theorem cron_job_once_per_minute:
  assumes "store_works env" and "executeJob env job now db w = (err, db', w')" and "m_ok (cron_jobs db')"
    and "trunc_minute now' = trunc_minute now"
  shows "list_all (\<lambda>j. \<not> (job_ID j = job_ID job \<and> job_Kind j = ScheduleCron \<and> IsDue (ce_cal env) j now')) (jobs_of env db')"
proof -
  have "\<not> IsDue (ce_cal env) j now'" if j: "j \<in> set (jobs_of env db')" "job_ID j = job_ID job" "job_Kind j = ScheduleCron" for j
  proof -
    from listed_row [OF assms(1,3) j(1)] obtain r expr every
      where r: "job_row db' (job_ID j) = Some r" "j = row_job (job_ID j) r expr every" by metis
    from last_run_after_execute [OF assms(1,2)] r(1) j(2) have "cr_last_run_at r = Some (rfc3339_sec now)" by simp
    then have "job_LastRunAt j = Some (rfc3339_sec now)" by (subst r(2)) (simp add: row_job_def)
    then show ?thesis using j(3) assms(4) by (simp add: IsDue_def cron_due_iff_current_minute)
  qed
  then show ?thesis by (auto simp: list_all_iff)
qed

lemma sample_ok: "m_ok (cron_jobs sample_db)"
  by (simp add: sample_db_def m_ok_def)

theorem cron_job_once_per_minute_witness:
  "list_all (\<lambda>j. \<not> (job_ID j = ''j'' \<and> job_Kind j = ScheduleCron \<and> IsDue utc j (59 * second)))
     (jobs_of idle_env (fst (snd (executeJob idle_env (sample_job ''* * * * *'') 1 sample_db ()))))"
proof -
  have works: "store_works idle_env" by (simp add: store_works_def idle_env_def)
  have run: "executeJob idle_env (sample_job ''* * * * *'') 1 sample_db ()
      = (None, fst (snd (executeJob idle_env (sample_job ''* * * * *'') 1 sample_db ())), ())"
    by (simp add: executeJob_def idle_env_def)
  have ok: "m_ok (cron_jobs (fst (snd (executeJob idle_env (sample_job ''* * * * *'') 1 sample_db ()))))"
    by (simp add: executeJob_def idle_env_def recordRun_def resetRetry_def updateLastRun_def update_job_def sample_ok Let_def)
  have "trunc_minute (59 * second) = trunc_minute 1" by (simp add: trunc_minute_def go_time)
  from cron_job_once_per_minute [OF works run ok this] show ?thesis by (simp add: idle_env_def sample_job_def)
qed

section \<open>Jobs created by the tool\<close>

text \<open>
  A job that the agent's cron tool creates is enabled and can be run by hand, but the worker
  never lists it, so it never runs on schedule: the tool leaves \<^verbatim>\<open>schedule_every_ms\<close> NULL and the
  listing skips every row where it is.
\<close>

theorem tool_created_job_never_listed:
  assumes "store_works env" and "m_ok (cron_jobs db)"
    and "CronTool_create env marshal newID agentID channel name schedule task db = Inr db1"
  shows "list_all (\<lambda>j. job_ID j \<noteq> newID) (jobs_of env db1) \<and> loadEnabledJob env newID db1 \<noteq> None"
proof -
  from assms(1,3) have new: "job_row db1 newID = Some (new_row name agentID ''cron'' schedule None (marshal task)
        (if channel \<noteq> [] then ''push'' else ''none'') channel)"
      and db1: "cron_jobs db1 = m_put newID (new_row name agentID ''cron'' schedule None (marshal task)
        (if channel \<noteq> [] then ''push'' else ''none'') channel) (cron_jobs db)"
    by (auto simp: CronTool_create_def insert_job_def split: if_splits)
  from assms(2) have ok: "m_ok (cron_jobs db1)" by (simp add: db1)
  have "job_ID j \<noteq> newID" if "j \<in> set (jobs_of env db1)" for j
  proof -
    from listed_row [OF assms(1) ok that] obtain r every
      where "job_row db1 (job_ID j) = Some r" "cr_schedule_every_ms r = Some every" by metis
    with new show ?thesis by (auto simp: new_row_def)
  qed
  then show ?thesis using new assms(1) by (simp add: list_all_iff loadEnabledJob_def) (simp add: new_row_def)
qed

definition tool_db :: cron_db where
  "tool_db = (case CronTool_create idle_env (\<lambda>t. t) ''k'' ''a'' [] ''daily'' ''0 9 * * *'' ''report'' sample_db of
     Inl e \<Rightarrow> sample_db | Inr db \<Rightarrow> db)"

theorem tool_created_job_never_listed_witness:
  "list_all (\<lambda>j. job_ID j \<noteq> ''k'') (jobs_of idle_env tool_db) \<and> loadEnabledJob idle_env ''k'' tool_db \<noteq> None"
proof (rule tool_created_job_never_listed)
  show "store_works idle_env" by (simp add: store_works_def idle_env_def)
  show "m_ok (cron_jobs sample_db)" by (rule sample_ok)
  show "CronTool_create idle_env (\<lambda>t. t) ''k'' ''a'' [] ''daily'' ''0 9 * * *'' ''report'' sample_db = Inr tool_db"
    by (simp add: tool_db_def CronTool_create_def insert_job_def idle_env_def sample_db_def trim_space_def is_space_def)
qed

text \<open>The tool cannot delete a job that has run: the run history still refers to it.\<close>

theorem tool_cannot_delete_run_job:
  assumes "job_row db jid = Some r" and "list_ex (\<lambda>run. run_JobID run = jid) (cron_runs db)"
  shows "\<exists>e. CronTool_delete env jid db = Inl e"
proof -
  from assms(1) have "jid \<in> fst ` set (filter (\<lambda>(i, r). i = jid \<or> cr_name r = jid) (cron_jobs db))"
    by (force dest: map_of_SomeD)
  with assms(2) have "delete_jobs (\<lambda>i r. i = jid \<or> cr_name r = jid) db = None"
    by (auto simp: delete_jobs_def list_ex_iff Let_def)
  then show ?thesis by (simp add: CronTool_delete_def)
qed

section \<open>Retries\<close>

definition run_once :: "'w cron_env \<Rightarrow> string \<Rightarrow> 'w \<Rightarrow> time \<Rightarrow> cron_db \<Rightarrow> cron_db" where
  "run_once env jid w now db =
     (case loadEnabledJob env jid db of None \<Rightarrow> db | Some job \<Rightarrow> fst (snd (executeJob env job now db w)))"

definition runs_with :: "string \<Rightarrow> string \<Rightarrow> cron_db \<Rightarrow> nat" where
  "runs_with jid status db = length (filter (\<lambda>run. run_JobID run = jid \<and> run_Status run = status) (cron_runs db))"

definition always_fails :: "'w cron_env \<Rightarrow> bool" where
  "always_fails env \<longleftrightarrow> (\<forall>job db w. \<exists>e w'. ce_Execute env job db w = (Some e, db, w'))"

text \<open>A row the retry counter of which is \<open>c\<close>, with at most \<open>n\<close> retries.\<close>

definition retry_state :: "nat \<Rightarrow> nat \<Rightarrow> cron_row \<Rightarrow> bool" where
  "retry_state n c r \<longleftrightarrow> cr_enabled r \<and> cr_schedule_expr r \<noteq> None \<and> coalesce 0 (cr_retry_count r) = int c
     \<and> int n = (let m = coalesce 3 (cr_max_retries r) in if m \<le> 0 then 3 else m)"

lemma failing_run:
  assumes "store_works env" and "always_fails env" and "job_row db jid = Some r" and "retry_state n c r" and "c \<le> n"
  shows "\<exists>r'. job_row (run_once env jid w now db) jid = Some r' \<and> retry_state n (if c = n then 0 else Suc c) r'"
    and "runs_with jid ''failed'' (run_once env jid w now db) = Suc (runs_with jid ''failed'' db)"
    and "runs_with jid ''exhausted'' (run_once env jid w now db) = runs_with jid ''exhausted'' db + (if c = n then 1 else 0)"
proof -
  from assms(3,4) obtain expr where expr: "cr_schedule_expr r = Some expr" and enabled: "cr_enabled r"
    by (auto simp: retry_state_def)
  define job where "job = row_job jid r expr (coalesce 0 (cr_schedule_every_ms r))"
  have job: "loadEnabledJob env jid db = Some job" using assms(1,3) expr enabled by (simp add: loadEnabledJob_def job_def)
  obtain start w1 where s: "ce_Now env w = (start, w1)" by (cases "ce_Now env w")
  obtain e w2 where x: "ce_Execute env job db w1 = (Some e, db, w2)" using assms(2) unfolding always_fails_def by blast
  obtain stop w3 where f: "ce_Now env w2 = (stop, w3)" by (cases "ce_Now env w2")
  have id: "job_ID job = jid" and count: "job_RetryCount job = int c" and limit: "max_retries_of job = int n"
    using assms(4) by (simp_all add: job_def row_job_def retry_state_def max_retries_of_def Let_def)
  have once: "run_once env jid w now db = handleRetry env job now (recordRun env
      \<lparr>run_JobID = jid, run_Status = ''failed'', run_DurationMs = sgn (time_sub stop start) * (\<bar>time_sub stop start\<bar> div millisecond),
       run_ErrorMsg = e, run_Timestamp = now\<rparr> db)"
    by (simp add: run_once_def job executeJob_def s x f id)
  have full: "max_retries_of job < job_RetryCount job + 1 \<longleftrightarrow> c = n" using assms(5) by (auto simp: count limit)
  show "\<exists>r'. job_row (run_once env jid w now db) jid = Some r' \<and> retry_state n (if c = n then 0 else Suc c) r'"
    unfolding once handleRetry_def full Let_def using assms(1,3,4)
    by (auto simp: cron_get updateLastRun_def resetRetry_def id count Let_def) (auto simp: retry_state_def coalesce_def)
  show "runs_with jid ''failed'' (run_once env jid w now db) = Suc (runs_with jid ''failed'' db)"
    unfolding once handleRetry_def full Let_def using assms(1,3)
    by (auto simp: cron_get id runs_with_def) (auto simp: recordRun_def)
  show "runs_with jid ''exhausted'' (run_once env jid w now db) = runs_with jid ''exhausted'' db + (if c = n then 1 else 0)"
    unfolding once handleRetry_def full Let_def using assms(1,3)
    by (auto simp: cron_get id runs_with_def) (auto simp: recordRun_def)
qed

lemma failing_runs:
  assumes "store_works env" and "always_fails env" and "job_row db jid = Some r" and "retry_state n 0 r"
  shows "(\<exists>r'. job_row (fold (run_once env jid w) nows db) jid = Some r' \<and> retry_state n (length nows mod Suc n) r')
     \<and> runs_with jid ''failed'' (fold (run_once env jid w) nows db) = runs_with jid ''failed'' db + length nows
     \<and> runs_with jid ''exhausted'' (fold (run_once env jid w) nows db) = runs_with jid ''exhausted'' db + length nows div Suc n"
proof (induction nows rule: rev_induct)
  case Nil
  then show ?case using assms(3,4) by simp
next
  case (snoc now nows)
  then obtain r' where r': "job_row (fold (run_once env jid w) nows db) jid = Some r'" "retry_state n (length nows mod Suc n) r'"
    by blast
  have "length nows mod Suc n \<le> n" by (simp add: less_Suc_eq_le [symmetric])
  note failing_run [OF assms(1,2) r' this, of w now]
  then show ?case using snoc.IH by (simp add: mod_Suc div_Suc)
qed

text \<open>
  Retries come in rounds: a job whose executor always fails is recorded as failed once a run,
  its retry counter is the number of failures modulo its retry limit plus one, and an exhaustion is
  recorded once a round, after the limit plus one failures.
\<close>

theorem failing_job_retry_rounds:
  assumes "store_works env" and "always_fails env" and "job_row db jid = Some r" and "retry_state n 0 r"
  shows "map_option (\<lambda>r'. coalesce 0 (cr_retry_count r')) (job_row (fold (run_once env jid w) nows db) jid)
       = Some (int (length nows mod Suc n))
     \<and> runs_with jid ''failed'' (fold (run_once env jid w) nows db) = runs_with jid ''failed'' db + length nows
     \<and> runs_with jid ''exhausted'' (fold (run_once env jid w) nows db) = runs_with jid ''exhausted'' db + length nows div Suc n"
  using failing_runs [OF assms, of w nows] by (auto simp: retry_state_def)

definition broken_env :: "unit cron_env" where
  "broken_env = idle_env\<lparr>ce_Execute := \<lambda>job db w. (Some ''down'', db, w)\<rparr>"

theorem failing_job_retry_rounds_witness:
  "map_option (\<lambda>r. coalesce 0 (cr_retry_count r)) (job_row (fold (run_once broken_env ''j'' ()) [0, 1, 2, 3, 4, 5] sample_db) ''j'')
     = Some 2
   \<and> runs_with ''j'' ''exhausted'' (fold (run_once broken_env ''j'' ()) [0, 1, 2, 3, 4, 5] sample_db) = 1"
proof -
  have "store_works broken_env" "always_fails broken_env"
    by (simp_all add: store_works_def always_fails_def broken_env_def idle_env_def)
  moreover have "job_row sample_db ''j'' = Some (new_row ''n'' ''a'' ''cron'' ''* * * * *'' (Some 0) [] ''none'' [])"
    by (simp add: sample_db_def)
  moreover have "retry_state 3 0 (new_row ''n'' ''a'' ''cron'' ''* * * * *'' (Some 0) [] ''none'' [])"
    by (simp add: retry_state_def new_row_def coalesce_def)
  ultimately show ?thesis
    using failing_job_retry_rounds [of broken_env sample_db "''j''" _ 3 "()" "[0, 1, 2, 3, 4, 5]"]
    by (simp add: runs_with_def sample_db_def)
qed

section \<open>Due jobs run\<close>

text \<open>
  What the run of a job relies on: the query and the job's own lease and run statements succeed, and an executor,
  whose agent may edit the tables with the cron tool, keeps the job, its lease and its runs.
\<close>

definition job_statements_ok :: "'w cron_env \<Rightarrow> string \<Rightarrow> bool" where
  "job_statements_ok env jid \<longleftrightarrow>
     \<not> ce_fails env StList [] \<and> \<not> ce_fails env StAcquire jid \<and> \<not> ce_fails env StRecord jid
     \<and> (\<forall>xs. set (ce_order env xs) = set xs)"

definition executors_spare :: "'w cron_env \<Rightarrow> string \<Rightarrow> bool" where
  "executors_spare env jid \<longleftrightarrow>
     (\<forall>j db w. let db' = fst (snd (ce_Execute env j db w)) in
        lease_of db' jid = lease_of db jid
        \<and> (\<forall>run \<in> set (cron_runs db). run_JobID run = jid \<longrightarrow> run \<in> set (cron_runs db')))"

lemma executors_spareD:
  assumes "executors_spare env jid" and "ce_Execute env j db w = (err, db', w')"
  shows "lease_of db' jid = lease_of db jid"
    and "run \<in> set (cron_runs db) \<Longrightarrow> run_JobID run = jid \<Longrightarrow> run \<in> set (cron_runs db')"
  using assms unfolding executors_spare_def Let_def by (metis fst_conv snd_conv)+

definition recorded_at :: "time \<Rightarrow> string \<Rightarrow> cron_db \<Rightarrow> bool" where
  "recorded_at now jid db \<longleftrightarrow>
     list_ex (\<lambda>run. run_JobID run = jid \<and> run_Timestamp run = rfc3339_sec now) (cron_runs db)"

lemma recorded_recordRun:
  "recorded_at now jid db \<Longrightarrow> recorded_at now jid (recordRun env run db)"
  "\<not> ce_fails env StRecord jid \<Longrightarrow> job_row db jid \<noteq> None \<Longrightarrow> run_JobID run = jid \<Longrightarrow> run_Timestamp run = now
     \<Longrightarrow> recorded_at now jid (recordRun env run db)"
  by (auto simp: recorded_at_def recordRun_def)

lemma recorded_cong: "cron_runs db = cron_runs db' \<Longrightarrow> recorded_at now jid db = recorded_at now jid db'"
  by (simp add: recorded_at_def)

lemma recorded_bookkeeping [simp]:
  "recorded_at now jid (updateLastRun env job t db) = recorded_at now jid db"
  "recorded_at now jid (resetRetry env j db) = recorded_at now jid db"
  "recorded_at now jid (releaseLease env j db) = recorded_at now jid db"
  by (simp_all add: recorded_at_def cron_get)

lemma recorded_handleRetry: "recorded_at now jid db \<Longrightarrow> recorded_at now jid (handleRetry env job t db)"
  by (auto simp: handleRetry_def Let_def recorded_at_def cron_get recordRun_def)

lemma row_of_lease: "job_row db jid = None \<longleftrightarrow> lease_of db jid = None"
  by (simp add: lease_of_def)

lemma execute_spec:
  assumes "executors_spare env jid" and "executeJob env job t db w = (err, db', w')"
  shows "recorded_at now jid db \<Longrightarrow> recorded_at now jid db'"
    and "lease_of db' jid = lease_of db jid"
    and "job_ID job = jid \<Longrightarrow> \<not> ce_fails env StRecord jid \<Longrightarrow> lease_of db jid \<noteq> None \<Longrightarrow> recorded_at t jid db'"
proof -
  obtain start w1 where w1: "ce_Now env w = (start, w1)" by (cases "ce_Now env w")
  obtain res db1 w2 where e: "ce_Execute env job db w1 = (res, db1, w2)" by (cases "ce_Execute env job db w1")
  obtain stop w3 where w3: "ce_Now env w2 = (stop, w3)" by (cases "ce_Now env w2")
  note spared = executors_spareD [OF assms(1) e]
  have kept: "recorded_at now jid db \<Longrightarrow> recorded_at now jid db1"
    using spared(2) by (auto simp: recorded_at_def list_ex_iff)
  show "recorded_at now jid db \<Longrightarrow> recorded_at now jid db'"
    using assms(2) kept
    by (auto simp: executeJob_def Let_def w1 e w3 recorded_recordRun recorded_handleRetry split: option.splits)
  show "lease_of db' jid = lease_of db jid"
    using assms(2) spared(1) by (auto simp: executeJob_def Let_def w1 e w3 cron_get split: option.splits)
  assume "job_ID job = jid" "\<not> ce_fails env StRecord jid" "lease_of db jid \<noteq> None"
  moreover from this(3) have "job_row db1 jid \<noteq> None" by (simp only: row_of_lease spared(1) not_False_eq_True)
  ultimately show "recorded_at t jid db'"
    using assms(2)
    by (auto simp: executeJob_def Let_def w1 e w3 recorded_recordRun recorded_handleRetry split: option.splits)
qed

lemma acquire_spec:
  assumes "acquireLease env j db w = (ok, db', w')"
  shows "cron_runs db' = cron_runs db" and "i \<noteq> j \<Longrightarrow> lease_of db' i = lease_of db i"
    and "\<not> ce_fails env StAcquire j \<Longrightarrow> lease_of db j = Some (None, x) \<Longrightarrow> ok"
    and "lease_of db' i = None \<longleftrightarrow> lease_of db i = None"
  using assms
  by (auto simp: acquireLease_def lease_stmt_def lease_free_def lease_of_def row_update_job runs_update_job Let_def
      split: prod.splits option.splits if_splits)

lemma lease_of_release: "i \<noteq> j \<Longrightarrow> lease_of (releaseLease env j db) i = lease_of db i"
  by (simp add: releaseLease_def release_stmt_def lease_of_def row_update_job)

lemma tick_jobs_keeps_record:
  assumes "executors_spare env jid"
  shows "recorded_at now jid db \<Longrightarrow> recorded_at now jid (fst (tick_jobs env now' jobs db w))"
proof (induction jobs arbitrary: db w)
  case (Cons job jobs)
  obtain ok db1 w1 where a: "acquireLease env (job_ID job) db w = (ok, db1, w1)" by (cases "acquireLease env (job_ID job) db w")
  obtain err db2 w2 where e: "executeJob env job now' db1 w1 = (err, db2, w2)" by (cases "executeJob env job now' db1 w1")
  show ?case using Cons.prems recorded_cong [OF acquire_spec(1) [OF a]] execute_spec(1) [OF assms e]
    by (simp add: a e Cons.IH)
qed simp

lemma tick_jobs_runs_due:
  assumes "job_statements_ok env (job_ID job)" and "executors_spare env (job_ID job)"
  shows "job \<in> set jobs \<Longrightarrow> IsDue (ce_cal env) job now \<Longrightarrow> lease_of db (job_ID job) = Some (None, x)
     \<Longrightarrow> recorded_at now (job_ID job) (fst (tick_jobs env now jobs db w))"
proof (induction jobs arbitrary: db w)
  case (Cons j jobs)
  obtain ok db1 w1 where a: "acquireLease env (job_ID j) db w = (ok, db1, w1)" by (cases "acquireLease env (job_ID j) db w")
  obtain err db2 w2 where e: "executeJob env j now db1 w1 = (err, db2, w2)" by (cases "executeJob env j now db1 w1")
  have st: "\<not> ce_fails env StAcquire (job_ID job)" "\<not> ce_fails env StRecord (job_ID job)"
    using assms(1) by (simp_all add: job_statements_ok_def)
  show ?case
  proof (cases "job_ID j = job_ID job \<and> IsDue (ce_cal env) j now")
    case True
    with Cons.prems(3) acquire_spec(3) [OF a] st(1) have ok: ok by simp
    have "lease_of db1 (job_ID job) \<noteq> None"
      using acquire_spec(4) [OF a, of "job_ID job"] Cons.prems(3) by simp
    with execute_spec(3) [OF assms(2) e] True st(2) have "recorded_at now (job_ID job) db2" by simp
    then show ?thesis using True ok a e by (simp add: tick_jobs_keeps_record [OF assms(2)])
  next
    case False
    with Cons.prems have mem: "job \<in> set jobs" by auto
    have other: "job_ID job \<noteq> job_ID j" if "IsDue (ce_cal env) j now" using False that by auto
    have "lease_of db1 (job_ID job) = Some (None, x)" "lease_of (releaseLease env (job_ID j) db2) (job_ID job) = Some (None, x)"
      if "IsDue (ce_cal env) j now"
      using acquire_spec(2) [OF a other [OF that]] Cons.prems(3)
      by (simp_all add: lease_of_release [OF other [OF that]] execute_spec(2) [OF assms(2) e])
    then show ?thesis using Cons.IH [OF mem Cons.prems(2)] Cons.prems(3) by (auto simp: a e)
  qed
qed simp


text \<open>An executor whose agent adds a job of its own.\<close>

definition busy_env :: "unit cron_env" where
  "busy_env = idle_env\<lparr>ce_Execute := \<lambda>job db w.
     (None, case CronTool_create idle_env id ''k'' ''a'' [] ''follow up'' ''* * * * *'' ''check'' db of Inl e \<Rightarrow> db | Inr db1 \<Rightarrow> db1, w)\<rparr>"

lemma busy_env_spares: "executors_spare busy_env ''j''"
  by (auto simp: executors_spare_def busy_env_def CronTool_create_def insert_job_def idle_env_def lease_of_def Let_def
      split: sum.splits option.splits if_splits)


end
