(* ===== verification/Caches.thy ===== *)
theory Caches
  imports AgentLoop "HOL-Library.Word"
begin

text \<open>
  The response cache of \<^verbatim>\<open>internal/llm/cache.go\<close>: a bounded map in memory with least-frequently-used
  eviction, a similarity search over its embeddings and a table behind it. SHA-256, the JSON coding
  of responses and tools, the n-gram embedding, float comparison and cosine similarity, the iteration
  order of Go maps and failures of statements are parameters. Stored times are cut to the second.
\<close>

section \<open>State\<close>

record ('f, 'r) cacheEntry =
  en_Response :: 'r
  en_CreatedAt :: time
  en_InvolvedTools :: bool
  en_Hits :: "64 word"
  en_Embedding :: "'f list"

record cache_row =
  sc_prompt_hash :: string
  sc_response :: string
  sc_hit_count :: int
  sc_created_at :: time
  sc_expires_at :: "time option"

record CacheConfig =
  cfg_Enabled :: bool
  cfg_MaxEntries :: int
  cfg_TTL :: duration

record ('f, 'r) Cache =
  c_mem :: "(string, ('f, 'r) cacheEntry) gomap"
  c_order :: "string list"
  c_maxSize :: int
  c_ttl :: duration
  c_store :: "(string, cache_row) gomap option"

record ('f, 'r) cache_lib =
  cl_sha256 :: "string \<Rightarrow> string"
  cl_tools_json :: "ToolDef list \<Rightarrow> string"
  cl_marshal :: "'r \<Rightarrow> string option"
  cl_unmarshal :: "string \<Rightarrow> 'r option"
  cl_embed :: "string \<Rightarrow> 'f list"
  cl_cosine :: "'f list \<Rightarrow> 'f list \<Rightarrow> 'f"
  cl_less :: "'f \<Rightarrow> 'f \<Rightarrow> bool"
  cl_zero :: 'f
  cl_threshold :: 'f
  cl_iter :: "(string \<times> ('f, 'r) cacheEntry) list \<Rightarrow> (string \<times> ('f, 'r) cacheEntry) list"
  cl_insert_ok :: "string \<Rightarrow> bool"
  cl_query_ok :: "string \<Rightarrow> bool"
  cl_update_ok :: "string \<Rightarrow> bool"

definition DefaultCacheConfig :: CacheConfig where
  "DefaultCacheConfig = \<lparr>cfg_Enabled = True, cfg_MaxEntries = 1000, cfg_TTL = 1 * hour\<rparr>"

definition NewCache :: "CacheConfig \<Rightarrow> (string, cache_row) gomap option \<Rightarrow> ('f, 'r) Cache" where
  "NewCache cfg store =
     \<lparr>c_mem = [], c_order = [], c_maxSize = cfg_MaxEntries cfg, c_ttl = cfg_TTL cfg, c_store = store\<rparr>"

section \<open>Keys\<close>

definition hash_input :: "('f, 'r) cache_lib \<Rightarrow> Request \<Rightarrow> string" where
  "hash_input lib req =
     lr_Model req @ concat (map (\<lambda>m. msg_Role m @ msg_Content m) (lr_Messages req))
     @ (if lr_Tools req \<noteq> [] then cl_tools_json lib (lr_Tools req) else [])"

definition hashRequest :: "('f, 'r) cache_lib \<Rightarrow> Request \<Rightarrow> string" where
  "hashRequest lib req = cl_sha256 lib (hash_input lib req)"

definition extractPromptText :: "Request \<Rightarrow> string" where
  "extractPromptText req =
     (case List.find (\<lambda>m. msg_Role m = ''user'' \<and> msg_Content m \<noteq> []) (rev (lr_Messages req)) of
        Some m \<Rightarrow> msg_Content m | None \<Rightarrow> [])"

section \<open>Eviction\<close>

text \<open>The search for the entry with the fewest hits: index and hits of the best so far.\<close>

fun lfu_scan :: "(string, ('f, 'r) cacheEntry) gomap \<Rightarrow> nat \<Rightarrow> string list \<Rightarrow> nat \<times> 64 word \<Rightarrow> nat \<times> 64 word" where
  "lfu_scan mem i [] best = best"
| "lfu_scan mem i (h # hs) best =
     lfu_scan mem (Suc i) hs
       (case m_get mem h of
          Some e \<Rightarrow> if en_Hits e < snd best then (i, en_Hits e) else best
        | None \<Rightarrow> best)"

definition lfu_index :: "(string, ('f, 'r) cacheEntry) gomap \<Rightarrow> string list \<Rightarrow> nat" where
  "lfu_index mem order = fst (lfu_scan mem 0 order (0, - 1))"

definition remove_at :: "nat \<Rightarrow> 'a list \<Rightarrow> 'a list" where
  "remove_at i xs = take i xs @ drop (Suc i) xs"

lemma lfu_scan_bound: "fst best < n \<Longrightarrow> i + length hs \<le> n \<Longrightarrow> fst (lfu_scan mem i hs best) < n"
  by (induction hs arbitrary: i best) (auto split: option.splits)

lemma lfu_index_bound [simp]: "order \<noteq> [] \<Longrightarrow> lfu_index mem order < length order"
  unfolding lfu_index_def by (rule lfu_scan_bound) auto

lemma length_remove_at [simp]: "i < length xs \<Longrightarrow> length (remove_at i xs) = length xs - 1"
  by (simp add: remove_at_def)

function evict ::
  "int \<Rightarrow> (string, ('f, 'r) cacheEntry) gomap \<Rightarrow> string list \<Rightarrow> (string, ('f, 'r) cacheEntry) gomap \<times> string list" where
  "evict maxSize mem order =
     (if maxSize < int (length mem) \<and> order \<noteq> [] then
        let i = lfu_index mem order in evict maxSize (m_del (order ! i) mem) (remove_at i order)
      else (mem, order))"
  by pat_completeness auto
termination
  by (relation "measure (\<lambda>(maxSize, mem, order). length order)") auto

declare evict.simps [simp del]

definition putWithToolsAndEmbed :: "string \<Rightarrow> 'r \<Rightarrow> time \<Rightarrow> bool \<Rightarrow> 'f list \<Rightarrow> ('f, 'r) Cache \<Rightarrow> ('f, 'r) Cache" where
  "putWithToolsAndEmbed hash resp created involvedTools embedding c =
     (let e = \<lparr>en_Response = resp, en_CreatedAt = created, en_InvolvedTools = involvedTools, en_Hits = 0,
               en_Embedding = embedding\<rparr>;
          (mem, order) = evict (c_maxSize c) (m_put hash e (c_mem c)) (c_order c @ [hash])
      in c\<lparr>c_mem := mem, c_order := order\<rparr>)"

definition putWithTools :: "string \<Rightarrow> 'r \<Rightarrow> time \<Rightarrow> bool \<Rightarrow> ('f, 'r) Cache \<Rightarrow> ('f, 'r) Cache" where
  "putWithTools hash resp created involvedTools c = putWithToolsAndEmbed hash resp created involvedTools [] c"

definition put :: "string \<Rightarrow> 'r \<Rightarrow> time \<Rightarrow> ('f, 'r) Cache \<Rightarrow> ('f, 'r) Cache" where
  "put hash resp created c = putWithTools hash resp created False c"

section \<open>Storing\<close>

definition sqlite_sec :: "time \<Rightarrow> time" where
  "sqlite_sec t = t - t mod second"

definition persist :: "('f, 'r) cache_lib \<Rightarrow> string \<Rightarrow> 'r \<Rightarrow> time \<Rightarrow> ('f, 'r) Cache \<Rightarrow> ('f, 'r) Cache" where
  "persist lib hash resp now c =
     (case (c_store c, cl_marshal lib resp) of
        (Some rows, Some json) \<Rightarrow>
          let i = take 32 hash;
              row = \<lparr>sc_prompt_hash = hash, sc_response = json, sc_hit_count = 0, sc_created_at = sqlite_sec now,
                     sc_expires_at = Some (sqlite_sec (now + c_ttl c))\<rparr>
          in if cl_insert_ok lib i then c\<lparr>c_store := Some (m_put i row rows)\<rparr> else c
      | _ \<Rightarrow> c)"

definition PutWithEmbedding :: "('f, 'r) cache_lib \<Rightarrow> time \<Rightarrow> Request \<Rightarrow> 'r \<Rightarrow> 'f list \<Rightarrow> ('f, 'r) Cache \<Rightarrow> ('f, 'r) Cache" where
  "PutWithEmbedding lib now req resp embedding c =
     (let hash = hashRequest lib req in
      persist lib hash resp now (putWithToolsAndEmbed hash resp now (lr_Tools req \<noteq> []) embedding c))"

definition Put :: "('f, 'r) cache_lib \<Rightarrow> time \<Rightarrow> Request \<Rightarrow> 'r \<Rightarrow> ('f, 'r) Cache \<Rightarrow> ('f, 'r) Cache" where
  "Put lib now req resp c =
     (let hash = hashRequest lib req;
          promptText = extractPromptText req;
          embedding = (if promptText \<noteq> [] then cl_embed lib promptText else [])
      in persist lib hash resp now (putWithToolsAndEmbed hash resp now (lr_Tools req \<noteq> []) embedding c))"

section \<open>Lookup\<close>

fun semantic_scan ::
  "('f, 'r) cache_lib \<Rightarrow> duration \<Rightarrow> time \<Rightarrow> 'f list \<Rightarrow> (string \<times> ('f, 'r) cacheEntry) list
     \<Rightarrow> ('f, 'r) cacheEntry option \<times> 'f \<Rightarrow> ('f, 'r) cacheEntry option \<times> 'f" where
  "semantic_scan lib ttl now emb [] best = best"
| "semantic_scan lib ttl now emb ((k, e) # es) best =
     semantic_scan lib ttl now emb es
       (if en_Embedding e = [] \<or> ttl \<le> time_sub now (en_CreatedAt e) then best
        else let sim = cl_cosine lib emb (en_Embedding e) in
             if cl_less lib (snd best) sim then (Some e, sim) else best)"

definition GetSemantic :: "('f, 'r) cache_lib \<Rightarrow> time \<Rightarrow> 'f list \<Rightarrow> 'f \<Rightarrow> ('f, 'r) Cache \<Rightarrow> 'r option" where
  "GetSemantic lib now embedding threshold c =
     (case semantic_scan lib (c_ttl c) now embedding (cl_iter lib (c_mem c)) (None, cl_zero lib) of
        (None, sim) \<Rightarrow> None
      | (Some e, sim) \<Rightarrow> if cl_less lib sim threshold then None else Some (en_Response e))"

text \<open>The row of the query: unexpired rows of the hash, the latest first.\<close>

definition newest_row :: "string \<Rightarrow> time \<Rightarrow> (string, cache_row) gomap \<Rightarrow> cache_row option" where
  "newest_row hash now rows =
     fold (\<lambda>(i, r) best.
        if sc_prompt_hash r = hash \<and> (case sc_expires_at r of None \<Rightarrow> True | Some e \<Rightarrow> sqlite_sec now < e)
           \<and> (case best of None \<Rightarrow> True | Some b \<Rightarrow> sc_created_at b < sc_created_at r)
        then Some r else best) rows None"

definition get_stored :: "('f, 'r) cache_lib \<Rightarrow> time \<Rightarrow> string \<Rightarrow> ('f, 'r) Cache \<Rightarrow> 'r option \<times> ('f, 'r) Cache" where
  "get_stored lib now hash c =
     (case c_store c of
        None \<Rightarrow> (None, c)
      | Some rows \<Rightarrow>
          if \<not> cl_query_ok lib hash then (None, c)
          else case newest_row hash now rows of
                 None \<Rightarrow> (None, c)
               | Some row \<Rightarrow>
                   (case cl_unmarshal lib (sc_response row) of
                      None \<Rightarrow> (None, c)
                    | Some resp \<Rightarrow>
                        let c1 = put hash resp (sc_created_at row) c in
                        (Some resp,
                         if cl_update_ok lib hash
                         then c1\<lparr>c_store := Some (m_map (\<lambda>r. if sc_prompt_hash r = hash
                                then r\<lparr>sc_hit_count := sc_hit_count r + 1\<rparr> else r) rows)\<rparr>
                         else c1)))"

definition effective_ttl :: "duration \<Rightarrow> bool \<Rightarrow> duration" where
  "effective_ttl ttl tools = (if tools then sgn ttl * (\<bar>ttl\<bar> div 4) else ttl)"

text \<open>\<open>now1\<close>, \<open>now2\<close> and \<open>now3\<close> are the clock at the exact, the semantic and the stored lookup.\<close>

definition get_slow :: "('f, 'r) cache_lib \<Rightarrow> time \<Rightarrow> time \<Rightarrow> Request \<Rightarrow> ('f, 'r) Cache \<Rightarrow> 'r option \<times> ('f, 'r) Cache" where
  "get_slow lib now2 now3 req c =
     (let promptText = extractPromptText req in
      case (if promptText \<noteq> [] then GetSemantic lib now2 (cl_embed lib promptText) (cl_threshold lib) c else None) of
        Some resp \<Rightarrow> (Some resp, c)
      | None \<Rightarrow> get_stored lib now3 (hashRequest lib req) c)"

definition Get_cached ::
  "('f, 'r) cache_lib \<Rightarrow> time \<Rightarrow> time \<Rightarrow> time \<Rightarrow> Request \<Rightarrow> ('f, 'r) Cache \<Rightarrow> 'r option \<times> ('f, 'r) Cache" where
  "Get_cached lib now1 now2 now3 req c =
     (let hash = hashRequest lib req in
      case m_get (c_mem c) hash of
        Some e \<Rightarrow>
          if time_sub now1 (en_CreatedAt e) < effective_ttl (c_ttl c) (en_InvolvedTools e)
          then (Some (en_Response e), c\<lparr>c_mem := m_put hash (e\<lparr>en_Hits := en_Hits e + 1\<rparr>) (c_mem c)\<rparr>)
          else get_slow lib now2 now3 req (c\<lparr>c_mem := m_del hash (c_mem c)\<rparr>)
      | None \<Rightarrow> get_slow lib now2 now3 req c)"

section \<open>The size of the map\<close>

lemma evict_induct [case_names Step]:
  assumes "\<And>mem order. (\<And>i. \<lbrakk>maxSize < int (length mem); order \<noteq> []; i = lfu_index mem order\<rbrakk>
      \<Longrightarrow> P (m_del (order ! i) mem) (remove_at i order)) \<Longrightarrow> P mem order"
  shows "P mem order"
proof (induction "length order" arbitrary: mem order rule: less_induct)
  case less
  show ?case by (rule assms) (simp add: less)
qed

lemma set_remove_at: "i < length xs \<Longrightarrow> set xs = insert (xs ! i) (set (remove_at i xs))"
  using id_take_nth_drop [of i xs] by (metis remove_at_def Un_insert_right list.simps(15) set_append)

lemma set_m_del: "set (m_del k m) = {x \<in> set m. fst x \<noteq> k}"
  unfolding m_del_def by (induction m) auto

lemma set_m_put: "set (m_put k v m) \<subseteq> insert (k, v) (set m)"
  unfolding m_put_def by (induction m) auto

text \<open>Every key of the map occurs in the eviction order.\<close>

definition keys_in :: "('k, 'v) gomap \<Rightarrow> 'k list \<Rightarrow> bool" where
  "keys_in mem order \<longleftrightarrow> fst ` set mem \<subseteq> set order"

lemma keys_m_put: "fst ` set (m_put k v m) = insert k (fst ` set m)"
  by (simp add: m_put_def dom_update)

lemma keys_in_simps [simp]:
  "keys_in [] order"
  "keys_in mem [] \<longleftrightarrow> mem = []"
  "keys_in mem order \<Longrightarrow> keys_in (m_put k v mem) (order @ [k])"
  "keys_in mem order \<Longrightarrow> keys_in (m_del k mem) order"
  "keys_in mem order \<Longrightarrow> k \<in> set order \<Longrightarrow> keys_in (m_put k v mem) order"
  by (auto simp: keys_in_def set_m_del keys_m_put)

lemma keys_in_remove_at:
  "keys_in mem order \<Longrightarrow> i < length order \<Longrightarrow> keys_in (m_del (order ! i) mem) (remove_at i order)"
  using set_remove_at [of i order] by (auto simp: keys_in_def set_m_del)

lemma keys_in_mem: "keys_in mem order \<Longrightarrow> m_get mem k = Some v \<Longrightarrow> k \<in> set order"
  by (force simp: keys_in_def dest: map_of_SomeD)

lemma evict_ok:
  assumes "m_ok mem" and "keys_in mem order"
  shows "m_ok (fst (evict n mem order)) \<and> keys_in (fst (evict n mem order)) (snd (evict n mem order))
     \<and> (0 \<le> n \<longrightarrow> int (length (fst (evict n mem order))) \<le> n)"
  using assms
proof (induction mem order rule: evict_induct [where maxSize = n])
  case (Step mem order)
  show ?case
  proof (cases "n < int (length mem) \<and> order \<noteq> []")
    case True
    with Step.IH [of "lfu_index mem order"] Step.prems show ?thesis
      by (simp add: evict.simps [of n mem] Let_def keys_in_remove_at)
  next
    case False
    with Step.prems show ?thesis by (auto simp: evict.simps [of n mem])
  qed
qed

lemma evict_subset: "set (fst (evict n mem order)) \<subseteq> set mem"
proof (induction mem order rule: evict_induct [where maxSize = n])
  case (Step mem order)
  show ?case using Step by (auto simp: set_m_del evict.simps [of n mem] Let_def)
qed

definition cache_ok :: "('f, 'r) Cache \<Rightarrow> bool" where
  "cache_ok c \<longleftrightarrow> m_ok (c_mem c) \<and> keys_in (c_mem c) (c_order c)
     \<and> (0 \<le> c_maxSize c \<longrightarrow> int (length (c_mem c)) \<le> c_maxSize c)"

datatype ('f, 'r) cache_event =
    CPut time Request 'r
  | CPutEmbedding time Request 'r "'f list"
  | CGet time time time Request

fun cache_step :: "('f, 'r) cache_lib \<Rightarrow> ('f, 'r) cache_event \<Rightarrow> ('f, 'r) Cache \<Rightarrow> ('f, 'r) Cache" where
  "cache_step lib (CPut now req resp) c = Put lib now req resp c"
| "cache_step lib (CPutEmbedding now req resp emb) c = PutWithEmbedding lib now req resp emb c"
| "cache_step lib (CGet now1 now2 now3 req) c = snd (Get_cached lib now1 now2 now3 req c)"

lemma putWithToolsAndEmbed_ok: "cache_ok c \<Longrightarrow> cache_ok (putWithToolsAndEmbed h r t i emb c)"
  using evict_ok [of "m_put h \<lparr>en_Response = r, en_CreatedAt = t, en_InvolvedTools = i, en_Hits = 0, en_Embedding = emb\<rparr>
      (c_mem c)" "c_order c @ [h]" "c_maxSize c"]
  by (simp add: cache_ok_def putWithToolsAndEmbed_def Let_def case_prod_unfold)

lemma persist_ok [simp]: "cache_ok (persist lib h r t c) = cache_ok c"
  by (auto simp: cache_ok_def persist_def Let_def split: option.splits)

lemma get_slow_ok: "cache_ok c \<Longrightarrow> cache_ok (snd (get_slow lib t2 t3 req c))"
  using putWithToolsAndEmbed_ok [of c]
  by (auto simp: get_slow_def get_stored_def put_def putWithTools_def Let_def cache_ok_def split: option.splits)

lemma cache_step_ok: "cache_ok c \<Longrightarrow> cache_ok (cache_step lib e c)"
proof (cases e)
  case (CGet t1 t2 t3 req)
  assume c: "cache_ok c"
  let ?h = "hashRequest lib req"
  have del: "cache_ok (c\<lparr>c_mem := m_del ?h (c_mem c)\<rparr>)"
    using c length_delete_le [of ?h "c_mem c"] by (auto simp: cache_ok_def) (simp add: m_del_def)
  have hit: "cache_ok (c\<lparr>c_mem := m_put ?h e' (c_mem c)\<rparr>)" if "m_get (c_mem c) ?h \<noteq> None" for e'
    using c that by (auto simp: cache_ok_def length_m_put keys_in_mem)
  show ?thesis using c hit get_slow_ok [OF del] get_slow_ok [OF c]
    by (auto simp: CGet Get_cached_def Let_def split: option.splits)
qed (simp_all add: Put_def PutWithEmbedding_def putWithToolsAndEmbed_ok Let_def)

interpretation llm_cache: event_system "NewCache cfg store" "cache_step lib" cache_ok for cfg store lib
  by unfold_locales (simp add: cache_ok_def NewCache_def, rule cache_step_ok)

lemma maxSize_step [simp]: "c_maxSize (cache_step lib e c) = c_maxSize c" "c_ttl (cache_step lib e c) = c_ttl c"
  by (cases e; auto simp: Put_def PutWithEmbedding_def Get_cached_def get_slow_def get_stored_def put_def putWithTools_def
      putWithToolsAndEmbed_def persist_def Let_def split: option.splits prod.splits)+

lemma maxSize_fold [simp]:
  "c_maxSize (fold (cache_step lib) es c) = c_maxSize c" "c_ttl (fold (cache_step lib) es c) = c_ttl c"
  by (induction es arbitrary: c) simp_all

text \<open>
  The eviction loop keeps the map within its bound: after any sequence of stores and lookups
  the cache holds at most the configured number of entries, however often keys are stored again,
  expire or come back from the table.
\<close>

theorem cache_size_bounded:
  assumes "0 \<le> cfg_MaxEntries cfg"
  shows "int (length (c_mem (fold (cache_step lib) es (NewCache cfg store)))) \<le> cfg_MaxEntries cfg"
  using llm_cache.inv_run [of lib es cfg store] assms by (simp add: cache_ok_def) (simp add: NewCache_def)

section \<open>What a lookup returns\<close>

type_synonym ('f, 'r) stored = "string \<times> 'f list \<times> 'r \<times> time"

fun stored_by :: "('f, 'r) cache_lib \<Rightarrow> ('f, 'r) cache_event \<Rightarrow> ('f, 'r) stored list" where
  "stored_by lib (CPut now req resp) =
     [(hashRequest lib req, if extractPromptText req \<noteq> [] then cl_embed lib (extractPromptText req) else [], resp, now)]"
| "stored_by lib (CPutEmbedding now req resp emb) = [(hashRequest lib req, emb, resp, now)]"
| "stored_by lib (CGet t1 t2 t3 req) = []"

text \<open>
  A response itself, or what encoding it for the table and decoding it again leaves of it: \<^verbatim>\<open>llm.Response\<close> keeps
  its provider, locality and latency out of JSON.
\<close>

definition recoded :: "('f, 'r) cache_lib \<Rightarrow> 'r \<Rightarrow> 'r \<Rightarrow> bool" where
  "recoded lib resp r \<longleftrightarrow> r = resp \<or> (\<exists>json. cl_marshal lib resp = Some json \<and> cl_unmarshal lib json = Some r)"

definition entry_from :: "('f, 'r) cache_lib \<Rightarrow> ('f, 'r) stored set \<Rightarrow> string \<Rightarrow> ('f, 'r) cacheEntry \<Rightarrow> bool" where
  "entry_from lib hist k e \<longleftrightarrow> (\<exists>emb resp t. (k, emb, resp, t) \<in> hist \<and> recoded lib resp (en_Response e) \<and> en_CreatedAt e \<le> t
     \<and> (en_Embedding e = [] \<or> en_Embedding e = emb))"

definition row_from :: "('f, 'r) cache_lib \<Rightarrow> duration \<Rightarrow> ('f, 'r) stored set \<Rightarrow> cache_row \<Rightarrow> bool" where
  "row_from lib ttl hist r \<longleftrightarrow> (\<exists>emb resp t. (sc_prompt_hash r, emb, resp, t) \<in> hist
     \<and> cl_marshal lib resp = Some (sc_response r) \<and> sc_created_at r \<le> t \<and> sc_expires_at r = Some (sqlite_sec (t + ttl)))"

definition all_from :: "('k \<Rightarrow> 'v \<Rightarrow> bool) \<Rightarrow> ('k, 'v) gomap \<Rightarrow> bool" where
  "all_from P m \<longleftrightarrow> (\<forall>x \<in> set m. P (fst x) (snd x))"

lemma all_from_put: "all_from P m \<Longrightarrow> P k v \<Longrightarrow> all_from P (m_put k v m)"
  using set_m_put [of k v m] by (fastforce simp: all_from_def)

lemma all_from_subset: "all_from P m \<Longrightarrow> set m' \<subseteq> set m \<Longrightarrow> all_from P m'"
  by (auto simp: all_from_def)

lemma all_from_mono: "all_from P m \<Longrightarrow> (\<And>k v. P k v \<Longrightarrow> Q k v) \<Longrightarrow> all_from Q m"
  by (auto simp: all_from_def)

lemma all_from_get: "all_from P m \<Longrightarrow> m_get m k = Some v \<Longrightarrow> P k v"
  unfolding all_from_def by (metis fst_conv map_of_SomeD snd_conv)

lemma all_from_map: "all_from P m \<Longrightarrow> (\<And>k v. P k v \<Longrightarrow> P k (f v)) \<Longrightarrow> all_from P (m_map f m)"
  by (auto simp: all_from_def m_map_def)

lemma row_from_hits [simp]: "row_from lib ttl hist (r\<lparr>sc_hit_count := n\<rparr>) = row_from lib ttl hist r"
  by (simp add: row_from_def)

definition cache_from :: "('f, 'r) cache_lib \<Rightarrow> ('f, 'r) stored set \<Rightarrow> ('f, 'r) Cache \<Rightarrow> bool" where
  "cache_from lib hist c \<longleftrightarrow> all_from (entry_from lib hist) (c_mem c)
     \<and> (\<forall>rows. c_store c = Some rows \<longrightarrow> all_from (\<lambda>i. row_from lib (c_ttl c) hist) rows)"

text \<open>What the cache relies on: iterating a map visits its entries.\<close>

definition lib_ok :: "('f, 'r) cache_lib \<Rightarrow> bool" where
  "lib_ok lib \<longleftrightarrow> (\<forall>xs. set (cl_iter lib xs) = set xs)"

lemma sqlite_sec_le: "sqlite_sec t \<le> t"
  by (simp add: sqlite_sec_def go_time)

lemma sqlite_sec_less: "sqlite_sec a < sqlite_sec b \<Longrightarrow> a < b"
proof (rule ccontr)
  assume "\<not> a < b" "sqlite_sec a < sqlite_sec b"
  moreover from this have "b div second \<le> a div second" by (intro zdiv_mono1) (simp_all add: go_time)
  ultimately show False by (simp add: sqlite_sec_def minus_mod_eq_mult_div go_time)
qed

lemma entry_from_mono: "entry_from lib hist k e \<Longrightarrow> hist \<subseteq> hist' \<Longrightarrow> entry_from lib hist' k e"
  unfolding entry_from_def by blast

lemma row_from_mono: "row_from lib ttl hist r \<Longrightarrow> hist \<subseteq> hist' \<Longrightarrow> row_from lib ttl hist' r"
  unfolding row_from_def by blast

lemma cache_from_mono: "cache_from lib hist c \<Longrightarrow> hist \<subseteq> hist' \<Longrightarrow> cache_from lib hist' c"
  unfolding cache_from_def by (auto split: option.splits elim!: all_from_mono intro: entry_from_mono row_from_mono)

lemma put_from:
  assumes "cache_from lib hist c"
    and "entry_from lib hist h \<lparr>en_Response = r, en_CreatedAt = t, en_InvolvedTools = i, en_Hits = 0, en_Embedding = emb\<rparr>"
  shows "cache_from lib hist (putWithToolsAndEmbed h r t i emb c)"
  using assms all_from_subset [OF all_from_put evict_subset, of "entry_from lib hist" "c_mem c" h]
  by (auto simp: cache_from_def putWithToolsAndEmbed_def Let_def case_prod_unfold split: option.splits)

lemma persist_from:
  assumes "cache_from lib hist c" and "(h, emb, r, t) \<in> hist"
  shows "cache_from lib hist (persist lib h r t c)"
proof -
  have "row_from lib (c_ttl c) hist \<lparr>sc_prompt_hash = h, sc_response = j, sc_hit_count = 0, sc_created_at = sqlite_sec t,
      sc_expires_at = Some (sqlite_sec (t + c_ttl c))\<rparr>" if "cl_marshal lib r = Some j" for j
    using assms(2) that sqlite_sec_le [of t] by (auto simp: row_from_def)
  then show ?thesis using assms(1)
    by (auto simp: cache_from_def persist_def Let_def intro: all_from_put split: option.splits)
qed

lemma newest_row_in:
  assumes "newest_row h now rows = Some r"
  shows "r \<in> snd ` set rows \<and> sc_prompt_hash r = h \<and> (case sc_expires_at r of None \<Rightarrow> True | Some e \<Rightarrow> sqlite_sec now < e)"
proof -
  let ?f = "\<lambda>(i, r) best. if sc_prompt_hash r = h \<and> (case sc_expires_at r of None \<Rightarrow> True | Some e \<Rightarrow> sqlite_sec now < e)
           \<and> (case best of None \<Rightarrow> True | Some b \<Rightarrow> sc_created_at b < sc_created_at r) then Some r else best"
  have "fold ?f rows best = Some r \<Longrightarrow> best = Some r \<or> r \<in> snd ` set rows \<and> sc_prompt_hash r = h
      \<and> (case sc_expires_at r of None \<Rightarrow> True | Some e \<Rightarrow> sqlite_sec now < e)" for best
  proof (induction rows arbitrary: best)
    case (Cons x rows)
    from Cons.prems have "fold ?f rows (?f x best) = Some r" by simp
    from Cons.IH [OF this] show ?case by (cases x) (auto split: if_splits)
  qed simp
  from this [of None] show ?thesis using assms by (simp add: newest_row_def)
qed

lemma semantic_scan_in:
  "semantic_scan lib ttl now emb es best = (Some e, sim) \<Longrightarrow>
     best = (Some e, sim) \<or> (e \<in> snd ` set es \<and> en_Embedding e \<noteq> [] \<and> time_sub now (en_CreatedAt e) < ttl
        \<and> sim = cl_cosine lib emb (en_Embedding e))"
proof (induction es arbitrary: best)
  case (Cons x es)
  obtain k d where x: "x = (k, d)" by (cases x)
  let ?best = "if en_Embedding d = [] \<or> ttl \<le> time_sub now (en_CreatedAt d) then best
     else let sim = cl_cosine lib emb (en_Embedding d) in if cl_less lib (snd best) sim then (Some d, sim) else best"
  have "semantic_scan lib ttl now emb es ?best = (Some e, sim)" using Cons.prems by (simp add: x)
  from Cons.IH [OF this] show ?case
  proof
    assume "?best = (Some e, sim)"
    then show ?thesis by (cases "?best = best") (auto simp: x Let_def split: if_splits)
  qed auto
qed simp

text \<open>A stored response is good for a request at some time.\<close>

definition fresh_for :: "('f, 'r) cache_lib \<Rightarrow> duration \<Rightarrow> ('f, 'r) stored set \<Rightarrow> time \<Rightarrow> Request \<Rightarrow> 'r \<Rightarrow> bool" where
  "fresh_for lib ttl hist now req r \<longleftrightarrow> (\<exists>k emb resp t. (k, emb, resp, t) \<in> hist \<and> recoded lib resp r \<and> now - t < ttl
     \<and> (k = hashRequest lib req
        \<or> extractPromptText req \<noteq> []
          \<and> \<not> cl_less lib (cl_cosine lib (cl_embed lib (extractPromptText req)) emb) (cl_threshold lib)))"

lemma young_enough: "time_sub now created < ttl \<Longrightarrow> created \<le> t \<Longrightarrow> 0 \<le> ttl \<Longrightarrow> ttl < 2 ^ 63 \<Longrightarrow> now - t < ttl"
  by (auto simp: time_sub_def)

lemma semantic_fresh:
  assumes "lib_ok lib" and "cache_from lib hist c" and "0 \<le> c_ttl c" and "c_ttl c < 2 ^ 63"
    and "GetSemantic lib now2 (cl_embed lib (extractPromptText req)) (cl_threshold lib) c = Some r"
    and "extractPromptText req \<noteq> []" and "now1 \<le> now2"
  shows "fresh_for lib (c_ttl c) hist now1 req r"
proof -
  let ?q = "cl_embed lib (extractPromptText req)"
  from assms(5) obtain e sim
    where scan: "semantic_scan lib (c_ttl c) now2 ?q (cl_iter lib (c_mem c)) (None, cl_zero lib) = (Some e, sim)"
      and sim: "\<not> cl_less lib sim (cl_threshold lib)" and r: "r = en_Response e"
    by (auto simp: GetSemantic_def split: prod.splits option.splits if_splits)
  from semantic_scan_in [OF scan] obtain k where e: "(k, e) \<in> set (c_mem c)" "en_Embedding e \<noteq> []"
      "time_sub now2 (en_CreatedAt e) < c_ttl c" "sim = cl_cosine lib ?q (en_Embedding e)"
    using assms(1) by (auto simp: lib_ok_def)
  from assms(2) e(1) have "entry_from lib hist k e" by (auto simp: cache_from_def all_from_def)
  with e(2) obtain resp t where t: "(k, en_Embedding e, resp, t) \<in> hist" "en_CreatedAt e \<le> t" "recoded lib resp r"
    by (auto simp: entry_from_def r)
  from young_enough [OF e(3) t(2) assms(3,4)] assms(7) have "now1 - t < c_ttl c" by simp
  with t(1,3) sim assms(6) show ?thesis unfolding fresh_for_def e(4) by blast
qed

lemma get_stored_fresh:
  assumes "lib_ok lib" and "cache_from lib hist c" and "get_stored lib now3 (hashRequest lib req) c = (res, c')"
    and "now1 \<le> now3"
  shows "cache_from lib hist c' \<and> (\<forall>r. res = Some r \<longrightarrow> fresh_for lib (c_ttl c) hist now1 req r)"
proof (cases "res")
  case None
  with assms(2,3) show ?thesis by (auto simp: get_stored_def Let_def split: option.splits if_splits)
next
  case (Some r)
  let ?h = "hashRequest lib req"
  let ?c1 = "\<lambda>row. put ?h r (sc_created_at row) c"
  let ?hit = "\<lambda>r. if sc_prompt_hash r = ?h then r\<lparr>sc_hit_count := sc_hit_count r + 1\<rparr> else r"
  from Some assms(3) obtain rows row where s: "c_store c = Some rows" and row: "newest_row ?h now3 rows = Some row"
    and un: "cl_unmarshal lib (sc_response row) = Some r"
    and c': "c' = ?c1 row \<or> c' = (?c1 row)\<lparr>c_store := Some (m_map ?hit rows)\<rparr>"
    by (auto simp: get_stored_def Let_def split: option.splits if_splits)
  have rows: "all_from (\<lambda>i. row_from lib (c_ttl c) hist) rows" using assms(2) s by (simp add: cache_from_def)
  from newest_row_in [OF row] rows have h: "sc_prompt_hash row = ?h" and "row_from lib (c_ttl c) hist row"
    and live: "case sc_expires_at row of None \<Rightarrow> True | Some e \<Rightarrow> sqlite_sec now3 < e" by (auto simp: all_from_def)
  then obtain emb resp t where t: "(?h, emb, resp, t) \<in> hist" "cl_marshal lib resp = Some (sc_response row)"
    "sc_created_at row \<le> t" "sc_expires_at row = Some (sqlite_sec (t + c_ttl c))" by (auto simp: row_from_def h)
  from t(2) un have resp: "recoded lib resp r" by (simp add: recoded_def)
  from sqlite_sec_less [of now3 "t + c_ttl c"] live t(4) have "now3 < t + c_ttl c" by simp
  then have fresh: "fresh_for lib (c_ttl c) hist now1 req r"
    using t(1) resp assms(4) unfolding fresh_for_def by (intro exI [of _ ?h] exI [of _ emb] exI [of _ resp] exI [of _ t]) simp
  have put: "cache_from lib hist (?c1 row)"
    unfolding put_def putWithTools_def using t(1,3) resp by (intro put_from assms(2)) (auto simp: entry_from_def)
  have "all_from (\<lambda>i. row_from lib (c_ttl c) hist) (m_map ?hit rows)" using rows by (rule all_from_map) simp
  moreover have "c_ttl (?c1 row) = c_ttl c"
    by (simp add: put_def putWithTools_def putWithToolsAndEmbed_def Let_def case_prod_unfold)
  ultimately show ?thesis using c' Some fresh put by (auto simp: cache_from_def)
qed

lemma get_slow_fresh:
  assumes "lib_ok lib" and "cache_from lib hist c" and "0 \<le> c_ttl c" and "c_ttl c < 2 ^ 63"
    and "get_slow lib now2 now3 req c = (res, c')" and "now1 \<le> now2" and "now2 \<le> now3"
  shows "cache_from lib hist c' \<and> (\<forall>r. res = Some r \<longrightarrow> fresh_for lib (c_ttl c) hist now1 req r)"
proof (cases "if extractPromptText req \<noteq> []
    then GetSemantic lib now2 (cl_embed lib (extractPromptText req)) (cl_threshold lib) c else None")
  case (Some r)
  then have "res = Some r" "c' = c" using assms(5) by (simp_all add: get_slow_def Let_def)
  with Some semantic_fresh [OF assms(1-4) _ _ assms(6)] assms(2) show ?thesis by (auto split: if_splits)
next
  case None
  then have "get_stored lib now3 (hashRequest lib req) c = (res, c')" using assms(5) by (simp add: get_slow_def Let_def)
  from get_stored_fresh [OF assms(1,2) this] assms(6,7) show ?thesis by simp
qed

lemma get_fresh:
  assumes "lib_ok lib" and "cache_from lib hist c" and "0 \<le> c_ttl c" and "c_ttl c < 2 ^ 63"
    and "Get_cached lib now1 now2 now3 req c = (res, c')" and "now1 \<le> now2" and "now2 \<le> now3"
  shows "cache_from lib hist c' \<and> (\<forall>r. res = Some r \<longrightarrow> fresh_for lib (c_ttl c) hist now1 req r)"
proof (cases "m_get (c_mem c) (hashRequest lib req)")
  case None
  then have "get_slow lib now2 now3 req c = (res, c')" using assms(5) by (simp add: Get_cached_def Let_def)
  from get_slow_fresh [OF assms(1-4) this assms(6,7)] show ?thesis .
next
  case (Some e)
  let ?h = "hashRequest lib req"
  from Some assms(2) have e: "entry_from lib hist ?h e" by (auto simp: cache_from_def intro: all_from_get)
  then obtain emb resp t where t: "(?h, emb, resp, t) \<in> hist" "en_CreatedAt e \<le> t" "recoded lib resp (en_Response e)"
    by (auto simp: entry_from_def)
  show ?thesis
  proof (cases "time_sub now1 (en_CreatedAt e) < effective_ttl (c_ttl c) (en_InvolvedTools e)")
    case True
    have "effective_ttl (c_ttl c) (en_InvolvedTools e) \<le> c_ttl c"
      using assms(3) by (cases "c_ttl c = 0") (auto simp: effective_ttl_def)
    with True have "time_sub now1 (en_CreatedAt e) < c_ttl c" by simp
    from young_enough [OF this t(2) assms(3,4)] t(1,3) have "fresh_for lib (c_ttl c) hist now1 req (en_Response e)"
      by (auto simp: fresh_for_def)
    moreover have "all_from (entry_from lib hist) (m_put ?h (e\<lparr>en_Hits := en_Hits e + 1\<rparr>) (c_mem c))"
      using assms(2) e by (intro all_from_put) (simp_all add: cache_from_def entry_from_def)
    ultimately show ?thesis using assms(2,5) True Some by (auto simp: Get_cached_def Let_def cache_from_def)
  next
    case False
    have del: "cache_from lib hist (c\<lparr>c_mem := m_del ?h (c_mem c)\<rparr>)"
      using assms(2) by (auto simp: cache_from_def all_from_def set_m_del)
    have "get_slow lib now2 now3 req (c\<lparr>c_mem := m_del ?h (c_mem c)\<rparr>) = (res, c')"
      using assms(5) Some False by (simp add: Get_cached_def Let_def)
    from get_slow_fresh [OF assms(1) del _ _ this assms(6,7)] assms(3,4) show ?thesis by simp
  qed
qed

text \<open>The clock does not run backwards within one lookup.\<close>

fun event_ok :: "('f, 'r) cache_event \<Rightarrow> bool" where
  "event_ok (CGet t1 t2 t3 req) \<longleftrightarrow> t1 \<le> t2 \<and> t2 \<le> t3"
| "event_ok e \<longleftrightarrow> True"

lemma cache_from_step:
  assumes "lib_ok lib" and "0 \<le> c_ttl c" and "c_ttl c < 2 ^ 63" and "cache_from lib hist c" and "event_ok e"
  shows "cache_from lib (hist \<union> set (stored_by lib e)) (cache_step lib e c)"
proof (cases e)
  case (CGet t1 t2 t3 req)
  obtain res c' where "Get_cached lib t1 t2 t3 req c = (res, c')" by (cases "Get_cached lib t1 t2 t3 req c")
  with get_fresh [OF assms(1,4,2,3) this] assms(5) CGet show ?thesis by simp
next
  case (CPut now req r)
  let ?emb = "if extractPromptText req \<noteq> [] then cl_embed lib (extractPromptText req) else []"
  show ?thesis unfolding CPut cache_step.simps Put_def Let_def
    by (rule persist_from [OF put_from [OF cache_from_mono [OF assms(4)]], where emb = ?emb])
      (auto simp: entry_from_def recoded_def split del: if_split)
next
  case (CPutEmbedding now req r emb)
  show ?thesis unfolding CPutEmbedding cache_step.simps PutWithEmbedding_def Let_def
    by (rule persist_from [OF put_from [OF cache_from_mono [OF assms(4)]], where emb = emb]) (auto simp: entry_from_def recoded_def)
qed

lemma cache_from_fold:
  assumes "lib_ok lib" and "0 \<le> c_ttl c" and "c_ttl c < 2 ^ 63" and "cache_from lib hist c" and "list_all event_ok es"
  shows "cache_from lib (hist \<union> set (concat (map (stored_by lib) es))) (fold (cache_step lib) es c)"
  using assms
proof (induction es arbitrary: hist c)
  case (Cons e es)
  from cache_from_step [OF Cons.prems(1-4)] Cons.prems(5)
  have "cache_from lib (hist \<union> set (stored_by lib e)) (cache_step lib e c)" by simp
  from Cons.IH [OF Cons.prems(1) _ _ this] Cons.prems show ?case by (simp add: Un_assoc)
qed simp

text \<open>
  C34. A lookup answers only with a response that was stored less than the time to live ago, for a
  request with the same hash or with a prompt similar enough to the present one, or with what the JSON
  coding of the table leaves of that response, after any sequence of stores and lookups on a cache whose
  map and table start empty, whether the answer comes from the map, from the similarity search or from
  the table.
\<close>

theorem cache_answers_are_fresh:
  assumes "lib_ok lib" and "0 \<le> cfg_TTL cfg" and "cfg_TTL cfg < 2 ^ 63" and "list_all event_ok es"
    and "store = None \<or> store = Some []" and "now1 \<le> now2" and "now2 \<le> now3"
    and "fst (Get_cached lib now1 now2 now3 req (fold (cache_step lib) es (NewCache cfg store))) = Some resp"
  shows "fresh_for lib (cfg_TTL cfg) (set (concat (map (stored_by lib) es))) now1 req resp"
proof -
  let ?c0 = "NewCache cfg store" and ?h = "set (concat (map (stored_by lib) es))"
  have ttl: "c_ttl ?c0 = cfg_TTL cfg" by (simp add: NewCache_def)
  have "cache_from lib {} ?c0" using assms(5) by (auto simp: cache_from_def NewCache_def all_from_def)
  from cache_from_fold [OF assms(1) _ _ this assms(4)] assms(2,3)
  have "cache_from lib ?h (fold (cache_step lib) es ?c0)" by (simp add: ttl)
  from get_fresh [OF assms(1) this _ _ prod.collapse [symmetric] assms(6,7)] assms(2,3,8) show ?thesis
    by (simp add: ttl)
qed

definition demo_cache_lib :: "(nat, string) cache_lib" where
  "demo_cache_lib = \<lparr>cl_sha256 = (\<lambda>s. s), cl_tools_json = (\<lambda>ts. ''tools''), cl_marshal = Some, cl_unmarshal = Some,
     cl_embed = (\<lambda>s. [length s]), cl_cosine = (\<lambda>a b. if a = b then 100 else 0), cl_less = (<), cl_zero = 0,
     cl_threshold = 85, cl_iter = (\<lambda>xs. xs), cl_insert_ok = (\<lambda>_. True), cl_query_ok = (\<lambda>_. True), cl_update_ok = (\<lambda>_. True)\<rparr>"

definition demo_req :: "(string \<times> string) list \<Rightarrow> ToolDef list \<Rightarrow> Request" where
  "demo_req ms tools = \<lparr>lr_Model = ''m'', lr_Messages = map (\<lambda>(r, c). plain_message r c) ms, lr_Tools = tools,
     lr_IntentClass = [], lr_AgentRole = [], lr_TurnWeight = [], lr_TaskIntent = [], lr_TaskComplexity = []\<rparr>"

theorem cache_answers_are_fresh_witness:
  "fresh_for demo_cache_lib (cfg_TTL DefaultCacheConfig)
     (set (concat (map (stored_by demo_cache_lib) [CPut 0 (demo_req [(''user'', ''hi'')] []) ''hello'']))) minute
     (demo_req [(''user'', ''hi'')] []) ''hello''"
proof (rule cache_answers_are_fresh)
  show "lib_ok demo_cache_lib" by (simp add: lib_ok_def demo_cache_lib_def)
  show "0 \<le> cfg_TTL DefaultCacheConfig" "cfg_TTL DefaultCacheConfig < 2 ^ 63"
    by (simp_all add: DefaultCacheConfig_def go_time)
  show "list_all event_ok [CPut 0 (demo_req [(''user'', ''hi'')] []) ''hello'' :: (nat, string) cache_event]" by simp
  show "Some [] = None \<or> Some [] = Some []" by simp
  show "minute \<le> minute" "minute \<le> minute" by simp_all
  show "fst (Get_cached demo_cache_lib minute minute minute (demo_req [(''user'', ''hi'')] [])
      (fold (cache_step demo_cache_lib) [CPut 0 (demo_req [(''user'', ''hi'')] []) ''hello''] (NewCache DefaultCacheConfig (Some []))))
      = Some ''hello''" by code_simp
qed

theorem cache_size_bounded_witness:
  "int (length (c_mem (fold (cache_step demo_cache_lib)
     (map (\<lambda>(t, s). CPut t (demo_req [(''user'', s)] []) s) [(0, ''a''), (1, ''bb''), (2, ''ccc'')])
     (NewCache (DefaultCacheConfig\<lparr>cfg_MaxEntries := 2\<rparr>) (Some []))))) \<le> 2"
proof -
  have max: "cfg_MaxEntries (DefaultCacheConfig\<lparr>cfg_MaxEntries := 2\<rparr>) = 2" by simp
  then have "0 \<le> cfg_MaxEntries (DefaultCacheConfig\<lparr>cfg_MaxEntries := 2\<rparr>)" by simp
  from cache_size_bounded [OF this] show ?thesis unfolding max .
qed

section \<open>Limits of the cache\<close>

lemma lfu_scan_least:
  "snd (lfu_scan mem i hs best) \<le> snd best
   \<and> (\<forall>h \<in> set hs. \<forall>e. m_get mem h = Some e \<longrightarrow> snd (lfu_scan mem i hs best) \<le> en_Hits e)
   \<and> (lfu_scan mem i hs best = best
      \<or> (\<exists>j e. j < length hs \<and> fst (lfu_scan mem i hs best) = i + j \<and> m_get mem (hs ! j) = Some e
           \<and> en_Hits e = snd (lfu_scan mem i hs best)))"
proof (induction hs arbitrary: i best)
  case (Cons h hs)
  let ?b = "case m_get mem h of Some e \<Rightarrow> if en_Hits e < snd best then (i, en_Hits e) else best | None \<Rightarrow> best"
  have b: "snd ?b \<le> snd best" "m_get mem h = Some e \<Longrightarrow> snd ?b \<le> en_Hits e"
    "?b = best \<or> (\<exists>e. m_get mem h = Some e \<and> ?b = (i, en_Hits e))" for e
    by (auto split: option.splits)
  note IH = Cons.IH [of "Suc i" ?b]
  have "lfu_scan mem (Suc i) hs ?b = best \<or> (\<exists>j e. j < length (h # hs) \<and> fst (lfu_scan mem (Suc i) hs ?b) = i + j
      \<and> m_get mem ((h # hs) ! j) = Some e \<and> en_Hits e = snd (lfu_scan mem (Suc i) hs ?b))"
  proof (cases "lfu_scan mem (Suc i) hs ?b = ?b")
    case True
    from b(3) show ?thesis
    proof
      assume "\<exists>e. m_get mem h = Some e \<and> ?b = (i, en_Hits e)"
      then show ?thesis unfolding True by (intro disjI2 exI [of _ 0]) auto
    next
      assume "?b = best"
      with True show ?thesis by (intro disjI1) (rule trans)
    qed
  next
    case False
    with IH obtain j e where "j < length hs" "fst (lfu_scan mem (Suc i) hs ?b) = Suc i + j" "m_get mem (hs ! j) = Some e"
      "en_Hits e = snd (lfu_scan mem (Suc i) hs ?b)" by blast
    then show ?thesis by (intro disjI2 exI [of _ "Suc j"] exI [of _ e]) simp
  qed
  with IH b(1,2) show ?case by (auto intro: order_trans)
qed simp

lemma lfu_index_unused:
  assumes "h \<in> set order" and "m_get mem h = Some e" and "en_Hits e = 0"
  shows "\<exists>e'. m_get mem (order ! lfu_index mem order) = Some e' \<and> en_Hits e' = 0"
proof -
  note least = lfu_scan_least [of mem 0 order "(0, - 1)"]
  from least assms have zero: "snd (lfu_scan mem 0 order (0, - 1)) = 0" by (metis word_zero_le order_antisym)
  then have "lfu_scan mem 0 order (0, - 1) \<noteq> (0, - 1)" by auto
  with least zero show ?thesis unfolding lfu_index_def by auto
qed

text \<open>
  A cache in which every entry has been used and that is full stops learning: a new response is
  evicted by the very call that stores it, since it is the only entry without hits, and the map is as
  before.
\<close>

theorem full_cache_rejects_new_entry:
  assumes "cache_ok c" and "int (length (c_mem c)) = c_maxSize c" and "m_get (c_mem c) hash = None"
    and "list_all (\<lambda>(k, e). en_Hits e \<noteq> 0) (c_mem c)"
  shows "m_get (c_mem (putWithToolsAndEmbed hash resp now tools emb c)) k = m_get (c_mem c) k"
proof -
  let ?e = "\<lparr>en_Response = resp, en_CreatedAt = now, en_InvolvedTools = tools, en_Hits = 0, en_Embedding = emb\<rparr>"
  let ?mem = "m_put hash ?e (c_mem c)" and ?order = "c_order c @ [hash]"
  have ok: "m_ok (c_mem c)" using assms(1) by (simp add: cache_ok_def)
  have len: "length ?mem = Suc (length (c_mem c))" using assms(3) ok by (simp add: length_m_put)
  have used: "en_Hits e \<noteq> 0" if "m_get (c_mem c) j = Some e" for j e
    using assms(4) map_of_SomeD [OF that] by (auto simp: list_all_iff)
  obtain e' where "m_get ?mem (?order ! lfu_index ?mem ?order) = Some e'" "en_Hits e' = 0"
    using lfu_index_unused [of hash ?order ?mem ?e] by auto
  then have victim: "?order ! lfu_index ?mem ?order = hash" using used by (auto split: if_splits)
  have "length (m_del hash ?mem) = length (c_mem c)"
    using m_ok_card [of "m_del hash ?mem"] m_ok_card [OF ok] ok assms(3) by (simp add: domIff)
  then have "fst (evict (c_maxSize c) ?mem ?order) = m_del hash ?mem"
    using len assms(2) by (simp add: evict.simps [of _ ?mem] evict.simps [of _ "m_del hash ?mem"] Let_def victim)
  then show ?thesis using assms(3) by (simp add: putWithToolsAndEmbed_def Let_def case_prod_unfold)
qed

definition hot_cache :: "(nat, string) Cache" where
  "hot_cache = snd (Get_cached demo_cache_lib 1 1 1 (demo_req [(''user'', ''hi'')] [])
     (Put demo_cache_lib 0 (demo_req [(''user'', ''hi'')] []) ''hello'' (NewCache (DefaultCacheConfig\<lparr>cfg_MaxEntries := 1\<rparr>) None)))"

theorem full_cache_rejects_new_entry_witness:
  "m_get (c_mem (putWithToolsAndEmbed ''new'' ''answer'' 2 False [] hot_cache)) ''new'' = None"
proof -
  have "cache_ok hot_cache" "int (length (c_mem hot_cache)) = c_maxSize hot_cache"
    "list_all (\<lambda>(k, e). en_Hits e \<noteq> 0) (c_mem hot_cache)"
    unfolding cache_ok_def m_ok_def keys_in_def by code_simp+
  moreover have new: "m_get (c_mem hot_cache) ''new'' = None" by code_simp
  ultimately show ?thesis using full_cache_rejects_new_entry [of hot_cache "''new''"] by simp
qed

text \<open>Roles and contents are hashed without separators: different conversations share a key.\<close>

theorem request_hash_collides:
  "hashRequest lib (demo_req [(''user'', ''a''), (''user'', ''b'')] []) = hashRequest lib (demo_req [(''user'', ''auserb'')] [])"
  by (simp add: hashRequest_def hash_input_def demo_req_def plain_message_def)

text \<open>
  The shorter life of answers to requests with tools does not hold: after a quarter of the time to
  live the entry leaves the map, and the same answer comes back from the table, where the full time
  to live applies, as an entry that no longer remembers the tools.
\<close>

theorem tool_ttl_not_enforced:
  "let tool = \<lparr>tdef_Type = ''function'', tdef_Name = ''clock'', tdef_Description = [], tdef_Parameters = []\<rparr>;
       req = demo_req [(''system'', ''s'')] [tool];
       c = Put demo_cache_lib 0 req ''12:00'' (NewCache DefaultCacheConfig (Some []));
       (res, c') = Get_cached demo_cache_lib (59 * minute) (59 * minute) (59 * minute) req c
   in effective_ttl (cfg_TTL DefaultCacheConfig) True = 15 * minute \<and> res = Some ''12:00''
      \<and> map (\<lambda>(k, e). en_InvolvedTools e) (c_mem c') = [False]"
  by code_simp

end
