(* ===== verification/ToolMessages.thy ===== *)
theory ToolMessages
  imports Session
begin

text \<open>
  The translation of the conversation into the message format of a provider,
  \<^verbatim>\<open>internal/llm/tool_message_normalization.go\<close>: the normalizers for OpenAI-compatible providers and for
  Ollama and the factory that picks one. A provider message is a Go map to \<^verbatim>\<open>any\<close>, here to the values
  the code builds; the JSON decoder of tool arguments is the parameter \<open>unmarshal\<close> (\<open>None\<close> is an error).
  The normalizers read a message's text only: its content parts, which \<^verbatim>\<open>provider.go\<close> says take precedence over
  the text, reach no provider.
\<close>

section \<open>Normalizers\<close>

datatype 'j jval = JStr string | JInt int | JObj "(string \<times> 'j jval) list" | JArr "'j jval list" | JDecoded 'j

type_synonym 'j provider_message = "(string, 'j jval) gomap"

datatype ToolMessageDisposition =
  ToolMessageNoTransformNeeded | ToolMessageQualifiedTransform | ToolMessageTransformFailed | ToolMessageNoQualifiedTransformer

datatype ToolMessageFidelity = ToolMessageExact | ToolMessageRepaired

record 'j NormalizationResult =
  nr_Messages :: "'j provider_message list"
  nr_Transformer :: string
  nr_Disposition :: ToolMessageDisposition
  nr_Fidelity :: ToolMessageFidelity
  nr_Reason :: string

definition defaultToolCallType :: "string \<Rightarrow> string" where
  "defaultToolCallType raw = (if trim_space raw = [] then ''function'' else raw)"

definition openAICompatibleToolCalls :: "ToolCall list \<Rightarrow> 'j jval list" where
  "openAICompatibleToolCalls toolCalls =
     map (\<lambda>tc. JObj [(''id'', JStr (tc_ID tc)), (''type'', JStr (defaultToolCallType (tc_Type tc))),
       (''function'', JObj [(''name'', JStr (tc_Name tc)), (''arguments'', JStr (tc_Arguments tc))])]) toolCalls"

definition put_if :: "bool \<Rightarrow> string \<Rightarrow> 'j jval \<Rightarrow> 'j provider_message \<Rightarrow> 'j provider_message" where
  "put_if b k v m = (if b then m_put k v m else m)"

definition openai_message :: "Message \<Rightarrow> 'j provider_message" where
  "openai_message m =
     (let msg = [(''role'', JStr (msg_Role m))] in
      if msg_ToolCallID m \<noteq> []
      then put_if (msg_Name m \<noteq> []) ''name'' (JStr (msg_Name m))
             (m_put ''content'' (JStr (msg_Content m)) (m_put ''tool_call_id'' (JStr (msg_ToolCallID m)) msg))
      else if msg_Role m = ''assistant'' \<and> msg_ToolCalls m \<noteq> []
      then m_put ''tool_calls'' (JArr (openAICompatibleToolCalls (msg_ToolCalls m))) (m_put ''content'' (JStr (msg_Content m)) msg)
      else put_if (msg_Name m \<noteq> []) ''name'' (JStr (msg_Name m))
             (put_if (msg_ToolCalls m \<noteq> []) ''tool_calls'' (JArr (openAICompatibleToolCalls (msg_ToolCalls m)))
               (put_if (msg_Content m \<noteq> []) ''content'' (JStr (msg_Content m)) msg)))"

definition openai_Normalize :: "Message list \<Rightarrow> (string + 'j provider_message list) \<times> ToolMessageFidelity" where
  "openai_Normalize ms = (Inr (map openai_message ms), ToolMessageExact)"

definition ollamaArgumentsPayload :: "(string \<Rightarrow> 'j option) \<Rightarrow> string \<Rightarrow> 'j jval option" where
  "ollamaArgumentsPayload unmarshal raw =
     (let r = trim_space raw in if r = [] then Some (JObj []) else map_option JDecoded (unmarshal r))"

text \<open>From the call at index \<open>i\<close> on; the flag says whether any arguments were decoded.\<close>

fun ollama_calls_from :: "(string \<Rightarrow> 'j option) \<Rightarrow> int \<Rightarrow> ToolCall list \<Rightarrow> string + ('j jval list \<times> bool)" where
  "ollama_calls_from unmarshal i [] = Inr ([], False)"
| "ollama_calls_from unmarshal i (tc # tcs) =
     (case ollamaArgumentsPayload unmarshal (tc_Arguments tc) of
        None \<Rightarrow> Inl (''ollama tool call '' @ tc_Name tc @ '' arguments were not valid structured json'')
      | Some args \<Rightarrow>
          let call = JObj ([(''type'', JStr (defaultToolCallType (tc_Type tc))),
                (''function'', JObj [(''index'', JInt i), (''name'', JStr (tc_Name tc)), (''arguments'', args)])]
                @ (if tc_ID tc \<noteq> [] then [(''id'', JStr (tc_ID tc))] else []))
          in case ollama_calls_from unmarshal (i + 1) tcs of
               Inl e \<Rightarrow> Inl e
             | Inr (calls, transformed) \<Rightarrow> Inr (call # calls, transformed \<or> trim_space (tc_Arguments tc) \<noteq> []))"

definition ollamaToolCalls :: "(string \<Rightarrow> 'j option) \<Rightarrow> ToolCall list \<Rightarrow> string + ('j jval list \<times> bool)" where
  "ollamaToolCalls unmarshal tcs = ollama_calls_from unmarshal 0 tcs"

text \<open>One message; the flag says whether it was repaired.\<close>

definition ollama_message :: "(string \<Rightarrow> 'j option) \<Rightarrow> Message \<Rightarrow> string + ('j provider_message \<times> bool)" where
  "ollama_message unmarshal m =
     (let msg = [(''role'', JStr (msg_Role m))] in
      if msg_ToolCallID m \<noteq> [] then
        let toolName = trim_space (msg_Name m) in
        if toolName = [] then Inl (''ollama tool result message missing tool name for tool_call_id '' @ msg_ToolCallID m)
        else Inr (m_put ''content'' (JStr (msg_Content m)) (m_put ''tool_name'' (JStr toolName) (m_put ''role'' (JStr ''tool'') msg)), True)
      else if msg_Role m = ''assistant'' \<and> msg_ToolCalls m \<noteq> [] then
        (case ollamaToolCalls unmarshal (msg_ToolCalls m) of
           Inl e \<Rightarrow> Inl e
         | Inr (calls, transformed) \<Rightarrow>
             Inr (m_put ''tool_calls'' (JArr calls) (m_put ''content'' (JStr (msg_Content m)) msg), transformed))
      else
        let msg1 = put_if (msg_Content m \<noteq> []) ''content'' (JStr (msg_Content m)) msg in
        (case (if msg_ToolCalls m \<noteq> [] then map_sum id (\<lambda>(cs, t). (m_put ''tool_calls'' (JArr cs) msg1, t)) (ollamaToolCalls unmarshal (msg_ToolCalls m))
               else Inr (msg1, False)) of
           Inl e \<Rightarrow> Inl e
         | Inr (msg2, transformed) \<Rightarrow> Inr (put_if (msg_Name m \<noteq> []) ''name'' (JStr (msg_Name m)) msg2, transformed)))"

fun ollama_messages :: "(string \<Rightarrow> 'j option) \<Rightarrow> Message list \<Rightarrow> string + ('j provider_message list \<times> bool)" where
  "ollama_messages unmarshal [] = Inr ([], False)"
| "ollama_messages unmarshal (m # ms) =
     (case ollama_message unmarshal m of
        Inl e \<Rightarrow> Inl e
      | Inr (w, b) \<Rightarrow>
          (case ollama_messages unmarshal ms of Inl e \<Rightarrow> Inl e | Inr (ws, c) \<Rightarrow> Inr (w # ws, b \<or> c)))"

definition ollama_Normalize ::
  "(string \<Rightarrow> 'j option) \<Rightarrow> Message list \<Rightarrow> (string + 'j provider_message list) \<times> ToolMessageFidelity" where
  "ollama_Normalize unmarshal ms =
     (case ollama_messages unmarshal ms of
        Inl e \<Rightarrow> (Inl e, ToolMessageRepaired)
      | Inr (ws, repaired) \<Rightarrow> (Inr ws, if repaired then ToolMessageRepaired else ToolMessageExact))"

section \<open>The factory\<close>

record 'j message_normalizer =
  mn_Name :: string
  mn_Qualifies :: "string \<Rightarrow> bool"
  mn_Normalize :: "Message list \<Rightarrow> (string + 'j provider_message list) \<times> ToolMessageFidelity"

definition NewToolMessageNormalizationFactory :: "(string \<Rightarrow> 'j option) \<Rightarrow> 'j message_normalizer list" where
  "NewToolMessageNormalizationFactory unmarshal =
     [\<lparr>mn_Name = ''ollama_tool_messages'', mn_Qualifies = (\<lambda>f. f = ''ollama''), mn_Normalize = ollama_Normalize unmarshal\<rparr>,
      \<lparr>mn_Name = ''openai_compatible_messages'', mn_Qualifies = (\<lambda>f. f = ''openai'' \<or> f = ''openai-responses''),
       mn_Normalize = openai_Normalize\<rparr>]"

fun NormalizeProviderMessages :: "'j message_normalizer list \<Rightarrow> string \<Rightarrow> Message list \<Rightarrow> 'j NormalizationResult" where
  "NormalizeProviderMessages [] format ms =
     \<lparr>nr_Messages = [], nr_Transformer = [], nr_Disposition = ToolMessageNoQualifiedTransformer,
      nr_Fidelity = ToolMessageRepaired, nr_Reason = ''no qualified provider-message normalizer for format '' @ format\<rparr>"
| "NormalizeProviderMessages (n # ns) format ms =
     (if \<not> mn_Qualifies n format then NormalizeProviderMessages ns format ms
      else case mn_Normalize n ms of
             (Inl e, fidelity) \<Rightarrow>
               \<lparr>nr_Messages = [], nr_Transformer = mn_Name n, nr_Disposition = ToolMessageTransformFailed,
                nr_Fidelity = fidelity, nr_Reason = e\<rparr>
           | (Inr msgs, fidelity) \<Rightarrow>
               \<lparr>nr_Messages = msgs, nr_Transformer = mn_Name n,
                nr_Disposition = (if fidelity = ToolMessageExact then ToolMessageNoTransformNeeded else ToolMessageQualifiedTransform),
                nr_Fidelity = fidelity, nr_Reason = []\<rparr>)"

section \<open>Properties\<close>

definition bad_args :: "(string \<Rightarrow> 'j option) \<Rightarrow> ToolCall \<Rightarrow> bool" where
  "bad_args unmarshal tc \<longleftrightarrow> trim_space (tc_Arguments tc) \<noteq> [] \<and> unmarshal (trim_space (tc_Arguments tc)) = None"

text \<open>What Ollama cannot be sent: a tool result without a tool name, a call whose arguments are not JSON.\<close>

definition bad_message :: "(string \<Rightarrow> 'j option) \<Rightarrow> Message \<Rightarrow> bool" where
  "bad_message unmarshal m \<longleftrightarrow>
     (if msg_ToolCallID m \<noteq> [] then trim_space (msg_Name m) = [] else list_ex (bad_args unmarshal) (msg_ToolCalls m))"

definition repaired_message :: "Message \<Rightarrow> bool" where
  "repaired_message m \<longleftrightarrow> msg_ToolCallID m \<noteq> [] \<or> list_ex (\<lambda>tc. trim_space (tc_Arguments tc) \<noteq> []) (msg_ToolCalls m)"

lemma ollama_calls_cases:
  "case ollama_calls_from unmarshal i tcs of
     Inl e \<Rightarrow> list_ex (bad_args unmarshal) tcs
   | Inr (calls, t) \<Rightarrow> \<not> list_ex (bad_args unmarshal) tcs \<and> length calls = length tcs
       \<and> t = list_ex (\<lambda>tc. trim_space (tc_Arguments tc) \<noteq> []) tcs"
proof (induction tcs arbitrary: i)
  case (Cons tc tcs)
  from Cons.IH [of "i + 1"] show ?case
    by (auto simp: ollamaArgumentsPayload_def bad_args_def [of unmarshal tc] Let_def split: sum.splits option.splits if_splits)
qed simp

text \<open>A provider message with the role and the content of a message.\<close>

definition carries :: "string \<Rightarrow> Message \<Rightarrow> 'j provider_message \<Rightarrow> bool" where
  "carries format m w \<longleftrightarrow>
     m_get w ''role'' = Some (JStr (if format = ''ollama'' \<and> msg_ToolCallID m \<noteq> [] then ''tool'' else msg_Role m))
     \<and> (msg_Content m \<noteq> [] \<longrightarrow> m_get w ''content'' = Some (JStr (msg_Content m)))
     \<and> (msg_ToolCallID m = [] \<longrightarrow> msg_ToolCalls m \<noteq> [] \<longrightarrow>
          (\<exists>calls. m_get w ''tool_calls'' = Some (JArr calls) \<and> length calls = length (msg_ToolCalls m)))"

lemma openai_carries: "format \<noteq> ''ollama'' \<Longrightarrow> carries format m (openai_message m)"
  by (simp add: carries_def openai_message_def put_if_def openAICompatibleToolCalls_def Let_def)

lemma ollama_message_cases:
  "case ollama_message unmarshal m of
     Inl e \<Rightarrow> bad_message unmarshal m
   | Inr (w, b) \<Rightarrow> \<not> bad_message unmarshal m \<and> carries ''ollama'' m w \<and> b = repaired_message m"
  using ollama_calls_cases [where unmarshal = unmarshal and i = 0 and tcs = "msg_ToolCalls m"]
  by (auto simp: ollama_message_def bad_message_def repaired_message_def carries_def put_if_def ollamaToolCalls_def Let_def
      split: sum.splits prod.splits if_splits)

lemma ollama_messages_cases:
  "case ollama_messages unmarshal ms of
     Inl e \<Rightarrow> list_ex (bad_message unmarshal) ms
   | Inr (ws, b) \<Rightarrow> \<not> list_ex (bad_message unmarshal) ms \<and> list_all2 (carries ''ollama'') ms ws \<and> b = list_ex repaired_message ms"
proof (induction ms)
  case (Cons m ms)
  from Cons.IH ollama_message_cases [of unmarshal m] show ?case by (auto split: sum.splits prod.splits)
qed simp


lemma openai_all_carried: "format \<noteq> ''ollama'' \<Longrightarrow> list_all2 (carries format) ms (map openai_message ms)"
  by (simp add: list_all2_map2 list.rel_refl openai_carries)

text \<open>
  For OpenAI-compatible providers nothing is lost and nothing fails: every message is sent, in
  order, with its role, content and calls, and is reported as exact.
\<close>

theorem openai_messages_exact:
  "list_all (\<lambda>format.
     let result = NormalizeProviderMessages (NewToolMessageNormalizationFactory unmarshal) format ms in
     nr_Disposition result = ToolMessageNoTransformNeeded \<and> list_all2 (carries format) ms (nr_Messages result))
   [''openai'', ''openai-responses'']"
  by (simp add: NewToolMessageNormalizationFactory_def openai_Normalize_def Let_def openai_all_carried)

end
