(* ===== verification/TurnGates.thy ===== *)
theory TurnGates
  imports Session
begin

text \<open>
  The gates a request passes before inference: the tracker of concurrent duplicates
  (\<^verbatim>\<open>internal/pipeline/dedup.go\<close>), the task tracker (\<^verbatim>\<open>internal/pipeline/task_state.go\<close>) and the
  cross-channel consent check (\<^verbatim>\<open>internal/pipeline/consent.go\<close>) over the table \<^verbatim>\<open>consent_requests\<close>.
  SHA-256, the clock, fresh ids and statement failures are parameters. A request's expiry is stored
  as RFC 3339 text and compared with SQLite's \<^verbatim>\<open>datetime('now')\<close>, which has a blank where the former
  has a \<^verbatim>\<open>T\<close>: as text the former is larger exactly when its date is not before that of the latter.
\<close>

section \<open>Duplicates\<close>

record DedupTracker =
  dt_inflight :: "(string, time) gomap"
  dt_ttl :: duration

definition NewDedupTracker :: "duration \<Rightarrow> DedupTracker" where
  "NewDedupTracker ttl = \<lparr>dt_inflight = [], dt_ttl = (if ttl \<le> 0 then 60 * second else ttl)\<rparr>"

text \<open>\<open>sha256hex\<close> gives the digest in hexadecimal.\<close>

definition Fingerprint :: "(string \<Rightarrow> string) \<Rightarrow> string \<Rightarrow> string \<Rightarrow> string \<Rightarrow> string" where
  "Fingerprint sha256hex content agentID sessionID =
     take 16 (sha256hex (content @ [CHR 0x00] @ agentID @ [CHR 0x00] @ sessionID))"

definition CheckAndTrack :: "time \<Rightarrow> string \<Rightarrow> DedupTracker \<Rightarrow> bool \<times> DedupTracker" where
  "CheckAndTrack now fp d =
     (let live = m_filter (\<lambda>k t. \<not> dt_ttl d < time_sub now t) (dt_inflight d) in
      if m_get live fp \<noteq> None then (False, d\<lparr>dt_inflight := live\<rparr>)
      else (True, d\<lparr>dt_inflight := m_put fp now live\<rparr>))"

definition Release_fp :: "string \<Rightarrow> DedupTracker \<Rightarrow> DedupTracker" where
  "Release_fp fp d = d\<lparr>dt_inflight := m_del fp (dt_inflight d)\<rparr>"

definition InFlightCount :: "DedupTracker \<Rightarrow> int" where
  "InFlightCount d = int (length (dt_inflight d))"

section \<open>Tasks\<close>

datatype TaskState = TaskPending | TaskRunning | TaskCompleted | TaskFailed | TaskDelegated

datatype TaskClassification = TaskSimple | TaskComplex | TaskMultiStep | TaskSpecialist

record Task =
  tk_ID :: string
  tk_SessionID :: string
  tk_TurnID :: string
  tk_State :: TaskState
  tk_Classification :: TaskClassification
  tk_Content :: string
  tk_Subtasks :: "string list"
  tk_ParentID :: string
  tk_AssignedTo :: string
  tk_CreatedAt :: time
  tk_StartedAt :: "time option"
  tk_CompletedAt :: "time option"
  tk_Error :: string

type_synonym TaskTracker = "(string, Task) gomap"

definition Create_task :: "time \<Rightarrow> string \<Rightarrow> string \<Rightarrow> string \<Rightarrow> TaskTracker \<Rightarrow> TaskTracker" where
  "Create_task now i sessionID content tt =
     m_put i \<lparr>tk_ID = i, tk_SessionID = sessionID, tk_TurnID = [], tk_State = TaskPending, tk_Classification = TaskSimple,
       tk_Content = content, tk_Subtasks = [], tk_ParentID = [], tk_AssignedTo = [], tk_CreatedAt = now,
       tk_StartedAt = None, tk_CompletedAt = None, tk_Error = []\<rparr> tt"

definition Start_task :: "time \<Rightarrow> string \<Rightarrow> string \<Rightarrow> TaskTracker \<Rightarrow> TaskTracker" where
  "Start_task now i turnID tt =
     m_modify (\<lambda>t. t\<lparr>tk_State := TaskRunning, tk_TurnID := turnID, tk_StartedAt := Some now\<rparr>) i tt"

definition Complete_task :: "time \<Rightarrow> string \<Rightarrow> TaskTracker \<Rightarrow> TaskTracker" where
  "Complete_task now i tt = m_modify (\<lambda>t. t\<lparr>tk_State := TaskCompleted, tk_CompletedAt := Some now\<rparr>) i tt"

definition Fail_task :: "time \<Rightarrow> string \<Rightarrow> string \<Rightarrow> TaskTracker \<Rightarrow> TaskTracker" where
  "Fail_task now i msg tt =
     m_modify (\<lambda>t. t\<lparr>tk_State := TaskFailed, tk_Error := msg, tk_CompletedAt := Some now\<rparr>) i tt"

definition Delegate_task :: "string \<Rightarrow> string \<Rightarrow> string list \<Rightarrow> TaskTracker \<Rightarrow> TaskTracker" where
  "Delegate_task i agentName subtaskIDs tt =
     m_modify (\<lambda>t. t\<lparr>tk_State := TaskDelegated, tk_AssignedTo := agentName, tk_Subtasks := subtaskIDs\<rparr>) i tt"

definition Classify_task :: "string \<Rightarrow> TaskClassification \<Rightarrow> TaskTracker \<Rightarrow> TaskTracker" where
  "Classify_task i cls tt = m_modify (\<lambda>t. t\<lparr>tk_Classification := cls\<rparr>) i tt"

definition Get_task :: "string \<Rightarrow> TaskTracker \<Rightarrow> Task option" where
  "Get_task i tt = m_get tt i"

definition Active_tasks :: "TaskTracker \<Rightarrow> Task list" where
  "Active_tasks tt = filter (\<lambda>t. tk_State t = TaskPending \<or> tk_State t = TaskRunning) (map snd tt)"

definition expired_task :: "time \<Rightarrow> Task \<Rightarrow> bool" where
  "expired_task cutoff t \<longleftrightarrow> (tk_State t = TaskCompleted \<or> tk_State t = TaskFailed)
     \<and> (case tk_CompletedAt t of None \<Rightarrow> False | Some c \<Rightarrow> c < cutoff)"

definition Cleanup_tasks :: "time \<Rightarrow> duration \<Rightarrow> TaskTracker \<Rightarrow> int \<times> TaskTracker" where
  "Cleanup_tasks now maxAge tt =
     (let cutoff = now - maxAge;
          kept = m_filter (\<lambda>i t. \<not> expired_task cutoff t) tt
      in (int (length tt - length kept), kept))"

section \<open>Consent\<close>

datatype ConsentCheckResult = ConsentContinue | ConsentGranted | ConsentBlocked

record consent_row =
  co_session_id :: string
  co_origin_channel :: string
  co_requesting_channel :: string
  co_requesting_recipient :: string
  co_status :: string
  co_created_at :: time
  co_expires_at :: time

record consent_input =
  ci_Platform :: string
  ci_SenderID :: string
  ci_Content :: string

record consent_env =
  cx_now :: time
  cx_newID :: string
  cx_insert_ok :: bool
  cx_query_ok :: bool
  cx_update_ok :: bool

type_synonym consent_table = "(string, consent_row) gomap"

definition isConsentConfirmation :: "string \<Rightarrow> bool" where
  "isConsentConfirmation content =
     (let lower = trim_space (to_lower content) in lower \<in> {''yes'', ''y'', ''confirm'', ''allow''})"

definition channel_platforms :: "string list" where
  "channel_platforms = [''telegram'', ''discord'', ''whatsapp'', ''signal'', ''email'', ''matrix'', ''voice'', ''web'', ''a2a'']"

definition extractOriginChannel :: "string \<Rightarrow> string" where
  "extractOriginChannel scopeKey =
     (let platform = fst (split2 CHR '':'' scopeKey) in if platform \<in> set channel_platforms then platform else [])"

definition day_of :: "time \<Rightarrow> int" where
  "day_of t = t div (24 * hour)"

definition expires_after :: "time \<Rightarrow> time \<Rightarrow> bool" where
  "expires_after expires now \<longleftrightarrow> day_of now \<le> day_of expires"

text \<open>The latest pending request of a session for which \<open>channel\<close> is the origin.\<close>

definition pending_request :: "time \<Rightarrow> string \<Rightarrow> string \<Rightarrow> consent_table \<Rightarrow> (string \<times> consent_row) option" where
  "pending_request now sessionID channel rows =
     fold (\<lambda>(i, r) best.
        if co_session_id r = sessionID \<and> co_origin_channel r = channel \<and> co_status r = ''pending''
           \<and> expires_after (co_expires_at r) now
           \<and> (case best of None \<Rightarrow> True | Some (j, b) \<Rightarrow> co_created_at b < co_created_at r)
        then Some (i, r) else best) rows None"

definition handleConsentConfirmation ::
  "consent_env \<Rightarrow> Session \<Rightarrow> consent_input \<Rightarrow> consent_table \<Rightarrow> (ConsentCheckResult \<times> string) \<times> consent_table" where
  "handleConsentConfirmation env s input rows =
     (case (if cx_query_ok env then pending_request (cx_now env) (s_ID s) (ci_Platform input) rows else None) of
        None \<Rightarrow> ((ConsentContinue, []), rows)
      | Some (i, r) \<Rightarrow>
          if \<not> cx_update_ok env then ((ConsentContinue, []), rows)
          else ((ConsentGranted, ''Cross-channel access granted. The session is now accessible from ''
                    @ co_requesting_channel r @ ''.''),
                m_modify (\<lambda>r. r\<lparr>co_status := ''fulfilled''\<rparr>) i rows))"

definition hasfulfilledConsent :: "consent_env \<Rightarrow> string \<Rightarrow> string \<Rightarrow> string \<Rightarrow> consent_table \<Rightarrow> bool" where
  "hasfulfilledConsent env sessionID requestingChannel requestingRecipient rows \<longleftrightarrow>
     cx_query_ok env
     \<and> list_ex (\<lambda>(i, r). co_session_id r = sessionID \<and> co_requesting_channel r = requestingChannel
          \<and> co_requesting_recipient r = requestingRecipient \<and> co_status r = ''fulfilled'') rows"

definition checkCrossChannelConsent ::
  "consent_env \<Rightarrow> Session \<Rightarrow> consent_input \<Rightarrow> consent_table option
     \<Rightarrow> (ConsentCheckResult \<times> string) \<times> consent_table option" where
  "checkCrossChannelConsent env s input store =
     (case store of
        None \<Rightarrow> ((ConsentContinue, []), None)
      | Some rows \<Rightarrow>
          let originChannel = extractOriginChannel (s_ScopeKey s) in
          if originChannel = [] \<or> originChannel = ci_Platform input then ((ConsentContinue, []), store)
          else if isConsentConfirmation (ci_Content input)
          then (case handleConsentConfirmation env s input rows of (res, rows1) \<Rightarrow> (res, Some rows1))
          else if hasfulfilledConsent env (s_ID s) (ci_Platform input) (ci_SenderID input) rows
          then ((ConsentContinue, []), store)
          else if \<not> cx_insert_ok env \<or> m_get rows (cx_newID env) \<noteq> None
          then ((ConsentBlocked, ''Cross-channel access temporarily unavailable. Please try again.''), store)
          else ((ConsentBlocked, ''Cross-channel access request: someone on '' @ ci_Platform input
                   @ '' is requesting access to this session. Reply '' @ [CHR 0x27] @ ''yes'' @ [CHR 0x27] @ '' on '' @ originChannel
                   @ '' to allow (expires in 5 minutes).''),
                Some (m_put (cx_newID env)
                  \<lparr>co_session_id = s_ID s, co_origin_channel = originChannel, co_requesting_channel = ci_Platform input,
                   co_requesting_recipient = ci_SenderID input, co_status = ''pending'', co_created_at = cx_now env,
                   co_expires_at = cx_now env + 300 * second\<rparr> rows)))"

section \<open>The consent gate\<close>

text \<open>Every request on record is pending and names the channel its session comes from.\<close>

definition consent_inv :: "(string \<Rightarrow> string) \<Rightarrow> consent_table \<Rightarrow> bool" where
  "consent_inv scope rows \<longleftrightarrow>
     list_all (\<lambda>(i, r). co_origin_channel r = extractOriginChannel (scope (co_session_id r)) \<and> co_status r = ''pending'') rows"

lemma pending_request_in:
  assumes "pending_request now sid ch rows = Some (i, r)"
  shows "(i, r) \<in> set rows \<and> co_session_id r = sid \<and> co_origin_channel r = ch"
proof -
  let ?f = "\<lambda>(i, r) best. if co_session_id r = sid \<and> co_origin_channel r = ch \<and> co_status r = ''pending''
           \<and> expires_after (co_expires_at r) now
           \<and> (case best of None \<Rightarrow> True | Some (j, b) \<Rightarrow> co_created_at b < co_created_at r) then Some (i, r) else best"
  have "fold ?f rows best = Some (i, r) \<Longrightarrow> best = Some (i, r) \<or> (i, r) \<in> set rows \<and> co_session_id r = sid \<and> co_origin_channel r = ch" for best
  proof (induction rows arbitrary: best)
    case (Cons x rows)
    from Cons.prems have "fold ?f rows (?f x best) = Some (i, r)" by simp
    from Cons.IH [OF this] show ?case by (cases x) (auto split: if_splits)
  qed simp
  from this [of None] show ?thesis using assms by (simp add: pending_request_def)
qed

lemma consent_gate_step:
  assumes "consent_inv scope rows" and "s_ScopeKey s = scope (s_ID s)"
  shows "fst (fst (checkCrossChannelConsent env s input (Some rows))) =
      (let origin = extractOriginChannel (s_ScopeKey s) in
       if origin = [] \<or> origin = ci_Platform input \<or> isConsentConfirmation (ci_Content input) then ConsentContinue else ConsentBlocked)
    \<and> (\<exists>rows'. snd (checkCrossChannelConsent env s input (Some rows)) = Some rows' \<and> consent_inv scope rows')"
proof -
  let ?origin = "extractOriginChannel (s_ScopeKey s)"
  have none: "pending_request now (s_ID s) (ci_Platform input) rows = None" if "?origin \<noteq> ci_Platform input" for now
  proof (rule ccontr)
    assume "pending_request now (s_ID s) (ci_Platform input) rows \<noteq> None"
    then obtain i r where "pending_request now (s_ID s) (ci_Platform input) rows = Some (i, r)" by auto
    from pending_request_in [OF this] assms that show False by (auto simp: consent_inv_def list_all_iff)
  qed
  have unfulfilled: "\<not> hasfulfilledConsent env (s_ID s) (ci_Platform input) (ci_SenderID input) rows"
    using assms(1) by (auto simp: hasfulfilledConsent_def consent_inv_def list_ex_iff list_all_iff)
  have put: "consent_inv scope (m_put k r rows)" if "co_origin_channel r = extractOriginChannel (scope (co_session_id r))"
    "co_status r = ''pending''" for k r
  proof -
    have "set (m_put k r rows) \<subseteq> insert (k, r) (set rows)" unfolding m_put_def by (induction rows) auto
    with assms(1) that show ?thesis by (fastforce simp: consent_inv_def list_all_iff)
  qed
  show ?thesis using assms none unfulfilled put
    by (auto simp: checkCrossChannelConsent_def handleConsentConfirmation_def Let_def)
qed

type_synonym consent_call = "consent_env \<times> Session \<times> consent_input"

definition consent_step :: "consent_call \<Rightarrow> consent_table option \<Rightarrow> consent_table option" where
  "consent_step call store = (case call of (env, s, input) \<Rightarrow> snd (checkCrossChannelConsent env s input store))"

lemma consent_fold:
  "consent_inv scope rows \<Longrightarrow> list_all (\<lambda>(env, s, input). s_ScopeKey s = scope (s_ID s)) calls \<Longrightarrow>
     \<exists>rows'. fold consent_step calls (Some rows) = Some rows' \<and> consent_inv scope rows'"
proof (induction calls arbitrary: rows)
  case (Cons call calls)
  obtain env s input where call: "call = (env, s, input)" by (cases call)
  from Cons.prems call consent_gate_step [of scope rows s env input] obtain rows1
    where "consent_step call (Some rows) = Some rows1" "consent_inv scope rows1" by (auto simp: consent_step_def)
  with Cons.IH [of rows1] Cons.prems(2) show ?case by simp
qed simp

text \<open>
  C32. The consent gate in full: after any history of checks on a table that started empty, with
  every session keeping its scope, a request passes exactly when the session has no channel of
  origin, when it comes from that channel, or when its text is a word of confirmation, and is blocked
  otherwise. In particular no consent is ever granted, and a bare yes from any other channel passes.
\<close>

theorem consent_gate_exact:
  assumes "list_all (\<lambda>(env, s, input). s_ScopeKey s = scope (s_ID s)) calls" and "s_ScopeKey s = scope (s_ID s)"
  shows "fst (fst (checkCrossChannelConsent env s input (fold consent_step calls (Some [])))) =
      (let origin = extractOriginChannel (s_ScopeKey s) in
       if origin = [] \<or> origin = ci_Platform input \<or> isConsentConfirmation (ci_Content input) then ConsentContinue else ConsentBlocked)"
proof -
  have "consent_inv scope []" by (simp add: consent_inv_def)
  from consent_fold [OF this assms(1)] obtain rows where "fold consent_step calls (Some []) = Some rows" "consent_inv scope rows" by blast
  with consent_gate_step [of scope rows s env input] assms(2) show ?thesis by simp
qed

definition consent_demo_env :: "string \<Rightarrow> consent_env" where
  "consent_demo_env i = \<lparr>cx_now = 0, cx_newID = i, cx_insert_ok = True, cx_query_ok = True, cx_update_ok = True\<rparr>"

definition consent_demo_session :: Session where
  "consent_demo_session = (New_session ''s'' ''a'' ''n'')\<lparr>s_ScopeKey := ''telegram:42''\<rparr>"

definition consent_demo_input :: "string \<Rightarrow> string \<Rightarrow> consent_input" where
  "consent_demo_input platform content = \<lparr>ci_Platform = platform, ci_SenderID = ''eve'', ci_Content = content\<rparr>"

theorem consent_gate_exact_witness:
  "fst (fst (checkCrossChannelConsent (consent_demo_env ''2'') consent_demo_session (consent_demo_input ''discord'' ''Yes '')
     (fold consent_step [(consent_demo_env ''1'', consent_demo_session, consent_demo_input ''discord'' ''read it'')] (Some []))))
   = ConsentContinue
   \<and> fst (fst (checkCrossChannelConsent (consent_demo_env ''2'') consent_demo_session (consent_demo_input ''discord'' ''hello'')
     (fold consent_step [(consent_demo_env ''1'', consent_demo_session, consent_demo_input ''discord'' ''read it'')] (Some []))))
   = ConsentBlocked"
proof -
  let ?calls = "[(consent_demo_env ''1'', consent_demo_session, consent_demo_input ''discord'' ''read it'')]"
  have s: "list_all (\<lambda>(env, s, input). s_ScopeKey s = (\<lambda>_. ''telegram:42'') (s_ID s)) ?calls"
    "s_ScopeKey consent_demo_session = (\<lambda>_. ''telegram:42'') (s_ID consent_demo_session)"
    by (simp_all add: consent_demo_session_def)
  have "extractOriginChannel (s_ScopeKey consent_demo_session) = ''telegram''" by code_simp
  moreover have "isConsentConfirmation ''Yes ''" "\<not> isConsentConfirmation ''hello''" by code_simp+
  ultimately show ?thesis using consent_gate_exact [of "\<lambda>_. ''telegram:42''", OF s] by (simp add: consent_demo_input_def)
qed

section \<open>The duplicate tracker\<close>

datatype dedup_event = DCheck time string | DRelease string

fun dedup_step :: "dedup_event \<Rightarrow> DedupTracker \<Rightarrow> DedupTracker" where
  "dedup_step (DCheck now fp) d = snd (CheckAndTrack now fp d)"
| "dedup_step (DRelease fp) d = Release_fp fp d"

fun within_flight :: "string \<Rightarrow> time \<Rightarrow> dedup_event \<Rightarrow> bool" where
  "within_flight fp limit (DCheck now f) \<longleftrightarrow> now \<le> limit"
| "within_flight fp limit (DRelease f) \<longleftrightarrow> f \<noteq> fp"

definition flying :: "string \<Rightarrow> time \<Rightarrow> duration \<Rightarrow> DedupTracker \<Rightarrow> bool" where
  "flying fp t ttl d \<longleftrightarrow> m_ok (dt_inflight d) \<and> m_get (dt_inflight d) fp = Some t \<and> dt_ttl d = ttl \<and> 0 \<le> ttl \<and> ttl < 2 ^ 63"

lemma flying_check:
  assumes "flying fp t ttl d" and "now \<le> t + ttl"
  shows "flying fp t ttl (snd (CheckAndTrack now f d))" and "f = fp \<Longrightarrow> \<not> fst (CheckAndTrack now f d)"
proof -
  have live: "\<not> ttl < time_sub now t" using assms by (auto simp: flying_def time_sub_def)
  show "flying fp t ttl (snd (CheckAndTrack now f d))" and "f = fp \<Longrightarrow> \<not> fst (CheckAndTrack now f d)"
    using assms(1) live by (auto simp: flying_def CheckAndTrack_def Let_def split: option.splits if_splits)
qed

lemma flying_fold:
  "flying fp t ttl d \<Longrightarrow> list_all (within_flight fp (t + ttl)) es \<Longrightarrow> flying fp t ttl (fold dedup_step es d)"
proof (induction es arbitrary: d)
  case (Cons e es)
  then have "flying fp t ttl (dedup_step e d)"
    by (cases e) (auto simp: flying_check(1), auto simp: flying_def Release_fp_def)
  with Cons show ?case by simp
qed simp

text \<open>
  C33. Once a request is admitted, an identical one is rejected until the time to live of the first has passed,
  whatever other requests come and go in between, as long as no request with the same fingerprint is released: neither
  the admitted one nor an expired predecessor, whose late release frees the entry of its successor
  (\<open>late_release_frees_successor\<close>).
\<close>

theorem duplicate_rejected_in_flight:
  assumes "m_ok (dt_inflight d)" and "0 \<le> dt_ttl d" and "dt_ttl d < 2 ^ 63"
    and "CheckAndTrack now fp d = (True, d1)"
    and "list_all (within_flight fp (now + dt_ttl d)) es" and "now' \<le> now + dt_ttl d"
  shows "\<not> fst (CheckAndTrack now' fp (fold dedup_step es d1))"
proof -
  have "flying fp now (dt_ttl d) d1"
    using assms(1-4) by (auto simp: flying_def CheckAndTrack_def Let_def split: if_splits)
  from flying_check(2) [OF flying_fold [OF this assms(5)] assms(6) refl] show ?thesis .
qed

theorem duplicate_rejected_in_flight_witness:
  "\<not> fst (CheckAndTrack minute ''f'' (fold dedup_step [DCheck 5 ''g'', DRelease ''g'']
     (snd (CheckAndTrack 0 ''f'' (NewDedupTracker 0)))))"
  by (rule duplicate_rejected_in_flight [of "NewDedupTracker 0" 0])
    (simp_all add: NewDedupTracker_def CheckAndTrack_def m_filter_def go_time)

text \<open>
  A request that outlives its time to live releases the entry of its successor: of three identical
  requests the third is admitted while the second is still in flight.
\<close>

theorem late_release_frees_successor:
  "let (a, d1) = CheckAndTrack 0 ''f'' (NewDedupTracker 0);
       (b, d2) = CheckAndTrack (61 * second) ''f'' d1;
       d3 = Release_fp ''f'' d2;
       (c, d4) = CheckAndTrack (62 * second) ''f'' d3
   in a \<and> b \<and> c"
  by code_simp

section \<open>The task tracker\<close>

text \<open>
  Cleanup removes exactly the finished tasks that finished before the cutoff and reports how
  many; tasks that are pending, running or delegated stay for good.
\<close>

theorem cleanup_removes_finished:
  assumes "m_ok tt" and "Cleanup_tasks now maxAge tt = (n, tt')"
  shows "m_get tt' i = (case m_get tt i of None \<Rightarrow> None | Some t \<Rightarrow> if expired_task (now - maxAge) t then None else Some t)
     \<and> n = int (length (filter (\<lambda>(i, t). expired_task (now - maxAge) t) tt))"
proof
  show "m_get tt' i = (case m_get tt i of None \<Rightarrow> None | Some t \<Rightarrow> if expired_task (now - maxAge) t then None else Some t)"
    using assms by (auto simp: Cleanup_tasks_def Let_def split: option.splits)
  have "length tt = length (filter (\<lambda>(i, t). expired_task (now - maxAge) t) tt)
      + length (filter (\<lambda>(i, t). \<not> expired_task (now - maxAge) t) tt)"
    by (induction tt) auto
  then show "n = int (length (filter (\<lambda>(i, t). expired_task (now - maxAge) t) tt))"
    using assms(2) by (auto simp: Cleanup_tasks_def m_filter_def Let_def)
qed

end
