(* ===== verification/Speculation.thy ===== *)
theory Speculation
  imports Prelude "HOL-Library.List_Lexorder" "HOL-Library.Char_ord"
begin

text \<open>
  Speculative execution: the branch executor of \<^verbatim>\<open>internal/agent/speculative.go\<close> and, from
  \<^verbatim>\<open>internal/agent/speculation_cache.go\<close>, the cache of branch results and the slots that bound
  concurrent speculation. SHA-256 and the branches' effects are parameters; the order in which the
  goroutines of \<^verbatim>\<open>EvaluateBranches\<close> take effect is an argument.
\<close>

section \<open>Branches\<close>

record BranchResult =
  br_Name :: string
  br_Content :: string
  br_Error :: "string option"
  br_DurationMs :: int

record 'w Branch =
  b_Name :: string
  b_Execute :: "'w \<Rightarrow> (string \<times> string option \<times> int) \<times> 'w"

definition zero_result :: BranchResult where
  "zero_result = \<lparr>br_Name = [], br_Content = [], br_Error = None, br_DurationMs = 0\<rparr>"

text \<open>One goroutine writes its slot of the results; \<open>sched\<close> is the order in which they run.\<close>

definition run_branch :: "'w Branch list \<Rightarrow> nat \<Rightarrow> BranchResult list \<times> 'w \<Rightarrow> BranchResult list \<times> 'w" where
  "run_branch branches i rw =
     (let (results, w) = rw;
          b = branches ! i;
          ((content, err, ms), w1) = b_Execute b w
      in (results[i := \<lparr>br_Name = b_Name b, br_Content = content, br_Error = err, br_DurationMs = ms\<rparr>], w1))"

definition EvaluateBranches :: "nat list \<Rightarrow> 'w Branch list \<Rightarrow> 'w \<Rightarrow> BranchResult list \<times> 'w" where
  "EvaluateBranches sched branches w =
     (if branches = [] then ([], w)
      else fold (run_branch branches) sched (replicate (length branches) zero_result, w))"

definition better :: "BranchResult \<Rightarrow> BranchResult option \<Rightarrow> BranchResult option" where
  "better r best =
     (if br_Error r \<noteq> None then best
      else case best of
             None \<Rightarrow> Some r
           | Some b \<Rightarrow> if length (br_Content b) < length (br_Content r) then Some r else best)"

definition BestResult :: "BranchResult list \<Rightarrow> BranchResult option" where
  "BestResult results = fold better results None"

section \<open>The cache\<close>

record SpeculationKey =
  sk_ContentHash :: string
  sk_ToolNames :: "string list"

definition cacheKey :: "(string \<Rightarrow> string) \<Rightarrow> SpeculationKey \<Rightarrow> string" where
  "cacheKey sha256 sk = sha256 (sk_ContentHash sk @ ''|'' @ str_join '','' (sort (sk_ToolNames sk)))"

record SpeculationCache =
  spc_entries :: "(string, BranchResult) gomap"
  spc_order :: "string list"
  spc_maxSize :: int

text \<open>
  \<^verbatim>\<open>make([]string, 0, maxSize)\<close> panics when the 16 bytes of each string exceed the address space of \<open>2 ^ 48\<close> bytes;
  memory running out below that is not modelled.
\<close>

definition NewSpeculationCache :: "int \<Rightarrow> SpeculationCache option" where
  "NewSpeculationCache maxSize =
     (if 2 ^ 48 < maxSize * 16 then None
      else Some \<lparr>spc_entries = [], spc_order = [], spc_maxSize = (if maxSize \<le> 0 then 256 else maxSize)\<rparr>)"

definition spec_Get :: "(string \<Rightarrow> string) \<Rightarrow> SpeculationKey \<Rightarrow> SpeculationCache \<Rightarrow> BranchResult option" where
  "spec_Get sha key sc = m_get (spc_entries sc) (cacheKey sha key)"

text \<open>\<open>None\<close> is the panic of reading the first element of an empty order.\<close>

text \<open>\<open>spec_copy\<close> is the rest of \<^verbatim>\<open>Put\<close> with the copy of the result, whose making panics on \<^verbatim>\<open>nil\<close>.\<close>

definition spec_copy :: "(string \<Rightarrow> string) \<Rightarrow> SpeculationKey \<Rightarrow> BranchResult \<Rightarrow> SpeculationCache \<Rightarrow> SpeculationCache option" where
  "spec_copy sha key result sc =
     (let k = cacheKey sha key in
      if m_get (spc_entries sc) k \<noteq> None then Some (sc\<lparr>spc_entries := m_put k result (spc_entries sc)\<rparr>)
      else if spc_maxSize sc \<le> int (length (spc_entries sc)) then
        (case spc_order sc of
           [] \<Rightarrow> None
         | oldest # rest \<Rightarrow>
             Some (sc\<lparr>spc_entries := m_put k result (m_del oldest (spc_entries sc)), spc_order := rest @ [k]\<rparr>))
      else Some (sc\<lparr>spc_entries := m_put k result (spc_entries sc), spc_order := spc_order sc @ [k]\<rparr>))"

definition spec_Put ::
  "(string \<Rightarrow> string) \<Rightarrow> SpeculationKey \<Rightarrow> BranchResult option \<Rightarrow> SpeculationCache \<Rightarrow> SpeculationCache option" where
  "spec_Put sha key result sc = (case result of None \<Rightarrow> None | Some r \<Rightarrow> spec_copy sha key r sc)"

definition spec_Len :: "SpeculationCache \<Rightarrow> int" where
  "spec_Len sc = int (length (spc_entries sc))"

section \<open>Slots\<close>

record SpeculativeExecutor =
  se_activeSlots :: int
  se_maxSlots :: int

definition NewSpeculativeExecutorWithSlots :: "int \<Rightarrow> SpeculativeExecutor" where
  "NewSpeculativeExecutorWithSlots maxSlots =
     \<lparr>se_activeSlots = 0, se_maxSlots = (if maxSlots \<le> 0 then 4 else maxSlots)\<rparr>"

text \<open>The executor and the released flags of the guards handed out; \<open>Inl\<close> is \<^verbatim>\<open>ErrNoSlotAvailable\<close>.\<close>

type_synonym slot_state = "SpeculativeExecutor \<times> bool list"

definition AcquireSlot :: "slot_state \<Rightarrow> (string + nat) \<times> slot_state" where
  "AcquireSlot st =
     (let (se, guards) = st in
      if se_maxSlots se \<le> se_activeSlots se then (Inl ''no speculation slot available'', st)
      else (Inr (length guards), se\<lparr>se_activeSlots := se_activeSlots se + 1\<rparr>, guards @ [False]))"

definition releaseSlot :: "SpeculativeExecutor \<Rightarrow> SpeculativeExecutor" where
  "releaseSlot se = (if se_activeSlots se > 0 then se\<lparr>se_activeSlots := se_activeSlots se - 1\<rparr> else se)"

definition Release :: "nat \<Rightarrow> slot_state \<Rightarrow> slot_state" where
  "Release g st =
     (let (se, guards) = st in
      if \<not> g < length guards \<or> guards ! g then st else (releaseSlot se, guards[g := True]))"

section \<open>Properties of branches\<close>

lemma fold_run_branch_names:
  assumes "length results = length branches" and "list_all (\<lambda>i. i < length branches) sched"
  shows "map br_Name (fst (fold (run_branch branches) sched (results, w))) =
     map (\<lambda>i. if i \<in> set sched then b_Name (branches ! i) else br_Name (results ! i)) [0..<length branches]"
  using assms
proof (induction sched arbitrary: results w)
  case Nil
  then show ?case by (intro nth_equalityI) auto
next
  case (Cons i sched)
  obtain content err ms w1 where x: "b_Execute (branches ! i) w = ((content, err, ms), w1)"
    by (metis prod.collapse)
  let ?r = "results[i := \<lparr>br_Name = b_Name (branches ! i), br_Content = content, br_Error = err, br_DurationMs = ms\<rparr>]"
  have "run_branch branches i (results, w) = (?r, w1)" by (simp add: run_branch_def x)
  with Cons.IH [of ?r w1] Cons.prems show ?case
    by (auto simp: nth_list_update)
qed

text \<open>
  Whatever the order in which the goroutines run and whatever effects the branches have on each
  other, the results come back in the order of the branches, one for each.
\<close>

theorem branch_results_in_order:
  assumes "set sched = {..<length branches}"
  shows "map br_Name (fst (EvaluateBranches sched branches w)) = map b_Name branches"
proof (cases "branches = []")
  case False
  have "list_all (\<lambda>i. i < length branches) sched" using assms by (auto simp: list_all_iff)
  from fold_run_branch_names [OF _ this, of "replicate (length branches) zero_result" w] False assms show ?thesis
    by (intro nth_equalityI) (auto simp: EvaluateBranches_def)
qed (simp add: EvaluateBranches_def)

theorem branch_results_in_order_witness:
  "map br_Name (fst (EvaluateBranches [1, 0]
     [\<lparr>b_Name = ''a'', b_Execute = \<lambda>w. ((''x'', None, w), w + 1)\<rparr>, \<lparr>b_Name = ''b'', b_Execute = \<lambda>w. ((''y'', Some ''e'', w), w + 1)\<rparr>] 0))
   = [''a'', ''b'']"
  using branch_results_in_order [of "[1, 0]"
     "[\<lparr>b_Name = ''a'', b_Execute = \<lambda>w. ((''x'', None, w), w + 1)\<rparr>, \<lparr>b_Name = ''b'', b_Execute = \<lambda>w. ((''y'', Some ''e'', w), w + 1)\<rparr>]" 0]
  by (simp add: lessThan_Suc insert_commute)

text \<open>
  \<^verbatim>\<open>BestResult\<close> finds a longest answer among the branches without error, and finds nothing
  exactly when every branch failed.
\<close>

theorem best_result_longest:
  "case BestResult results of
     None \<Rightarrow> list_all (\<lambda>r. br_Error r \<noteq> None) results
   | Some b \<Rightarrow> b \<in> set results \<and> br_Error b = None
       \<and> list_all (\<lambda>r. length (br_Content r) \<le> length (br_Content b)) (filter (\<lambda>r. br_Error r = None) results)"
proof (induction results rule: rev_induct)
  case Nil
  show ?case by (simp add: BestResult_def)
next
  case (snoc r rs)
  have step: "BestResult (rs @ [r]) = better r (BestResult rs)" by (simp add: BestResult_def)
  show ?case
  proof (cases "BestResult rs")
    case None
    with snoc.IH show ?thesis by (auto simp: step better_def list_all_iff)
  next
    case (Some b)
    with snoc.IH show ?thesis by (auto simp: step better_def list_all_iff intro: order_trans less_imp_le)
  qed
qed

section \<open>Properties of the cache\<close>

text \<open>The reference: an association list in order of insertion.\<close>

definition fifo_put :: "int \<Rightarrow> string \<Rightarrow> BranchResult \<Rightarrow> (string \<times> BranchResult) list \<Rightarrow> (string \<times> BranchResult) list" where
  "fifo_put n k v l =
     (if k \<in> fst ` set l then map (\<lambda>(j, u). (j, if j = k then v else u)) l
      else (if n \<le> int (length l) then tl l else l) @ [(k, v)])"

definition spec_ok :: "SpeculationCache \<Rightarrow> bool" where
  "spec_ok sc \<longleftrightarrow> m_ok (spc_entries sc) \<and> distinct (spc_order sc) \<and> set (spc_order sc) = dom (m_get (spc_entries sc))
     \<and> 0 < spc_maxSize sc \<and> int (length (spc_order sc)) \<le> spc_maxSize sc"

definition spec_abs :: "SpeculationCache \<Rightarrow> (string \<times> BranchResult) list" where
  "spec_abs sc = map (\<lambda>k. (k, the (m_get (spc_entries sc) k))) (spc_order sc)"

lemma spec_length: "spec_ok sc \<Longrightarrow> length (spc_entries sc) = length (spc_order sc)"
  by (metis distinct_card m_ok_card spec_ok_def)

lemma spec_abs_keys [simp]: "fst ` set (spec_abs sc) = set (spc_order sc)" "length (spec_abs sc) = length (spc_order sc)"
  by (force simp: spec_abs_def)+

lemma spec_abs_get: "spec_ok sc \<Longrightarrow> map_of (spec_abs sc) k = m_get (spc_entries sc) k"
proof (cases "k \<in> set (spc_order sc)")
  case True
  then have "map_of (spec_abs sc) k = Some (the (m_get (spc_entries sc) k))" by (simp add: spec_abs_def map_of_map_restrict)
  with True show ?thesis if "spec_ok sc" using that by (auto simp: spec_ok_def)
next
  case False
  then show ?thesis if "spec_ok sc" using that by (auto simp: spec_ok_def spec_abs_def map_of_map_restrict)
qed

lemma fifo_put_abs:
  "fifo_put n k v (spec_abs sc) =
     (if k \<in> set (spc_order sc) then map (\<lambda>(j, u). (j, if j = k then v else u)) (spec_abs sc)
      else (if n \<le> int (length (spc_order sc)) then tl (spec_abs sc) else spec_abs sc) @ [(k, v)])"
  by (simp add: fifo_put_def)

lemma spec_copy_refines:
  assumes "spec_ok sc"
  shows "\<exists>sc'. spec_copy sha key r sc = Some sc' \<and> spec_ok sc' \<and> spc_maxSize sc' = spc_maxSize sc
     \<and> spec_abs sc' = fifo_put (spc_maxSize sc) (cacheKey sha key) r (spec_abs sc)"
proof -
  let ?k = "cacheKey sha key"
  have keys: "set (spc_order sc) = dom (m_get (spc_entries sc))" and dist: "distinct (spc_order sc)"
    and ok: "m_ok (spc_entries sc)" and pos: "0 < spc_maxSize sc"
    using assms by (auto simp: spec_ok_def)
  consider (present) "?k \<in> set (spc_order sc)"
    | (full) oldest rest where "?k \<notin> set (spc_order sc)" "spc_maxSize sc \<le> int (length (spc_order sc))" "spc_order sc = oldest # rest"
    | (room) "?k \<notin> set (spc_order sc)" "int (length (spc_order sc)) < spc_maxSize sc"
    using pos by (cases "spc_order sc") force+
  then show ?thesis
  proof cases
    case present
    then have "m_get (spc_entries sc) ?k \<noteq> None" using keys by auto
    then show ?thesis using assms present
      by (auto simp: spec_copy_def Let_def spec_ok_def fifo_put_abs) (auto simp: spec_abs_def split: if_splits)
  next
    case full
    then have new: "m_get (spc_entries sc) ?k = None" using keys by auto
    have same: "m_get (m_put ?k r (m_del oldest (spc_entries sc))) j = m_get (spc_entries sc) j" if "j \<in> set rest" for j
      using full(1,3) dist that by auto
    have "dom (m_get (m_put ?k r (m_del oldest (spc_entries sc)))) = insert ?k (set rest)"
      unfolding dom_m_put dom_m_del keys [symmetric] full(3) using dist full(3) by auto
    with new same full keys dist ok assms spec_length [OF assms] show ?thesis
      by (auto simp: spec_copy_def Let_def spec_ok_def fifo_put_abs) (auto simp: spec_abs_def split: if_splits)
  next
    case room
    then have new: "m_get (spc_entries sc) ?k = None" using keys by auto
    have "dom (m_get (m_put ?k r (spc_entries sc))) = insert ?k (set (spc_order sc))"
      unfolding dom_m_put keys ..
    with new room keys dist ok assms spec_length [OF assms] show ?thesis
      by (auto simp: spec_copy_def Let_def spec_ok_def fifo_put_abs) (auto simp: spec_abs_def split: if_splits)
  qed
qed

definition spec_run ::
  "(string \<Rightarrow> string) \<Rightarrow> int \<Rightarrow> (SpeculationKey \<times> BranchResult option) list \<Rightarrow> SpeculationCache option" where
  "spec_run sha n puts = fold (\<lambda>(key, r) sc. Option.bind sc (spec_Put sha key r)) puts (NewSpeculationCache n)"

lemma spec_run_refines:
  assumes "\<not> 2 ^ 48 < n * 16" and "None \<notin> snd ` set puts"
  shows "\<exists>sc. spec_run sha n puts = Some sc \<and> spec_ok sc \<and> spc_maxSize sc = (if n \<le> 0 then 256 else n)
     \<and> spec_abs sc = fold (\<lambda>(key, r). fifo_put (if n \<le> 0 then 256 else n) (cacheKey sha key) (the r)) puts []"
  using assms(2)
proof (induction puts rule: rev_induct)
  case Nil
  show ?case using assms(1) by (simp add: spec_run_def NewSpeculationCache_def spec_ok_def spec_abs_def)
next
  case (snoc p puts)
  obtain key r where p: "p = (key, Some r)" using snoc.prems by (cases p; cases "snd p") (auto simp: image_iff)
  from snoc obtain sc where sc: "spec_run sha n puts = Some sc" "spec_ok sc" "spc_maxSize sc = (if n \<le> 0 then 256 else n)"
    "spec_abs sc = fold (\<lambda>(key, r). fifo_put (if n \<le> 0 then 256 else n) (cacheKey sha key) (the r)) puts []" by auto
  from spec_copy_refines [OF sc(2), of sha key r] sc show ?case by (auto simp: p spec_run_def spec_Put_def)
qed

lemma spec_run_panics:
  assumes "2 ^ 48 < n * 16 \<or> None \<in> snd ` set puts"
  shows "spec_run sha n puts = None"
  using assms
proof (induction puts rule: rev_induct)
  case (snoc p puts)
  then show ?case
    by (cases p; cases "spec_run sha n puts") (auto simp: spec_run_def spec_Put_def split: option.splits)
qed (simp add: spec_run_def NewSpeculationCache_def)

text \<open>
  C36. The speculation cache refines a bounded first-in first-out table: a sequence of stores panics exactly when a
  result is \<^verbatim>\<open>nil\<close> or the size asked for is beyond the address space. Otherwise the table never holds more than
  its size, a lookup after the stores is the lookup in the reference table, a key stored again keeps its place and
  the key evicted is the one inserted first.
\<close>

theorem speculation_cache_refines_fifo:
  "if 2 ^ 48 < n * 16 \<or> None \<in> snd ` set puts then spec_run sha n puts = None
   else \<exists>sc. spec_run sha n puts = Some sc
     \<and> spec_abs sc = fold (\<lambda>(key, r). fifo_put (if n \<le> 0 then 256 else n) (cacheKey sha key) (the r)) puts []
     \<and> (\<forall>key. spec_Get sha key sc = map_of (spec_abs sc) (cacheKey sha key))
     \<and> spec_Len sc \<le> (if n \<le> 0 then 256 else n)"
proof (cases "2 ^ 48 < n * 16 \<or> None \<in> snd ` set puts")
  case True
  then show ?thesis using spec_run_panics by simp
next
  case False
  then obtain sc where sc: "spec_run sha n puts = Some sc" "spec_ok sc" "spc_maxSize sc = (if n \<le> 0 then 256 else n)"
    "spec_abs sc = fold (\<lambda>(key, r). fifo_put (if n \<le> 0 then 256 else n) (cacheKey sha key) (the r)) puts []"
    using spec_run_refines by blast
  have "spec_Get sha key sc = map_of (spec_abs sc) (cacheKey sha key)" for key
    by (simp add: spec_Get_def spec_abs_get [OF sc(2)])
  moreover have "spec_Len sc \<le> spc_maxSize sc" using sc(2) spec_length [OF sc(2)] by (simp add: spec_Len_def spec_ok_def)
  ultimately have "\<exists>sc. spec_run sha n puts = Some sc
     \<and> spec_abs sc = fold (\<lambda>(key, r). fifo_put (if n \<le> 0 then 256 else n) (cacheKey sha key) (the r)) puts []
     \<and> (\<forall>key. spec_Get sha key sc = map_of (spec_abs sc) (cacheKey sha key)) \<and> spec_Len sc \<le> (if n \<le> 0 then 256 else n)"
    using sc(1,3,4) by (intro exI [of _ sc]) simp
  with False show ?thesis by (simp only: if_False)
qed

section \<open>Properties of the slots\<close>

datatype slot_op = OpAcquire | OpRelease nat

fun slot_step :: "slot_op \<Rightarrow> slot_state \<Rightarrow> slot_state" where
  "slot_step OpAcquire st = snd (AcquireSlot st)"
| "slot_step (OpRelease g) st = Release g st"

definition slots_ok :: "slot_state \<Rightarrow> bool" where
  "slots_ok st \<longleftrightarrow> se_activeSlots (fst st) = int (length (filter Not (snd st))) \<and> se_activeSlots (fst st) \<le> se_maxSlots (fst st)"

lemma filter_Not_release: "g < length gs \<Longrightarrow> \<not> gs ! g \<Longrightarrow> Suc (length (filter Not (gs[g := True]))) = length (filter Not gs)"
proof -
  assume g: "g < length gs" "\<not> gs ! g"
  have "filter Not gs = filter Not (take g gs @ gs ! g # drop (Suc g) gs)" using id_take_nth_drop [OF g(1)] by simp
  moreover have "filter Not (gs[g := True]) = filter Not (take g gs @ True # drop (Suc g) gs)"
    using g(1) by (simp add: upd_conv_take_nth_drop)
  ultimately show ?thesis using g(2) by simp
qed

lemma slot_step_ok: "slots_ok st \<Longrightarrow> slots_ok (slot_step e st)"
proof (cases e)
  case OpAcquire
  assume "slots_ok st" with OpAcquire show ?thesis
    by (cases st) (auto simp: slots_ok_def AcquireSlot_def Let_def)
next
  case (OpRelease g)
  assume "slots_ok st" with OpRelease show ?thesis
    using filter_Not_release [of g "snd st"] by (cases st) (auto simp: slots_ok_def Release_def releaseSlot_def Let_def)
qed

interpretation slots: event_system "(NewSpeculativeExecutorWithSlots n, [])" slot_step slots_ok for n
  by unfold_locales (simp add: slots_ok_def NewSpeculativeExecutorWithSlots_def, rule slot_step_ok)

lemma slot_maxSlots [simp]: "se_maxSlots (fst (slot_step e st)) = se_maxSlots (fst st)"
  by (cases e; cases st) (auto simp: AcquireSlot_def Release_def releaseSlot_def Let_def)

text \<open>
  The number of active slots is the number of guards not yet released and never exceeds the
  limit, for any interleaving of acquisitions and releases, guards released twice included.
\<close>

theorem active_slots_exact:
  "let (se, guards) = fold slot_step ops (NewSpeculativeExecutorWithSlots n, []) in
   se_activeSlots se = int (length (filter Not guards)) \<and> se_activeSlots se \<le> (if n \<le> 0 then 4 else n)"
proof -
  have "se_maxSlots (fst (fold slot_step ops st)) = se_maxSlots (fst st)" for st
    by (induction ops arbitrary: st) simp_all
  from this [of "(NewSpeculativeExecutorWithSlots n, [])"] slots.inv_run [of ops n] show ?thesis
    by (simp add: slots_ok_def NewSpeculativeExecutorWithSlots_def case_prod_unfold)
qed

end
