(* ===== verification/LogBuffer.thy ===== *)
theory LogBuffer
  imports Prelude
begin

text \<open>
  The ring buffer that captures log lines for the HTTP API, \<^verbatim>\<open>internal/api/logbuffer.go\<close>. JSON decoding
  and the clock are parameters; a decoded value is a string or something else. The abstraction is the
  list of the entries kept, oldest first.
\<close>

section \<open>The buffer\<close>

datatype 'j json_value = JString string | JOther 'j

record 'j LogEntry =
  le_Timestamp :: string
  le_Level :: string
  le_Message :: string
  le_Fields :: "(string, 'j json_value) gomap"

record 'j LogRingBuffer =
  lb_entries :: "'j LogEntry list"
  lb_maxSize :: int
  lb_head :: int
  lb_count :: int

definition zero_entry :: "'j LogEntry" where
  "zero_entry = \<lparr>le_Timestamp = [], le_Level = [], le_Message = [], le_Fields = []\<rparr>"

definition NewLogRingBuffer :: "int \<Rightarrow> 'j LogRingBuffer" where
  "NewLogRingBuffer n =
     (let maxSize = (if n < 100 then 100 else n) in
      \<lparr>lb_entries = replicate (nat maxSize) zero_entry, lb_maxSize = maxSize, lb_head = 0, lb_count = 0\<rparr>)"

definition push :: "'j LogEntry \<Rightarrow> 'j LogRingBuffer \<Rightarrow> 'j LogRingBuffer" where
  "push entry b =
     b\<lparr>lb_entries := (lb_entries b)[nat (lb_head b) := entry],
       lb_head := (lb_head b + 1) mod lb_maxSize b,
       lb_count := (if lb_count b < lb_maxSize b then lb_count b + 1 else lb_count b)\<rparr>"

definition stringFromMap :: "(string, 'j json_value) gomap \<Rightarrow> string \<Rightarrow> string \<Rightarrow> string" where
  "stringFromMap m key fallback = (case m_get m key of Some (JString s) \<Rightarrow> s | _ \<Rightarrow> fallback)"

text \<open>\<open>unmarshal\<close> decodes a line into an object, \<open>now\<close> is the formatted clock; \<open>Write\<close> returns the length.\<close>

definition Write :: "(string \<Rightarrow> (string, 'j json_value) gomap option) \<Rightarrow> string \<Rightarrow> string \<Rightarrow> 'j LogRingBuffer \<Rightarrow> int \<times> 'j LogRingBuffer" where
  "Write unmarshal now p b =
     (case unmarshal p of
        None \<Rightarrow> (int (length p),
          push \<lparr>le_Timestamp = now, le_Level = ''info'', le_Message = trim_space p, le_Fields = []\<rparr> b)
      | Some raw \<Rightarrow> (int (length p),
          push \<lparr>le_Timestamp = stringFromMap raw ''time'' now, le_Level = stringFromMap raw ''level'' ''info'',
                le_Message = stringFromMap raw ''message'' [],
                le_Fields = m_filter (\<lambda>k v. \<not> (k = ''time'' \<or> k = ''level'' \<or> k = ''message'')) raw\<rparr> b))"

text \<open>The loop of \<^verbatim>\<open>Tail\<close> over \<open>left\<close> more positions from \<open>i\<close> on.\<close>

fun tail_scan :: "'j LogRingBuffer \<Rightarrow> int \<Rightarrow> int \<Rightarrow> string \<Rightarrow> nat \<Rightarrow> int \<Rightarrow> 'j LogEntry list \<Rightarrow> 'j LogEntry list" where
  "tail_scan b start n level 0 i acc = acc"
| "tail_scan b start n level (Suc left) i acc =
     (if \<not> int (length acc) < n then acc
      else let e = lb_entries b ! nat ((start + i) mod lb_maxSize b) in
           tail_scan b start n level left (i + 1) (if level \<noteq> [] \<and> le_Level e \<noteq> level then acc else acc @ [e]))"

definition Tail :: "int \<Rightarrow> string \<Rightarrow> 'j LogRingBuffer \<Rightarrow> 'j LogEntry list" where
  "Tail n0 level b =
     (let n = (if n0 \<le> 0 \<or> lb_count b < n0 then lb_count b else n0);
          start = (lb_head b - lb_count b + lb_maxSize b) mod lb_maxSize b;
          result = tail_scan b start n level (nat (lb_count b)) 0 []
      in if n < int (length result) then drop (nat (int (length result) - n)) result else result)"

section \<open>Refinement\<close>

definition buffer_ok :: "'j LogRingBuffer \<Rightarrow> bool" where
  "buffer_ok b \<longleftrightarrow> 0 < lb_maxSize b \<and> int (length (lb_entries b)) = lb_maxSize b
     \<and> 0 \<le> lb_head b \<and> lb_head b < lb_maxSize b \<and> 0 \<le> lb_count b \<and> lb_count b \<le> lb_maxSize b"

definition slot :: "'j LogRingBuffer \<Rightarrow> int \<Rightarrow> nat" where
  "slot b i = nat ((lb_head b - lb_count b + i) mod lb_maxSize b)"

definition contents :: "'j LogRingBuffer \<Rightarrow> 'j LogEntry list" where
  "contents b = map (\<lambda>i. lb_entries b ! slot b (int i)) [0..<nat (lb_count b)]"

lemma buffer_ok_push: "buffer_ok b \<Longrightarrow> buffer_ok (push e b)"
  by (auto simp: buffer_ok_def push_def)

lemma buffer_ok_new: "buffer_ok (NewLogRingBuffer n)"
  by (auto simp: buffer_ok_def NewLogRingBuffer_def Let_def)

lemma slot_bound: "buffer_ok b \<Longrightarrow> slot b i < length (lb_entries b)"
  using pos_mod_bound [of "lb_maxSize b" "lb_head b - lb_count b + i"]
  by (auto simp: buffer_ok_def slot_def nat_less_iff)

lemma mod_eq_small: "(0::int) < d \<Longrightarrow> d < m \<Longrightarrow> (x + d) mod m \<noteq> x mod m"
  by (metis add_diff_cancel_left' dvd_eq_mod_eq_0 mod_eq_dvd_iff zdvd_not_zless)

lemma push_other:
  assumes "buffer_ok b" and "0 \<le> i" and "i < lb_count b" and "lb_count b - i < lb_maxSize b \<or> 0 < i"
  shows "lb_entries (push e b) ! slot b i = lb_entries b ! slot b i"
proof -
  have "(lb_head b - lb_count b + i + (lb_count b - i)) mod lb_maxSize b \<noteq> (lb_head b - lb_count b + i) mod lb_maxSize b"
    using assms by (intro mod_eq_small) (auto simp: buffer_ok_def)
  then have "slot b i \<noteq> nat (lb_head b)"
    using assms(1) pos_mod_sign [of "lb_maxSize b" "lb_head b - lb_count b + i"]
    by (auto simp: slot_def buffer_ok_def nat_eq_iff)
  then show ?thesis by (simp add: push_def)
qed

lemma slot_push:
  assumes "buffer_ok b"
  shows "slot (push e b) i = slot b (if lb_count b < lb_maxSize b then i else i + 1)"
proof -
  have "((lb_head b + 1) mod lb_maxSize b - c + i) mod lb_maxSize b = (lb_head b + 1 - c + i) mod lb_maxSize b" for c
    by (metis add.commute diff_add_eq mod_add_left_eq)
  then show ?thesis by (simp add: slot_def push_def algebra_simps)
qed

lemma slot_head: "buffer_ok b \<Longrightarrow> slot b (lb_count b) = nat (lb_head b)"
  by (simp add: slot_def buffer_ok_def)

lemma push_at_head: "buffer_ok b \<Longrightarrow> lb_entries (push e b) ! nat (lb_head b) = e"
  by (simp add: push_def buffer_ok_def nat_less_iff)

text \<open>Pushing appends to the entries kept and drops the oldest one when the buffer is full.\<close>

lemma push_appends:
  assumes "buffer_ok b"
  shows "contents (push e b) = (if lb_count b < lb_maxSize b then contents b else tl (contents b)) @ [e]"
proof (cases "lb_count b < lb_maxSize b")
  case True
  have n: "nat (lb_count (push e b)) = Suc (nat (lb_count b))" "int (nat (lb_count b)) = lb_count b"
    using True assms by (simp_all add: push_def buffer_ok_def nat_add_distrib)
  have "lb_entries (push e b) ! slot b (int i) = lb_entries b ! slot b (int i)" if "i < nat (lb_count b)" for i
    using that True assms by (intro push_other) auto
  then show ?thesis using True assms
    by (auto simp: contents_def n slot_push slot_head push_at_head buffer_ok_def)
next
  case False
  then have full: "lb_count b = lb_maxSize b" using assms by (simp add: buffer_ok_def)
  define k where "k = nat (lb_count b) - 1"
  have k: "nat (lb_count b) = Suc k" "lb_count b = int k + 1"
    using assms full by (auto simp: buffer_ok_def k_def)
  have n: "nat (lb_count (push e b)) = Suc k" using False k by (simp add: push_def)
  have "lb_entries (push e b) ! slot b (int i + 1) = lb_entries b ! slot b (int i + 1)" if "i < k" for i
    using that k(2) assms by (intro push_other) auto
  moreover have "lb_entries (push e b) ! slot b (int k + 1) = e"
    using slot_head [OF assms] push_at_head [OF assms] k(2) by simp
  moreover have "tl (contents b) = map (\<lambda>i. lb_entries b ! slot b (int i + 1)) [0..<k]"
    unfolding contents_def k(1) by (simp add: upt_conv_Cons map_Suc_upt [symmetric] comp_def add.commute del: upt_Suc)
  ultimately show ?thesis using False assms by (simp add: contents_def n slot_push)
qed

lemma tail_scan_spec:
  assumes "\<And>j. nat ((start + j) mod lb_maxSize b) = slot b j" and "int (length acc) \<le> n"
  shows "tail_scan b start n level left i acc =
     take (nat n) (acc @ filter (\<lambda>e. level = [] \<or> le_Level e = level) (map (\<lambda>j. lb_entries b ! slot b (i + int j)) [0..<left]))"
  using assms(2)
proof (induction left arbitrary: i acc)
  case (Suc left)
  show ?case
  proof (cases "int (length acc) < n")
    case True
    let ?e = "lb_entries b ! slot b i"
    have shift: "map (\<lambda>j. lb_entries b ! slot b (i + int j)) [0..<Suc left]
        = ?e # map (\<lambda>j. lb_entries b ! slot b (i + 1 + int j)) [0..<left]"
      by (simp add: upt_conv_Cons map_Suc_upt [symmetric] comp_def add.assoc del: upt_Suc)
    from True Suc.IH [of acc "i + 1"] Suc.IH [of "acc @ [?e]" "i + 1"] show ?thesis
      by (simp add: Let_def assms(1) shift del: upt_Suc)
  next
    case False
    with Suc.prems show ?thesis by simp
  qed
qed simp

lemma Tail_contents:
  assumes "buffer_ok b"
  shows "Tail n level b =
     take (if n \<le> 0 \<or> int (length (contents b)) < n then length (contents b) else nat n)
       (filter (\<lambda>e. level = [] \<or> le_Level e = level) (contents b))"
proof -
  have len: "int (length (contents b)) = lb_count b" using assms by (simp add: contents_def buffer_ok_def)
  let ?n = "if n \<le> 0 \<or> lb_count b < n then lb_count b else n"
  let ?start = "(lb_head b - lb_count b + lb_maxSize b) mod lb_maxSize b"
  have start: "nat ((?start + j) mod lb_maxSize b) = slot b j" for j
    by (simp add: slot_def mod_add_left_eq)
  define m where "m = ?n"
  have pos: "0 \<le> m" using assms by (auto simp: buffer_ok_def m_def)
  have m: "nat m = (if n \<le> 0 \<or> int (length (contents b)) < n then length (contents b) else nat n)"
    using len by (auto simp: m_def)
  have r: "tail_scan b ?start m level (nat (lb_count b)) 0 [] = take (nat m) (filter (\<lambda>e. level = [] \<or> le_Level e = level) (contents b))"
    using tail_scan_spec [where b = b and n = m and acc = "[]" and i = 0, OF start] pos by (simp add: contents_def)
  then have "\<not> m < int (length (tail_scan b ?start m level (nat (lb_count b)) 0 []))" using pos by simp
  then show ?thesis unfolding Tail_def Let_def m_def [symmetric] m [symmetric] r by (rule if_not_P)
qed

lemma length_contents: "buffer_ok b \<Longrightarrow> int (length (contents b)) = lb_count b"
  by (simp add: contents_def buffer_ok_def)

lemma push_maxSize [simp]: "lb_maxSize (push e b) = lb_maxSize b"
  by (simp add: push_def)

lemma buffer_after:
  "buffer_ok (fold push es (NewLogRingBuffer n)) \<and> lb_maxSize (fold push es (NewLogRingBuffer n)) = max 100 n
   \<and> contents (fold push es (NewLogRingBuffer n)) = drop (length es - nat (max 100 n)) es"
proof (induction es rule: rev_induct)
  case Nil
  show ?case by (simp add: buffer_ok_new) (auto simp: NewLogRingBuffer_def contents_def Let_def)
next
  case (snoc e es)
  let ?b = "fold push es (NewLogRingBuffer n)" and ?m = "nat (max 100 n)"
  from snoc.IH have ok: "buffer_ok ?b" and size: "lb_maxSize ?b = max 100 n" and kept: "contents ?b = drop (length es - ?m) es"
    by simp_all
  have count: "lb_count ?b = int (min ?m (length es))" using length_contents [OF ok] by (simp add: kept)
  have "contents (push e ?b) = drop (Suc (length es) - ?m) (es @ [e])"
  proof (cases "length es < ?m")
    case True
    then have "lb_count ?b < lb_maxSize ?b" using count size by simp
    with True show ?thesis by (simp add: push_appends [OF ok] kept)
  next
    case False
    then have "lb_count ?b = lb_maxSize ?b" "length es = ?m + (length es - ?m)" using count size by auto
    with False show ?thesis by (simp add: push_appends [OF ok] kept Suc_diff_le tl_drop drop_Suc)
  qed
  then show ?case by (simp add: buffer_ok_push ok size)
qed

text \<open>
  The ring buffer refines a bounded queue: after any lines have been captured it holds exactly
  the latest ones, as many as its capacity (at least a hundred), in order.
\<close>

theorem ring_buffer_keeps_latest:
  "contents (fold push es (NewLogRingBuffer n)) = drop (length es - nat (max 100 n)) es"
  using buffer_after by blast

text \<open>
  \<^verbatim>\<open>Tail\<close> answers with the \<^emph>\<open>oldest\<close> of the kept entries of the level it is asked for, at most
  as many as asked (all when the number is not positive or larger than what is kept), in order.
\<close>

theorem tail_returns_oldest:
  "let kept = drop (length es - nat (max 100 n)) es in
   Tail k level (fold push es (NewLogRingBuffer n)) =
     take (if k \<le> 0 \<or> int (length kept) < k then length kept else nat k) (filter (\<lambda>e. level = [] \<or> le_Level e = level) kept)"
  using buffer_after [of es n] by (simp only: Let_def Tail_contents)

end
