(* ===== verification/Regex.thy ===== *)
theory Regex
  imports Prelude
begin

text \<open>
  The part of Go's \<^verbatim>\<open>regexp\<close> and \<^verbatim>\<open>strings\<close> packages that the text heuristics of the pipeline
  rely on. A pattern is a value of \<open>rx\<close>; matching is leftmost-first, as \<^verbatim>\<open>regexp.MustCompile\<close>
  without \<^verbatim>\<open>Longest\<close> does it: an alternation prefers its left side, a greedy repetition one more
  iteration, a lazy one fewer. Text is a list of bytes and \<^verbatim>\<open>(?i)\<close> folds ASCII letters, so the model
  is exact on ASCII text.

  A state of the matcher is the position, the byte before it, the bytes after it and the submatches
  found so far. \<open>rx_run\<close> lists every state a pattern can end in, the preferred ones first, and a match
  is the first of them. The iterations of a star are bounded by the bytes left, which is enough because
  an iteration has to consume something (\<open>rx_star_fuel\<close>).
\<close>

section \<open>Patterns and the matcher\<close>

datatype rx =
    REps
  | RChar "char \<Rightarrow> bool"
  | RSeq rx rx
  | RAlt rx rx
  | RStar bool rx
  | RRep bool nat nat rx
  | RGroup nat rx
  | RWordB
  | RBeginText
  | REndText
  | REndLine

type_synonym rx_state = "nat \<times> char option \<times> string \<times> (nat, nat \<times> nat) gomap"

abbreviation rx_pos :: "rx_state \<Rightarrow> nat" where
  "rx_pos st \<equiv> fst st"

abbreviation rx_rest :: "rx_state \<Rightarrow> string" where
  "rx_rest st \<equiv> fst (snd (snd st))"

definition rx_word_char :: "char \<Rightarrow> bool" where
  "rx_word_char c \<longleftrightarrow> is_digit c \<or> c = CHR ''_'' \<or>
     97 \<le> (of_char (lower_char c) :: nat) \<and> (of_char (lower_char c) :: nat) \<le> 122"

lemma rx_word_char_code [code]:
  "rx_word_char (Char b0 b1 b2 b3 b4 b5 b6 b7) \<longleftrightarrow>
     \<not> b7 \<and> (if b6 then letter_bits b0 b1 b2 b3 b4 \<or> \<not> b5 \<and> b4 \<and> b3 \<and> b2 \<and> b1 \<and> b0
             else b5 \<and> b4 \<and> \<not> (b3 \<and> (b2 \<or> b1)))"
  unfolding rx_word_char_def is_digit_code lower_char_code letter_bits_def
  by (cases b0; cases b1; cases b2; cases b3; cases b4; cases b5; cases b6; cases b7) (simp_all add: of_char_Char)

fun at_word_boundary :: "char option \<Rightarrow> string \<Rightarrow> bool" where
  "at_word_boundary p rest =
     ((case p of None \<Rightarrow> False | Some c \<Rightarrow> rx_word_char c)
      \<noteq> (case rest of [] \<Rightarrow> False | c # _ \<Rightarrow> rx_word_char c))"

fun rx_star :: "(rx_state \<Rightarrow> rx_state list) \<Rightarrow> bool \<Rightarrow> nat \<Rightarrow> rx_state \<Rightarrow> rx_state list" where
  "rx_star f greedy 0 st = [st]"
| "rx_star f greedy (Suc n) st =
     (let more = concat (map (rx_star f greedy n) (filter (\<lambda>st'. rx_pos st < rx_pos st') (f st)))
      in if greedy then more @ [st] else st # more)"

text \<open>Between \<open>m\<close> and \<open>m + n\<close> iterations.\<close>

fun rx_rep :: "(rx_state \<Rightarrow> rx_state list) \<Rightarrow> bool \<Rightarrow> nat \<Rightarrow> nat \<Rightarrow> rx_state \<Rightarrow> rx_state list" where
  "rx_rep f greedy (Suc m) n st = concat (map (rx_rep f greedy m n) (f st))"
| "rx_rep f greedy 0 (Suc n) st =
     (let more = concat (map (rx_rep f greedy 0 n) (f st)) in if greedy then more @ [st] else st # more)"
| "rx_rep f greedy 0 0 st = [st]"

primrec rx_run :: "rx \<Rightarrow> rx_state \<Rightarrow> rx_state list" where
  "rx_run REps st = [st]"
| "rx_run (RChar P) st =
     (case st of (i, p, rest, c) \<Rightarrow>
        (case rest of [] \<Rightarrow> [] | x # xs \<Rightarrow> if P x then [(Suc i, Some x, xs, c)] else []))"
| "rx_run (RSeq a b) st = concat (map (rx_run b) (rx_run a st))"
| "rx_run (RAlt a b) st = rx_run a st @ rx_run b st"
| "rx_run (RStar g r) st = rx_star (rx_run r) g (Suc (length (rx_rest st))) st"
| "rx_run (RRep g m n r) st = rx_rep (rx_run r) g m (n - m) st"
| "rx_run (RGroup g r) st =
     map (\<lambda>(j, p, rest, c). (j, p, rest, m_put g (rx_pos st, j) c)) (rx_run r st)"
| "rx_run RWordB st = (case st of (i, p, rest, c) \<Rightarrow> if at_word_boundary p rest then [st] else [])"
| "rx_run RBeginText st = (if rx_pos st = 0 then [st] else [])"
| "rx_run REndText st = (if rx_rest st = [] then [st] else [])"
| "rx_run REndLine st =
     (case rx_rest st of [] \<Rightarrow> [st] | x # _ \<Rightarrow> if x = CHR 0x0A then [st] else [])"

section \<open>Searching\<close>

text \<open>The first match at or after a position: where it starts and the state it ends in.\<close>

fun rx_search :: "rx \<Rightarrow> nat \<Rightarrow> char option \<Rightarrow> string \<Rightarrow> (nat \<times> rx_state) option" where
  "rx_search r i p [] = (case rx_run r (i, p, [], []) of st # _ \<Rightarrow> Some (i, st) | [] \<Rightarrow> None)"
| "rx_search r i p (x # xs) =
     (case rx_run r (i, p, x # xs, []) of st # _ \<Rightarrow> Some (i, st) | [] \<Rightarrow> rx_search r (Suc i) (Some x) xs)"

text \<open>A match: its start, its end and its submatches, as \<^verbatim>\<open>FindStringSubmatchIndex\<close> gives them.\<close>

type_synonym rx_match = "nat \<times> nat \<times> (nat, nat \<times> nat) gomap"

definition rx_find :: "rx \<Rightarrow> string \<Rightarrow> rx_match option" where
  "rx_find r s = map_option (\<lambda>(i, j, _, _, c). (i, j, c)) (rx_search r 0 None s)"

definition rx_matches :: "rx \<Rightarrow> string \<Rightarrow> bool" where
  "rx_matches r s \<longleftrightarrow> rx_find r s \<noteq> None"

text \<open>
  \<^verbatim>\<open>FindAll\<close>: successive matches that do not overlap. An empty match moves the search on by one
  byte and is dropped right after a match (\<open>prev\<close>). Every round moves on, so that one round a byte
  is enough.
\<close>

fun rx_rounds :: "rx \<Rightarrow> nat \<Rightarrow> nat option \<Rightarrow> nat \<Rightarrow> char option \<Rightarrow> string \<Rightarrow> rx_match list" where
  "rx_rounds r 0 prev i p rest = []"
| "rx_rounds r (Suc n) prev i p rest =
     (case rx_search r i p rest of
        None \<Rightarrow> []
      | Some (a, b, p', rest', c) \<Rightarrow>
          if b = i
          then (if prev = Some a then [] else [(a, b, c)])
               @ (case rest of [] \<Rightarrow> [] | x # xs \<Rightarrow> rx_rounds r n (Some b) (Suc i) (Some x) xs)
          else (a, b, c) # rx_rounds r n (Some b) b p' rest')"

definition rx_find_all :: "rx \<Rightarrow> string \<Rightarrow> rx_match list" where
  "rx_find_all r s = rx_rounds r (Suc (length s)) None 0 None s"

definition slice :: "string \<Rightarrow> nat \<Rightarrow> nat \<Rightarrow> string" where
  "slice s a b = take (b - a) (drop a s)"

definition match_text :: "string \<Rightarrow> rx_match \<Rightarrow> string" where
  "match_text s m = (case m of (a, b, _) \<Rightarrow> slice s a b)"

text \<open>A submatch that took no part in the match is the empty string.\<close>

definition group_text :: "nat \<Rightarrow> string \<Rightarrow> rx_match \<Rightarrow> string" where
  "group_text g s m = (case m of (_, _, c) \<Rightarrow> (case m_get c g of Some (a, b) \<Rightarrow> slice s a b | None \<Rightarrow> []))"

fun replace_matches :: "string \<Rightarrow> string \<Rightarrow> nat \<Rightarrow> rx_match list \<Rightarrow> string" where
  "replace_matches s by i [] = drop i s"
| "replace_matches s by i ((a, b, c) # ms) = slice s i a @ by @ replace_matches s by b ms"

text \<open>\<^verbatim>\<open>ReplaceAllString\<close> with a replacement that names no submatch.\<close>

definition rx_replace_all :: "rx \<Rightarrow> string \<Rightarrow> string \<Rightarrow> string" where
  "rx_replace_all r s by = replace_matches s by 0 (rx_find_all r s)"

section \<open>Abbreviations for patterns\<close>

definition rseq :: "rx list \<Rightarrow> rx" where
  "rseq rs = foldr RSeq rs REps"

fun ralt :: "rx list \<Rightarrow> rx" where
  "ralt [] = RChar (\<lambda>_. False)"
| "ralt [r] = r"
| "ralt (r # rs) = RAlt r (ralt rs)"

definition rlit :: "string \<Rightarrow> rx" where
  "rlit s = rseq (map (\<lambda>x. RChar (\<lambda>c. c = x)) s)"

definition rlit_i :: "string \<Rightarrow> rx" where
  "rlit_i s = rseq (map (\<lambda>x. RChar (\<lambda>c. lower_char c = lower_char x)) s)"

definition ropt :: "rx \<Rightarrow> rx" where
  "ropt r = RRep True 0 1 r"

definition rstar :: "rx \<Rightarrow> rx" where
  "rstar r = RStar True r"

definition rplus :: "rx \<Rightarrow> rx" where
  "rplus r = RSeq r (RStar True r)"

definition is_rx_space :: "char \<Rightarrow> bool" where
  "is_rx_space c \<longleftrightarrow> (of_char c :: nat) \<in> {9, 10, 12, 13, 32}"

lemma is_rx_space_code [code]:
  "is_rx_space (Char b0 b1 b2 b3 b4 b5 b6 b7) \<longleftrightarrow>
     is_space (Char b0 b1 b2 b3 b4 b5 b6 b7) \<and> \<not> (b0 \<and> b1)"
  unfolding is_rx_space_def is_space_code
  by (cases b0; cases b1; cases b2; cases b3; cases b4; cases b5; cases b6; cases b7) (simp_all add: of_char_Char)

definition rspace :: rx where
  "rspace = RChar is_rx_space"

definition rdigit :: rx where
  "rdigit = RChar is_digit"

definition rdot :: rx where
  "rdot = RChar (\<lambda>c. c \<noteq> CHR 0x0A)"

definition is_alnum_lower :: "char \<Rightarrow> bool" where
  "is_alnum_lower c \<longleftrightarrow> is_digit c \<or> 97 \<le> (of_char c :: nat) \<and> (of_char c :: nat) \<le> 122"

lemma is_alnum_lower_code [code]:
  "is_alnum_lower (Char b0 b1 b2 b3 b4 b5 b6 b7) \<longleftrightarrow>
     \<not> b7 \<and> b5 \<and> (if b6 then letter_bits b0 b1 b2 b3 b4 else b4 \<and> \<not> (b3 \<and> (b2 \<or> b1)))"
  unfolding is_alnum_lower_def is_digit_code letter_bits_def
  by (cases b0; cases b1; cases b2; cases b3; cases b4; cases b5; cases b6; cases b7) (simp_all add: of_char_Char)

section \<open>Further string functions\<close>

text \<open>\<^verbatim>\<open>strings.ReplaceAll(s, p, by)\<close>; an empty \<open>p\<close> matches before every byte and at the end.\<close>

function replace_all :: "string \<Rightarrow> string \<Rightarrow> string \<Rightarrow> string" where
  "replace_all p by s =
     (case s of [] \<Rightarrow> (if p = [] then by else [])
      | c # r \<Rightarrow> if p = [] then by @ c # replace_all p by r
                else if has_prefix s p then by @ replace_all p by (drop (length p) s) else c # replace_all p by r)"
  by pat_completeness auto
termination
  by (relation "measure (\<lambda>(p, by, s). length s)") (auto simp: neq_Nil_conv)

declare replace_all.simps [simp del]

text \<open>\<^verbatim>\<open>strings.Split(s, sep)\<close> for a separator of several bytes; \<open>w\<close> is the current piece, reversed.\<close>

function split_acc :: "string \<Rightarrow> string \<Rightarrow> string \<Rightarrow> string list" where
  "split_acc sep w s =
     (case s of [] \<Rightarrow> [rev w]
      | c # r \<Rightarrow> if sep \<noteq> [] \<and> has_prefix s sep then rev w # split_acc sep [] (drop (length sep) s)
                else split_acc sep (c # w) r)"
  by pat_completeness auto
termination
  by (relation "measure (\<lambda>(sep, w, s). length s)") (auto simp: neq_Nil_conv)

declare split_acc.simps [simp del]

definition str_split :: "string \<Rightarrow> string \<Rightarrow> string list" where
  "str_split sep s = split_acc sep [] s"

text \<open>\<^verbatim>\<open>strings.Trim\<close>, \<^verbatim>\<open>TrimLeft\<close> and \<^verbatim>\<open>TrimRight\<close> with a set of bytes.\<close>

definition trim_left :: "string \<Rightarrow> string \<Rightarrow> string" where
  "trim_left cutset s = dropWhile (\<lambda>c. c \<in> set cutset) s"

definition trim_right :: "string \<Rightarrow> string \<Rightarrow> string" where
  "trim_right cutset s = rev (dropWhile (\<lambda>c. c \<in> set cutset) (rev s))"

definition trim_chars :: "string \<Rightarrow> string \<Rightarrow> string" where
  "trim_chars cutset s = trim_right cutset (trim_left cutset s)"

text \<open>\<^verbatim>\<open>strings.FieldsFunc\<close>.\<close>

fun fields_func_acc :: "(char \<Rightarrow> bool) \<Rightarrow> string \<Rightarrow> string \<Rightarrow> string list" where
  "fields_func_acc sep w [] = (if w = [] then [] else [rev w])"
| "fields_func_acc sep w (x # xs) =
     (if sep x then (if w = [] then fields_func_acc sep [] xs else rev w # fields_func_acc sep [] xs)
      else fields_func_acc sep (x # w) xs)"

definition fields_func :: "(char \<Rightarrow> bool) \<Rightarrow> string \<Rightarrow> string list" where
  "fields_func sep s = fields_func_acc sep [] s"

text \<open>\<^verbatim>\<open>strings.Count\<close> of one byte, \<^verbatim>\<open>strings.EqualFold\<close> on ASCII text.\<close>

definition count_char :: "char \<Rightarrow> string \<Rightarrow> nat" where
  "count_char c s = length (filter (\<lambda>x. x = c) s)"

definition equal_fold :: "string \<Rightarrow> string \<Rightarrow> bool" where
  "equal_fold a b \<longleftrightarrow> to_lower a = to_lower b"

text \<open>The elements of a list in order, each once: the loops that keep a \<^verbatim>\<open>seen\<close> map.\<close>

fun first_by :: "('a \<Rightarrow> 'k) \<Rightarrow> 'k set \<Rightarrow> 'a list \<Rightarrow> 'a list" where
  "first_by key seen [] = []"
| "first_by key seen (x # xs) =
     (if key x \<in> seen then first_by key seen xs else x # first_by key (insert (key x) seen) xs)"

section \<open>Properties\<close>

text \<open>The matcher only ever continues in states further on in the same text.\<close>

definition rx_wf :: "nat \<Rightarrow> rx_state \<Rightarrow> bool" where
  "rx_wf N st \<longleftrightarrow> rx_pos st + length (rx_rest st) = N"

definition rx_forward :: "(rx_state \<Rightarrow> rx_state list) \<Rightarrow> bool" where
  "rx_forward f \<longleftrightarrow> (\<forall>N st st'. rx_wf N st \<longrightarrow> st' \<in> set (f st) \<longrightarrow> rx_wf N st' \<and> rx_pos st \<le> rx_pos st')"

lemma rx_forwardD: "rx_forward f \<Longrightarrow> rx_wf N st \<Longrightarrow> st' \<in> set (f st) \<Longrightarrow> rx_wf N st' \<and> rx_pos st \<le> rx_pos st'"
  unfolding rx_forward_def by blast

named_theorems rx_forward_intros

lemma rx_forwardI:
  "(\<And>N st st'. rx_wf N st \<Longrightarrow> st' \<in> set (f st) \<Longrightarrow> rx_wf N st' \<and> rx_pos st \<le> rx_pos st') \<Longrightarrow> rx_forward f"
  unfolding rx_forward_def by blast

lemma rx_forward_return [rx_forward_intros]: "rx_forward (\<lambda>st. [st])"
  by (simp add: rx_forward_def)

lemma rx_forward_filter [rx_forward_intros]: "rx_forward f \<Longrightarrow> rx_forward (\<lambda>st. filter (P st) (f st))"
  by (rule rx_forwardI) (metis filter_is_subset rx_forwardD subsetD)

lemma rx_forward_bind [rx_forward_intros]:
  assumes "rx_forward f" "rx_forward h"
  shows "rx_forward (\<lambda>st. concat (map h (f st)))"
proof (rule rx_forwardI)
  fix N st st'
  assume "rx_wf N st" "st' \<in> set (concat (map h (f st)))"
  then obtain mid where "mid \<in> set (f st)" "st' \<in> set (h mid)" "rx_wf N st" by (fastforce simp only: set_concat set_map UN_iff image_iff)
  with assms show "rx_wf N st' \<and> rx_pos st \<le> rx_pos st'" by (meson order_trans rx_forwardD)
qed

lemma rx_forward_append [rx_forward_intros]:
  "rx_forward f \<Longrightarrow> rx_forward h \<Longrightarrow> rx_forward (\<lambda>st. f st @ h st)"
  by (rule rx_forwardI) (metis Un_iff rx_forwardD set_append)

lemma rx_forward_Cons [rx_forward_intros]: "rx_forward f \<Longrightarrow> rx_forward (\<lambda>st. st # f st)"
  by (rule rx_forwardI) (metis order_refl rx_forwardD set_ConsD)

lemma rx_star_forward [rx_forward_intros]: "rx_forward f \<Longrightarrow> rx_forward (rx_star f g n)"
proof (induction n)
  case (Suc n)
  have "rx_star f g (Suc n) =
      (if g then (\<lambda>st. concat (map (rx_star f g n) (filter (\<lambda>st'. rx_pos st < rx_pos st') (f st))) @ [st])
       else (\<lambda>st. st # concat (map (rx_star f g n) (filter (\<lambda>st'. rx_pos st < rx_pos st') (f st)))))"
    by (rule ext) (simp add: Let_def)
  with Suc show ?case by (auto intro!: rx_forward_intros)
qed (simp add: rx_forward_def)

lemma rx_rep_forward [rx_forward_intros]: "rx_forward f \<Longrightarrow> rx_forward (rx_rep f g m n)"
proof (induction m)
  case 0
  then show ?case
  proof (induction n)
    case (Suc n)
    have "rx_rep f g 0 (Suc n) =
        (if g then (\<lambda>st. concat (map (rx_rep f g 0 n) (f st)) @ [st]) else (\<lambda>st. st # concat (map (rx_rep f g 0 n) (f st))))"
      by (rule ext) (simp add: Let_def)
    with Suc show ?case by (auto intro!: rx_forward_intros)
  qed (simp add: rx_forward_def)
next
  case (Suc m)
  have "rx_rep f g (Suc m) n = (\<lambda>st. concat (map (rx_rep f g m n) (f st)))" by (rule ext) simp
  with Suc show ?case by (auto intro!: rx_forward_intros)
qed

text \<open>A pattern only ever ends further on in the same text.\<close>

lemma rx_run_forward: "rx_forward (rx_run r)"
proof (induction r)
  case (RSeq a b)
  then have "rx_forward (\<lambda>st. concat (map (rx_run b) (rx_run a st)))" by (rule rx_forward_bind)
  then show ?case by (simp add: rx_forward_def)
next
  case (RStar g r)
  from rx_star_forward [OF this] show ?case unfolding rx_forward_def rx_run.simps by blast
next
  case (RRep g m n r)
  from rx_rep_forward [OF this] show ?case unfolding rx_forward_def rx_run.simps by blast
qed (fastforce simp: rx_forward_def rx_wf_def split: list.splits if_splits)+

text \<open>More iterations than there are bytes left change nothing.\<close>

lemma rx_star_fuel:
  assumes "rx_forward f"
  shows "length (rx_rest st) < n \<Longrightarrow> length (rx_rest st) < m \<Longrightarrow> rx_star f g n st = rx_star f g m st"
proof (induction n arbitrary: st m)
  case (Suc n)
  from Suc.prems(2) obtain m' where m: "m = Suc m'" by (cases m) auto
  have wf: "rx_wf (rx_pos st + length (rx_rest st)) st" by (simp add: rx_wf_def)
  have "rx_star f g n st' = rx_star f g m' st'" if "st' \<in> set (f st)" "rx_pos st < rx_pos st'" for st'
    using rx_forwardD [OF assms wf that(1)] that(2) Suc.prems m by (intro Suc.IH) (auto simp: rx_wf_def)
  then have "map (rx_star f g n) (filter (\<lambda>st'. rx_pos st < rx_pos st') (f st))
      = map (rx_star f g m') (filter (\<lambda>st'. rx_pos st < rx_pos st') (f st))" by auto
  then show ?case by (simp only: m rx_star.simps)
qed simp

text \<open>The bounds of a match lie in the text, its end not before its start.\<close>

lemma rx_search_bounds:
  "rx_search r i p rest = Some (a, st) \<Longrightarrow> i \<le> a \<and> a \<le> rx_pos st \<and> rx_wf (i + length rest) st"
proof (induction rest arbitrary: i p)
  case Nil
  then show ?case
    using rx_forwardD [OF rx_run_forward, of i "(i, p, [], [])" st r]
    by (auto simp: rx_wf_def split: list.splits)
next
  case (Cons x xs)
  then show ?case
    using rx_forwardD [OF rx_run_forward, of "i + Suc (length xs)" "(i, p, x # xs, [])" st r] Cons.IH [of "Suc i" "Some x"]
    by (fastforce simp: rx_wf_def split: list.splits)
qed

lemma rx_find_bounds: "rx_find r s = Some (a, b, c) \<Longrightarrow> a \<le> b \<and> b \<le> length s"
  unfolding rx_find_def by (auto dest!: rx_search_bounds simp: rx_wf_def)

text \<open>
  What \<open>Split\<close> and \<open>Join\<close> promise: a text joined from its pieces is the text, and no piece holds the
  separator's first byte followed by the rest of it.
\<close>

lemma split_acc_not_Nil [simp]: "split_acc sep w s \<noteq> []"
  by (induction sep w s rule: split_acc.induct) (subst split_acc.simps, auto split: list.splits)

lemma str_split_not_Nil [simp]: "str_split sep s \<noteq> []"
  by (simp add: str_split_def)

lemma str_join_Cons: "ws \<noteq> [] \<Longrightarrow> str_join sep (w # ws) = w @ sep @ str_join sep ws"
  by (cases ws) auto

lemma join_split_acc: "str_join sep (split_acc sep w s) = rev w @ s"
proof (induction sep w s rule: split_acc.induct)
  case (1 sep w s)
  show ?case
  proof (cases s)
    case Nil
    then show ?thesis by (subst split_acc.simps) simp
  next
    case (Cons c r)
    show ?thesis
    proof (cases "sep \<noteq> [] \<and> has_prefix s sep")
      case True
      then have "sep @ drop (length sep) s = s"
        by (metis append_take_drop_id has_prefix_def)
      with "1.IH"(1) [OF Cons] True Cons show ?thesis
        by (subst split_acc.simps) (simp add: str_join_Cons)
    next
      case False
      with "1.IH"(2) [OF Cons] Cons show ?thesis by (subst split_acc.simps) auto
    qed
  qed
qed

lemma join_str_split [simp, go_str]: "str_join sep (str_split sep s) = s"
  by (simp add: str_split_def join_split_acc)

lemma first_by_set: "x \<in> set (first_by key seen xs) \<Longrightarrow> x \<in> set xs"
  by (induction xs arbitrary: seen) (auto split: if_splits)

lemma first_by_keys: "key ` set (first_by key seen xs) = key ` set xs - seen"
  by (induction xs arbitrary: seen) auto

lemma first_by_distinct: "distinct (map key (first_by key seen xs))"
proof (induction xs arbitrary: seen)
  case (Cons x xs)
  have "key x \<notin> key ` set (first_by key (insert (key x) seen) xs)" unfolding first_by_keys by simp
  with Cons.IH show ?case by simp
qed simp

end
