(* ===== verification/Artifacts.thy ===== *)
theory Artifacts
  imports Guards Regex
begin

text \<open>
  The artifact contract of a turn: \<^verbatim>\<open>internal/pipeline/artifact_expectations.go\<close>, which reads from the
  prompt which files are to be written with which exact content and which files are sources, and
  compares that with the proofs the tools left; the constructors of those proofs
  (\<^verbatim>\<open>internal/agent/tools/artifact_proof.go\<close>, \<^verbatim>\<open>artifact_read_proof.go\<close>, \<^verbatim>\<open>inspection_proof.go\<close>) and
  the collection of the proofs of the current turn (\<^verbatim>\<open>internal/pipeline/tool_result_evidence.go\<close>).
  The patterns are values of the \<open>Regex\<close> theory; the hash function and the JSON decoder are parameters.
\<close>

section \<open>Proofs the tools leave\<close>

definition maxExactArtifactContentBytes :: nat where
  "maxExactArtifactContentBytes = 2048"

definition NewArtifactProof :: "(string \<Rightarrow> string) \<Rightarrow> string \<Rightarrow> string \<Rightarrow> string \<Rightarrow> bool \<Rightarrow> artifact_proof" where
  "NewArtifactProof sha256Hex kind path content appendMode =
     (let proof = \<lparr>ap_ProofType = ''artifact_write'', ap_ArtifactKind = kind, ap_Path = path,
            ap_Bytes = int (length content), ap_ContentSHA256 = sha256Hex content, ap_Append = appendMode,
            ap_ExactContentIncluded = False, ap_Content = [], ap_ContentPreview = [], ap_ContentTruncated = False\<rparr>
      in if length content \<le> maxExactArtifactContentBytes
         then proof\<lparr>ap_ExactContentIncluded := True, ap_Content := content\<rparr>
         else proof\<lparr>ap_ContentPreview := take maxExactArtifactContentBytes content, ap_ContentTruncated := True\<rparr>)"

definition NewArtifactReadProof :: "(string \<Rightarrow> string) \<Rightarrow> string \<Rightarrow> string \<Rightarrow> string \<Rightarrow> artifact_read_proof" where
  "NewArtifactReadProof sha256Hex kind path content =
     (let proof = \<lparr>rp_ProofType = ''artifact_read'', rp_ArtifactKind = kind, rp_Path = path,
            rp_Bytes = int (length content), rp_ContentSHA256 = sha256Hex content,
            rp_ExactContentIncluded = False, rp_Content = [], rp_ContentPreview = [], rp_ContentTruncated = False\<rparr>
      in if length content \<le> maxExactArtifactContentBytes
         then proof\<lparr>rp_ExactContentIncluded := True, rp_Content := content\<rparr>
         else proof\<lparr>rp_ContentPreview := take maxExactArtifactContentBytes content, rp_ContentTruncated := True\<rparr>)"

definition NewInspectionProof :: "string \<Rightarrow> string \<Rightarrow> string \<Rightarrow> int \<Rightarrow> inspection_proof" where
  "NewInspectionProof kind toolName path count0 =
     (let n = (if count0 < 0 then 0 else count0)
      in \<lparr>ip_ProofType = ''inspection_result'', ip_InspectionKind = kind, ip_ToolName = toolName, ip_Path = path,
          ip_Pattern = [], ip_Query = [], ip_Count = n, ip_Empty = (n = 0)\<rparr>)"

definition WithPattern :: "string \<Rightarrow> inspection_proof \<Rightarrow> inspection_proof" where
  "WithPattern pattern p = p\<lparr>ip_Pattern := pattern\<rparr>"

definition WithQuery :: "string \<Rightarrow> inspection_proof \<Rightarrow> inspection_proof" where
  "WithQuery query p = p\<lparr>ip_Query := query\<rparr>"

section \<open>The contract and its comparisons\<close>

record ExpectedArtifactSpec =
  es_ArtifactKind :: string
  es_Path :: string
  es_ExactContent :: string

record ArtifactPromptContract =
  pc_ExpectedOutputs :: "ExpectedArtifactSpec list"
  pc_SourceInputs :: "string list"

record ArtifactContentMismatch =
  cm_Path :: string
  cm_Expected :: string
  cm_Actual :: string
  cm_Reason :: string

record ArtifactConformance =
  ac_Expected :: "ExpectedArtifactSpec list"
  ac_Missing :: "ExpectedArtifactSpec list"
  ac_Mismatched :: "ArtifactContentMismatch list"
  ac_Unexpected :: "string list"
  ac_MatchedPath :: "string list"

definition AllExactSatisfied :: "ArtifactConformance \<Rightarrow> bool" where
  "AllExactSatisfied c \<longleftrightarrow> ac_Expected c \<noteq> [] \<and> ac_Missing c = [] \<and> ac_Mismatched c = []"

definition HasUnsatisfied :: "ArtifactConformance \<Rightarrow> bool" where
  "HasUnsatisfied c \<longleftrightarrow> ac_Missing c \<noteq> [] \<or> ac_Mismatched c \<noteq> [] \<or> ac_Unexpected c \<noteq> []"

record ArtifactClaimConformance =
  cc_Claimed :: "string list"
  cc_UnsupportedClaim :: "string list"

definition HasUnsupported :: "ArtifactClaimConformance \<Rightarrow> bool" where
  "HasUnsupported c \<longleftrightarrow> cc_UnsupportedClaim c \<noteq> []"

record SourceArtifactConformance =
  sc_ExpectedSources :: "string list"
  sc_Unread :: "string list"
  sc_ReadPaths :: "string list"

definition HasUnread :: "SourceArtifactConformance \<Rightarrow> bool" where
  "HasUnread c \<longleftrightarrow> sc_Unread c \<noteq> []"

section \<open>Patterns\<close>

definition name_char :: "char \<Rightarrow> bool" where
  "name_char c \<longleftrightarrow> is_alnum_lower (lower_char c) \<or> c = CHR ''_''"

definition name_tail_char :: "char \<Rightarrow> bool" where
  "name_tail_char c \<longleftrightarrow> name_char c \<or> c = CHR ''.'' \<or> c = CHR ''-''"

definition rname :: rx where
  "rname = RSeq (RChar name_char) (rstar (RChar name_tail_char))"

definition artifact_extensions :: "string list" where
  "artifact_extensions = [''md'', ''markdown'', ''txt'', ''json'', ''yaml'', ''yml'', ''toml'']"

definition rdir :: rx where
  "rdir = RSeq rname (rlit ''/'')"

definition rfile :: rx where
  "rfile = rseq [rstar rdir, rname, rlit ''.'', ralt (map rlit_i artifact_extensions)]"

definition artifactTargetPattern :: rx where
  "artifactTargetPattern = rseq [RWordB, rfile, RWordB]"

definition artifactContainerDirPattern :: rx where
  "artifactContainerDirPattern =
     rseq [RWordB, ralt (map rlit_i [''in'', ''under'', ''within'']), rplus rspace, RGroup 1 (rplus rdir)]"

definition sourceArtifactRefPattern :: rx where
  "sourceArtifactRefPattern =
     rseq [RWordB, ralt (map rlit_i [''read'', ''inspect'', ''open'', ''parse'', ''use'', ''using'', ''from'']),
           rplus rspace, RGroup 1 rfile, RWordB]"

definition artifactContentDirectivePattern :: rx where
  "artifactContentDirectivePattern =
     RAlt (rseq [rlit_i ''with'', rplus rspace, rlit_i ''content''])
          (rseq [ropt (rseq [rlit_i ''should'', rplus rspace]), rlit_i ''contain'', ropt (rlit_i ''ing''),
                 rplus rspace, rlit_i ''exactly''])"

definition directive_end :: rx where
  "directive_end = rseq [rstar rspace, ropt (rlit '':''), rstar rspace]"

definition inlineExactArtifactPattern :: rx where
  "inlineExactArtifactPattern =
     rseq [ropt (rseq [RWordB, rlit_i ''file'', rplus rspace, rplus rdigit, rstar rspace, rlit '':'', rstar rspace]),
           RWordB, RGroup 1 rfile, RWordB, rplus rspace, ropt (rseq [rlit_i ''that'', rplus rspace]),
           artifactContentDirectivePattern, directive_end]"

definition ordinal_pattern :: "string \<Rightarrow> rx" where
  "ordinal_pattern ord =
     rseq [RWordB, ropt (rseq [rlit_i ''the'', rplus rspace]), rlit_i ord, RWordB, RRep False 0 120 (RChar (\<lambda>_. True)),
           RWordB, artifactContentDirectivePattern, directive_end]"

definition ordinalExactContentPatterns :: "rx list" where
  "ordinalExactContentPatterns = map ordinal_pattern [''first'', ''second'', ''third'']"

definition postArtifactDirectivePattern :: rx where
  "postArtifactDirectivePattern =
     rseq [RChar (\<lambda>c. c = CHR 0x0A),
           ralt [rseq [rlit_i ''after'', rplus rspace, ralt [rlit_i ''writing'', rlit_i ''creating''], RWordB],
                 rseq [rlit_i ''when'', rplus rspace, rlit_i ''done'', RWordB],
                 rseq [rlit_i ''once'', rplus rspace, ralt [rlit_i ''written'', rlit_i ''created''], RWordB],
                 rseq [rlit_i ''then'', rplus rspace, rlit_i ''tell'', RWordB],
                 rseq [rlit_i ''tell'', rplus rspace, rlit_i ''me'', RWordB],
                 rseq [rlit_i ''do'', rplus rspace, rlit_i ''not'', rplus rspace, rlit_i ''claim'', RWordB]],
           rstar rdot]"

text \<open>The three bytes of the bullet character.\<close>

definition bullet :: string where
  "bullet = [CHR 0xE2, CHR 0x80, CHR 0xA2]"

definition trailingArtifactBulletPattern :: rx where
  "trailingArtifactBulletPattern =
     rseq [RChar (\<lambda>c. c = CHR 0x0A), ralt [rlit ''-'', rlit ''*'', rlit bullet], rstar rspace, REndLine]"

definition intraArtifactConnectorPattern :: rx where
  "intraArtifactConnectorPattern =
     rseq [rplus rspace, ralt [rlit_i ''and'', rlit_i ''then''], rplus rspace,
           ralt [rlit_i ''create'', rlit_i ''write''], rstar rspace, REndText]"

section \<open>Reading the prompt\<close>

definition normalizeArtifactPath :: "string \<Rightarrow> string" where
  "normalizeArtifactPath path = to_lower (trim_space path)"

definition artifactBaseName :: "string \<Rightarrow> string" where
  "artifactBaseName path =
     (let trimmed = trim_space path in
      if trimmed = [] then []
      else case str_last_index trimmed ''/'' of
             Some idx \<Rightarrow> if Suc idx < length trimmed then drop (Suc idx) trimmed else trimmed
           | None \<Rightarrow> trimmed)"

text \<open>The pair of sets \<^verbatim>\<open>supported\<close> and \<^verbatim>\<open>supportedBase\<close>.\<close>

type_synonym support = "string list \<times> string list"

definition recordArtifactSupport :: "string \<Rightarrow> support \<Rightarrow> support" where
  "recordArtifactSupport path sp =
     (let key = normalizeArtifactPath path; base = artifactBaseName key in
      if key = [] then sp
      else (key # fst sp, if base \<noteq> [] then base # snd sp else snd sp))"

definition support_of :: "string list \<Rightarrow> support" where
  "support_of paths = fold recordArtifactSupport paths ([], [])"

text \<open>The lookup that every comparison makes: by path, then by base name.\<close>

definition is_supported :: "support \<Rightarrow> string \<Rightarrow> bool" where
  "is_supported sp key \<longleftrightarrow>
     key \<in> set (fst sp) \<or> (let base = artifactBaseName key in base \<noteq> [] \<and> base \<in> set (snd sp))"

definition normalizeArtifactContent :: "string \<Rightarrow> string" where
  "normalizeArtifactContent content = replace_all [CHR 0x0D, CHR 0x0A] [CHR 0x0A] (trim_space content)"

definition classifyArtifactKind :: "string \<Rightarrow> string \<Rightarrow> string" where
  "classifyArtifactKind prompt path =
     (let lower = to_lower prompt in
      if contains lower ''obsidian'' \<or> contains lower ''vault'' then ''obsidian_note'' else ''workspace_file'')"

definition explicitArtifactContainerDir :: "string \<Rightarrow> string" where
  "explicitArtifactContainerDir prompt =
     (case rx_find artifactContainerDirPattern prompt of
        None \<Rightarrow> []
      | Some m \<Rightarrow> trim_chars ''/'' (trim_space (group_text 1 prompt m)))"

definition resolveExpectedArtifactPath :: "string \<Rightarrow> string \<Rightarrow> string" where
  "resolveExpectedArtifactPath path baseDir =
     (let trimmed = trim_space path in
      if trimmed = [] \<or> baseDir = [] \<or> contains trimmed ''/'' then trimmed
      else trim_chars ''/'' baseDir @ ''/'' @ trimmed)"

definition trimExpectedArtifactContent :: "string \<Rightarrow> string" where
  "trimExpectedArtifactContent content =
     (let t0 = trim_space content;
          t1 = (case rx_find postArtifactDirectivePattern t0 of
                  Some (a, b, c) \<Rightarrow> trim_space (take a t0) | None \<Rightarrow> t0);
          t2 = rx_replace_all trailingArtifactBulletPattern t1 [];
          t3 = rx_replace_all intraArtifactConnectorPattern t2 []
      in trim_space t3)"

record artifactTargetMatch =
  tm_Path :: string
  tm_Start :: nat
  tm_End :: nat

definition orderedArtifactTargets :: "string \<Rightarrow> artifactTargetMatch list" where
  "orderedArtifactTargets prompt =
     first_by (\<lambda>t. normalizeArtifactPath (tm_Path t)) {}
       (map (\<lambda>(a, b, c). \<lparr>tm_Path = slice prompt a b, tm_Start = a, tm_End = b\<rparr>)
            (rx_find_all artifactTargetPattern prompt))"

definition extractClaimedArtifactPaths :: "string \<Rightarrow> string list" where
  "extractClaimedArtifactPaths content =
     first_by normalizeArtifactPath {}
       (filter (\<lambda>path. normalizeArtifactPath path \<noteq> [])
          (map (\<lambda>m. trim_space (match_text content m)) (rx_find_all artifactTargetPattern content)))"

text \<open>The specification for the path and the content between two positions, if there is content.\<close>

definition spec_at :: "string \<Rightarrow> string \<Rightarrow> nat \<Rightarrow> nat \<Rightarrow> ExpectedArtifactSpec option" where
  "spec_at prompt path start end =
     (let content = trimExpectedArtifactContent (slice prompt start end) in
      if content = [] then None
      else Some \<lparr>es_ArtifactKind = classifyArtifactKind prompt path, es_Path = path, es_ExactContent = content\<rparr>)"

text \<open>Each match owns the text up to the start of the next one.\<close>

fun inline_specs :: "string \<Rightarrow> string \<Rightarrow> rx_match list \<Rightarrow> ExpectedArtifactSpec list" where
  "inline_specs prompt baseDir [] = []"
| "inline_specs prompt baseDir (m # ms) =
     (let path = resolveExpectedArtifactPath (group_text 1 prompt m) baseDir;
          contentEnd = (case ms of [] \<Rightarrow> length prompt | m' # _ \<Rightarrow> fst m');
          rest = inline_specs prompt baseDir ms
      in case spec_at prompt path (fst (snd m)) contentEnd of None \<Rightarrow> rest | Some spec \<Rightarrow> spec # rest)"

definition parseInlineExpectedArtifactSpecs :: "string \<Rightarrow> string \<Rightarrow> ExpectedArtifactSpec list" where
  "parseInlineExpectedArtifactSpecs prompt baseDir =
     inline_specs prompt baseDir (rx_find_all inlineExactArtifactPattern prompt)"

text \<open>The markers of the ordinals: the loop ends at the first ordinal that is not found.\<close>

fun ordinal_markers :: "string \<Rightarrow> string \<Rightarrow> rx list \<Rightarrow> artifactTargetMatch list \<Rightarrow> artifactTargetMatch list" where
  "ordinal_markers prompt baseDir (r # rs) (t # ts) =
     (case rx_find r prompt of
        None \<Rightarrow> []
      | Some (a, b, c) \<Rightarrow>
          \<lparr>tm_Path = resolveExpectedArtifactPath (tm_Path t) baseDir, tm_Start = a, tm_End = b\<rparr>
          # ordinal_markers prompt baseDir rs ts)"
| "ordinal_markers prompt baseDir rs ts = []"

text \<open>
  The slice \<^verbatim>\<open>prompt[marker.End:end]\<close> panics when the next ordinal starts before the end of the
  content directive of this one: the patterns are searched independently.
\<close>

fun ordinal_specs :: "string \<Rightarrow> artifactTargetMatch list \<Rightarrow> ExpectedArtifactSpec list option" where
  "ordinal_specs prompt [] = Some []"
| "ordinal_specs prompt (m # ms) =
     (let end = (case ms of [] \<Rightarrow> length prompt | m' # _ \<Rightarrow> tm_Start m') in
      if end < tm_End m then None
      else case ordinal_specs prompt ms of
             None \<Rightarrow> None
           | Some rest \<Rightarrow>
               (case spec_at prompt (tm_Path m) (tm_End m) end of None \<Rightarrow> Some rest | Some spec \<Rightarrow> Some (spec # rest)))"

definition parseOrdinalExpectedArtifactSpecs :: "string \<Rightarrow> string \<Rightarrow> ExpectedArtifactSpec list option" where
  "parseOrdinalExpectedArtifactSpecs prompt baseDir =
     ordinal_specs prompt (ordinal_markers prompt baseDir ordinalExactContentPatterns (orderedArtifactTargets prompt))"

definition classifySourceArtifactRefs :: "string \<Rightarrow> ExpectedArtifactSpec list \<Rightarrow> string list" where
  "classifySourceArtifactRefs prompt expected =
     (if trim_space prompt = [] then []
      else let sp = support_of (map es_Path expected) in
        first_by normalizeArtifactPath {}
          (filter (\<lambda>path. let key = normalizeArtifactPath path in key \<noteq> [] \<and> \<not> is_supported sp key)
            (map (\<lambda>m. trim_space (group_text 1 prompt m)) (rx_find_all sourceArtifactRefPattern prompt))))"

definition ParseArtifactPromptContract :: "string \<Rightarrow> ArtifactPromptContract option" where
  "ParseArtifactPromptContract prompt =
     (if trim_space prompt = [] then Some \<lparr>pc_ExpectedOutputs = [], pc_SourceInputs = []\<rparr>
      else let baseDir = explicitArtifactContainerDir prompt;
               targets = orderedArtifactTargets prompt;
               inlineSpecs = parseInlineExpectedArtifactSpecs prompt baseDir
           in if inlineSpecs \<noteq> [] \<and> length inlineSpecs = length targets
              then Some \<lparr>pc_ExpectedOutputs = inlineSpecs, pc_SourceInputs = classifySourceArtifactRefs prompt inlineSpecs\<rparr>
              else case parseOrdinalExpectedArtifactSpecs prompt baseDir of
                     None \<Rightarrow> None
                   | Some ordinalSpecs \<Rightarrow>
                       let expected = (if length ordinalSpecs > length inlineSpecs then ordinalSpecs else inlineSpecs)
                       in Some \<lparr>pc_ExpectedOutputs = expected,
                                pc_SourceInputs = classifySourceArtifactRefs prompt expected\<rparr>)"

definition ParseExpectedArtifactSpecs :: "string \<Rightarrow> ExpectedArtifactSpec list option" where
  "ParseExpectedArtifactSpecs prompt = map_option pc_ExpectedOutputs (ParseArtifactPromptContract prompt)"

section \<open>Comparing with the proofs\<close>

definition mismatch :: "ExpectedArtifactSpec \<Rightarrow> string \<Rightarrow> string \<Rightarrow> ArtifactContentMismatch" where
  "mismatch spec actual reason =
     \<lparr>cm_Path = es_Path spec, cm_Expected = es_ExactContent spec, cm_Actual = actual, cm_Reason = reason\<rparr>"

text \<open>One specification of the loop, against the last proof for its path.\<close>

definition compare_spec ::
  "(string, artifact_proof) gomap \<Rightarrow> ExpectedArtifactSpec \<Rightarrow> ArtifactConformance \<Rightarrow> ArtifactConformance" where
  "compare_spec byPath spec c =
     (case m_get byPath (normalizeArtifactPath (es_Path spec)) of
        None \<Rightarrow> c\<lparr>ac_Missing := ac_Missing c @ [spec]\<rparr>
      | Some proof \<Rightarrow>
          if \<not> ap_ExactContentIncluded proof
          then c\<lparr>ac_Mismatched := ac_Mismatched c @ [mismatch spec (ap_ContentPreview proof) ''exact_content_unavailable'']\<rparr>
          else if normalizeArtifactContent (ap_Content proof) \<noteq> normalizeArtifactContent (es_ExactContent spec)
          then c\<lparr>ac_Mismatched := ac_Mismatched c @ [mismatch spec (ap_Content proof) ''content_mismatch'']\<rparr>
          else c\<lparr>ac_MatchedPath := ac_MatchedPath c @ [es_Path spec]\<rparr>)"

definition proofs_by_path :: "artifact_proof list \<Rightarrow> (string, artifact_proof) gomap" where
  "proofs_by_path proofs = fold (\<lambda>p. m_put (normalizeArtifactPath (ap_Path p)) p) proofs []"

text \<open>
  The proofs no specification asked for. The code first skips the paths in \<^verbatim>\<open>matchedProofs\<close>, which
  are paths of specifications that have a proof.
\<close>

definition unexpected_proofs :: "ExpectedArtifactSpec list \<Rightarrow> artifact_proof list \<Rightarrow> string list" where
  "unexpected_proofs expected proofs =
     (let byPath = proofs_by_path proofs;
          matchedProofs = filter (\<lambda>key. m_get byPath key \<noteq> None) (map (\<lambda>spec. normalizeArtifactPath (es_Path spec)) expected);
          sp = support_of (map es_Path expected)
      in map ap_Path (filter (\<lambda>p. let key = normalizeArtifactPath (ap_Path p) in
                                    key \<notin> set matchedProofs \<and> \<not> is_supported sp key) proofs))"

definition CompareArtifactConformance :: "ExpectedArtifactSpec list \<Rightarrow> artifact_proof list \<Rightarrow> ArtifactConformance" where
  "CompareArtifactConformance expected proofs =
     (let c = \<lparr>ac_Expected = expected, ac_Missing = [], ac_Mismatched = [], ac_Unexpected = [], ac_MatchedPath = []\<rparr>
      in if expected = [] then c
         else (fold (compare_spec (proofs_by_path proofs)) expected c)\<lparr>ac_Unexpected := unexpected_proofs expected proofs\<rparr>)"

definition shouldSkipArtifactClaimChecks ::
  "ExpectedArtifactSpec list \<Rightarrow> artifact_proof list \<Rightarrow> inspection_proof list \<Rightarrow> string \<Rightarrow> bool" where
  "shouldSkipArtifactClaimChecks expected proofs inspection prompt =
     (if expected \<noteq> [] then False
      else if proofs \<noteq> [] then False
      else if rx_find_all sourceArtifactRefPattern prompt \<noteq> [] then False
      else True)"

definition CompareArtifactClaims ::
  "string \<Rightarrow> ExpectedArtifactSpec list \<Rightarrow> string list \<Rightarrow> artifact_proof list \<Rightarrow> inspection_proof list \<Rightarrow> string
     \<Rightarrow> ArtifactClaimConformance" where
  "CompareArtifactClaims content expected sourceInputs proofs inspection prompt =
     (if shouldSkipArtifactClaimChecks expected proofs inspection prompt
      then \<lparr>cc_Claimed = [], cc_UnsupportedClaim = []\<rparr>
      else let claims = extractClaimedArtifactPaths content;
               sp = support_of (map es_Path expected @ sourceInputs @ map ap_Path proofs)
           in \<lparr>cc_Claimed = claims,
               cc_UnsupportedClaim = filter (\<lambda>claim. \<not> is_supported sp (normalizeArtifactPath claim)) claims\<rparr>)"

definition CompareSourceArtifactConformance :: "string list \<Rightarrow> artifact_read_proof list \<Rightarrow> SourceArtifactConformance" where
  "CompareSourceArtifactConformance sourceInputs reads =
     (let sp = support_of (map rp_Path reads);
          read = (\<lambda>source. is_supported sp (normalizeArtifactPath source))
      in \<lparr>sc_ExpectedSources = sourceInputs, sc_Unread = filter (\<lambda>s. \<not> read s) sourceInputs,
          sc_ReadPaths = filter read sourceInputs\<rparr>)"

section \<open>The proofs of the current turn\<close>

definition tool_result_entry :: "json_lib \<Rightarrow> Message \<Rightarrow> ToolResultEntry" where
  "tool_result_entry js m =
     \<lparr>tr_ToolName = msg_Name m, tr_Output = msg_Content m, tr_Metadata = msg_Metadata m,
      tr_ArtifactProof = ParseArtifactProof js (msg_Metadata m), tr_ReadProof = ParseArtifactReadProof js (msg_Metadata m),
      tr_Inspection = ParseInspectionProof js (msg_Metadata m)\<rparr>"

text \<open>The messages after the last user message; there are none without a user message.\<close>

definition current_turn :: "Message list \<Rightarrow> Message list" where
  "current_turn msgs =
     (if list_ex (\<lambda>m. msg_Role m = ''user'') msgs
      then rev (takeWhile (\<lambda>m. msg_Role m \<noteq> ''user'') (rev msgs)) else [])"

definition currentTurnToolResults :: "json_lib \<Rightarrow> Session option \<Rightarrow> ToolResultEntry list" where
  "currentTurnToolResults js sess =
     (case sess of
        None \<Rightarrow> []
      | Some s \<Rightarrow> map (tool_result_entry js) (filter (\<lambda>m. msg_Role m = ''tool'') (current_turn (messages s))))"

text \<open>The line of evidence for one written or read artifact.\<close>

definition evidence_line :: "string \<Rightarrow> string \<Rightarrow> string \<Rightarrow> string \<Rightarrow> bool \<Rightarrow> string \<Rightarrow> string \<Rightarrow> string" where
  "evidence_line label kind path sha exact content preview =
     label @ kind @ '' '' @ path @ '' sha256='' @ sha
     @ (if exact \<and> trim_space content \<noteq> [] then '' content='' @ content
        else if trim_space preview \<noteq> [] then '' preview='' @ preview else [])"

definition evidence_item :: "ToolResultEntry \<Rightarrow> string option" where
  "evidence_item tr =
     (case tr_ArtifactProof tr of
        Some p \<Rightarrow> Some (evidence_line ''[tool_artifact, canonical] '' (ap_ArtifactKind p) (ap_Path p) (ap_ContentSHA256 p)
                    (ap_ExactContentIncluded p) (ap_Content p) (ap_ContentPreview p))
      | None \<Rightarrow>
          (case tr_ReadProof tr of
             None \<Rightarrow> None
           | Some p \<Rightarrow> Some (evidence_line ''[tool_read, canonical] '' (rp_ArtifactKind p) (rp_Path p) (rp_ContentSHA256 p)
                         (rp_ExactContentIncluded p) (rp_Content p) (rp_ContentPreview p))))"

definition toolResultEvidenceItems :: "ToolResultEntry list \<Rightarrow> string list" where
  "toolResultEvidenceItems results = List.map_filter evidence_item results"

definition toolResultArtifactProofs :: "ToolResultEntry list \<Rightarrow> artifact_proof list" where
  "toolResultArtifactProofs results = List.map_filter tr_ArtifactProof results"

definition toolResultReadProofs :: "ToolResultEntry list \<Rightarrow> artifact_read_proof list" where
  "toolResultReadProofs results = List.map_filter tr_ReadProof results"

definition toolResultInspectionProofs :: "ToolResultEntry list \<Rightarrow> inspection_proof list" where
  "toolResultInspectionProofs results = List.map_filter tr_Inspection results"

section \<open>Properties\<close>

lemma proofs_by_path_get:
  "m_get (proofs_by_path proofs) key = List.find (\<lambda>p. normalizeArtifactPath (ap_Path p) = key) (rev proofs)"
  unfolding proofs_by_path_def by (induction proofs rule: rev_induct) auto

text \<open>
  What the comparison should say of a specification, by the last proof for its path: proven when that proof holds
  its content, otherwise a mismatch with what the proof shows instead.
\<close>

definition last_proof :: "artifact_proof list \<Rightarrow> ExpectedArtifactSpec \<Rightarrow> artifact_proof option" where
  "last_proof proofs spec =
     List.find (\<lambda>p. normalizeArtifactPath (ap_Path p) = normalizeArtifactPath (es_Path spec)) (rev proofs)"

definition spec_proven :: "artifact_proof list \<Rightarrow> ExpectedArtifactSpec \<Rightarrow> bool" where
  "spec_proven proofs spec =
     (case last_proof proofs spec of
        None \<Rightarrow> False
      | Some p \<Rightarrow> ap_ExactContentIncluded p
          \<and> normalizeArtifactContent (ap_Content p) = normalizeArtifactContent (es_ExactContent spec))"

definition mismatch_shown :: "artifact_proof list \<Rightarrow> ExpectedArtifactSpec \<Rightarrow> ArtifactContentMismatch option" where
  "mismatch_shown proofs spec =
     (if last_proof proofs spec = None \<or> spec_proven proofs spec then None
      else let p = the (last_proof proofs spec); whole = ap_ExactContentIncluded p in
        Some \<lparr>cm_Path = es_Path spec, cm_Expected = es_ExactContent spec,
              cm_Actual = (if whole then ap_Content p else ap_ContentPreview p),
              cm_Reason = (if whole then ''content_mismatch'' else ''exact_content_unavailable'')\<rparr>)"

lemma compare_spec_cases:
  "compare_spec (proofs_by_path proofs) spec c =
     c\<lparr>ac_Missing := ac_Missing c @ filter (\<lambda>spec. last_proof proofs spec = None) [spec],
       ac_Mismatched := ac_Mismatched c @ List.map_filter (mismatch_shown proofs) [spec],
       ac_MatchedPath := ac_MatchedPath c @ map es_Path (filter (spec_proven proofs) [spec])\<rparr>"
  by (auto simp: compare_spec_def proofs_by_path_get mismatch_shown_def spec_proven_def mismatch_def map_filter_def
      Let_def last_proof_def [symmetric] split: option.splits)

lemma compare_fold:
  "fold (compare_spec (proofs_by_path proofs)) expected c =
     c\<lparr>ac_Missing := ac_Missing c @ filter (\<lambda>spec. last_proof proofs spec = None) expected,
       ac_Mismatched := ac_Mismatched c @ List.map_filter (mismatch_shown proofs) expected,
       ac_MatchedPath := ac_MatchedPath c @ map es_Path (filter (spec_proven proofs) expected)\<rparr>"
proof (induction expected arbitrary: c)
  case (Cons spec expected)
  show ?case unfolding fold_Cons comp_apply Cons.IH by (simp add: compare_spec_cases map_filter_def)
qed (simp add: map_filter_def)

lemma conformance_lists:
  "ac_Missing (CompareArtifactConformance expected proofs) = filter (\<lambda>spec. last_proof proofs spec = None) expected"
  "ac_Mismatched (CompareArtifactConformance expected proofs) = List.map_filter (mismatch_shown proofs) expected"
  "ac_MatchedPath (CompareArtifactConformance expected proofs) = map es_Path (filter (spec_proven proofs) expected)"
  "ac_Expected (CompareArtifactConformance expected proofs) = expected"
  by (simp_all add: CompareArtifactConformance_def compare_fold map_filter_def Let_def)

lemma conformance_satisfied:
  "AllExactSatisfied (CompareArtifactConformance expected proofs) = (expected \<noteq> [] \<and> list_all (spec_proven proofs) expected)"
proof -
  have one: "spec_proven proofs spec \<longleftrightarrow> last_proof proofs spec \<noteq> None \<and> mismatch_shown proofs spec = None" for spec
    by (auto simp: mismatch_shown_def spec_proven_def Let_def split: option.splits)
  show ?thesis
    by (auto simp: one AllExactSatisfied_def conformance_lists list_all_iff filter_empty_conv map_filter_def)
qed

lemma support_of_fst: "key \<in> set (fst (support_of ps)) \<longleftrightarrow> key \<noteq> [] \<and> list_ex (\<lambda>p. normalizeArtifactPath p = key) ps"
  unfolding support_of_def
  by (induction ps rule: rev_induct) (auto simp: recordArtifactSupport_def Let_def)

lemma support_of_snd:
  "base \<in> set (snd (support_of ps)) \<longleftrightarrow>
   base \<noteq> [] \<and> list_ex (\<lambda>p. normalizeArtifactPath p \<noteq> [] \<and> artifactBaseName (normalizeArtifactPath p) = base) ps"
  unfolding support_of_def
  by (induction ps rule: rev_induct) (auto simp: recordArtifactSupport_def Let_def)

text \<open>Two paths that the comparisons take for the same artifact.\<close>

definition same_artifact :: "string \<Rightarrow> string \<Rightarrow> bool" where
  "same_artifact p q \<longleftrightarrow> normalizeArtifactPath p = normalizeArtifactPath q
     \<or> artifactBaseName (normalizeArtifactPath p) = artifactBaseName (normalizeArtifactPath q)
       \<and> artifactBaseName (normalizeArtifactPath q) \<noteq> [] \<and> normalizeArtifactPath p \<noteq> []"

lemma is_supported_iff:
  "normalizeArtifactPath q \<noteq> [] \<Longrightarrow> is_supported (support_of ps) (normalizeArtifactPath q) \<longleftrightarrow> list_ex (\<lambda>p. same_artifact p q) ps"
  by (auto simp: is_supported_def support_of_fst support_of_snd same_artifact_def Let_def list_ex_iff)

lemma unexpected_iff:
  assumes "p \<in> set proofs"
  shows "normalizeArtifactPath (ap_Path p)
      \<notin> set (filter (\<lambda>key. m_get (proofs_by_path proofs) key \<noteq> None) (map (\<lambda>spec. normalizeArtifactPath (es_Path spec)) expected))
      \<and> \<not> is_supported (support_of (map es_Path expected)) (normalizeArtifactPath (ap_Path p))
    \<longleftrightarrow> \<not> list_ex (\<lambda>spec. same_artifact (es_Path spec) (ap_Path p)) expected"
proof -
  let ?key = "normalizeArtifactPath (ap_Path p)"
  have "m_get (proofs_by_path proofs) ?key \<noteq> None"
    using assms by (auto simp: proofs_by_path_get find_None_iff)
  then have matched: "?key \<in> set (filter (\<lambda>key. m_get (proofs_by_path proofs) key \<noteq> None)
      (map (\<lambda>spec. normalizeArtifactPath (es_Path spec)) expected))
      \<longleftrightarrow> list_ex (\<lambda>spec. normalizeArtifactPath (es_Path spec) = ?key) expected"
    by (auto simp: list_ex_iff image_iff intro: sym)
  show ?thesis
  proof (cases "?key = []")
    case True
    have "artifactBaseName [] = []" by code_simp
    then show ?thesis
      unfolding matched
      by (auto simp: True is_supported_def support_of_fst same_artifact_def list_ex_iff)
  next
    case False
    then show ?thesis
      unfolding matched is_supported_iff [OF False]
      by (auto simp: same_artifact_def list_ex_iff)
  qed
qed

text \<open>
  C39. The comparison of the requested artifacts with the proofs of the turn, exactly. By the last write to its path
  (compared without case and surrounding blanks), a specification is missing when there is none, matched when that
  write's proof holds the requested content up to line endings and surrounding blanks, and otherwise mismatched,
  with what the proof holds (or its preview) and the reason; each list keeps the order of the specifications. The
  unexpected paths are those of the proofs that are no requested artifact by path or base name. All counts as
  written exactly when something was requested and every specification is matched.
\<close>

theorem artifact_conformance_exact:
  "let c = CompareArtifactConformance expected proofs in
   ac_Expected c = expected
   \<and> ac_Missing c = filter (\<lambda>spec. last_proof proofs spec = None) expected
   \<and> ac_MatchedPath c = map es_Path (filter (spec_proven proofs) expected)
   \<and> ac_Mismatched c = List.map_filter (mismatch_shown proofs) expected
   \<and> ac_Unexpected c = (if expected = [] then []
        else map ap_Path (filter (\<lambda>p. \<not> list_ex (\<lambda>spec. same_artifact (es_Path spec) (ap_Path p)) expected) proofs))
   \<and> AllExactSatisfied c = (expected \<noteq> [] \<and> list_all (spec_proven proofs) expected)"
proof -
  have "ac_Unexpected (CompareArtifactConformance expected proofs) = (if expected = [] then [] else unexpected_proofs expected proofs)"
    by (simp add: CompareArtifactConformance_def Let_def)
  moreover have "unexpected_proofs expected proofs
      = map ap_Path (filter (\<lambda>p. \<not> list_ex (\<lambda>spec. same_artifact (es_Path spec) (ap_Path p)) expected) proofs)"
    unfolding unexpected_proofs_def Let_def by (intro arg_cong [where f = "map ap_Path"] filter_cong refl unexpected_iff)
  ultimately show ?thesis by (simp add: Let_def conformance_lists conformance_satisfied)
qed

text \<open>
  Writing a file proves a specification for it, whatever was written before, exactly when the
  content written is the requested one and has at most 2048 bytes: a proof of a longer content keeps
  a preview only. Appending counts like writing, although the file then holds more than the proof says.
\<close>

theorem written_artifact_is_proven:
  "AllExactSatisfied (CompareArtifactConformance [spec] (earlier @ [NewArtifactProof sha256 kind (es_Path spec) content appendMode]))
   \<longleftrightarrow> length content \<le> 2048 \<and> normalizeArtifactContent content = normalizeArtifactContent (es_ExactContent spec)"
  by (simp add: Let_def conformance_satisfied last_proof_def spec_proven_def NewArtifactProof_def maxExactArtifactContentBytes_def)

lemma classifySourceArtifactRefs_props:
  "list_all (\<lambda>src. list_all (\<lambda>spec. \<not> same_artifact (es_Path spec) src) expected) (classifySourceArtifactRefs prompt expected)
   \<and> distinct (map normalizeArtifactPath (classifySourceArtifactRefs prompt expected))"
proof -
  have "normalizeArtifactPath src \<noteq> [] \<and> \<not> is_supported (support_of (map es_Path expected)) (normalizeArtifactPath src)"
    if "src \<in> set (classifySourceArtifactRefs prompt expected)" for src
    using that by (auto simp: classifySourceArtifactRefs_def Let_def dest!: first_by_set split: if_splits)
  then have "\<not> same_artifact (es_Path spec) src"
    if "src \<in> set (classifySourceArtifactRefs prompt expected)" "spec \<in> set expected" for src spec
    using that by (fastforce simp: is_supported_iff list_ex_iff)
  then show ?thesis
    by (simp add: list_all_iff classifySourceArtifactRefs_def Let_def first_by_distinct)
qed

definition contract_separates :: "ArtifactPromptContract \<Rightarrow> bool" where
  "contract_separates c \<longleftrightarrow>
     list_all (\<lambda>src. list_all (\<lambda>spec. \<not> same_artifact (es_Path spec) src) (pc_ExpectedOutputs c)) (pc_SourceInputs c)
     \<and> distinct (map normalizeArtifactPath (pc_SourceInputs c))"

text \<open>
  A prompt's contract never counts an artifact both as an output to write and as a source to
  read: no source has the path or the base name of an output, and no source is listed twice.
\<close>

theorem sources_are_not_outputs:
  "pred_option contract_separates (ParseArtifactPromptContract prompt)"
  using classifySourceArtifactRefs_props [of _ prompt]
  by (auto simp: ParseArtifactPromptContract_def contract_separates_def Let_def split: option.splits)

text \<open>
  The contents of numbered files may be given in any order, but the parser takes each up to the
  start of the next number's directive: when the second file's content comes before the first's, the
  slice has its end before its start and the turn panics; in order, both contents are found.
\<close>

theorem ordinal_contents_out_of_order_panic:
  "ParseArtifactPromptContract
     ''a.md b.md second contain exactly X first contain exactly Y'' = None
   \<and> map_option (map (\<lambda>spec. (es_Path spec, es_ExactContent spec))) (ParseExpectedArtifactSpecs
     ''a.md b.md first contain exactly X second contain exactly Y'')
     = Some [(''a.md'', ''X''), (''b.md'', ''Y'')]"
  by code_simp

end
