(* ===== verification/Inspection.thy ===== *)
theory Inspection
  imports Policy Artifacts
begin

text \<open>
  The lexicon of the turn heuristics (\<^verbatim>\<open>normalizeIntentLexicon\<close>, \<^verbatim>\<open>containsIntentMarker\<close>,
  \<^verbatim>\<open>containsAnyMarker\<close> of \<^verbatim>\<open>internal/pipeline/task_synthesis.go\<close>) and
  \<^verbatim>\<open>internal/pipeline/inspection_turn.go\<close>: which turns inspect or write files, and which paths
  they are told to use. \<^verbatim>\<open>os.UserHomeDir\<close> is a parameter, an empty string when it fails. Paths are Unix
  paths; \<^verbatim>\<open>filepath.Clean\<close> is the function of the \<open>Policy\<close> theory, shown idempotent here.
\<close>

section \<open>Lexicon\<close>

text \<open>Letters and digits are kept, every run of other bytes becomes one blank; \<open>sp\<close> is \<^verbatim>\<open>lastSpace\<close>.\<close>

fun lexicon_scan :: "bool \<Rightarrow> string \<Rightarrow> string" where
  "lexicon_scan sp [] = []"
| "lexicon_scan sp (c # s) =
     (if is_alnum_lower c then c # lexicon_scan False s
      else if sp then lexicon_scan True s else CHR '' '' # lexicon_scan True s)"

definition normalizeIntentLexicon :: "string \<Rightarrow> string" where
  "normalizeIntentLexicon s = trim_space (lexicon_scan False (to_lower s))"

definition containsIntentMarker :: "string \<Rightarrow> string \<Rightarrow> bool" where
  "containsIntentMarker lower marker =
     (if trim_space lower = [] \<or> trim_space marker = [] then False
      else contains ('' '' @ normalizeIntentLexicon lower @ '' '') ('' '' @ normalizeIntentLexicon marker @ '' ''))"

definition containsAnyMarker :: "string \<Rightarrow> string list \<Rightarrow> bool" where
  "containsAnyMarker lower markers \<longleftrightarrow> list_ex (containsIntentMarker lower) markers"

section \<open>Paths\<close>

definition filepath_Join :: "string \<Rightarrow> string \<Rightarrow> string" where
  "filepath_Join a b =
     (case filter (\<lambda>x. x \<noteq> []) [a, b] of [] \<Rightarrow> [] | xs \<Rightarrow> filepath_Clean (str_join ''/'' xs))"

definition filepath_Base :: "string \<Rightarrow> string" where
  "filepath_Base p =
     (if p = [] then ''.''
      else let q = trim_right ''/'' p;
               b = (case str_last_index q ''/'' of Some i \<Rightarrow> drop (Suc i) q | None \<Rightarrow> q)
           in if b = [] then ''/'' else b)"

definition filepath_IsAbs :: "string \<Rightarrow> bool" where
  "filepath_IsAbs p \<longleftrightarrow> has_prefix p ''/''"

definition pathWithin :: "string \<Rightarrow> string \<Rightarrow> bool" where
  "pathWithin path0 root0 =
     (let path = filepath_Clean path0; root = filepath_Clean root0 in
      if path = [] \<or> root = [] then False
      else if equal_fold path root then True
      else has_prefix (to_lower path) (to_lower root @ ''/''))"

definition samePath :: "string \<Rightarrow> string \<Rightarrow> bool" where
  "samePath a0 b0 =
     (let a = trim_space a0; b = trim_space b0 in
      if a = [] \<or> b = [] then False else equal_fold (filepath_Clean a) (filepath_Clean b))"

definition uniqueInspectionPaths :: "string list \<Rightarrow> string list" where
  "uniqueInspectionPaths paths = first_by to_lower {} (map filepath_Clean paths)"

text \<open>A home directory that was found is a clean path.\<close>

definition currentUserHomeDir :: "string \<Rightarrow> string" where
  "currentUserHomeDir home = (if home = [] then [] else filepath_Clean home)"

definition expand_tilde :: "string \<Rightarrow> string \<Rightarrow> string option" where
  "expand_tilde home clean =
     (if has_prefix clean ''~''
      then (let h = currentUserHomeDir home in
            if h = [] then None
            else if clean = ''~'' then Some h else Some (filepath_Join h (trim_prefix clean ''~/'')))
      else Some clean)"

definition qualifyInspectionPath :: "string \<Rightarrow> string \<Rightarrow> string \<Rightarrow> string list \<Rightarrow> string option" where
  "qualifyInspectionPath home candidate workspace allowedPaths =
     (case expand_tilde home (filepath_Clean (trim_space candidate)) of
        None \<Rightarrow> None
      | Some clean \<Rightarrow>
          if clean = ''.'' \<or> clean = [] \<or> \<not> filepath_IsAbs clean then None
          else if workspace \<noteq> [] \<and> pathWithin clean workspace then Some clean
          else if list_ex (pathWithin clean) allowedPaths then Some clean
          else None)"

section \<open>Candidates in the text\<close>

definition path_text_char :: "char \<Rightarrow> bool" where
  "path_text_char c \<longleftrightarrow> c \<noteq> CHR 0x0A \<and> c \<noteq> CHR 0x0D \<and> c \<noteq> CHR 0x09 \<and> c \<noteq> CHR '','' \<and> c \<noteq> CHR '';''"

definition absolutePathCandidateRE :: rx where
  "absolutePathCandidateRE = rseq [rlit ''/'', rplus (RChar path_text_char)]"

definition tildePathCandidateRE :: rx where
  "tildePathCandidateRE =
     rseq [RAlt RBeginText rspace, RGroup 1 (rseq [rlit ''~'', ropt (rseq [rlit ''/'', rplus (RChar path_text_char)])])]"

definition path_quotes :: string where
  "path_quotes = [CHR 0x22, CHR 0x27, CHR 0x60] @ ''()[]{}<>''"

definition trim_candidate :: "string \<Rightarrow> string" where
  "trim_candidate m = trim_right ''.!?'' (trim_chars path_quotes (trim_space m))"

text \<open>\<^verbatim>\<open>strings.Replace(s, old, new, 1)\<close>.\<close>

definition replace_first :: "string \<Rightarrow> string \<Rightarrow> string \<Rightarrow> string" where
  "replace_first old new s =
     (case str_index s old of Some i \<Rightarrow> take i s @ new @ drop (i + length old) s | None \<Rightarrow> s)"

definition fix_desktop :: "string \<Rightarrow> string" where
  "fix_desktop c =
     (if contains c ''/Desktop '' \<and> \<not> contains c ''/Desktop/'' then replace_first ''/Desktop '' ''/Desktop/'' c else c)"

definition extractInspectionPathCandidates :: "string \<Rightarrow> string list" where
  "extractInspectionPathCandidates content =
     filter (\<lambda>c. c \<noteq> [])
       (map (\<lambda>m. fix_desktop (trim_candidate (match_text content m))) (rx_find_all absolutePathCandidateRE content)
        @ map (\<lambda>m. trim_candidate (group_text 1 content m)) (rx_find_all tildePathCandidateRE content))"

section \<open>Inspection turns\<close>

definition inspectionVerbs :: "string list" where
  "inspectionVerbs = [''count'', ''list'', ''find'', ''scan'', ''inspect'', ''look in'', ''look at'', ''show'', ''show me'',
     ''summary'', ''summarize'']"

definition inspectionQuestions :: "string list" where
  "inspectionQuestions = [''what are the'', ''what s in'', ''what is in'', ''whats in'', ''what s inside'', ''what is inside'',
     ''whats inside'', ''what s under'', ''what is under'', ''whats under'', ''what about'']"

definition inspectionTargets :: "string list" where
  "inspectionTargets = [''file'', ''files'', ''directory'', ''directories'', ''folder'', ''folders'', ''workspace'', ''vault'',
     ''note'', ''notes'', ''contents'', ''content'', ''path'', ''paths'', ''inside'', ''project'', ''projects'', ''repo'',
     ''repos'', ''repository'', ''repositories'']"

definition pathMarkers :: "string list" where
  "pathMarkers = [''/users/'', ''/tmp/'', ''/var/'', ''/opt/'', ''/srv/'', ''~/'', ''home folder'', ''home directory'', ''my home'']"

definition looksLikeFocusedInspectionTurn :: "string \<Rightarrow> bool" where
  "looksLikeFocusedInspectionTurn content =
     (let lower = to_lower (trim_space content) in
      if lower = [] then False
      else let explicitInspectionPath = (extractInspectionPathCandidates content \<noteq> []) in
        if \<not> containsAnyMarker lower inspectionTargets \<and> \<not> containsAnyMarker lower pathMarkers then False
        else if explicitInspectionPath \<and> containsAnyMarker lower inspectionTargets then True
        else containsAnyMarker lower inspectionVerbs \<or> containsAnyMarker lower inspectionQuestions)"

record InspectionTargetResolution =
  it_ResolvedPaths :: "string list"
  it_PromptSummary :: string
  it_ClarificationRequired :: bool

definition resolveExplicitInspectionPaths :: "string \<Rightarrow> string \<Rightarrow> string \<Rightarrow> string list \<Rightarrow> string list" where
  "resolveExplicitInspectionPaths home content workspace allowedPaths =
     List.map_filter (\<lambda>c. qualifyInspectionPath home c workspace allowedPaths) (extractInspectionPathCandidates content)"

definition desktop_vaults :: "string list \<Rightarrow> string list" where
  "desktop_vaults allowedPaths =
     map filepath_Clean (filter (\<lambda>p. contains (to_lower p) ''/desktop/'' \<and> contains (to_lower (filepath_Base p)) ''vault'') allowedPaths)"

definition resolveAliasedInspectionPaths :: "string \<Rightarrow> string \<Rightarrow> string \<Rightarrow> string list \<Rightarrow> string list" where
  "resolveAliasedInspectionPaths home content workspace allowedPaths =
     (let lower = to_lower (trim_space content);
          workspaceVault = filepath_Clean (filepath_Join workspace ''Vault'');
          r1 = (if contains lower ''desktop'' \<and> contains lower ''vault'' then desktop_vaults allowedPaths else []);
          r2 = (if contains lower ''workspace'' \<and> contains lower ''vault''
                then (case qualifyInspectionPath home workspaceVault workspace allowedPaths of
                        Some _ \<Rightarrow> [workspaceVault] | None \<Rightarrow> [])
                     @ map filepath_Clean (filter (\<lambda>p. contains (to_lower p) ''/workspace/vault'') allowedPaths)
                else []);
          r3 = (if contains lower ''workspace''
                   \<and> (contains lower ''projects'' \<or> contains lower ''files'' \<or> contains lower ''contents'')
                   \<and> workspace \<noteq> []
                then [filepath_Clean workspace] else []);
          r4 = (if contains lower ''code folder'' \<or> contains lower ''code directory'' \<or> contains lower ''code repo''
                   \<or> contains lower ''code repos''
                then map filepath_Clean (filter (\<lambda>p. has_suffix (to_lower p) ''/code'' \<or> equal_fold (filepath_Base p) ''code'') allowedPaths)
                else []);
          r5 = (if contains lower ''home folder'' \<or> contains lower ''home directory'' \<or> contains lower ''my home''
                then (let h = currentUserHomeDir home in
                      if h = [] then []
                      else case qualifyInspectionPath home h workspace allowedPaths of Some p \<Rightarrow> [p] | None \<Rightarrow> [])
                else [])
      in r1 @ r2 @ r3 @ r4 @ r5)"

definition ResolveInspectionTarget :: "string \<Rightarrow> string \<Rightarrow> string \<Rightarrow> string list \<Rightarrow> InspectionTargetResolution" where
  "ResolveInspectionTarget home content workspace allowedPaths =
     (if \<not> looksLikeFocusedInspectionTurn content
      then \<lparr>it_ResolvedPaths = [], it_PromptSummary = [], it_ClarificationRequired = False\<rparr>
      else let explicit = uniqueInspectionPaths (resolveExplicitInspectionPaths home content workspace allowedPaths);
               resolved = (if explicit = [] then uniqueInspectionPaths (resolveAliasedInspectionPaths home content workspace allowedPaths)
                           else explicit)
           in case resolved of
                [] \<Rightarrow> \<lparr>it_ResolvedPaths = [],
                  it_PromptSummary = ''This turn is a filesystem inspection request, but the target path is still ambiguous. Ask one precise clarifying question requesting the exact path or folder name before answering.'',
                  it_ClarificationRequired = True\<rparr>
              | [p] \<Rightarrow> \<lparr>it_ResolvedPaths = resolved,
                  it_PromptSummary = ''This turn is a filesystem inspection request. Resolved target path: '' @ p
                    @ ''. Inspect this target directly with list_directory, glob_files, or read_file before answering. Do not claim inability unless a tool call against this target fails.'',
                  it_ClarificationRequired = False\<rparr>
              | _ \<Rightarrow> \<lparr>it_ResolvedPaths = resolved,
                  it_PromptSummary = ''This turn is a filesystem inspection request. The target may refer to one of these paths: ''
                    @ str_join '', '' resolved
                    @ ''. Ask one precise clarifying question choosing among those paths before answering.'',
                  it_ClarificationRequired = True\<rparr>)"

section \<open>Authoring turns\<close>

definition looksLikeFilesystemAuthoringTurn :: "string \<Rightarrow> bool" where
  "looksLikeFilesystemAuthoringTurn lower \<longleftrightarrow>
     lower \<noteq> [] \<and> containsAnyMarker lower [''write'', ''create'', ''generate'', ''save'', ''draft'']
     \<and> containsAnyMarker lower [''document'', ''report'', ''note'', ''file'', ''markdown'', ''vault'', ''folder'', ''directory'']"

definition reportMarkers :: "string list" where
  "reportMarkers = [''report'', ''inventory'', ''summary'', ''table'', ''fields'', ''ordered by'', ''sorted by'', ''order them'']"

definition sourceMarkers :: "string list" where
  "sourceMarkers = [''project'', ''projects'', ''repo'', ''repos'', ''repository'', ''repositories'', ''code folder'',
     ''code directory'', ''workspace'', ''vault'', ''folder'', ''directory'', ''remote origin'', ''origin repo'', ''git'']"

definition looksLikeInspectionBackedArtifactAuthoring :: "string \<Rightarrow> bool" where
  "looksLikeInspectionBackedArtifactAuthoring content =
     (let lower = to_lower (trim_space content) in
      if lower = [] \<or> \<not> looksLikeFilesystemAuthoringTurn lower then False
      else (looksLikeFocusedInspectionTurn content
            \<or> containsAnyMarker lower [''code folder'', ''code directory'', ''workspace'', ''desktop vault'', ''desktop'']
            \<or> extractInspectionPathCandidates content \<noteq> [])
           \<and> containsAnyMarker lower reportMarkers \<and> containsAnyMarker lower sourceMarkers)"

definition looksLikeSourceBackedCodeTask :: "string \<Rightarrow> bool" where
  "looksLikeSourceBackedCodeTask content =
     (let lower = to_lower (trim_space content) in
      lower \<noteq> []
      \<and> containsAnyMarker lower
          [''refactor'', ''fix'', ''debug'', ''modify'', ''update'', ''extend'', ''rewrite'', ''migrate'', ''optimize'',
           ''support hot-reload'', ''add support'', ''rollback on failure'', ''emit structured change events'']
      \<and> containsAnyMarker lower
          [''parser'', ''implementation'', ''codebase'', ''repository'', ''repo'', ''module'', ''function'', ''service'',
           ''handler'', ''pipeline'', ''config'', ''configuration'', ''current repository'', ''current codebase''])"

record FilesystemDestinationResolution =
  fd_ResolvedRoot :: string
  fd_PromptSummary :: string
  fd_UseConfiguredVault :: bool
  fd_ClarificationRequired :: bool

definition no_destination :: FilesystemDestinationResolution where
  "no_destination = \<lparr>fd_ResolvedRoot = [], fd_PromptSummary = [], fd_UseConfiguredVault = False, fd_ClarificationRequired = False\<rparr>"

definition buildDestinationSummary :: "string \<Rightarrow> bool \<Rightarrow> string" where
  "buildDestinationSummary root configuredVault =
     (if configuredVault
      then ''This turn requests authoring into the configured Obsidian vault at '' @ root
           @ ''. Use obsidian_write for vault-relative notes, or write_file with an absolute path under this root when the operator requests a specific absolute destination.''
      else ''This turn requests authoring into the allowlisted destination root '' @ root
           @ ''. This path is writable. Because it is not the configured default Obsidian vault, use write_file or edit_file with an absolute path under this root. If the operator asked for a new document without naming a file, choose a concise descriptive markdown filename under this root instead of claiming incapacity.'')"

definition destination_at :: "string \<Rightarrow> string \<Rightarrow> FilesystemDestinationResolution" where
  "destination_at configuredVault path =
     \<lparr>fd_ResolvedRoot = path, fd_PromptSummary = buildDestinationSummary path (samePath path configuredVault),
      fd_UseConfiguredVault = samePath path configuredVault, fd_ClarificationRequired = False\<rparr>"

fun first_qualified :: "string \<Rightarrow> string list \<Rightarrow> string \<Rightarrow> string list \<Rightarrow> string option" where
  "first_qualified home [] workspace allowedPaths = None"
| "first_qualified home (c # cs) workspace allowedPaths =
     (case qualifyInspectionPath home c workspace allowedPaths of
        Some p \<Rightarrow> Some p | None \<Rightarrow> first_qualified home cs workspace allowedPaths)"

definition ResolveFilesystemDestination ::
  "string \<Rightarrow> string \<Rightarrow> string \<Rightarrow> string list \<Rightarrow> string \<Rightarrow> FilesystemDestinationResolution" where
  "ResolveFilesystemDestination home content workspace allowedPaths configuredVault =
     (let lower = to_lower (trim_space content);
          by_text = (case first_qualified home (extractInspectionPathCandidates content) workspace allowedPaths of
                       Some p \<Rightarrow> destination_at configuredVault p | None \<Rightarrow> no_destination);
          by_desktop =
            (if contains lower ''desktop'' \<and> contains lower ''vault''
             then (case desktop_vaults allowedPaths of
                     p # _ \<Rightarrow> destination_at configuredVault p
                   | [] \<Rightarrow> no_destination\<lparr>fd_ClarificationRequired := True,
                       fd_PromptSummary := ''This turn requests authoring into a Desktop vault, but the destination root is still ambiguous. Ask one precise clarifying question requesting the exact destination path before writing.''\<rparr>)
             else by_text)
      in if lower = [] \<or> \<not> looksLikeFilesystemAuthoringTurn lower then no_destination
         else if contains lower ''workspace'' \<and> contains lower ''vault''
         then (let cleaned = filepath_Clean configuredVault;
                   root = (if cleaned = ''.'' \<or> cleaned = [] then filepath_Join workspace ''Vault'' else cleaned)
               in case qualifyInspectionPath home root workspace allowedPaths of
                    Some p \<Rightarrow> destination_at configuredVault p | None \<Rightarrow> by_desktop)
         else by_desktop)"

record SourceCodeTargetResolution =
  st_ResolvedRoot :: string
  st_PromptSummary :: string

definition ResolveSourceCodeTarget :: "string \<Rightarrow> string \<Rightarrow> string \<Rightarrow> string list \<Rightarrow> SourceCodeTargetResolution" where
  "ResolveSourceCodeTarget home content currentRoot allowedPaths =
     (if \<not> looksLikeSourceBackedCodeTask content \<or> currentRoot = []
         \<or> qualifyInspectionPath home currentRoot [] allowedPaths = None
      then \<lparr>st_ResolvedRoot = [], st_PromptSummary = []\<rparr>
      else let root = filepath_Clean currentRoot
           in \<lparr>st_ResolvedRoot = root,
               st_PromptSummary = ''This turn requests source-backed code work in the current repository root '' @ root
                 @ ''. Start there. Use list_directory, glob_files, and read_file to locate authoritative source files before proposing or applying a refactor. Prefer the current repository over broad parent-directory inventory unless direct inspection of this root proves insufficient.''\<rparr>)"

section \<open>Cleaning is idempotent\<close>

text \<open>A list of path components that \<^verbatim>\<open>Clean\<close> leaves alone: parent references only in front, and none in a rooted path.\<close>

definition plain_comp :: "string \<Rightarrow> bool" where
  "plain_comp c \<longleftrightarrow> c \<noteq> [] \<and> c \<noteq> ''.'' \<and> c \<noteq> ''..'' \<and> CHR ''/'' \<notin> set c"

definition clean_comps :: "bool \<Rightarrow> string list \<Rightarrow> bool" where
  "clean_comps rooted cs \<longleftrightarrow> (\<exists>k ps. cs = replicate k ''..'' @ ps \<and> list_all plain_comp ps \<and> (rooted \<longrightarrow> k = 0))"

lemma clean_compsI: "list_all plain_comp ps \<Longrightarrow> (rooted \<Longrightarrow> k = 0) \<Longrightarrow> clean_comps rooted (replicate k ''..'' @ ps)"
  unfolding clean_comps_def by blast

lemma clean_comps_step:
  assumes "clean_comps rooted (rev st)" "CHR ''/'' \<notin> set e"
  shows "clean_comps rooted (rev (clean_step rooted st e))"
proof -
  obtain k ps where st: "rev st = replicate k ''..'' @ ps" and ps: "list_all plain_comp ps" and k: "rooted \<Longrightarrow> k = 0"
    using assms(1) unfolding clean_comps_def by blast
  have st': "st = rev ps @ replicate k ''..''" using arg_cong [OF st, of rev] by simp
  consider "e = [] \<or> e = ''.''" | "e = ''..''" | "plain_comp e" using assms(2) by (auto simp: plain_comp_def)
  then show ?thesis
  proof cases
    case 1
    with assms(1) show ?thesis by auto
  next
    case 2
    show ?thesis
    proof (cases ps rule: rev_cases)
      case Nil
      then have "rev (clean_step rooted st e) = (if rooted then [] else replicate (Suc k) ''..'')"
        using st' 2 k by (cases k) (auto simp: replicate_append_same)
      moreover have "clean_comps True []" "clean_comps False (replicate (Suc k) ''..'')"
        using clean_compsI [of "[]" True 0] clean_compsI [of "[]" False "Suc k"] by simp_all
      ultimately show ?thesis by (simp del: clean_step.simps)
    next
      case (snoc qs q)
      with ps have "list_all plain_comp qs" "q \<noteq> ''..''" by (auto simp: plain_comp_def)
      with snoc st' 2 k show ?thesis by (auto intro!: clean_compsI)
    qed
  next
    case 3
    then have "clean_step rooted st e = e # st" by (auto simp: plain_comp_def)
    then show ?thesis using ps k 3 clean_compsI [of "ps @ [e]" rooted k] st by simp
  qed
qed

lemma clean_comps_fold:
  "clean_comps rooted (rev st) \<Longrightarrow> list_all (\<lambda>e. CHR ''/'' \<notin> set e) es
   \<Longrightarrow> clean_comps rooted (rev (foldl (clean_step rooted) st es))"
proof (induction es arbitrary: st)
  case (Cons e es)
  from clean_comps_step [OF Cons.prems(1), of e] Cons.prems(2) Cons.IH show ?case by simp
qed simp

lemma fold_plain: "list_all plain_comp ps \<Longrightarrow> foldl (clean_step rooted) st ps = rev ps @ st"
  by (induction ps arbitrary: st) (auto simp: plain_comp_def)

lemma fold_dots: "foldl (clean_step False) (replicate j ''..'') (replicate k ''..'') = replicate (j + k) ''..''"
proof (induction k arbitrary: j)
  case (Suc k)
  from Suc.IH [of "Suc j"] show ?case by (cases j) auto
qed simp

lemma fold_clean_comps: "clean_comps rooted cs \<Longrightarrow> foldl (clean_step rooted) [] cs = rev cs"
  unfolding clean_comps_def
proof (elim exE conjE)
  fix k ps
  assume cs: "cs = replicate k ''..'' @ ps" and ps: "list_all plain_comp ps" and k: "rooted \<longrightarrow> k = 0"
  then show ?thesis using fold_dots [of 0 k] by (cases rooted) (simp_all add: fold_plain)
qed

lemma split_join_slash:
  "cs \<noteq> [] \<Longrightarrow> list_all (\<lambda>w. CHR ''/'' \<notin> set w) cs \<Longrightarrow> split_on (CHR ''/'') (join_slash cs) = cs"
  by (induction cs rule: join_slash.induct) (auto simp: split_on_none split_on_append [simplified])

lemma clean_comps_no_slash:
  assumes "clean_comps rooted cs"
  shows "list_all (\<lambda>w. w \<noteq> [] \<and> CHR ''/'' \<notin> set w) cs"
proof -
  obtain k ps where cs: "cs = replicate k ''..'' @ ps" and ps: "list_all plain_comp ps"
    using assms unfolding clean_comps_def by blast
  from ps have "list_all (\<lambda>w. w \<noteq> [] \<and> CHR ''/'' \<notin> set w) ps"
    by (rule list.pred_mono_strong) (simp add: plain_comp_def)
  moreover have "list_all (\<lambda>w. w \<noteq> [] \<and> CHR ''/'' \<notin> set w) (replicate k ''..'')"
    by (induction k) simp_all
  ultimately show ?thesis by (simp only: cs list_all_append)
qed

lemma filepath_Clean_idem [simp]: "filepath_Clean (filepath_Clean p) = filepath_Clean p"
proof -
  define rooted where "rooted = has_prefix p ''/''"
  define cs where "cs = rev (foldl (clean_step rooted) [] (split_on (CHR ''/'') p))"
  have cc: "clean_comps rooted cs"
    unfolding cs_def by (rule clean_comps_fold) (use clean_compsI [of "[]" rooted 0] split_on_parts in \<open>auto simp: list_all_iff\<close>)
  note sl = clean_comps_no_slash [OF cc]
  have clean: "filepath_Clean p = (if rooted then CHR ''/'' # join_slash cs else if cs = [] then ''.'' else join_slash cs)"
    by (simp add: filepath_Clean_def rooted_def cs_def Let_def)
  have parts: "split_on (CHR ''/'') (join_slash cs) = (if cs = [] then [[]] else cs)"
    using sl by (auto simp: split_join_slash list_all_iff)
  show ?thesis
  proof (cases rooted)
    case True
    with clean have "has_prefix (filepath_Clean p) ''/''" by (simp add: has_prefix_def)
    with clean True cc parts show ?thesis
      by (subst filepath_Clean_def) (simp add: Let_def fold_clean_comps)
  next
    case False
    show ?thesis
    proof (cases cs)
      case Nil
      with clean False show ?thesis by (simp add: filepath_Clean_def has_prefix_def)
    next
      case (Cons c ds)
      with sl have "\<not> has_prefix (join_slash cs) ''/''"
        by (cases c; cases ds) (auto simp: has_prefix_def)
      moreover have "filepath_Clean p = join_slash cs" "split_on (CHR ''/'') (join_slash cs) = cs" "rev (foldl (clean_step False) [] cs) = cs"
        using clean False cc parts Cons by (simp_all add: fold_clean_comps del: join_slash.simps foldl_Cons)
      ultimately show ?thesis
        using Cons by (subst filepath_Clean_def) (simp only: Let_def if_False list.distinct)
    qed
  qed
qed

section \<open>Properties\<close>

text \<open>A path the turn may be pointed at: in the workspace or in an allowed directory.\<close>

definition path_admitted :: "string \<Rightarrow> string list \<Rightarrow> string \<Rightarrow> bool" where
  "path_admitted workspace allowedPaths p \<longleftrightarrow>
     workspace \<noteq> [] \<and> pathWithin p workspace \<or> list_ex (pathWithin p) allowedPaths"

lemma pathWithin_Clean [simp]: "pathWithin (filepath_Clean p) root = pathWithin p root"
  by (simp add: pathWithin_def)

lemma path_admitted_Clean [simp]: "path_admitted ws allowed (filepath_Clean p) = path_admitted ws allowed p"
  by (simp add: path_admitted_def list_ex_iff)

lemma filepath_Clean_not_Nil [simp]: "filepath_Clean p \<noteq> []"
proof
  assume clean: "filepath_Clean p = []"
  have "clean_comps False cs \<Longrightarrow> cs \<noteq> [] \<Longrightarrow> join_slash cs \<noteq> []" for cs
    using clean_comps_no_slash [of False cs] by (cases cs rule: join_slash.cases) auto
  moreover have "clean_comps False (rev (foldl (clean_step False) [] (split_on (CHR ''/'') p)))"
    by (rule clean_comps_fold) (use clean_compsI [of "[]" False 0] split_on_parts in \<open>auto simp: list_all_iff\<close>)
  ultimately show False using clean by (auto simp: filepath_Clean_def Let_def split: if_splits)
qed

lemma pathWithin_refl [simp]: "pathWithin p p"
  by (simp add: pathWithin_def Let_def equal_fold_def)

lemma qualify_admitted: "qualifyInspectionPath home c ws allowed = Some p \<Longrightarrow> path_admitted ws allowed p"
  by (auto simp: qualifyInspectionPath_def path_admitted_def split: option.splits if_splits)

lemma allowed_admitted: "p \<in> set allowed \<Longrightarrow> path_admitted ws allowed p"
  unfolding path_admitted_def list_ex_iff by (metis pathWithin_refl)

lemma desktop_vaults_admitted: "p \<in> set (desktop_vaults allowed) \<Longrightarrow> path_admitted ws allowed p"
  by (auto simp: desktop_vaults_def intro: allowed_admitted)

lemma unique_admitted:
  assumes "\<And>q. q \<in> set ps \<Longrightarrow> path_admitted ws allowed q" "p \<in> set (uniqueInspectionPaths ps)"
  shows "path_admitted ws allowed p"
  using assms by (auto simp: uniqueInspectionPaths_def dest!: first_by_set)

lemma trim_space_id: "xs \<noteq> [] \<Longrightarrow> \<not> is_space (hd xs) \<Longrightarrow> \<not> is_space (last xs) \<Longrightarrow> trim_space xs = xs"
  using dropWhile_eq_self_iff [of is_space xs] dropWhile_eq_self_iff [of is_space "rev xs"]
  by (simp add: trim_space_def hd_rev)

lemma join_slash_snoc: "join_slash (cs @ [w]) = (if cs = [] then w else join_slash cs @ ''/'' @ w)"
  by (induction cs rule: join_slash.induct) auto

text \<open>The vault of an absolute workspace, which the code trims before it qualifies it, has nothing to trim.\<close>

lemma workspace_vault_trim:
  assumes "has_prefix ws ''/''"
  shows "trim_space (filepath_Clean (filepath_Join ws ''Vault'')) = filepath_Clean (filepath_Join ws ''Vault'')"
proof -
  let ?p = "ws @ ''/'' @ ''Vault''"
  have ws: "ws \<noteq> []" using assms by (auto simp: has_prefix_def)
  have rooted: "has_prefix ?p ''/''" using assms by (auto simp: has_prefix_iff)
  have "split_on (CHR ''/'') ?p = split_on (CHR ''/'') ws @ [''Vault'']"
    using split_on_append [of "CHR ''/''" ws "''Vault''"] by simp
  moreover define cs where "cs = rev (foldl (clean_step True) [] (split_on (CHR ''/'') ws))"
  ultimately have "filepath_Clean ?p = ''/'' @ join_slash (cs @ [''Vault''])"
    using rooted by (simp add: filepath_Clean_def Let_def)
  then have "filepath_Clean ?p = ''/'' @ (if cs = [] then [] else join_slash cs @ ''/'') @ ''Vault''"
    by (simp add: join_slash_snoc)
  then obtain u where "filepath_Clean ?p = ''/'' @ u @ ''Vault''" by blast
  moreover have "filepath_Clean (filepath_Join ws ''Vault'') = filepath_Clean ?p"
    using ws by (simp add: filepath_Join_def)
  ultimately show ?thesis by (intro trim_space_id) (simp_all add: is_space_def)
qed

lemma vault_admitted:
  assumes "has_prefix ws ''/''" "qualifyInspectionPath home (filepath_Clean (filepath_Join ws ''Vault'')) ws allowed = Some q"
  shows "path_admitted ws allowed (filepath_Clean (filepath_Join ws ''Vault''))"
proof -
  have "has_prefix (filepath_Clean (filepath_Join ws ''Vault'')) ''/''"
    using assms(1) by (auto simp: filepath_Join_def filepath_Clean_def Let_def has_prefix_iff)
  then have "\<not> has_prefix (filepath_Clean (filepath_Join ws ''Vault'')) ''~''" by (auto simp: has_prefix_iff)
  then have "q = filepath_Clean (filepath_Join ws ''Vault'')"
    using assms(2) by (simp add: qualifyInspectionPath_def workspace_vault_trim [OF assms(1)] expand_tilde_def split: if_splits)
  with qualify_admitted [OF assms(2)] show ?thesis by simp
qed

lemma explicit_admitted:
  "p \<in> set (resolveExplicitInspectionPaths home content ws allowed) \<Longrightarrow> path_admitted ws allowed p"
  by (auto simp: resolveExplicitInspectionPaths_def List.map_filter_def dest: qualify_admitted)

lemma aliased_admitted:
  assumes "has_prefix ws ''/''" "p \<in> set (resolveAliasedInspectionPaths home content ws allowed)"
  shows "path_admitted ws allowed p"
  using assms(2)
  by (auto simp: resolveAliasedInspectionPaths_def Let_def split: if_splits option.splits
      intro: allowed_admitted desktop_vaults_admitted qualify_admitted
      dest!: sym [of "Some _"] vault_admitted [OF assms(1)])
    (auto simp: path_admitted_def)

lemma first_qualified_admitted: "first_qualified home cs ws allowed = Some p \<Longrightarrow> path_admitted ws allowed p"
  by (induction cs) (auto split: option.splits dest: qualify_admitted)

text \<open>
  A turn is only ever pointed at paths it may use: with an absolute workspace, every path that an
  inspection turn resolves to, written out in the text or by an alias such as \<^verbatim>\<open>desktop vault\<close>, and the
  destination of an authoring turn, lies in the workspace or in one of the allowed directories.
\<close>

theorem resolved_targets_are_admitted:
  assumes "has_prefix workspace ''/''"
  shows "list_all (path_admitted workspace allowedPaths)
       (it_ResolvedPaths (ResolveInspectionTarget home content workspace allowedPaths))
    \<and> (let root = fd_ResolvedRoot (ResolveFilesystemDestination home content workspace allowedPaths configuredVault)
       in root = [] \<or> path_admitted workspace allowedPaths root)"
proof
  let ?e = "uniqueInspectionPaths (resolveExplicitInspectionPaths home content workspace allowedPaths)"
  let ?a = "uniqueInspectionPaths (resolveAliasedInspectionPaths home content workspace allowedPaths)"
  have "set (it_ResolvedPaths (ResolveInspectionTarget home content workspace allowedPaths)) \<subseteq> set ?e \<union> set ?a"
    by (auto simp: ResolveInspectionTarget_def Let_def split: list.splits if_splits)
  moreover have "path_admitted workspace allowedPaths p" if "p \<in> set ?e \<union> set ?a" for p
    using that unique_admitted explicit_admitted aliased_admitted [OF assms] by blast
  ultimately show "list_all (path_admitted workspace allowedPaths)
       (it_ResolvedPaths (ResolveInspectionTarget home content workspace allowedPaths))"
    by (auto simp: list_all_iff)
  show "let root = fd_ResolvedRoot (ResolveFilesystemDestination home content workspace allowedPaths configuredVault)
       in root = [] \<or> path_admitted workspace allowedPaths root"
    using desktop_vaults_admitted [of _ allowedPaths workspace]
    by (auto simp: ResolveFilesystemDestination_def Let_def destination_at_def no_destination_def
        dest: qualify_admitted first_qualified_admitted split: option.splits list.splits if_splits)
qed

theorem resolved_targets_are_admitted_witness:
  "it_ResolvedPaths (ResolveInspectionTarget [] ''list files in /w/a, /x'' ''/w'' []) = [''/w/a'']
   \<and> list_all (path_admitted ''/w'' []) [''/w/a'']"
proof -
  have resolved: "it_ResolvedPaths (ResolveInspectionTarget [] ''list files in /w/a, /x'' ''/w'' []) = [''/w/a'']"
    by code_simp
  have "has_prefix ''/w'' ''/''" by (simp add: has_prefix_def)
  from resolved_targets_are_admitted [OF this, of "[]" "[]" "''list files in /w/a, /x''" "[]"] resolved
  show ?thesis by simp
qed

text \<open>
  A root directory admits nothing below it: the test looks for the root followed by a slash, and
  the root directory already ends in one.
\<close>

theorem root_directory_admits_nothing: "\<not> pathWithin ''/etc/hosts'' ''/'' \<and> pathWithin ''/'' ''/''"
  by code_simp

end
