(* ===== verification/TaskSynthesis.thy ===== *)
theory TaskSynthesis
  imports Complex_Main Inspection "HOL-Library.Monad_Syntax"
begin

text \<open>
  What the pipeline makes of a user message before any model is called:
  \<^verbatim>\<open>internal/pipeline/task_synthesis.go\<close> (intent, complexity, planned action, retrieval), the
  decomposition gate of \<^verbatim>\<open>decomposition.go\<close>, the intent registry of \<^verbatim>\<open>intent_registry.go\<close> and the
  error classes of \<^verbatim>\<open>delegation_classify.go\<close>.

  A function that reads the artifact contract is an option, \<open>None\<close> where the contract's parser
  panics. Confidences and ratios are rationals: a quotient of two counts below \<open>2^40\<close> and a decimal
  constant compare as 64-bit floats the way they compare as rationals. The iteration order of the one
  Go map that is searched is a parameter.
\<close>

section \<open>Intent\<close>

definition socialMarkers :: "string list" where
  "socialMarkers =
     [''hello'', ''hi'', ''hey'', ''thanks'', ''thank you'', ''good morning'', ''good afternoon'', ''good evening'',
      ''how are you'', ''how'' @ [CHR 0x27] @ ''s it going'', ''hows it going'',
      ''what'' @ [CHR 0x27] @ ''s new'', ''whats new'', ''what is new'', ''anything new'', ''anything new with you'',
      ''what'' @ [CHR 0x27] @ ''s up'', ''whats up'', ''what is up'',
      ''what'' @ [CHR 0x27] @ ''s going on'', ''whats going on'', ''what'' @ [CHR 0x27] @ ''s shakin'', ''whats shakin'',
      ''what'' @ [CHR 0x27] @ ''s shaking'', ''whats shaking'', ''what'' @ [CHR 0x27] @ ''s the good word'', ''whats the good word'']"

definition isSocialConversationalTurn :: "string \<Rightarrow> bool" where
  "isSocialConversationalTurn lower0 =
     (let lower = trim_space lower0 in
      if lower = [] then False
      else let padded = '' '' @ normalizeIntentLexicon lower @ '' '' in
        if list_ex (\<lambda>m. contains padded ('' '' @ normalizeIntentLexicon m @ '' '')) socialMarkers then True
        else length (str_fields lower) \<le> 6 \<and> (has_prefix lower ''yo'' \<or> has_prefix lower ''sup''))"

definition questionMarkers :: "string list" where
  "questionMarkers = [''what'', ''how'', ''why'', ''when'', ''where'', ''who'', ''which'', ''can you explain'', ''tell me'']"

definition codeMarkers :: "string list" where
  "codeMarkers = [''write code'', ''implement'', ''function'', ''class'', ''api'', ''debug'', ''fix bug'', ''refactor'',
     ''unit test'', ''test suite'', ''write tests'', ''failing test'', ''run the tests'']"

definition taskMarkers :: "string list" where
  "taskMarkers = [''create'', ''build'', ''make'', ''set up'', ''configure'', ''install'', ''deploy'', ''update'', ''delete'',
     ''remove'', ''send'', ''schedule'', ''count'', ''list'', ''find'', ''scan'', ''look in'', ''look at'', ''check'', ''inspect'',
     ''verify'', ''audit'']"

definition creativeMarkers :: "string list" where
  "creativeMarkers = [''write'', ''compose'', ''draft'', ''generate'', ''brainstorm'', ''design'', ''story'', ''poem'']"

definition classifyIntent :: "string \<Rightarrow> string option" where
  "classifyIntent content =
     (let lower = to_lower content in
      do {
        contract \<leftarrow> ParseArtifactPromptContract content;
        Some (if isSocialConversationalTurn lower then ''conversational''
              else if pc_ExpectedOutputs contract \<noteq> [] then ''task''
              else if looksLikeFocusedInspectionTurn content then ''task''
              else if looksLikeInspectionBackedArtifactAuthoring content then ''task''
              else if list_ex (\<lambda>m. has_prefix lower m \<or> contains lower ''?'') questionMarkers then ''question''
              else if list_ex (containsIntentMarker lower) codeMarkers then ''code''
              else if list_ex (containsIntentMarker lower) taskMarkers then ''task''
              else if list_ex (containsIntentMarker lower) creativeMarkers then ''creative''
              else if length content < 50 then ''conversational''
              else ''general'')
      })"

section \<open>Complexity\<close>

text \<open>The pattern of \<^verbatim>\<open>authoringFilePattern\<close>, which unlike the other file patterns does not fold case.\<close>

definition author_char :: "char \<Rightarrow> bool" where
  "author_char c \<longleftrightarrow> is_alnum_lower c \<or> c = CHR ''_''"

definition author_name :: rx where
  "author_name = RSeq (RChar author_char) (rstar (RChar (\<lambda>c. author_char c \<or> c = CHR ''.'' \<or> c = CHR ''-'')))"

definition authoringFilePattern :: rx where
  "authoringFilePattern =
     rseq [RWordB, rstar (RSeq author_name (rlit ''/'')), author_name, rlit ''.'', RGroup 1 (ralt (map rlit artifact_extensions)), RWordB]"

definition boundedAuthoringArtifactCount :: "string \<Rightarrow> nat" where
  "boundedAuthoringArtifactCount lower =
     (let found = rx_find_all authoringFilePattern lower in
      if found \<noteq> [] then length (remdups (map (match_text lower) found))
      else if containsAnyMarker lower [''two notes'', ''two files'', ''two documents'', ''2 notes'', ''2 files'', ''2 documents''] then 2
      else if containsAnyMarker lower [''three notes'', ''three files'', ''three documents'', ''3 notes'', ''3 files'', ''3 documents''] then 3
      else if containsAnyMarker lower [''note'', ''notes'', ''file'', ''files'', ''document'', ''documents'', ''doc'', ''docs''] then 1
      else 0)"

definition complexityEscalators :: "string list" where
  "complexityEscalators = [''analyze'', ''analysis'', ''investigate'', ''report'', ''summarize'', ''summary'', ''root cause'',
     ''compare'', ''evaluate'', ''plan'', ''strategy'', ''workflow'', ''system'', ''architecture'', ''pipeline'', ''debug'',
     ''fix bug'', ''implement'']"

definition looksLikeBoundedAuthoringTask :: "string \<Rightarrow> bool" where
  "looksLikeBoundedAuthoringTask lower =
     (let artifactCount = boundedAuthoringArtifactCount lower;
          hasArtifactSignal = containsAnyMarker lower [''note'', ''document'', ''doc'', ''markdown'', ''.md'', ''file'', ''vault'', ''obsidian'']
            \<or> artifactCount > 0
      in if \<not> containsAnyMarker lower [''create'', ''write'', ''draft'', ''make'', ''add'', ''update'', ''edit''] \<or> \<not> hasArtifactSignal then False
         else if artifactCount = 0 \<or> artifactCount > 3 then False
         else \<not> containsAnyMarker lower complexityEscalators)"

text \<open>A numbered or bulleted line is a subtask.\<close>

definition subtask_line :: "string \<Rightarrow> string option" where
  "subtask_line line =
     (let trimmed = trim_space line;
          rest = trim_left ''0123456789'' trimmed;
          bullet_task = (case trimmed of
             c # r \<Rightarrow> if c = CHR ''-'' \<or> c = CHR ''*'' then (let t = trim_space r in if t \<noteq> [] then Some t else None) else None
           | [] \<Rightarrow> None)
      in if trimmed = [] then None
         else if length trimmed \<ge> 3 \<and> is_digit (hd trimmed) \<and> rest \<noteq> [] \<and> (hd rest = CHR ''.'' \<or> hd rest = CHR '')'')
         then (let t = trim_space (tl rest) in if t \<noteq> [] then Some t else None)
         else bullet_task)"

definition extractSubtasks :: "string \<Rightarrow> string list" where
  "extractSubtasks content = List.map_filter subtask_line (split_on (CHR 0x0A) content)"

definition techMarkers :: "string list" where
  "techMarkers = [''integrate'', ''migrate'', ''architecture'', ''system'', ''pipeline'', ''workflow'']"

definition classifyComplexity :: "string \<Rightarrow> nat \<Rightarrow> string option" where
  "classifyComplexity content sessionTurns =
     (let words = length (str_fields content);
          lower = to_lower content;
          techCount = length (filter (contains lower) techMarkers);
          subtasks = extractSubtasks content
      in do {
        expectedArtifacts \<leftarrow> ParseExpectedArtifactSpecs content;
        Some (if looksLikeSourceBackedCodeTask content
              then (if words > 40 \<or> length subtasks \<ge> 2 then ''complex'' else ''moderate'')
              else if expectedArtifacts \<noteq> []
              then (if length expectedArtifacts > 1 then ''moderate'' else ''simple'')
              else if looksLikeBoundedAuthoringTask lower
              then (if boundedAuthoringArtifactCount lower > 1 then ''moderate'' else ''simple'')
              else if length subtasks \<ge> 3 then ''complex''
              else if words > 100 then ''complex''
              else if techCount \<ge> 2 \<or> words > 40 \<and> techCount \<ge> 1 then ''complex''
              else if words > 30 \<or> subtasks \<noteq> [] then ''moderate''
              else ''simple'')
      })"

section \<open>Capabilities\<close>

definition lexiconTokens :: "string \<Rightarrow> string list" where
  "lexiconTokens content =
     filter (\<lambda>w. length w \<ge> 4) (fields_func (\<lambda>c. \<not> is_alnum_lower c) (to_lower content))"

definition capabilityTokens :: "string \<Rightarrow> string list" where
  "capabilityTokens content = first_by (\<lambda>w. w) {} (lexiconTokens content)"

definition matchCapabilities :: "string list \<Rightarrow> string list \<Rightarrow> rat \<times> string list" where
  "matchCapabilities capTokens skills =
     (if capTokens = [] then (1, [])
      else let skillSet = concat (map lexiconTokens skills);
               missing = filter (\<lambda>tok. tok \<notin> set skillSet) capTokens;
               matched = length (filter (\<lambda>tok. tok \<in> set skillSet) capTokens)
           in (of_nat matched / of_nat (length capTokens), missing))"

section \<open>Retrieval\<close>

definition looksLikeSchedulingTask :: "string \<Rightarrow> bool" where
  "looksLikeSchedulingTask lower =
     containsAnyMarker lower [''schedule '', ''scheduled'', ''cron'', ''every '', ''reminder'', ''quiet ticker'', ''ticker'', ''runs every'']"

definition hasProceduralLearningCue :: "string \<Rightarrow> bool" where
  "hasProceduralLearningCue lower =
     containsAnyMarker lower [''how do i'', ''how to'', ''steps to'', ''procedure'', ''runbook'', ''playbook'', ''workflow'', ''process for'']"

definition appliedLearningHelpful ::
  "string \<Rightarrow> string \<Rightarrow> string \<Rightarrow> rat \<Rightarrow> string list \<Rightarrow> string \<Rightarrow> string \<Rightarrow> bool option" where
  "appliedLearningHelpful intent content lower capabilityFit missingSkills plannedAction complexity =
     (if intent \<noteq> ''task'' \<and> intent \<noteq> ''code'' then Some False
      else if looksLikeSchedulingTask lower then Some False
      else do {
        specs \<leftarrow> ParseExpectedArtifactSpecs content;
        Some (if specs \<noteq> [] then False
              else if looksLikeBoundedAuthoringTask lower then False
              else if hasProceduralLearningCue lower then True
              else if plannedAction \<noteq> ''execute_directly'' then False
              else if capabilityFit \<ge> 45 / 100 then False
              else if complexity = ''moderate'' \<or> complexity = ''complex'' \<or> complexity = ''specialist'' then True
              else length missingSkills \<ge> 2)
      })"

definition schedulingAliasNeedsContinuity :: "string \<Rightarrow> nat \<Rightarrow> bool" where
  "schedulingAliasNeedsContinuity lower sessionTurns =
     (if sessionTurns \<le> 1 \<or> \<not> looksLikeSchedulingTask lower then False
      else if containsAnyMarker lower [''cron'', ''every '', ''minute'', ''minutes'', ''hour'', ''hours'', ''daily'', ''weekly'',
                ''monthly'', ''*/'', ''0 ''] then False
      else containsAnyMarker lower [''quiet ticker'', ''ticker'', ''the reminder'', ''that reminder'', ''that job''])"

definition taskNeedsPriorContext :: "string \<Rightarrow> bool" where
  "taskNeedsPriorContext lower =
     list_ex (contains lower)
       [''previous'', ''earlier'', ''existing'', ''current'', ''continue'', ''follow up'', ''follow-up'', ''we discussed'',
        ''as before'', ''same as'', ''based on'', ''from the session'', ''in the session'', ''remember'', ''context'', ''history'',
        ''prior'', ''last time'', ''again'', ''update'', ''revise'', ''modify'', ''edit'', ''append'', ''resume'']"

definition taskNeedsEvidence :: "string \<Rightarrow> bool" where
  "taskNeedsEvidence lower =
     list_ex (contains lower)
       [''report'', ''analysis'', ''analyze'', ''explain'', ''identify'', ''root cause'', ''affected'', ''which systems'',
        ''what happened'', ''why this happened'', ''summarize'', ''summary'', ''investigate'']"

definition turnCarriesContinuityCue :: "string \<Rightarrow> bool" where
  "turnCarriesContinuityCue lower =
     list_ex (contains lower)
       [''previous'', ''earlier'', ''we discussed'', ''as before'', ''same as'', ''continue'', ''follow up'', ''follow-up'',
        ''remember'', ''history'', ''context'', ''last time'', ''resume'']"

definition looksLikeTimeQuestion :: "string \<Rightarrow> bool" where
  "looksLikeTimeQuestion lower =
     containsAnyMarker lower [''what time is it'', ''current time'', ''time is it'', ''what'' @ [CHR 0x27] @ ''s the time'',
       ''what is today'' @ [CHR 0x27] @ ''s date'', ''what day is it'']"

definition looksLikeSimpleArithmeticQuestion :: "string \<Rightarrow> bool" where
  "looksLikeSimpleArithmeticQuestion lower =
     (if contains lower ''what is 2 + 2'' \<or> contains lower (''what'' @ [CHR 0x27] @ ''s 2 + 2'') then True
      else (contains lower ''return only the number'' \<or> contains lower ''reply only with the number'')
           \<and> list_ex (contains lower) [''+'', ''-'', ''*'', ''/''])"

definition looksLikeLanguageRuntimeFactQuestion :: "string \<Rightarrow> bool" where
  "looksLikeLanguageRuntimeFactQuestion lower \<longleftrightarrow>
     containsAnyMarker lower
       [''in go, what does'', ''in go what does'', ''in python, what does'', ''in python what does'', ''in javascript, what does'',
        ''in javascript what does'', ''in rust, what does'', ''in rust what does'', ''what does '' @ [CHR 0x60] @ ''len('',
        ''what does len('', ''when the slice is nil'']
     \<and> contains lower ''return''"

definition looksLikeDerivableDirectFactQuestion :: "string \<Rightarrow> bool" where
  "looksLikeDerivableDirectFactQuestion content =
     (let lower = to_lower (trim_space content) in
      looksLikeTimeQuestion lower \<or> looksLikeSimpleArithmeticQuestion lower \<or> looksLikeLanguageRuntimeFactQuestion lower)"

definition shouldRetrieveForTurn ::
  "string \<Rightarrow> string \<Rightarrow> nat \<Rightarrow> rat \<Rightarrow> string list \<Rightarrow> string \<Rightarrow> string \<Rightarrow> (bool \<times> string \<times> bool) option" where
  "shouldRetrieveForTurn intent content sessionTurns capabilityFit missingSkills plannedAction complexity =
     (let lower = to_lower content in
      do {
        unc \<leftarrow> appliedLearningHelpful intent content lower capabilityFit missingSkills plannedAction complexity;
        Some (let tail = (if sessionTurns > 3 \<and> turnCarriesContinuityCue lower then (True, ''session_continuity'', unc)
                          else (False, ''none'', unc))
              in if looksLikeSourceBackedCodeTask content then (False, ''none'', False)
                 else if looksLikeInspectionBackedArtifactAuthoring content then (False, ''none'', unc)
                 else if looksLikeFocusedInspectionTurn content then (False, ''none'', unc)
                 else if looksLikeDerivableDirectFactQuestion content then (False, ''none'', False)
                 else if intent = ''question'' then (True, ''question_default'', unc)
                 else if intent = ''task'' \<or> intent = ''code''
                 then (if schedulingAliasNeedsContinuity lower sessionTurns then (True, ''scheduling_alias_continuity'', False)
                       else if taskNeedsPriorContext lower \<or> taskNeedsEvidence lower then (True, ''continuity_or_evidence'', unc)
                       else if unc then (True, ''applied_learning_uncertainty'', True)
                       else tail)
                 else tail)
      })"

section \<open>Synthesis\<close>

record TaskSynthesis =
  ts_Intent :: string
  ts_Complexity :: string
  ts_PlannedAction :: string
  ts_Confidence :: rat
  ts_RetrievalNeeded :: bool
  ts_RetrievalReason :: string
  ts_ProceduralUncertainty :: bool
  ts_MissingSkills :: "string list"
  ts_CapabilityFit :: rat

definition plan_action :: "string \<Rightarrow> rat \<Rightarrow> string list \<Rightarrow> string \<times> rat" where
  "plan_action complexity fit missing =
     (if complexity = ''complex'' \<or> complexity = ''specialist''
      then (if fit < 3 / 10 \<and> missing \<noteq> [] then (''compose_subagent'', 6 / 10)
            else if fit < 7 / 10 then (''delegate_to_specialist'', 65 / 100)
            else (''execute_directly'', 8 / 10))
      else (''execute_directly'', 8 / 10))"

definition SynthesizeTaskState :: "string \<Rightarrow> nat \<Rightarrow> string list \<Rightarrow> TaskSynthesis option" where
  "SynthesizeTaskState content sessionTurns agentSkills =
     do {
       intent \<leftarrow> classifyIntent content;
       complexity \<leftarrow> classifyComplexity content sessionTurns;
       let (fit, missing) = matchCapabilities (capabilityTokens content) agentSkills;
       let (action, confidence) = plan_action complexity fit missing;
       (needed, reason, unc) \<leftarrow> shouldRetrieveForTurn intent content sessionTurns fit missing action complexity;
       Some \<lparr>ts_Intent = intent, ts_Complexity = complexity, ts_PlannedAction = action, ts_Confidence = confidence,
             ts_RetrievalNeeded = needed, ts_RetrievalReason = reason, ts_ProceduralUncertainty = unc,
             ts_MissingSkills = missing, ts_CapabilityFit = fit\<rparr>
     }"

datatype PlannedActionKind = PlannedActionExecuteDirectly | PlannedActionDelegateToSpecialist | PlannedActionComposeSubagent

definition FormatPlannedAction :: "string \<Rightarrow> string" where
  "FormatPlannedAction action =
     (if action = ''execute_directly'' then ''Execute Directly''
      else if action = ''delegate_to_specialist'' then ''Delegate to Specialist''
      else if action = ''compose_subagent'' then ''Compose Sub-Agent''
      else ''Execute Directly'')"

definition PlannedActionToKind :: "string \<Rightarrow> PlannedActionKind" where
  "PlannedActionToKind action =
     (if action = ''delegate_to_specialist'' then PlannedActionDelegateToSpecialist
      else if action = ''compose_subagent'' then PlannedActionComposeSubagent
      else PlannedActionExecuteDirectly)"

section \<open>The decomposition gate\<close>

datatype DecompositionDecision = DecompCentralized | DecompDelegated | DecompSpecialistProposal

fun DecompositionDecision_String :: "DecompositionDecision \<Rightarrow> string" where
  "DecompositionDecision_String DecompCentralized = ''centralized''"
| "DecompositionDecision_String DecompDelegated = ''delegated''"
| "DecompositionDecision_String DecompSpecialistProposal = ''specialist_proposal''"

record SpecialistProposal =
  sp_Name :: string
  sp_Query :: string
  sp_EstimatedTokens :: int
  sp_UtilityMargin :: rat

record DecompositionResult =
  dr_Decision :: DecompositionDecision
  dr_Subtasks :: "string list"
  dr_Rationale :: string
  dr_Specialists :: "SpecialistProposal list"

definition utilityMargin :: "rat \<Rightarrow> int \<Rightarrow> rat \<Rightarrow> rat" where
  "utilityMargin complexity subtasks fitRatio =
     complexity * (1 / 2) + of_int (subtasks - 1) * (12 / 100) + fitRatio * (45 / 100) - (25 / 100 + of_int subtasks * (4 / 100))"

definition specialists :: "(string \<times> string) list" where
  "specialists = [(''financial analysis'', ''finance''), (''code review'', ''code-review''), (''security audit'', ''security''),
     (''data analysis'', ''data''), (''system architecture'', ''architecture'')]"

definition centralized :: "string \<Rightarrow> DecompositionResult" where
  "centralized rationale = \<lparr>dr_Decision = DecompCentralized, dr_Subtasks = [], dr_Rationale = rationale, dr_Specialists = []\<rparr>"

definition propose_specialist :: "string \<Rightarrow> string \<Rightarrow> DecompositionResult" where
  "propose_specialist domain query =
     \<lparr>dr_Decision = DecompSpecialistProposal, dr_Subtasks = [domain @ '': '' @ query],
      dr_Rationale = ''complex domain-specific request; specialist recommended'',
      dr_Specialists = [\<lparr>sp_Name = domain @ ''-specialist'', sp_Query = query, sp_EstimatedTokens = 4096,
                        sp_UtilityMargin = utilityMargin (8 / 10) 1 (7 / 10)\<rparr>]\<rparr>"

text \<open>\<open>order\<close> is the order in which the map of specialists is visited.\<close>

definition EvaluateDecomposition :: "(string \<times> string) list \<Rightarrow> string \<Rightarrow> nat \<Rightarrow> DecompositionResult option" where
  "EvaluateDecomposition order content sessionTurns =
     do {
       specs \<leftarrow> ParseExpectedArtifactSpecs content;
       Some (if specs \<noteq> [] then centralized ''bounded exact-content authoring should remain centralized''
             else let subtasks = extractSubtasks content in
               if length subtasks \<ge> 3 \<and> length content > 200
               then \<lparr>dr_Decision = DecompDelegated, dr_Subtasks = subtasks,
                     dr_Rationale = ''detected multi-part request with independent subtasks'', dr_Specialists = []\<rparr>
               else case (if length content > 1000 \<and> sessionTurns > 10
                          then List.find (\<lambda>(phrase, domain). contains (to_lower content) phrase) order else None) of
                      Some (phrase, domain) \<Rightarrow> propose_specialist domain (take (min 100 (length content)) content)
                    | None \<Rightarrow> centralized ''standard single-agent execution'')
     }"

datatype ActionGateDecision = ActionGateContinue | ActionGateDelegate | ActionGateSpecialistPropose

definition MapPlannedAction :: "TaskSynthesis \<Rightarrow> DecompositionResult option \<Rightarrow> ActionGateDecision" where
  "MapPlannedAction synthesis decomp =
     (case PlannedActionToKind (ts_PlannedAction synthesis) of
        PlannedActionDelegateToSpecialist \<Rightarrow>
          if map_option dr_Decision decomp = Some DecompDelegated then ActionGateDelegate
          else if ts_Confidence synthesis \<ge> 7 / 10 \<and> (decomp = None \<or> map_option dr_Decision decomp \<noteq> Some DecompCentralized)
          then ActionGateDelegate
          else ActionGateContinue
      | PlannedActionComposeSubagent \<Rightarrow>
          if ts_CapabilityFit synthesis < 3 / 10 \<and> ts_Confidence synthesis \<ge> 6 / 10 then ActionGateSpecialistPropose
          else if map_option dr_Decision decomp = Some DecompSpecialistProposal then ActionGateSpecialistPropose
          else ActionGateContinue
      | PlannedActionExecuteDirectly \<Rightarrow> ActionGateContinue)"

record RetrievalStrategy =
  rs_Strategy :: string
  rs_Budget :: int
  rs_Reason :: string

definition DecideRetrievalStrategy :: "TaskSynthesis \<Rightarrow> nat \<Rightarrow> int \<Rightarrow> RetrievalStrategy" where
  "DecideRetrievalStrategy synthesis sessionTurns defaultBudget =
     (if \<not> ts_RetrievalNeeded synthesis \<and> sessionTurns \<le> 1
      then \<lparr>rs_Strategy = ''none'', rs_Budget = 0, rs_Reason = ''simple conversational turn, no history''\<rparr>
      else if ts_Intent synthesis = ''question''
      then \<lparr>rs_Strategy = ''semantic'',
             rs_Budget = (if ts_Complexity synthesis = ''complex'' then i64 (defaultBudget * 2) else defaultBudget),
             rs_Reason = ''question intent benefits from semantic search''\<rparr>
      else if ts_Intent synthesis = ''code'' \<or> ts_Intent synthesis = ''task''
      then \<lparr>rs_Strategy = ''hybrid'', rs_Budget = defaultBudget, rs_Reason = ''task/code intent needs recent + semantic context''\<rparr>
      else if sessionTurns > 10
      then \<lparr>rs_Strategy = ''recency'', rs_Budget = (if defaultBudget < 0 then - ((- defaultBudget) div 2) else defaultBudget div 2),
             rs_Reason = ''long conversation, prioritize recent context''\<rparr>
      else if ts_RetrievalNeeded synthesis
      then \<lparr>rs_Strategy = ''semantic'', rs_Budget = defaultBudget, rs_Reason = ''retrieval needed based on task analysis''\<rparr>
      else \<lparr>rs_Strategy = ''none'', rs_Budget = 0, rs_Reason = ''no retrieval benefit detected''\<rparr>)"

section \<open>The intent registry\<close>

text \<open>An intent is its label; a classifier gives an intent and a confidence.\<close>

type_synonym IntentClassifier = "string \<Rightarrow> string \<times> rat"

definition keyword_at :: "string list \<Rightarrow> string \<Rightarrow> bool" where
  "keyword_at kws lower = list_ex (contains lower) kws"

definition keyword_classify :: IntentClassifier where
  "keyword_classify content =
     (if content = [] then (''chat'', 0)
      else let lower = to_lower (trim_space content) in
        if has_prefix lower ''/'' then (''command'', 9 / 10)
        else if list_ex (\<lambda>kw. lower = kw \<or> lower = kw @ ''.'' \<or> lower = kw @ ''!'')
                  [''ok'', ''thanks'', ''thank you'', ''got it'', ''understood''] then (''acknowledgement'', 9 / 10)
        else if keyword_at [''who are you'', ''what are you'', ''what model'', ''which model'', ''your name''] lower then (''model_identity'', 85 / 100)
        else if keyword_at [''transfer '', ''send money'', ''pay '', ''deposit'', ''withdraw'', ''balance'', ''wallet''] lower then (''financial_action'', 75 / 100)
        else if keyword_at [''write code'', ''implement '', ''function '', ''class '', ''refactor'', ''debug ''] lower then (''code_generation'', 7 / 10)
        else if keyword_at [''restart '', ''shutdown'', ''config '', ''configure '', ''status '', ''health''] lower then (''system_admin'', 7 / 10)
        else if keyword_at [''summarize'', ''tldr'', ''summary of'', ''recap '', ''condense''] lower then (''summarization'', 7 / 10)
        else if keyword_at [''schedule '', ''remind '', ''cron '', ''timer '', ''alarm ''] lower then (''scheduling'', 7 / 10)
        else if keyword_at [''read file'', ''write file'', ''list files'', ''open file'', ''save file'', ''delete file''] lower then (''file_operation'', 7 / 10)
        else if keyword_at [''search for'', ''look up'', ''find online'', ''google '', ''web search''] lower then (''web_search'', 7 / 10)
        else if keyword_at [''translate '', ''in spanish'', ''in french'', ''in german'', ''to english''] lower then (''translation'', 7 / 10)
        else if list_ex (has_prefix lower) [''run '', ''execute '', ''start '', ''stop '', ''deploy '', ''install ''] then (''command'', 7 / 10)
        else if has_suffix lower ''?'' then (''question'', 8 / 10)
        else if list_ex (has_prefix lower) [''what '', ''how '', ''why '', ''when '', ''where '', ''who '', ''which '', ''can '', ''could '',
                  ''is '', ''are '', ''do '', ''does ''] then (''question'', 7 / 10)
        else if keyword_at [''write '', ''compose '', ''create '', ''generate '', ''draft '', ''poem'', ''story'', ''song''] lower then (''creative'', 7 / 10)
        else if keyword_at [''analyze '', ''analyse '', ''compare '', ''evaluate '', ''assess '', ''review '', ''breakdown''] lower then (''analysis'', 7 / 10)
        else (''chat'', 5 / 10))"

type_synonym IntentRegistry = "IntentClassifier list"

definition NewIntentRegistry :: IntentRegistry where
  "NewIntentRegistry = [keyword_classify]"

definition AddClassifier :: "IntentClassifier \<Rightarrow> IntentRegistry \<Rightarrow> IntentRegistry" where
  "AddClassifier c ir = c # ir"

text \<open>The first of the classifiers with the highest positive confidence.\<close>

definition Classify :: "IntentRegistry \<Rightarrow> string \<Rightarrow> string \<times> rat" where
  "Classify ir content =
     foldl (\<lambda>(bestIntent, bestConf) c. let (intent, conf) = c content in
              if conf > bestConf then (intent, conf) else (bestIntent, bestConf)) (''chat'', 0) ir"

section \<open>Delegation errors\<close>

datatype DelegationErrorKind = DelegErrPolicyDenied | DelegErrTimeout | DelegErrSubagentUnavailable | DelegErrLLMCallFailed

fun DelegationErrorKind_String :: "DelegationErrorKind \<Rightarrow> string" where
  "DelegationErrorKind_String DelegErrPolicyDenied = ''policy_denied''"
| "DelegationErrorKind_String DelegErrTimeout = ''timeout''"
| "DelegationErrorKind_String DelegErrSubagentUnavailable = ''subagent_unavailable''"
| "DelegationErrorKind_String DelegErrLLMCallFailed = ''llm_call_failed''"

record DelegationError =
  de_Kind :: DelegationErrorKind
  de_Rule :: string
  de_Reason :: string
  de_DurationMs :: int
  de_Name :: string
  de_State :: string
  de_Provider :: string
  de_Model :: string

definition deleg_error :: "DelegationErrorKind \<Rightarrow> string \<Rightarrow> DelegationError" where
  "deleg_error kind reason =
     \<lparr>de_Kind = kind, de_Rule = [], de_Reason = reason, de_DurationMs = 0, de_Name = [], de_State = [], de_Provider = [], de_Model = []\<rparr>"

definition first_number :: "string \<Rightarrow> int" where
  "first_number s = (case List.map_filter atoi (fields_func (\<lambda>c. \<not> is_digit c) s) of n # _ \<Rightarrow> n | [] \<Rightarrow> 0)"

definition quoted_name :: "string \<Rightarrow> string" where
  "quoted_name s =
     (case split2 (CHR 0x27) s of
        (_, None) \<Rightarrow> ''unknown''
      | (_, Some rest) \<Rightarrow> (case split2 (CHR 0x27) rest of (name, Some _) \<Rightarrow> name | (_, None) \<Rightarrow> ''unknown''))"

definition ClassifyDelegationError :: "string \<Rightarrow> DelegationError" where
  "ClassifyDelegationError errMsg =
     (let lower = to_lower errMsg in
      if contains lower ''policy denied'' \<or> contains lower ''not allowed''
      then (case split2 (CHR '':'') errMsg of
              (_, None) \<Rightarrow> (deleg_error DelegErrPolicyDenied errMsg)\<lparr>de_Rule := ''unknown''\<rparr>
            | (_, Some rest) \<Rightarrow>
                (case split2 (CHR '':'') rest of
                   (rule, None) \<Rightarrow> (deleg_error DelegErrPolicyDenied errMsg)\<lparr>de_Rule := trim_space rule\<rparr>
                 | (rule, Some reason) \<Rightarrow> (deleg_error DelegErrPolicyDenied (trim_space reason))\<lparr>de_Rule := trim_space rule\<rparr>))
      else if contains lower ''timeout'' \<or> contains lower ''timed out''
      then (deleg_error DelegErrTimeout errMsg)\<lparr>de_DurationMs := first_number errMsg\<rparr>
      else if contains lower ''unavailable'' \<or> contains lower ''not found'' \<or> contains lower ''not running'' \<or> contains lower ''stopped''
      then (deleg_error DelegErrSubagentUnavailable errMsg)\<lparr>de_Name := quoted_name errMsg, de_State := ''unavailable''\<rparr>
      else (deleg_error DelegErrLLMCallFailed errMsg)\<lparr>de_Provider := ''unknown'', de_Model := ''unknown''\<rparr>)"

section \<open>Properties\<close>

definition task_intents :: "string list" where
  "task_intents = [''conversational'', ''task'', ''question'', ''code'', ''creative'', ''general'']"

lemma classifyIntent_range: "classifyIntent content = Some i \<Longrightarrow> i \<in> set task_intents"
  by (auto simp: classifyIntent_def Let_def task_intents_def split: Option.bind_splits if_splits)

lemma classifyComplexity_range: "classifyComplexity content n = Some c \<Longrightarrow> c \<in> {''simple'', ''moderate'', ''complex''}"
  by (auto simp: classifyComplexity_def Let_def split: Option.bind_splits if_splits)

lemma matchCapabilities_range:
  assumes "matchCapabilities toks skills = (fit, missing)"
  shows "0 \<le> fit \<and> fit \<le> 1 \<and> (fit = 1 \<longleftrightarrow> missing = [])"
proof (cases "toks = []")
  case False
  let ?S = "set (concat (map lexiconTokens skills))"
  have len: "length (filter (\<lambda>t. t \<in> ?S) toks) + length (filter (\<lambda>t. t \<notin> ?S) toks) = length toks"
    by (rule sum_length_filter_compl)
  have fit: "fit = of_nat (length (filter (\<lambda>t. t \<in> ?S) toks)) / of_nat (length toks)"
    and missing: "missing = filter (\<lambda>t. t \<notin> ?S) toks"
    using assms False by (auto simp: matchCapabilities_def Let_def)
  have "missing = [] \<longleftrightarrow> length (filter (\<lambda>t. t \<in> ?S) toks) = length toks"
    using len by (auto simp: missing length_0_conv [symmetric] simp del: length_0_conv)
  moreover have "(of_nat (length (filter (\<lambda>t. t \<in> ?S) toks)) :: rat) \<le> of_nat (length toks)"
    by simp
  ultimately show ?thesis using False by (simp add: fit divide_simps)
qed (use assms in \<open>auto simp: matchCapabilities_def\<close>)

lemma retrieval_range:
  "shouldRetrieveForTurn intent content n fit missing action complexity = Some (needed, reason, unc) \<Longrightarrow>
   reason \<in> {''none'', ''question_default'', ''scheduling_alias_continuity'', ''continuity_or_evidence'',
     ''applied_learning_uncertainty'', ''session_continuity''} \<and> (needed \<longleftrightarrow> reason \<noteq> ''none'')"
  by (auto simp: shouldRetrieveForTurn_def Let_def split: Option.bind_splits if_splits)

text \<open>The possible plans, with the confidence each one has.\<close>

definition planned_actions :: "(string \<times> rat) list" where
  "planned_actions = [(''execute_directly'', 8 / 10), (''delegate_to_specialist'', 65 / 100), (''compose_subagent'', 6 / 10)]"

definition synthesis_ok :: "TaskSynthesis \<Rightarrow> bool" where
  "synthesis_ok ts \<longleftrightarrow>
     ts_Intent ts \<in> set task_intents \<and> ts_Complexity ts \<in> {''simple'', ''moderate'', ''complex''}
     \<and> (ts_PlannedAction ts, ts_Confidence ts) \<in> set planned_actions
     \<and> 0 \<le> ts_CapabilityFit ts \<and> ts_CapabilityFit ts \<le> 1 \<and> (ts_CapabilityFit ts = 1 \<longleftrightarrow> ts_MissingSkills ts = [])
     \<and> (ts_RetrievalNeeded ts \<longleftrightarrow> ts_RetrievalReason ts \<noteq> ''none'')
     \<and> (if ts_PlannedAction ts = ''compose_subagent'' then ts_CapabilityFit ts < 3 / 10
        else ts_PlannedAction ts = ''execute_directly'' \<or> ts_CapabilityFit ts < 7 / 10 \<and> ts_Complexity ts = ''complex'')"

lemma plan_action_range:
  "plan_action complexity fit missing = (action, conf) \<Longrightarrow>
   (action, conf) \<in> set planned_actions
   \<and> (if action = ''compose_subagent'' then fit < 3 / 10
      else action = ''execute_directly'' \<or> fit < 7 / 10 \<and> (complexity = ''complex'' \<or> complexity = ''specialist''))"
  by (auto simp: plan_action_def planned_actions_def split: if_splits)

lemma synthesis_ok_Some:
  assumes Some: "SynthesizeTaskState content sessionTurns agentSkills = Some ts"
  shows "synthesis_ok ts"
proof -
  obtain intent complexity fit missing action conf needed reason unc where
    parts: "classifyIntent content = Some intent" "classifyComplexity content sessionTurns = Some complexity"
      "matchCapabilities (capabilityTokens content) agentSkills = (fit, missing)"
      "plan_action complexity fit missing = (action, conf)"
      "shouldRetrieveForTurn intent content sessionTurns fit missing action complexity = Some (needed, reason, unc)"
    and ts: "ts = \<lparr>ts_Intent = intent, ts_Complexity = complexity, ts_PlannedAction = action, ts_Confidence = conf,
             ts_RetrievalNeeded = needed, ts_RetrievalReason = reason, ts_ProceduralUncertainty = unc,
             ts_MissingSkills = missing, ts_CapabilityFit = fit\<rparr>"
    using Some by (auto simp: SynthesizeTaskState_def split: Option.bind_splits prod.splits)
  have "complexity \<noteq> ''specialist''" using classifyComplexity_range [OF parts(2)] by auto
  with plan_action_range [OF parts(4)] have plan: "(action, conf) \<in> set planned_actions"
    "if action = ''compose_subagent'' then fit < 3 / 10 else action = ''execute_directly'' \<or> fit < 7 / 10 \<and> complexity = ''complex''"
    by (metis, metis)
  show ?thesis
    unfolding synthesis_ok_def ts TaskSynthesis.TaskSynthesis.select_convs
    using classifyIntent_range [OF parts(1)] classifyComplexity_range [OF parts(2)] matchCapabilities_range [OF parts(3)]
      plan retrieval_range [OF parts(5)] by blast
qed

text \<open>
  Task synthesis is well typed: the intent is one of six labels, the complexity one of three (never
  \<^verbatim>\<open>specialist\<close>, which the record's comment and the planner provide for), the planned action one of
  three with its own confidence, the capability fit a ratio that is one exactly when no skill is missing,
  and memory is retrieved exactly when a reason is given. A subagent is only composed below a fit of
  0.3, and a specialist only called for a complex task below 0.7.
\<close>

theorem synthesis_well_typed: "pred_option synthesis_ok (SynthesizeTaskState content sessionTurns agentSkills)"
  by (cases "SynthesizeTaskState content sessionTurns agentSkills") (simp_all add: synthesis_ok_Some)

lemma synthesized_action:
  "synthesis_ok ts \<Longrightarrow>
   MapPlannedAction ts decomp =
     (if ts_PlannedAction ts = ''compose_subagent'' then ActionGateSpecialistPropose
      else if ts_PlannedAction ts = ''delegate_to_specialist'' \<and> map_option dr_Decision decomp = Some DecompDelegated
      then ActionGateDelegate else ActionGateContinue)"
proof -
  assume ok: "synthesis_ok ts"
  from ok have "(ts_PlannedAction ts, ts_Confidence ts) \<in> set planned_actions"
    and fit: "ts_PlannedAction ts = ''compose_subagent'' \<Longrightarrow> ts_CapabilityFit ts < 3 / 10"
    unfolding synthesis_ok_def by presburger+
  then consider "ts_PlannedAction ts = ''execute_directly''"
    | "ts_PlannedAction ts = ''delegate_to_specialist''" "ts_Confidence ts = 65 / 100"
    | "ts_PlannedAction ts = ''compose_subagent''" "ts_Confidence ts = 6 / 10" "ts_CapabilityFit ts < 3 / 10"
    unfolding planned_actions_def list.set by blast
  then show ?thesis by cases (simp_all add: MapPlannedAction_def PlannedActionToKind_def)
qed

text \<open>
  The action gate on a synthesized task: a subagent proposal goes through whatever the
  decomposition gate decided, and a delegation exactly when the decomposition gate decided to delegate;
  the branch for a planner of high confidence is never taken, because the planner delegates with a
  confidence of 0.65 and the branch asks for 0.7.
\<close>

theorem action_gate_exact:
  "pred_option (\<lambda>ts. MapPlannedAction ts decomp =
     (if ts_PlannedAction ts = ''compose_subagent'' then ActionGateSpecialistPropose
      else if ts_PlannedAction ts = ''delegate_to_specialist'' \<and> map_option dr_Decision decomp = Some DecompDelegated
      then ActionGateDelegate else ActionGateContinue))
     (SynthesizeTaskState content sessionTurns agentSkills)"
  by (cases "SynthesizeTaskState content sessionTurns agentSkills") (auto simp: synthesized_action dest!: synthesis_ok_Some)

text \<open>A prompt with exact contents for files is never split up.\<close>

theorem exact_artifacts_stay_centralized:
  "ParseExpectedArtifactSpecs content = Some (spec # specs) \<Longrightarrow>
   map_option dr_Decision (EvaluateDecomposition order content n) = Some DecompCentralized"
  by (simp add: EvaluateDecomposition_def centralized_def)

text \<open>The labels the default registry can give.\<close>

definition keyword_intents :: "string list" where
  "keyword_intents = [''chat'', ''command'', ''acknowledgement'', ''model_identity'', ''financial_action'', ''code_generation'',
     ''system_admin'', ''summarization'', ''scheduling'', ''file_operation'', ''web_search'', ''translation'', ''question'',
     ''creative'', ''analysis'']"

lemma keyword_classify_range: "fst (keyword_classify content) \<in> set keyword_intents"
  by (simp add: keyword_classify_def Let_def keyword_intents_def)

lemma Classify_default_range: "fst (Classify NewIntentRegistry content) \<in> set keyword_intents"
  using keyword_classify_range [of content]
  by (auto simp: Classify_def NewIntentRegistry_def Let_def split_beta) (simp add: keyword_intents_def)

end
