(* ===== verification/TurnPolicy.thy ===== *)
theory TurnPolicy
  imports TaskSynthesis AgentLoop "HOL-Library.Multiset"
begin

text \<open>
  The envelope of a turn, \<^verbatim>\<open>internal/pipeline/turn_policy.go\<close>: how much context, memory and which tools a
  synthesized task gets, the filter and the order of the tools for a focused turn, and the
  pipeline's use of it (\<^verbatim>\<open>stageToolPruning\<close> of \<^verbatim>\<open>pipeline_run_stages.go\<close>). The pruner that ranks
  the tools is a parameter: from the session to the tools (\<open>None\<close> is a nil slice), its statistics and
  its error. Trace annotations and logging are left out.
\<close>

section \<open>The policy of a turn\<close>

definition defaultTokenBudget :: int where
  "defaultTokenBudget = 8192"

record TurnEnvelopePolicy =
  tp_Weight :: string
  tp_ContextBudget :: int
  tp_AllowRetrieval :: bool
  tp_LightweightToolSurface :: bool
  tp_MaxTools :: int
  tp_AllowRetryExpansion :: bool
  tp_RequireArtifactWrite :: bool
  tp_AllowAuthorityMutation :: bool
  tp_ToolProfile :: string
  tp_Reason :: string

definition zero_policy :: TurnEnvelopePolicy where
  "zero_policy = \<lparr>tp_Weight = [], tp_ContextBudget = 0, tp_AllowRetrieval = False, tp_LightweightToolSurface = False,
     tp_MaxTools = 0, tp_AllowRetryExpansion = False, tp_RequireArtifactWrite = False, tp_AllowAuthorityMutation = False,
     tp_ToolProfile = [], tp_Reason = []\<rparr>"

definition toolProfileForTurn :: "bool \<Rightarrow> bool \<Rightarrow> string" where
  "toolProfileForTurn requireArtifactWrite allowAuthorityMutation =
     (if requireArtifactWrite \<and> \<not> allowAuthorityMutation then ''focused_authoring'' else ''default'')"

definition directExecutionPolicyReason :: "bool \<Rightarrow> bool \<Rightarrow> bool \<Rightarrow> string" where
  "directExecutionPolicyReason requireArtifactWrite requiresInspection requiresAnalysisAuthoring =
     (if requiresAnalysisAuthoring then ''inspection-backed report authoring should stay on a focused analysis+authoring envelope''
      else if requireArtifactWrite then ''direct artifact authoring should stay on a focused execution envelope''
      else if requiresInspection then ''direct filesystem inspection should stay on a focused inspection envelope''
      else ''simple direct task should stay on a focused execution envelope'')"

definition requiresExplicitAuthorityMutation :: "string \<Rightarrow> bool" where
  "requiresExplicitAuthorityMutation content =
     (let lower = to_lower content in
      containsAnyMarker lower [''ingest'', ''record'', ''store'', ''save'', ''capture'', ''persist'', ''promote'', ''register'']
      \<and> containsAnyMarker lower [''canonical memory'', ''semantic memory'', ''policy store'', ''instruction registry'',
          ''skill registry'', ''authority layer'', ''knowledge base''])"

definition DeriveTurnEnvelopePolicy :: "string \<Rightarrow> TaskSynthesis \<Rightarrow> nat \<Rightarrow> TurnEnvelopePolicy option" where
  "DeriveTurnEnvelopePolicy content synthesis sessionTurns =
     do {
       specs \<leftarrow> ParseExpectedArtifactSpecs content;
       let words = length (str_fields (trim_space content));
       let lower = to_lower content;
       let requiresArtifactWrite = (specs \<noteq> [] \<or> looksLikeBoundedAuthoringTask lower \<or> looksLikeFilesystemAuthoringTurn lower);
       let allowAuthorityMutation = requiresExplicitAuthorityMutation content;
       let requiresScheduling = looksLikeSchedulingTask lower;
       let requiresInspection = looksLikeFocusedInspectionTurn content;
       let requiresAnalysisAuthoring = looksLikeInspectionBackedArtifactAuthoring content;
       Some
        (if ts_Intent synthesis = ''code'' \<and> ts_PlannedAction synthesis = ''execute_directly'' \<and> looksLikeSourceBackedCodeTask content
         then zero_policy\<lparr>tp_Weight := ''standard'', tp_ContextBudget := 3072, tp_AllowRetrieval := ts_RetrievalNeeded synthesis,
                tp_MaxTools := 8, tp_AllowRetryExpansion := True, tp_ToolProfile := ''focused_source_code'',
                tp_Reason := ''source-backed code surgery should stay on a repo-grounded focused execution envelope''\<rparr>
         else if ts_Complexity synthesis = ''complex'' \<or> ts_Intent synthesis = ''code''
         then zero_policy\<lparr>tp_Weight := ''heavy'', tp_ContextBudget := defaultTokenBudget, tp_AllowRetrieval := True,
                tp_Reason := ''complex or action-oriented turn requires the full adaptive envelope''\<rparr>
         else if ts_Intent synthesis = ''task'' \<and> ts_PlannedAction synthesis = ''execute_directly'' \<and> requiresScheduling
         then zero_policy\<lparr>tp_Weight := ''standard'', tp_ContextBudget := 2048, tp_MaxTools := 4, tp_AllowRetryExpansion := True,
                tp_ToolProfile := ''focused_scheduling'', tp_Reason := ''direct scheduling should stay on a focused scheduling envelope''\<rparr>
         else if ts_Intent synthesis = ''task'' \<and> ts_PlannedAction synthesis = ''execute_directly''
                 \<and> (ts_Complexity synthesis = ''simple'' \<or> requiresArtifactWrite)
         then zero_policy\<lparr>tp_Weight := ''standard'', tp_ContextBudget := 2048, tp_AllowRetrieval := ts_RetrievalNeeded synthesis,
                tp_MaxTools := (if requiresAnalysisAuthoring then 8 else 6), tp_AllowRetryExpansion := True,
                tp_RequireArtifactWrite := requiresArtifactWrite, tp_AllowAuthorityMutation := allowAuthorityMutation,
                tp_ToolProfile := (if requiresAnalysisAuthoring then ''focused_analysis_authoring''
                   else if \<not> requiresArtifactWrite \<and> requiresInspection then ''focused_inspection''
                   else toolProfileForTurn requiresArtifactWrite allowAuthorityMutation),
                tp_Reason := directExecutionPolicyReason requiresArtifactWrite requiresInspection requiresAnalysisAuthoring\<rparr>
         else if ts_Intent synthesis = ''task''
         then zero_policy\<lparr>tp_Weight := ''heavy'', tp_ContextBudget := defaultTokenBudget, tp_AllowRetrieval := True,
                tp_Reason := ''multi-step task requires the full adaptive envelope''\<rparr>
         else if ts_Intent synthesis = ''question'' \<and> looksLikeDerivableDirectFactQuestion content
         then zero_policy\<lparr>tp_Weight := ''light'', tp_ContextBudget := 1536, tp_LightweightToolSurface := True, tp_AllowRetryExpansion := True,
                tp_Reason := ''derivable direct-fact questions should stay on a minimal no-retrieval envelope''\<rparr>
         else if ts_Complexity synthesis = ''simple''
                 \<and> (ts_Intent synthesis = ''conversational'' \<or> ts_Intent synthesis = ''general'') \<and> words \<le> 24
         then zero_policy\<lparr>tp_Weight := ''light'', tp_ContextBudget := 1536, tp_LightweightToolSurface := True, tp_AllowRetryExpansion := True,
                tp_Reason := ''simple conversational turn should start with a minimal envelope''\<rparr>
         else zero_policy\<lparr>tp_Weight := ''standard'', tp_ContextBudget := (if sessionTurns \<le> 3 then 4096 else defaultTokenBudget),
                tp_AllowRetrieval := ts_RetrievalNeeded synthesis, tp_AllowRetryExpansion := True,
                tp_Reason := ''default adaptive envelope for normal turns''\<rparr>)
     }"

definition Expanded :: "TurnEnvelopePolicy \<Rightarrow> TurnEnvelopePolicy" where
  "Expanded p =
     (if tp_Weight p \<noteq> ''light'' then p
      else zero_policy\<lparr>tp_Weight := ''standard'', tp_ContextBudget := 4096, tp_AllowRetrieval := True,
             tp_Reason := ''light envelope widened after the first pass proved insufficient''\<rparr>)"

definition shouldKeepSocialTurnAmbientContextMinimal :: "TurnEnvelopePolicy \<Rightarrow> TaskSynthesis \<Rightarrow> bool" where
  "shouldKeepSocialTurnAmbientContextMinimal policy synthesis \<longleftrightarrow>
     tp_Weight policy = ''light'' \<and> ts_Intent synthesis = ''conversational''"

section \<open>Tools for a focused turn\<close>

definition MutatesAuthorityLayer :: "string \<Rightarrow> bool" where
  "MutatesAuthorityLayer name \<longleftrightarrow> OperationClassForName name = OperationAuthorityWrite"

definition toolAllowedForPolicy :: "string \<Rightarrow> TurnEnvelopePolicy \<Rightarrow> bool" where
  "toolAllowedForPolicy name policy =
     (let oc = OperationClassForName name; profile = tp_ToolProfile policy in
      if profile = ''focused_source_code'' \<or> profile = ''focused_analysis_authoring''
      then oc \<in> {OperationArtifactRead, OperationWorkspaceInspect, OperationArtifactWrite, OperationRuntimeContextRead, OperationExecution}
           \<or> oc = OperationMemoryRead \<and> tp_AllowRetrieval policy
      else if profile = ''focused_authoring''
      then oc \<in> {OperationArtifactWrite, OperationArtifactRead, OperationRuntimeContextRead}
           \<or> oc = OperationMemoryRead \<and> tp_AllowRetrieval policy
      else if profile = ''focused_inspection''
      then oc \<in> {OperationWorkspaceInspect, OperationArtifactRead, OperationRuntimeContextRead}
           \<or> oc = OperationMemoryRead \<and> tp_AllowRetrieval policy
      else if profile = ''focused_scheduling''
      then oc \<in> {OperationScheduling, OperationRuntimeContextRead, OperationTaskInspection}
      else True)"

definition toolPriorityForPolicy :: "string \<Rightarrow> TurnEnvelopePolicy \<Rightarrow> int" where
  "toolPriorityForPolicy name policy =
     (let oc = OperationClassForName name; profile = tp_ToolProfile policy; n = trim_space (to_lower name) in
      if profile = ''focused_authoring''
      then (case oc of OperationArtifactWrite \<Rightarrow> 0 | OperationArtifactRead \<Rightarrow> 1 | OperationRuntimeContextRead \<Rightarrow> 2
            | OperationMemoryRead \<Rightarrow> 3 | OperationWorkspaceInspect \<Rightarrow> 4 | OperationExecution \<Rightarrow> 5
            | OperationTaskInspection \<Rightarrow> 6 | OperationCapabilityInventory \<Rightarrow> 7 | OperationDelegation \<Rightarrow> 8
            | OperationAuthorityWrite \<Rightarrow> 9 | _ \<Rightarrow> 10)
      else if profile = ''focused_analysis_authoring''
      then (if n = ''inventory_projects'' then 0 else if n = ''list_directory'' then 1 else if n = ''bash'' then 2
            else if n = ''search_files'' \<or> n = ''glob_files'' then 3
            else case oc of OperationArtifactRead \<Rightarrow> 4 | OperationArtifactWrite \<Rightarrow> 5 | OperationRuntimeContextRead \<Rightarrow> 6
            | OperationMemoryRead \<Rightarrow> 7 | _ \<Rightarrow> 8)
      else if profile = ''focused_source_code''
      then (case oc of OperationArtifactRead \<Rightarrow> 0 | OperationWorkspaceInspect \<Rightarrow> 1 | OperationArtifactWrite \<Rightarrow> 2
            | OperationRuntimeContextRead \<Rightarrow> 3 | OperationExecution \<Rightarrow> 4 | OperationMemoryRead \<Rightarrow> 5 | _ \<Rightarrow> 6)
      else if profile = ''focused_scheduling''
      then (case oc of OperationScheduling \<Rightarrow> 0 | OperationRuntimeContextRead \<Rightarrow> 1 | OperationTaskInspection \<Rightarrow> 2
            | OperationCapabilityInventory \<Rightarrow> 3 | OperationMemoryRead \<Rightarrow> 4 | _ \<Rightarrow> 5)
      else if profile = ''focused_inspection''
      then (case oc of OperationWorkspaceInspect \<Rightarrow> 0 | OperationArtifactRead \<Rightarrow> 1 | OperationRuntimeContextRead \<Rightarrow> 2
            | OperationMemoryRead \<Rightarrow> 3 | _ \<Rightarrow> 4)
      else if tp_RequireArtifactWrite policy
      then (case oc of OperationArtifactWrite \<Rightarrow> 0 | OperationRuntimeContextRead \<Rightarrow> 1 | OperationWorkspaceInspect \<Rightarrow> 1
            | OperationCapabilityInventory \<Rightarrow> 1 | OperationTaskInspection \<Rightarrow> 1 | OperationInspection \<Rightarrow> 1
            | OperationExecution \<Rightarrow> 2 | OperationMemoryRead \<Rightarrow> 3 | OperationDelegation \<Rightarrow> 4 | OperationAuthorityWrite \<Rightarrow> 5 | _ \<Rightarrow> 6)
      else 0)"

text \<open>A tool with a blank name is kept whatever the policy.\<close>

definition keeps_tool :: "TurnEnvelopePolicy \<Rightarrow> ToolDef \<Rightarrow> bool" where
  "keeps_tool policy def =
     (let name = trim_space (tdef_Name def) in
      name = []
      \<or> \<not> (tp_RequireArtifactWrite policy \<and> \<not> tp_AllowAuthorityMutation policy \<and> MutatesAuthorityLayer name)
        \<and> toolAllowedForPolicy name policy)"

definition filterToolDefsForPolicy :: "ToolDef list option \<Rightarrow> TurnEnvelopePolicy \<Rightarrow> ToolDef list option \<times> nat" where
  "filterToolDefsForPolicy defs policy =
     (case defs of
        None \<Rightarrow> (None, 0)
      | Some [] \<Rightarrow> (Some [], 0)
      | Some ds \<Rightarrow>
          let kept = filter (keeps_tool policy) ds; removed = length ds - length kept
          in if \<not> tp_RequireArtifactWrite policy \<and> tp_ToolProfile policy = ''default'' then (Some kept, removed)
             else (Some (sort_key (\<lambda>d. toolPriorityForPolicy (tdef_Name d) policy) kept), removed))"

record 'sc ToolSearchStats =
  tss_CandidatesConsidered :: int
  tss_CandidatesSelected :: int
  tss_CandidatesPruned :: int
  tss_TokenSavings :: int
  tss_TopScores :: "(string \<times> 'sc) list"
  tss_EmbeddingStatus :: string

definition zero_stats :: "'sc ToolSearchStats" where
  "zero_stats = \<lparr>tss_CandidatesConsidered = 0, tss_CandidatesSelected = 0, tss_CandidatesPruned = 0, tss_TokenSavings = 0,
     tss_TopScores = [], tss_EmbeddingStatus = []\<rparr>"

type_synonym 'sc ToolPruner = "Session \<Rightarrow> ToolDef list option \<times> 'sc ToolSearchStats \<times> string option"

definition def_count :: "ToolDef list option \<Rightarrow> nat" where
  "def_count defs = (case defs of None \<Rightarrow> 0 | Some ds \<Rightarrow> length ds)"

definition cap_tools :: "TurnEnvelopePolicy \<Rightarrow> ToolDef list option \<Rightarrow> ToolDef list option" where
  "cap_tools p defs =
     (if tp_MaxTools p > 0 \<and> int (def_count defs) > tp_MaxTools p then map_option (take (nat (tp_MaxTools p))) defs else defs)"

definition applyToolPolicy ::
  "TurnEnvelopePolicy \<Rightarrow> 'sc ToolPruner option \<Rightarrow> Session option \<Rightarrow> ('sc ToolSearchStats \<times> string option) \<times> Session option" where
  "applyToolPolicy p pruner session =
     (case session of
        None \<Rightarrow> ((zero_stats, None), None)
      | Some s \<Rightarrow>
          if tp_LightweightToolSurface p
          then ((zero_stats\<lparr>tss_EmbeddingStatus := ''policy_lightweight''\<rparr>, None), Some (SetSelectedToolDefs (Some []) s))
          else case pruner of
            None \<Rightarrow> ((zero_stats, None), Some s)
          | Some prune \<Rightarrow>
              let (defs, stats, err) = prune s in
              case err of
                Some e \<Rightarrow> ((stats, Some e), Some s)
              | None \<Rightarrow>
                  let (kept, filtered) = filterToolDefsForPolicy defs p;
                      final = cap_tools p kept;
                      stats' = stats\<lparr>tss_CandidatesSelected := int (def_count final),
                         tss_CandidatesPruned := tss_CandidatesPruned stats + int filtered + int (def_count kept - def_count final)\<rparr>
                  in ((stats', None), Some (SetSelectedToolDefs final s)))"

text \<open>A failed pruning is logged and leaves the session's tools as they are.\<close>

definition stageToolPruning :: "TurnEnvelopePolicy \<Rightarrow> 'sc ToolPruner option \<Rightarrow> Session \<Rightarrow> Session" where
  "stageToolPruning p pruner s =
     (if pruner = None \<and> \<not> tp_LightweightToolSurface p then s
      else case snd (applyToolPolicy p pruner (Some s)) of Some s' \<Rightarrow> s' | None \<Rightarrow> s)"

section \<open>Properties\<close>

lemma is_space_lower [simp]: "is_space (lower_char c) = is_space c"
  by (cases c) (auto simp: is_space_code lower_char_code)

lemma trim_space_lower: "trim_space (to_lower s) = to_lower (trim_space s)"
proof -
  have "dropWhile is_space (map lower_char xs) = map lower_char (dropWhile is_space xs)" for xs
    by (simp add: dropWhile_map comp_def)
  then show ?thesis by (simp add: trim_space_def to_lower_def rev_map)
qed

text \<open>Names that the surface guard takes for the same tool have the same class.\<close>

lemma OperationClass_fold:
  "to_lower (trim_space a) = to_lower (trim_space b) \<Longrightarrow> OperationClassForName a = OperationClassForName b"
  by (simp add: OperationClassForName_def trim_space_lower)

lemma OperationClass_trim [simp]: "OperationClassForName (trim_space a) = OperationClassForName a"
  by (rule OperationClass_fold) simp

lemma kept_tool_allowed:
  assumes "keeps_tool p d" "to_lower (trim_space (tdef_Name d)) = to_lower (trim_space name)" "trim_space name \<noteq> []"
  shows "toolAllowedForPolicy name p
    \<and> \<not> (tp_RequireArtifactWrite p \<and> \<not> tp_AllowAuthorityMutation p \<and> MutatesAuthorityLayer name)"
proof -
  have "trim_space (tdef_Name d) \<noteq> []" using assms(2,3) by (auto simp: to_lower_def)
  moreover have "OperationClassForName (tdef_Name d) = OperationClassForName name"
    using assms(2) by (rule OperationClass_fold)
  ultimately show ?thesis
    using assms(1) by (auto simp: keeps_tool_def toolAllowedForPolicy_def MutatesAuthorityLayer_def Let_def)
qed

lemma filterToolDefs_kept:
  obtains ks where "fst (filterToolDefsForPolicy (Some ds) p) = Some ks" "mset ks = mset (filter (keeps_tool p) ds)"
proof (cases ds)
  case Nil
  then show thesis using that [of "[]"] by (simp add: filterToolDefsForPolicy_def)
next
  case (Cons d ds')
  let ?kept = "filter (keeps_tool p) ds"
  have "fst (filterToolDefsForPolicy (Some ds) p) = Some (if \<not> tp_RequireArtifactWrite p \<and> tp_ToolProfile p = ''default''
      then ?kept else sort_key (\<lambda>d. toolPriorityForPolicy (tdef_Name d) p) ?kept)"
    unfolding filterToolDefsForPolicy_def Cons option.case list.case Let_def
    by (cases "\<not> tp_RequireArtifactWrite p \<and> tp_ToolProfile p = ''default''") (simp_all only: not_False_eq_True simp_thms if_True if_False fst_conv)
  then show thesis by (rule that) (simp only: mset_sort simp_thms split: if_split)
qed

lemma cap_tools_bound: "tp_MaxTools p > 0 \<Longrightarrow> int (def_count (cap_tools p defs)) \<le> tp_MaxTools p"
  by (cases defs) (auto simp: cap_tools_def def_count_def)

lemma cap_tools_take: "\<exists>n. cap_tools p defs = map_option (take n) defs"
proof (cases "tp_MaxTools p > 0 \<and> int (def_count defs) > tp_MaxTools p")
  case False
  then have "cap_tools p defs = map_option (take (def_count defs)) defs"
    by (auto simp: cap_tools_def def_count_def split: option.splits)
  then show ?thesis by blast
qed (auto simp: cap_tools_def)

text \<open>What the session's tools are after a pruning that did not fail.\<close>

lemma pruned_selection:
  assumes "prune s = (Some defs, stats, None)"
  shows "\<exists>ks. selectedToolDefs (stageToolPruning p (Some prune) s) = Some ks
    \<and> (if tp_LightweightToolSurface p then ks = [] else list_all (keeps_tool p) ks \<and> set ks \<subseteq> set defs)
    \<and> (tp_MaxTools p > 0 \<longrightarrow> int (length ks) \<le> tp_MaxTools p)"
proof (cases "tp_LightweightToolSurface p")
  case True
  then show ?thesis by (simp add: stageToolPruning_def applyToolPolicy_def SetSelectedToolDefs_def)
next
  case False
  obtain kept where kept: "fst (filterToolDefsForPolicy (Some defs) p) = Some kept" "mset kept = mset (filter (keeps_tool p) defs)"
    by (rule filterToolDefs_kept)
  then have "set kept \<subseteq> {d. keeps_tool p d} \<inter> set defs" using mset_eq_setD [OF kept(2)] by auto
  obtain n where n: "cap_tools p (Some kept) = Some (take n kept)" using cap_tools_take [of p "Some kept"] by auto
  have "selectedToolDefs (stageToolPruning p (Some prune) s) = Some (take n kept)"
    using assms False kept(1) n
    by (auto simp: stageToolPruning_def applyToolPolicy_def SetSelectedToolDefs_def Let_def split: prod.splits)
  moreover have "set (take n kept) \<subseteq> {d. keeps_tool p d}" "set (take n kept) \<subseteq> set defs"
    using \<open>set kept \<subseteq> _\<close> by (auto dest: in_set_takeD)
  moreover have "tp_MaxTools p > 0 \<Longrightarrow> int (length (take n kept)) \<le> tp_MaxTools p"
    using cap_tools_bound [of p "Some kept"] n by (simp add: def_count_def)
  ultimately show ?thesis using False by (auto simp: list_all_iff)
qed

lemma pruned_surface:
  assumes "prune s = (Some defs, stats, None)" "toolAllowedForTurnSurface (stageToolPruning p (Some prune) s) name"
  shows "\<not> tp_LightweightToolSurface p \<and> toolAllowedForPolicy name p
    \<and> \<not> (tp_RequireArtifactWrite p \<and> \<not> tp_AllowAuthorityMutation p \<and> MutatesAuthorityLayer name)"
proof -
  obtain ks where ks: "selectedToolDefs (stageToolPruning p (Some prune) s) = Some ks"
    "if tp_LightweightToolSurface p then ks = [] else list_all (keeps_tool p) ks \<and> set ks \<subseteq> set defs"
    using pruned_selection [of prune s, OF assms(1), of p] by blast
  with assms(2) obtain d where "d \<in> set ks" "to_lower (trim_space (tdef_Name d)) = to_lower (trim_space name)" "trim_space name \<noteq> []"
    by (auto simp: toolAllowedForTurnSurface_def Let_def list_ex_iff)
  with ks kept_tool_allowed [of p d name] show ?thesis by (auto simp: list_all_iff split: if_splits)
qed

text \<open>
  C4. The envelope of a turn binds what the agent does: after a pruning that succeeded, every tool the
  loop executes in that turn is of an operation class that the turn's tool profile admits, a turn
  that has to write an artifact never changes the authority layer unless the prompt asked for it, and
  a light turn executes no tool at all.
\<close>

theorem envelope_binds_executed_tools:
  assumes "prune s = (Some defs, stats, None)"
    and "Run env fuel (NewLoop cfg reg (Some (fold policy_step es (NewEngine pcfg))) nf, stageToolPruning p (Some prune) s, w)
      = Some (r, l', s', w')"
    and "e \<in> set (traceEntries l')"
  shows "\<not> tp_LightweightToolSurface p \<and> toolAllowedForPolicy (rt_ToolName e) p
    \<and> \<not> (tp_RequireArtifactWrite p \<and> \<not> tp_AllowAuthorityMutation p \<and> MutatesAuthorityLayer (rt_ToolName e))"
  using Run_safe [OF NewLoop_safe [OF refl] assms(2)] assms(3) pruned_surface [of prune s, OF assms(1)]
  by (auto simp: loop_safe_def permitted_entry_def)

text \<open>A focused source code turn that may run \<^verbatim>\<open>bash\<close>, and a pruner that ranks it beside \<^verbatim>\<open>cron\<close>.\<close>

definition demo_policy :: TurnEnvelopePolicy where
  "demo_policy = zero_policy\<lparr>tp_Weight := ''standard'', tp_MaxTools := 8, tp_ToolProfile := ''focused_source_code''\<rparr>"

definition demo_def :: "string \<Rightarrow> ToolDef" where
  "demo_def name = \<lparr>tdef_Type = ''function'', tdef_Name = name, tdef_Description = [], tdef_Parameters = []\<rparr>"

definition demo_prune :: "unit ToolPruner" where
  "demo_prune s = (Some [demo_def ''cron'', demo_def ''bash''], zero_stats, None)"

theorem envelope_binds_executed_tools_witness:
  "\<exists>r l' s' w'. Run (demo_env demo_ok 1) 20 (demo_loop, stageToolPruning demo_policy (Some demo_prune) creator_session, 0)
      = Some (r, l', s', w')
    \<and> map rt_ToolName (traceEntries l') = [''bash''] \<and> toolAllowedForPolicy ''bash'' demo_policy"
proof -
  let ?s = "stageToolPruning demo_policy (Some demo_prune) creator_session"
  have "case Run (demo_env demo_ok 1) 20 (demo_loop, ?s, 0) of
      Some (r, l, s, w) \<Rightarrow> map rt_ToolName (traceEntries l) = [''bash''] | None \<Rightarrow> False" by code_simp
  then obtain r l' s' w' where run: "Run (demo_env demo_ok 1) 20 (demo_loop, ?s, 0) = Some (r, l', s', w')"
    and trace: "map rt_ToolName (traceEntries l') = [''bash'']"
    by (auto split: option.splits)
  from trace obtain e where e: "e \<in> set (traceEntries l')" "rt_ToolName e = ''bash''" by auto
  have loop: "demo_loop = NewLoop DefaultLoopConfig demo_registry
      (Some (fold policy_step ([] :: (int, unit) policy_event list) (NewEngine DefaultConfig))) None"
    by (simp add: demo_loop_def)
  have prune: "demo_prune creator_session = (Some [demo_def ''cron'', demo_def ''bash''], zero_stats, None)"
    by (simp add: demo_prune_def)
  from envelope_binds_executed_tools [OF prune run [unfolded loop] e(1)] run trace e(2) show ?thesis by auto
qed

definition surface_ok :: "TurnEnvelopePolicy \<Rightarrow> ToolDef list \<Rightarrow> ToolDef list \<Rightarrow> bool" where
  "surface_ok p defs ks \<longleftrightarrow>
     (if tp_LightweightToolSurface p then ks = [] else list_all (keeps_tool p) ks \<and> set ks \<subseteq> set defs)
     \<and> (if tp_MaxTools p > 0 then int (length ks) \<le> tp_MaxTools p else True)"

text \<open>
  The tools offered for a turn are tools the pruner ranked, all kept by the turn's policy, and at
  most as many as the policy allows; a light turn is offered none.
\<close>

theorem turn_surface_bounded:
  "prune s = (Some defs, stats, None) \<Longrightarrow>
   \<exists>ks. selectedToolDefs (stageToolPruning p (Some prune) s) = Some ks \<and> surface_ok p defs ks"
  using pruned_selection [of prune s defs stats p] unfolding surface_ok_def by (metis (full_types))

theorem turn_surface_bounded_witness:
  "\<exists>ks. selectedToolDefs (stageToolPruning demo_policy (Some demo_prune) creator_session) = Some ks
     \<and> surface_ok demo_policy [demo_def ''cron'', demo_def ''bash''] ks"
  by (rule turn_surface_bounded) (simp add: demo_prune_def)

text \<open>
  When the pruner fails, the tools of the turn are not restricted at all: a new session has no
  selection, and the focused profile and the lightweight rule only take effect through one.
\<close>

theorem failed_pruning_leaves_surface_open:
  "\<lbrakk>prune s = (defs, stats, Some err); \<not> tp_LightweightToolSurface p; selectedToolDefs s = None\<rbrakk>
   \<Longrightarrow> toolAllowedForTurnSurface (stageToolPruning p (Some prune) s) name"
  by (simp add: stageToolPruning_def applyToolPolicy_def toolAllowedForTurnSurface_def)

end
