(* ===== verification/GuardRules.thy ===== *)
theory GuardRules
  imports TaskSynthesis "HOL-Library.Sublist"
begin

text \<open>
  The guards of the default registry that look at the meaning of an answer:
  \<^verbatim>\<open>internal/pipeline/guards_behavioral.go\<close>, \<^verbatim>\<open>guards_truthfulness.go\<close>, \<^verbatim>\<open>guards_quality.go\<close>,
  \<^verbatim>\<open>guards_financial_truth.go\<close>, \<^verbatim>\<open>guards_financial_verification.go\<close>, \<^verbatim>\<open>guards_config_protection.go\<close>, with
  the registry of \<^verbatim>\<open>guard_registry.go\<close>, the fallback texts of \<^verbatim>\<open>guard_fallback.go\<close>, the scores of
  \<^verbatim>\<open>semantic_classifier.go\<close> and \<^verbatim>\<open>precomputeGuardScores\<close>, and the context \<^verbatim>\<open>buildGuardContext\<close> makes of a
  session. Ratios of counts are rational numbers, compared with the decimal constants of the source; a
  classifier score is a rational number too, compared with the exact value of the threshold as a
  double. In a literal below a backquote stands for an apostrophe (\<open>apo\<close>).
\<close>

definition apo :: "string \<Rightarrow> string" where
  "apo s = map (\<lambda>c. if c = CHR 0x60 then CHR 0x27 else c) s"

section \<open>Results\<close>

definition pass_result :: GuardResult where
  "pass_result = passed []"

definition retry_for :: "string \<Rightarrow> GuardResult" where
  "retry_for reason = (rejected [] reason)\<lparr>gr_Retry := True\<rparr>"

definition retry_verdict :: "string \<Rightarrow> GuardResult" where
  "retry_verdict reason = (retry_for reason)\<lparr>gr_Verdict := GuardRetryRequested\<rparr>"

definition rewritten :: "string \<Rightarrow> string \<Rightarrow> GuardResult" where
  "rewritten content reason = (rejected content reason)\<lparr>gr_Verdict := GuardRewritten\<rparr>"

type_synonym context_check = "string \<Rightarrow> rat GuardContext \<Rightarrow> GuardResult"

section \<open>Scores\<close>

text \<open>The categories of \<^verbatim>\<open>guardExemplars\<close> with their thresholds.\<close>

definition guard_thresholds :: "(string, rat) gomap" where
  "guard_thresholds =
     [(''NARRATED_DELEGATION'', 5854679515581645 / 9007199254740992),
      (''CAPABILITY_DENIAL'', 5854679515581645 / 9007199254740992),
      (''TASK_DEFERRAL'', 3152519739159347 / 4503599627370496),
      (''FALSE_COMPLETION'', 3152519739159347 / 4503599627370496),
      (''FINANCIAL_ACTION_CLAIM'', 5854679515581645 / 9007199254740992)]"

definition GuardScoreAboveThreshold :: "(string, rat) gomap \<Rightarrow> string \<Rightarrow> bool" where
  "GuardScoreAboveThreshold scores category =
     (case (m_get scores category, m_get guard_thresholds category) of
        (Some score, Some threshold) \<Rightarrow> score \<ge> threshold
      | _ \<Rightarrow> False)"

section \<open>Behaviour\<close>

definition delegation_markers :: "string list" where
  "delegation_markers =
     [''let me delegate'', ''delegating to'', ''i have a specialist'', ''passing this to'', ''routing to my'',
      ''subagent-generated'', ''my specialist will'', ''handing off to'', apo ''i`ll delegate'', ''i will delegate'',
      ''delegate the task'', ''delegate this to'', ''let me hand this off'',
      ''came directly from the running subagent'', ''standing by for tasking'']"

definition SubagentClaimGuard_CheckWithContext :: context_check where
  "SubagentClaimGuard_CheckWithContext content ctx =
     (let prov = gx_DelegationProvenance ctx; lower = to_lower content;
          hasMarker = list_ex (contains lower) delegation_markers in
      if dp_SubagentTaskStarted prov \<and> dp_SubagentTaskCompleted prov \<and> dp_SubagentResultAttached prov then pass_result
      else if length content < 100 \<and> \<not> hasMarker
              \<and> \<not> list_ex (\<lambda>name. contains lower (to_lower name)) (gx_SubagentNames ctx) then pass_result
      else if hasMarker then retry_for ''narrated delegation without completing subagent lifecycle''
      else pass_result)"

definition introspectionTools :: "string list" where
  "introspectionTools = [''get_memory_stats'', ''get_runtime_context'', ''get_subagent_status'', ''list-subagent-roster'',
     ''list-available-skills'', ''task-status'', ''list-open-tasks'']"

definition deferralPatterns :: "string list" where
  "deferralPatterns = [''let me '', apo ''i`ll '', ''i will '', ''i need to '', ''next i can '', ''next step'', ''i should '']"

definition TaskDeferralGuard_CheckWithContext :: context_check where
  "TaskDeferralGuard_CheckWithContext content ctx =
     (if gx_ToolResults ctx = [] then pass_result
      else if \<not> list_all (\<lambda>tr. tr_ToolName tr \<in> set introspectionTools) (gx_ToolResults ctx) then pass_result
      else if GuardScoreAboveThreshold (gx_SemanticScores ctx) ''TASK_DEFERRAL''
      then retry_for ''introspection-only turn narrated deferred action (semantic TASK_DEFERRAL)''
      else if list_ex (contains (to_lower content)) deferralPatterns
      then retry_for ''introspection-only turn narrated deferred action''
      else pass_result)"

definition clarificationDeflectionMarkers :: "string list" where
  "clarificationDeflectionMarkers =
     [''please provide the last message'', ''please provide the context you want me to respond to'',
      ''please provide the last message or the context'', ''and i will generate a revised'',
      ''avoiding direct repetition or circular responses'', ''you need me to address the conversation flow'']"

definition ClarificationDeflectionGuard_CheckWithContext :: context_check where
  "ClarificationDeflectionGuard_CheckWithContext content ctx =
     (if trim_space (gx_UserPrompt ctx) = [] then pass_result
      else if length (filter (contains (to_lower content)) clarificationDeflectionMarkers) \<ge> 2
      then retry_verdict ''response deflected by asking the user to restate already-provided context''
      else pass_result)"

definition delegationPrefixes :: "string list" where
  "delegationPrefixes = [''centralized delegation'', ''delegation gate'']"

definition jargon_line :: "string \<Rightarrow> bool" where
  "jargon_line line \<longleftrightarrow> list_ex (has_prefix (to_lower (trim_space line))) delegationPrefixes"

definition infraMarkers :: "string list" where
  "infraMarkers =
     [''decomposition gate decision'', ''expected_utility_margin'', ''active model:'', ''enabled subagents:'',
      ''pipeline stage'', ''guard chain'', ''react loop'', ''inference_costs'', ''safety layers'', ''behavioral checks'',
      ''behavioral check'', ''the model responds'', apo ''the model`s response'', ''simulate behavioral'',
      ''response reliability'', ''over-refusing'', ''boilerplate warnings'']"

definition keep_lines :: "(string \<Rightarrow> bool) \<Rightarrow> string \<Rightarrow> string" where
  "keep_lines P content = str_join [CHR 0x0A] (filter P (split_on (CHR 0x0A) content))"

definition InternalJargonGuard_CheckWithContext :: context_check where
  "InternalJargonGuard_CheckWithContext content ctx =
     (let lower = to_lower content in
      if (case m_get (gx_SemanticScores ctx) ''NARRATED_DELEGATION'' of
            Some score \<Rightarrow> score > 3602879701896397 / 4503599627370496 | None \<Rightarrow> False)
      then retry_verdict ''semantic NARRATED_DELEGATION score exceeded threshold (0.8)''
      else if list_ex jargon_line (split_on (CHR 0x0A) content)
      then let cleaned = trim_space (keep_lines (\<lambda>l. \<not> jargon_line l) content) in
           if cleaned = [] then retry_verdict ''response consisted entirely of delegation jargon''
           else rewritten cleaned ''delegation jargon lines stripped''
      else case find (contains lower) infraMarkers of
        Some m \<Rightarrow> retry_for (''infrastructure terminology leaked: '' @ m)
      | None \<Rightarrow>
          (case find (\<lambda>name. contains lower (to_lower name)) (gx_SubagentNames ctx) of
             Some name \<Rightarrow> retry_for (''subagent name leaked: '' @ name)
           | None \<Rightarrow> pass_result))"

definition actionVerbs :: "string list" where
  "actionVerbs = [''attack'', ''stab'', ''grab'', ''cast'', ''hide'', ''dodge'', ''climb'', ''shoot'', ''throw'', ''kick'',
     ''punch'', ''slash'', ''block'', ''parry'', ''charge'', ''flee'', ''sneak'', ''search'', ''pick up'', ''open'']"

definition resolutionIndicators :: "string list" where
  "resolutionIndicators = [''roll'', ''d20'', ''dc '', ''check'', ''succeed'', ''fail'', ''miss'', ''hit'', ''attempt'',
     ''try'', ''manage'', ''unable'', ''result'', ''before we resolve'', ''before proceeding'', ''are you sure'',
     ''consequences'', ''what would happen'']"

definition DeclaredActionGuard_CheckWithContext :: context_check where
  "DeclaredActionGuard_CheckWithContext content ctx =
     (if gx_UserPrompt ctx = [] then pass_result
      else case find (contains (to_lower (gx_UserPrompt ctx))) actionVerbs of
        None \<Rightarrow> pass_result
      | Some verb \<Rightarrow>
          if list_ex (contains (to_lower content)) resolutionIndicators then pass_result
          else retry_for (apo ''declared action `'' @ verb @ apo ''` was not resolved in response''))"

definition perspectivePatterns :: rx where
  "perspectivePatterns = rseq [RWordB, rlit_i ''you'', rplus rspace,
     ralt (map rlit_i [''walk'', ''run'', ''feel'', ''see'', ''hear'', ''notice'', ''realize'', ''decide'', ''grab'', ''pick up'',
       ''open'', ''close'', ''enter'', ''leave'', ''step'', ''look'', ''turn'', ''reach'', ''touch'', ''take'']), RWordB]"

definition PerspectiveGuard_CheckWithContext :: context_check where
  "PerspectiveGuard_CheckWithContext content ctx =
     (if HasIntent ctx ''role_play'' then pass_result
      else if list_ex (\<lambda>intent. intent = ''declared_action'' \<or> intent = ''role_play'') (gx_Intents ctx) then pass_result
      else if length (rx_find_all perspectivePatterns content) \<ge> 2
      then retry_verdict ''first-person narration of user actions detected''
      else pass_result)"

definition internalProtocolMarkers :: "string list" where
  "internalProtocolMarkers =
     [''delegated_subagent='', ''selected_subagent='', ''fallback_models='', ''notes='']
     @ [''centralized delegation is sensible'', ''centralized delegation'', ''decomposition gate decision'',
        ''expected_utility_margin='', ''expected utility margin'', ''delegation decision:'', ''rationale:'', ''subtasks:'']
     @ [[CHR 0x22] @ ''tool_call'' @ [CHR 0x22], ''unexecuted_streaming_tool_call:'']"

definition subtaskDigitPattern :: rx where
  "subtaskDigitPattern = rseq [RWordB, rlit_i ''subtask '', rdigit]"

definition strip_marker :: "string \<Rightarrow> string \<Rightarrow> string" where
  "strip_marker marker modified =
     (if contains modified marker then keep_lines (\<lambda>line. \<not> contains line marker) modified else modified)"

definition strip_protocol :: "string \<Rightarrow> string" where
  "strip_protocol content =
     (let modified = fold strip_marker internalProtocolMarkers content in
      if rx_matches subtaskDigitPattern modified
      then keep_lines (\<lambda>line. \<not> rx_matches subtaskDigitPattern line) modified else modified)"

definition InternalProtocolGuard_Check :: "string \<Rightarrow> GuardResult" where
  "InternalProtocolGuard_Check content =
     (let modified = strip_protocol content in
      if modified \<noteq> content
      then let trimmed = trim_space modified in
           if trimmed = [] then retry_verdict ''response consisted entirely of internal protocol metadata''
           else rewritten trimmed ''internal protocol metadata stripped''
      else pass_result)"

definition placeholderPatterns :: "string list" where
  "placeholderPatterns = [''[insert '', ''[your '', ''[add '', ''[fill in'', ''[enter '', ''[replace '', ''[describe '',
     ''[name'', ''[topic'', ''[subject'', ''[relevant '', ''[specific '', ''[appropriate '']"

definition templateSignals :: "string list" where
  "templateSignals = [''lorem ipsum'', ''placeholder text'', ''example here'', ''insert the main topic'', ''insert topic'',
     ''insert a '', ''here is a template'']"

definition placeholderBoldRe :: rx where
  "placeholderBoldRe = rseq [rlit ''**'', RChar (\<lambda>c. c = CHR ''I'' \<or> c = CHR ''i''), rlit ''nsert'', RWordB,
     RRep True 3 60 (RChar (\<lambda>c. c \<noteq> CHR ''*'')), rlit ''**'']"

definition PlaceholderContentGuard_Check :: "string \<Rightarrow> GuardResult" where
  "PlaceholderContentGuard_Check content =
     (let lower = to_lower content in
      case find (contains lower) placeholderPatterns of
        Some p \<Rightarrow> retry_verdict (''response contains unfilled template placeholder: '' @ p)
      | None \<Rightarrow>
          (case find (contains lower) templateSignals of
             Some sig \<Rightarrow> retry_verdict (''response appears to be template boilerplate: '' @ sig)
           | None \<Rightarrow>
               if rx_matches placeholderBoldRe content
               then retry_verdict ''response contains bold-formatted placeholder directive'' else pass_result))"

section \<open>Truthfulness\<close>

definition artifactPathMentionRE :: rx where
  "artifactPathMentionRE = rseq [rplus (RChar (\<lambda>c. rx_word_char c \<or> c \<in> set ''./-'')), rlit ''.'',
     RRep True 1 8 (RChar (\<lambda>c. is_alnum_lower (lower_char c)))]"

definition modelFamilies :: "string list" where
  "modelFamilies = [''Claude'', ''GPT-4'', ''GPT-3.5'', ''Gemini'', ''Llama'', ''Mistral'', ''DeepSeek'']"

definition ModelIdentityTruthGuard_CheckWithContext :: context_check where
  "ModelIdentityTruthGuard_CheckWithContext content ctx =
     (if \<not> HasIntent ctx ''model_identity'' then pass_result
      else if length content \<le> 200 \<and> count_char (CHR 0x0A) content + 1 \<le> 3
      then rejected (gx_AgentName ctx @ '' reporting in. I am currently running on '' @ gx_ResolvedModel ctx @ ''.'') []
      else let r0 = (if gx_ResolvedModel ctx \<noteq> [] then replace_all (gx_ResolvedModel ctx) (gx_AgentName ctx) content else content);
               redacted = fold (\<lambda>family. replace_all family (gx_AgentName ctx)) modelFamilies r0
           in if redacted \<noteq> content then rejected redacted [] else pass_result)"

definition has_marker :: "string list \<Rightarrow> string \<Rightarrow> bool" where
  "has_marker markers s \<longleftrightarrow> list_ex (contains (to_lower s)) markers"

definition stripSentencesContaining :: "string \<Rightarrow> string list \<Rightarrow> string" where
  "stripSentencesContaining s markers = str_join ''. '' (filter (\<lambda>x. \<not> has_marker markers x) (str_split ''. '' s))"

text \<open>
  The common body of five \<^verbatim>\<open>Check\<close> methods, which differ in the markers and in the reason given when
  nothing is left.
\<close>

definition strip_check :: "string list \<Rightarrow> string \<Rightarrow> string \<Rightarrow> GuardResult" where
  "strip_check markers reason content =
     (if has_marker markers content
      then let cleaned = stripSentencesContaining content markers in
           if trim_space cleaned = [] then retry_for reason else rejected cleaned []
      else pass_result)"

definition staleKnowledgeMarkers :: "string list" where
  "staleKnowledgeMarkers =
     [''as of my last update'', ''as of my last training'', ''i cannot provide real-time updates'',
      ''my training data only goes up to'', apo ''i don`t have access to current'', ''as of 2023'', ''as of 2024'',
      apo ''i can`t provide real-time updates'', ''i cannot provide real-time geopolitical analysis'',
      apo ''i can`t provide real-time geopolitical analysis'', ''do not include live news feeds'', ''no live news feeds'']"

definition CurrentEventsTruthGuard_Check :: "string \<Rightarrow> GuardResult" where
  "CurrentEventsTruthGuard_Check content =
     strip_check staleKnowledgeMarkers ''response consisted entirely of stale-knowledge disclaimers'' content"

definition CurrentEventsTruthGuard_CheckWithContext :: context_check where
  "CurrentEventsTruthGuard_CheckWithContext content ctx =
     (if \<not> HasIntent ctx ''current_events'' then pass_result
      else if has_marker staleKnowledgeMarkers content then retry_for ''stale-knowledge disclaimer in current events response''
      else pass_result)"

definition executionIntents :: "string list" where
  "executionIntents = [''execution'', ''task'', ''delegation'', ''cron'', ''file_distribution'', ''folder_scan'',
     ''wallet_address_scan'', ''image_count_scan'', ''markdown_count_scan'', ''obsidian_insights'', ''email_triage'']"

definition executionClaims :: "string list" where
  "executionClaims = [''i ran'', ''i executed'', apo ''i`ve completed'', ''the command returned'', ''output:'', ''the result is'',
     apo ''here`s what i found after running'']"

definition denialPatterns :: "string list" where
  "denialPatterns = [''i cannot'', apo ''i`m unable to'', apo ''i don`t have the ability'', apo ''i can`t execute'', ''i cannot run'']"

text \<open>The parser of artifact expectations can panic (\<open>Artifacts.ordinal_contents_out_of_order_panic\<close>): \<open>None\<close>.\<close>

definition persistentArtifactProofRequired :: "string \<Rightarrow> bool option" where
  "persistentArtifactProofRequired prompt =
     map_option (\<lambda>specs. specs \<noteq> [] \<or> looksLikeBoundedAuthoringTask (to_lower prompt)) (ParseExpectedArtifactSpecs prompt)"

definition responseClaimsPersistentArtifactMutation :: "string \<Rightarrow> bool" where
  "responseClaimsPersistentArtifactMutation content =
     (let lower = to_lower content in
      containsAnyMarker lower [''created'', ''wrote'', ''written'', ''saved'', ''stored'', ''updated'', ''added'']
      \<and> (containsAnyMarker lower [''note'', ''document'', ''doc'', ''markdown'', ''.md'', ''file'', ''vault'', ''obsidian'']
         \<or> rx_matches artifactPathMentionRE lower))"

definition hasSuccessfulArtifactWriteEvidence :: "ToolResultEntry list \<Rightarrow> bool" where
  "hasSuccessfulArtifactWriteEvidence results \<longleftrightarrow>
     list_ex (\<lambda>tr. WritesPersistentArtifact (tr_ToolName tr) \<and> \<not> toolResultSignalsFailure tr) results"

definition delegation_tool :: "string \<Rightarrow> bool" where
  "delegation_tool name \<longleftrightarrow> contains name ''delegat'' \<or> contains name ''subagent''"

definition ExecutionTruthGuard_CheckWithContext :: "string \<Rightarrow> rat GuardContext \<Rightarrow> GuardResult option" where
  "ExecutionTruthGuard_CheckWithContext content ctx =
     (let lower = to_lower content; results = gx_ToolResults ctx in
      if gx_Intents ctx \<noteq> [] \<and> \<not> list_ex (\<lambda>i. i \<in> set executionIntents) (gx_Intents ctx) then Some pass_result
      else if GuardScoreAboveThreshold (gx_SemanticScores ctx) ''FALSE_COMPLETION''
      then Some (retry_for (''semantic FALSE_COMPLETION detected '' @ [CHR 0xE2, CHR 0x80, CHR 0x94]
             @ '' claimed action without tool evidence''))
      else if results = [] \<and> list_ex (contains lower) executionClaims
      then Some (retry_for ''claimed tool execution but no tools were called'')
      else if list_ex toolResultSignalsPolicyOrSandboxDenial results then Some pass_result
      else if results \<noteq> [] \<and> list_ex (contains lower) denialPatterns
      then Some (retry_for ''falsely denied execution despite real tool results'')
      else map_option (\<lambda>required.
        if required \<and> responseClaimsPersistentArtifactMutation content \<and> \<not> hasSuccessfulArtifactWriteEvidence results
        then retry_for ''claimed persistent artifact creation without artifact-writing tool evidence''
        else if HasIntent ctx ''delegation'' \<and> \<not> list_ex (\<lambda>tr. delegation_tool (tr_ToolName tr)) results \<and> results = []
                \<and> (contains lower ''delegated'' \<or> contains lower ''specialist completed'')
        then retry_for ''claimed delegation but no delegation tool was called''
        else pass_result) (persistentArtifactProofRequired (gx_UserPrompt ctx)))"

definition foreignIdentityMarkers :: "string list" where
  "foreignIdentityMarkers =
     [''as an ai developed by'', ''as an ai language model'', ''i am claude'', apo ''i`m chatgpt'', ''as a large language model'',
      ''i was created by openai'', ''i was created by anthropic'', ''i was made by google'', ''as an ai developed by microsoft'',
      ''as an ai text-based interface'', apo ''as an ai, i can`t'', ''as an ai, i cannot'', ''as a language model'']"

definition PersonalityIntegrityGuard_Check :: "string \<Rightarrow> GuardResult" where
  "PersonalityIntegrityGuard_Check content =
     strip_check foreignIdentityMarkers ''response consisted entirely of foreign identity boilerplate'' content"

definition execBlockPatterns :: "string list" where
  "execBlockPatterns = [''i did not execute a tool'', ''i did not execute a delegated subagent task'',
     ''i did not execute a cron scheduling tool'']"

definition ExecutionBlockGuard_Check :: "string \<Rightarrow> GuardResult" where
  "ExecutionBlockGuard_Check content =
     strip_check execBlockPatterns ''response consisted entirely of false execution block claims'' content"

definition delegationMetadataPatterns :: "string list" where
  "delegationMetadataPatterns = [''delegated_subagent='', ''selected_subagent='', ''subtask 1 ->'', ''subtask 2 ->'',
     ''subtask 3 ->'', ''expected_utility_margin'', ''decomposition gate decision'']"

definition DelegationMetadataGuard_Check :: "string \<Rightarrow> GuardResult" where
  "DelegationMetadataGuard_Check content =
     strip_check delegationMetadataPatterns ''response consisted entirely of internal delegation metadata'' content"

definition filesystemDenialPatterns :: "string list" where
  "filesystemDenialPatterns =
     [apo ''can`t access your files'', ''cannot access your files'', apo ''can`t access your folders'',
      ''cannot access your folders'', apo ''don`t have access to your files'',
      apo ''as an ai, i don`t have access to your files'',
      apo ''as an ai text-based interface, i`m not able to directly access'']"

definition FilesystemDenialGuard_Check :: "string \<Rightarrow> GuardResult" where
  "FilesystemDenialGuard_Check content =
     strip_check filesystemDenialPatterns ''response consisted entirely of false filesystem-access denial'' content"

definition FilesystemDenialGuard_CheckWithContext :: context_check where
  "FilesystemDenialGuard_CheckWithContext content ctx =
     (if list_ex toolResultSignalsPolicyOrSandboxDenial (gx_ToolResults ctx) then pass_result
      else FilesystemDenialGuard_Check content)"

definition literaryQuoteMarkers :: "string list" where
  "literaryQuoteMarkers = [''as the poet wrote'', ''in the words of'', ''to quote'', ''as shakespeare said'',
     ''the famous quote'', ''the poem goes'', ''the verse reads'', ''once upon a midnight dreary'', ''shall i compare thee'',
     ''it was the best of times'', ''all that glitters'', ''to be or not to be'', ''roses are red'']"

text \<open>
  The number of characters inside quotes; the loop runs over runes, so that continuation bytes of a
  UTF-8 sequence are not counted.
\<close>

fun quoted_len :: "bool \<Rightarrow> string \<Rightarrow> nat" where
  "quoted_len inQuote [] = 0"
| "quoted_len inQuote (c # cs) =
     (if c = CHR 0x22 then quoted_len (\<not> inQuote) cs
      else (if inQuote \<and> \<not> (128 \<le> (of_char c :: nat) \<and> (of_char c :: nat) < 192) then 1 else 0) + quoted_len inQuote cs)"

definition LiteraryQuoteRetryGuard_Check :: "string \<Rightarrow> GuardResult" where
  "LiteraryQuoteRetryGuard_Check content =
     (if count_char (CHR 0x22) content div 2 \<ge> 3 \<and> content \<noteq> [] \<and> 2 * quoted_len False content > length content
      then retry_verdict ''response is predominantly quoted material''
      else case find (contains (to_lower content)) literaryQuoteMarkers of
        Some marker \<Rightarrow> retry_verdict (''narrated literary quote detected: '' @ marker)
      | None \<Rightarrow> pass_result)"

definition overbroadRefusalMarkers :: "string list" where
  "overbroadRefusalMarkers = [''i cannot provide quotes related to'', ''sensitive geopolitical situations'',
     ''helpful and harmless'', ''avoiding engagement with potentially harmful'']"

definition LiteraryQuoteRetryGuard_CheckWithContext :: context_check where
  "LiteraryQuoteRetryGuard_CheckWithContext content ctx =
     (let result = LiteraryQuoteRetryGuard_Check content in
      if \<not> gr_Passed result then result
      else case find (contains (to_lower content)) overbroadRefusalMarkers of
        Some m \<Rightarrow> retry_verdict (''overbroad refusal to provide literary content: '' @ m)
      | None \<Rightarrow> pass_result)"

section \<open>Quality\<close>

definition tokenOverlapRatio :: "string \<Rightarrow> string \<Rightarrow> rat" where
  "tokenOverlapRatio a b =
     (let aTokens = str_fields (to_lower a); bTokens = str_fields (to_lower b) in
      if aTokens = [] \<or> bTokens = [] then 0
      else of_nat (length (filter (\<lambda>t. t \<in> set bTokens) aTokens)) / of_nat (max (length aTokens) (length bTokens)))"

fun common_prefix :: "'a list \<Rightarrow> 'a list \<Rightarrow> nat" where
  "common_prefix (x # xs) (y # ys) = (if x = y then Suc (common_prefix xs ys) else 0)"
| "common_prefix _ _ = 0"

definition commonPrefixRatio :: "string \<Rightarrow> string \<Rightarrow> rat" where
  "commonPrefixRatio a b =
     (let aWords = str_fields (to_lower a); bWords = str_fields (to_lower b); total = max (length aWords) (length bWords) in
      if total = 0 then 0 else of_nat (common_prefix aWords bWords) / of_nat total)"

text \<open>
  Two nested loops over the start positions, with the longest common run from each pair of them:
  \<open>common_prefix\<close> of the suffixes.
\<close>

fun lcs_row :: "'a list \<Rightarrow> 'a list \<Rightarrow> nat \<Rightarrow> nat" where
  "lcs_row a [] best = best"
| "lcs_row a (y # ys) best = (let k = common_prefix a (y # ys) in lcs_row a ys (if k > best then k else best))"

fun lcs_rows :: "'a list \<Rightarrow> 'a list \<Rightarrow> nat \<Rightarrow> nat" where
  "lcs_rows [] b best = best"
| "lcs_rows (x # xs) b best = lcs_rows xs b (lcs_row (x # xs) b best)"

definition longestCommonSubseq :: "'a list \<Rightarrow> 'a list \<Rightarrow> nat" where
  "longestCommonSubseq a b = lcs_rows a b 0"

definition placeholderPhrases :: "string list" where
  "placeholderPhrases = [''ready'', ''on it'', ''working on that now'', ''i await your insights'', ''understood, processing'',
     ''let me think about that'', ''sure thing'', ''absolutely'', ''of course'']"

definition LowValueParrotingGuard_CheckWithContext :: context_check where
  "LowValueParrotingGuard_CheckWithContext content ctx =
     (let trimmed = trim_space (to_lower content); prompt = gx_UserPrompt ctx in
      case find (\<lambda>ph. trimmed = ph \<or> trimmed = ph @ ''.'' \<or> trimmed = ph @ ''!'') placeholderPhrases of
        Some ph \<Rightarrow> retry_for (''low-value placeholder response: '' @ ph)
      | None \<Rightarrow>
          if prompt \<noteq> [] \<and> length content > 20 \<and> tokenOverlapRatio content prompt \<ge> 88 / 100
             \<and> commonPrefixRatio content prompt \<ge> 55 / 100
             \<and> (of_nat (length content) / of_nat (length prompt) :: rat) \<le> 135 / 100
          then retry_for ''response parrots user input'' else pass_result)"

definition verificationIsSocialTurn :: "string \<Rightarrow> string \<Rightarrow> bool" where
  "verificationIsSocialTurn prompt intent \<longleftrightarrow> intent = ''conversational'' \<and> isSocialConversationalTurn (to_lower prompt)"

definition containsAny :: "string \<Rightarrow> string list \<Rightarrow> bool" where
  "containsAny s subs \<longleftrightarrow> list_ex (contains s) subs"

definition verificationLooksOperationalStatus :: "string \<Rightarrow> bool" where
  "verificationLooksOperationalStatus response \<longleftrightarrow>
     containsAny response [''sandbox'', ''sandboxed'', ''allow-list'', ''allow list'', ''workspace'', ''vault'',
       ''runtime status'', ''still locked'', ''tool access'', ''access yet'', ''memory that tells me'']"

definition shouldAllowLightweightSocialVariation :: "string \<Rightarrow> rat GuardContext \<Rightarrow> bool" where
  "shouldAllowLightweightSocialVariation content ctx =
     (let intent = (case gx_Intents ctx of [] \<Rightarrow> [] | i # _ \<Rightarrow> i) in
      if \<not> verificationIsSocialTurn (gx_UserPrompt ctx) intent then False
      else if verificationLooksOperationalStatus (to_lower content) then False
      else let words = length (str_fields content) in words > 0 \<and> words \<le> 24)"

definition freshDeltaMarkers :: "string list" where
  "freshDeltaMarkers = [''status'', ''update'', ''what changed'', ''anything changed'', ''fresh check'', ''check again'', ''still'',
     ''latest'', ''current'', ''sitrep'']"

definition userRequestsFreshDelta :: "string \<Rightarrow> bool" where
  "userRequestsFreshDelta prompt \<longleftrightarrow> list_ex (contains (to_lower prompt)) freshDeltaMarkers"

definition first_line :: "string \<Rightarrow> string" where
  "first_line s = trim_space (hd (split_on (CHR 0x0A) (trim_space s)))"

definition findSelfEchoAcrossHistory :: "string \<Rightarrow> string list \<Rightarrow> string" where
  "findSelfEchoAcrossHistory content history =
     (if length history < 2 then []
      else let firstLine = first_line content in
        if length firstLine < 15 then []
        else if length (filter (\<lambda>prior. first_line prior = firstLine) history) \<ge> 2
        then ''response opening repeats across 3+ turns (template loop detected)'' else [])"

definition NonRepetitionGuardV2_CheckWithContext :: context_check where
  "NonRepetitionGuardV2_CheckWithContext content ctx =
     (let prev = gx_PreviousAssistant ctx; overlap = tokenOverlapRatio content prev; prefix = commonPrefixRatio content prev;
          contentWords = str_fields (to_lower content);
          echoReason = findSelfEchoAcrossHistory content (gx_PriorAssistantMessages ctx) in
      if shouldAllowLightweightSocialVariation content ctx then pass_result
      else if prev \<noteq> [] \<and> (overlap \<ge> 86 / 100 \<or> overlap \<ge> 72 / 100 \<and> prefix \<ge> 55 / 100)
      then retry_for ''response repeats previous assistant message''
      else if list_ex (\<lambda>prior. longestCommonSubseq contentWords (str_fields (to_lower prior)) \<ge> 10) (gx_PriorAssistantMessages ctx)
      then retry_for ''response contains verbatim fragment from prior turn''
      else if echoReason \<noteq> [] then retry_verdict echoReason
      else if gx_UserPrompt ctx \<noteq> [] \<and> prev \<noteq> [] \<and> userRequestsFreshDelta (gx_UserPrompt ctx) \<and> overlap \<ge> 72 / 100
      then rewritten ''No verified delta since last check. Will report back when something changes.''
             ''user requested fresh delta but response repeats prior content''
      else pass_result)"

definition bulletCountRe :: rx where
  "bulletCountRe = rseq [ralt (map rlit_i [''give me'', ''list'', ''provide'', ''write'']), rplus rspace, RGroup 1 (rplus rdigit),
     rplus rspace, ralt (map rlit_i [''bullet'', ''point'', ''item'', ''step'', ''thing'', ''reason'', ''example''])]"

definition decimal_value :: "string \<Rightarrow> int" where
  "decimal_value s = foldl (\<lambda>n c. i64 (i64 (n * 10) + (int (of_char c) - 48))) 0 s"

definition bullet_line :: "string \<Rightarrow> bool" where
  "bullet_line line =
     (let t = trim_space line in
      has_prefix t ''- '' \<or> has_prefix t ''* '' \<or> has_prefix t [CHR 0xE2, CHR 0x80, CHR 0xA2, CHR '' '']
      \<or> length t > 2 \<and> t ! 0 \<in> set ''123456789'' \<and> t ! 1 = CHR ''.'')"

text \<open>\<^verbatim>\<open>string(rune(n))\<close>: the UTF-8 encoding of a code point below the surrogates.\<close>

definition rune_string :: "nat \<Rightarrow> string" where
  "rune_string n =
     (if n < 128 then [char_of n]
      else if n < 2048 then [char_of (192 + n div 64), char_of (128 + n mod 64)]
      else [char_of (224 + n div 4096), char_of (128 + n div 64 mod 64), char_of (128 + n mod 64)])"

definition OutputContractGuard_CheckWithContext :: context_check where
  "OutputContractGuard_CheckWithContext content ctx =
     (case rx_find bulletCountRe (gx_UserPrompt ctx) of
        None \<Rightarrow> pass_result
      | Some m \<Rightarrow>
          let digits = group_text 1 (gx_UserPrompt ctx) m; requested = decimal_value digits;
              actual = length (filter bullet_line (split_on (CHR 0x0A) content)) in
          if requested < 1 \<or> requested > 50 then pass_result
          else if int actual \<noteq> requested \<and> actual > 0
          then retry_for (''requested '' @ digits @ '' items but response has '' @ rune_string (48 + actual))
          else pass_result)"

definition UserEchoGuard_CheckWithContext :: context_check where
  "UserEchoGuard_CheckWithContext content ctx =
     (if length (gx_UserPrompt ctx) < 40 then pass_result
      else if longestCommonSubseq (str_fields (to_lower (gx_UserPrompt ctx))) (str_fields (to_lower content)) \<ge> 8
      then retry_for ''response echoes user input verbatim (8+ word match)''
      else pass_result)"

section \<open>Money and configuration\<close>

definition financialActionClaims :: "string list" where
  "financialActionClaims = [''i transferred'', ''i sent $'', apo ''i`ve sent $'', ''payment completed'', ''payment successful'',
     ''transaction completed'', ''i deposited'', ''i withdrew'', ''funds transferred'', ''transfer complete'', ''i paid'',
     apo ''i`ve paid'', ''payment has been processed'', ''i initiated a transfer'', ''i processed the payment'']"

definition financialToolPrefixes :: "string list" where
  "financialToolPrefixes = [''wallet'', ''payment'', ''transfer'', ''treasury'', ''eip3009'', ''x402'', ''send_token'', ''send_payment'']"

definition financial_tool :: "ToolResultEntry \<Rightarrow> bool" where
  "financial_tool tr \<longleftrightarrow> list_ex (contains (to_lower (tr_ToolName tr))) financialToolPrefixes"

definition FinancialActionTruthGuard_CheckWithContext :: context_check where
  "FinancialActionTruthGuard_CheckWithContext content ctx =
     (let calls = filter financial_tool (gx_ToolResults ctx) in
      if \<not> list_ex (contains (to_lower content)) financialActionClaims then pass_result
      else if calls = [] then retry_for ''claimed financial action without calling a financial tool''
      else if list_ex toolResultSignalsFailure calls
      then retry_for ''claimed financial action despite denied or failed financial tool result''
      else pass_result)"

definition successClaims :: "string list" where
  "successClaims = [''successfully transferred'', ''payment completed'', ''transfer complete'', ''transaction successful'',
     ''funds sent'', ''payment processed'']"

fun extractDollarAmounts :: "string \<Rightarrow> string list" where
  "extractDollarAmounts [] = []"
| "extractDollarAmounts (c # cs) =
     (let amount = takeWhile (\<lambda>x. is_digit x \<or> x = CHR ''.'' \<or> x = CHR '','') cs in
      (if c = CHR ''$'' \<and> amount \<noteq> [] then [c # amount] else []) @ extractDollarAmounts cs)"

definition ActionVerificationGuard_CheckWithContext :: context_check where
  "ActionVerificationGuard_CheckWithContext content ctx =
     (let results = filter financial_tool (gx_ToolResults ctx); lower = to_lower content;
          allOutputs = concat (map (\<lambda>tr. to_lower (tr_Output tr) @ '' '') results) in
      if results = [] then pass_result
      else if list_ex toolResultSignalsFailure results \<and> list_ex (contains lower) successClaims
      then retry_verdict ''claimed financial success but tool reported failure''
      else case find (\<lambda>amt. \<not> contains allOutputs amt) (extractDollarAmounts lower) of
        Some amt \<Rightarrow> retry_verdict (''response contains dollar amount not found in tool output: '' @ amt)
      | None \<Rightarrow> pass_result)"

definition config_tool :: "ToolResultEntry \<Rightarrow> bool" where
  "config_tool tr \<longleftrightarrow> contains (to_lower (tr_ToolName tr)) ''config'' \<or> contains (to_lower (tr_ToolName tr)) ''setting''"

definition ConfigProtectionGuard_CheckWithContext :: context_check where
  "ConfigProtectionGuard_CheckWithContext content ctx =
     (case List.map_filter (\<lambda>tr. MatchProtectedConfigPattern (to_lower (tr_Output tr))) (filter config_tool (gx_ToolResults ctx)) of
        pattern # _ \<Rightarrow> rejected ''I cannot modify security-sensitive configuration settings through tool calls.''
                       (''config_protection: tool attempted to modify '' @ pattern)
      | [] \<Rightarrow> pass_result)"

section \<open>The default registry\<close>

text \<open>
  A guard that only looks at the context lets every text pass without one. A prompt on which the parser
  of artifact expectations panics never reaches the guards, because the task synthesis parses it first
  (\<open>classifyIntent\<close>); the result of the execution guard for such a prompt does not matter.
\<close>

definition context_guard :: "string \<Rightarrow> context_check \<Rightarrow> rat guard" where
  "context_guard name check = \<lparr>g_Name = name, g_Check = (\<lambda>_. pass_result), g_CheckWithContext = Some check\<rparr>"

definition both_guard :: "string \<Rightarrow> (string \<Rightarrow> GuardResult) \<Rightarrow> context_check \<Rightarrow> rat guard" where
  "both_guard name check context = \<lparr>g_Name = name, g_Check = check, g_CheckWithContext = Some context\<rparr>"

definition without_context :: "(string \<Rightarrow> GuardResult) \<Rightarrow> context_check" where
  "without_context check content ctx = check content"

definition plain_guard :: "string \<Rightarrow> (string \<Rightarrow> GuardResult) \<Rightarrow> rat guard" where
  "plain_guard name check = both_guard name check (without_context check)"

definition execution_truth_check :: context_check where
  "execution_truth_check content ctx =
     (case ExecutionTruthGuard_CheckWithContext content ctx of Some r \<Rightarrow> r | None \<Rightarrow> pass_result)"

definition default_guards :: "rat guard list" where
  "default_guards =
     [text_guard ''empty_response'' EmptyResponseGuard_Check,
      context_guard ''subagent_claim'' SubagentClaimGuard_CheckWithContext,
      context_guard ''execution_truth'' execution_truth_check,
      context_guard ''action_verification'' ActionVerificationGuard_CheckWithContext,
      context_guard ''task_deferral'' TaskDeferralGuard_CheckWithContext,
      context_guard ''clarification_deflection'' ClarificationDeflectionGuard_CheckWithContext,
      context_guard ''output_contract'' OutputContractGuard_CheckWithContext,
      context_guard ''model_identity_truth'' ModelIdentityTruthGuard_CheckWithContext,
      both_guard ''current_events_truth'' CurrentEventsTruthGuard_Check CurrentEventsTruthGuard_CheckWithContext,
      both_guard ''literary_quote_retry'' LiteraryQuoteRetryGuard_Check LiteraryQuoteRetryGuard_CheckWithContext,
      plain_guard ''personality_integrity'' PersonalityIntegrityGuard_Check,
      context_guard ''internal_jargon'' InternalJargonGuard_CheckWithContext,
      context_guard ''non_repetition_v2'' NonRepetitionGuardV2_CheckWithContext,
      context_guard ''low_value_parroting'' LowValueParrotingGuard_CheckWithContext,
      context_guard ''perspective'' PerspectiveGuard_CheckWithContext,
      context_guard ''declared_action'' DeclaredActionGuard_CheckWithContext,
      context_guard ''user_echo'' UserEchoGuard_CheckWithContext,
      plain_guard ''internal_protocol'' InternalProtocolGuard_Check,
      text_guard ''placeholder_content'' PlaceholderContentGuard_Check,
      text_guard ''content_classification'' ContentClassificationGuard_Check,
      text_guard ''repetition'' (RepetitionGuard_Check 50),
      text_guard ''system_prompt_leak'' (SystemPromptLeakGuard_Check systemPromptMarkers),
      text_guard ''internal_marker'' (InternalMarkerGuard_Check internalMarkers),
      plain_guard ''execution_block'' ExecutionBlockGuard_Check,
      plain_guard ''delegation_metadata'' DelegationMetadataGuard_Check,
      both_guard ''filesystem_denial'' FilesystemDenialGuard_Check FilesystemDenialGuard_CheckWithContext,
      context_guard ''config_protection'' ConfigProtectionGuard_CheckWithContext,
      context_guard ''financial_action_truth'' FinancialActionTruthGuard_CheckWithContext]"

definition NewDefaultGuardRegistry :: "rat GuardRegistry" where
  "NewDefaultGuardRegistry = foldl (\<lambda>r g. Register_guard g r) [] default_guards"

section \<open>The context of a turn\<close>

text \<open>
  What \<^verbatim>\<open>buildGuardContext\<close> reads: the session and the database, from which come the names of the
  enabled subagents in order and the model selected last (both empty without a store or when a query
  fails).
\<close>

definition buildGuardContext :: "json_lib \<Rightarrow> string list \<Rightarrow> string \<Rightarrow> Session \<Rightarrow> rat GuardContext" where
  "buildGuardContext js subagents model s =
     (let msgs = messages s; isUser = (\<lambda>m. msg_Role m = ''user'');
          before = (if list_ex isUser msgs then rev (drop 1 (dropWhile (\<lambda>m. \<not> isUser m) (rev msgs))) else msgs);
          priors = map msg_Content (filter (\<lambda>m. msg_Role m = ''assistant'') before);
          results = currentTurnToolResults js (Some s);
          delegations = filter (\<lambda>tr. delegation_tool (tr_ToolName tr)) results
      in \<lparr>gx_UserPrompt = (case find isUser (rev msgs) of Some m \<Rightarrow> msg_Content m | None \<Rightarrow> []),
          gx_Intents = (let intent = trim_space (taskIntent s) in if intent \<noteq> [] then [intent] else [])
            @ (if trim_space (taskPlannedAction s) \<in> {''delegate_to_specialist'', ''compose_subagent''} then [''delegation''] else []),
          gx_ToolResults = results,
          gx_AgentName = s_AgentName s,
          gx_ResolvedModel = model,
          gx_PreviousAssistant = (if priors = [] then [] else List.last priors),
          gx_PriorAssistantMessages = priors,
          gx_SubagentNames = map to_lower (filter (\<lambda>n. trim_space n \<noteq> []) subagents),
          gx_SemanticScores = [],
          gx_DelegationProvenance =
            \<lparr>dp_SubagentTaskStarted = (delegations \<noteq> []), dp_SubagentTaskCompleted = (delegations \<noteq> []),
             dp_SubagentResultAttached = list_ex (\<lambda>tr. trim_space (tr_Output tr) \<noteq> []) delegations\<rparr>\<rparr>)"

text \<open>The score for financial claims in exact arithmetic; no guard reads it.\<close>

definition precomputeGuardScores :: "string \<Rightarrow> rat GuardContext \<Rightarrow> rat GuardContext" where
  "precomputeGuardScores content ctx =
     (let lower = to_lower content;
          c1 = (if gx_Intents ctx = [] \<and> gx_UserPrompt ctx \<noteq> []
                then ctx\<lparr>gx_Intents := [fst (Classify NewIntentRegistry (gx_UserPrompt ctx))]\<rparr> else ctx);
          financial = min 1 (of_nat (length (filter (contains lower) financialActionClaims)) / 5);
          s1 = m_put ''financial_claim'' financial (gx_SemanticScores c1);
          s2 = (if gx_PreviousAssistant c1 \<noteq> []
                then m_put ''prev_overlap'' (tokenOverlapRatio content (gx_PreviousAssistant c1)) s1 else s1);
          s3 = m_put ''identity_claim'' (if list_ex (contains lower) foreignIdentityMarkers then 1 else 0) s2
      in c1\<lparr>gx_SemanticScores := s3\<rparr>)"

section \<open>Fallback texts\<close>

definition guardFallbackTemplates :: "(string, string) gomap" where
  "guardFallbackTemplates =
     [(''empty_response'', apo ''I wasn`t able to generate a response to your request. Could you provide more detail about what you need?''),
      (''repetition'', ''I appear to be repeating myself. Let me try a fresh approach '' @ [CHR 0xE2, CHR 0x80, CHR 0x94]
         @ '' could you rephrase your question?''),
      (''system_prompt_leak'', apo ''I can`t share my system instructions. How else can I help you?''),
      (''content_classification'', apo ''I can`t assist with that particular request. Please ask something else.''),
      (''subagent_claim'', apo ''I wasn`t able to complete the delegation I mentioned. Let me try handling this directly instead.''),
      (''task_deferral'', apo ''I collected some information but didn`t take the action you requested. Let me try again with a more direct approach.''),
      (''clarification_deflection'', ''I asked you to restate context you had already provided. Let me answer directly from the information already in the conversation.''),
      (''internal_jargon'', apo ''My previous response contained technical details that aren`t relevant to you. Let me rephrase.''),
      (''declared_action'', ''I described your action without resolving it. Let me properly determine the outcome.''),
      (''non_repetition_v2'', ''I was repeating content from earlier in our conversation. Let me provide fresh information.''),
      (''execution_truth'', apo ''I made claims about tool execution that weren`t accurate. Let me verify what actually happened.''),
      (''financial_action_truth'', apo ''I claimed a financial action that wasn`t verified. Let me check the actual transaction status.''),
      (''action_verification'', apo ''The financial details I mentioned don`t match the actual results. Let me correct that.''),
      (''perspective'', ''I was narrating your actions instead of responding directly. Let me answer from my own perspective.''),
      (''literary_quote_retry'', ''I was relying too heavily on quoted material. Let me provide original, direct information instead.''),
      (''internal_protocol'', apo ''My response contained internal metadata that shouldn`t be visible. Let me clean that up.''),
      (''personality_integrity'', apo ''My response contained identity information that doesn`t match who I am. Let me correct that.'')]"

definition GetFallbackTemplate :: "string \<Rightarrow> string" where
  "GetFallbackTemplate guardName = (case m_get guardFallbackTemplates guardName of Some t \<Rightarrow> t | None \<Rightarrow> [])"

definition summarizeQuery :: "string \<Rightarrow> string" where
  "summarizeQuery q = (if length q \<le> 100 then q else take 100 q @ ''...'')"

text \<open>The session id of the outcome and its content.\<close>

definition fallbackResponse :: "Session \<Rightarrow> string \<Rightarrow> string \<Rightarrow> string \<Rightarrow> string \<times> string" where
  "fallbackResponse s rejected_text guardName reason =
     (s_ID s,
      let template = GetFallbackTemplate guardName;
          lastUserMsg = (case find (\<lambda>m. msg_Role m = ''user'') (rev (messages s)) of Some m \<Rightarrow> msg_Content m | None \<Rightarrow> [])
      in if template \<noteq> [] then template
         else if lastUserMsg \<noteq> []
         then ''I was working on your request but encountered a safety check ('' @ guardName
              @ ''). Could you try rephrasing? Your original question was about: '' @ summarizeQuery lastUserMsg
         else ''I encountered a safety check ('' @ guardName @ '': '' @ reason
              @ apo '') and couldn`t complete my response. Could you try rephrasing your request?'')"

section \<open>The chains of the default registry\<close>

lemma foldl_register_get:
  "m_get (foldl (\<lambda>r g. Register_guard g r) r gs) n =
     (case find (\<lambda>g. g_Name g = n) (rev gs) of Some g \<Rightarrow> Some g | None \<Rightarrow> m_get r n)"
  by (induction gs arbitrary: r rule: rev_induct) (auto simp: Register_guard_def)

lemma find_distinct:
  "distinct (map f xs) \<Longrightarrow> x \<in> set xs \<Longrightarrow> find (\<lambda>y. f y = f x) (rev xs) = Some x"
  by (induction xs rule: rev_induct) (auto simp: inj_on_def)

lemma default_names: "map g_Name default_guards = fullNames"
  by (simp add: default_guards_def fullNames_def text_guard_def context_guard_def both_guard_def plain_guard_def)

lemma full_names_distinct: "distinct fullNames"
  by code_simp

lemma default_registry_get:
  "m_get NewDefaultGuardRegistry n = find (\<lambda>g. g_Name g = n) (rev default_guards)"
  by (simp add: NewDefaultGuardRegistry_def foldl_register_get split: option.splits)

lemma default_registry_member:
  "g \<in> set default_guards \<Longrightarrow> m_get NewDefaultGuardRegistry (g_Name g) = Some g"
  by (simp add: default_registry_get find_distinct default_names full_names_distinct)

lemma default_registry_name:
  assumes "n \<in> set fullNames"
  obtains g where "m_get NewDefaultGuardRegistry n = Some g" and "g_Name g = n"
  using assms default_registry_member unfolding default_names [symmetric] by force

lemma map_filter_names:
  "set ns \<subseteq> set fullNames \<Longrightarrow> map g_Name (chainFromNames NewDefaultGuardRegistry ns) = ns"
  by (induction ns) (auto simp: chainFromNames_def List.map_filter_simps elim: default_registry_name)

lemma full_chain: "Chain NewDefaultGuardRegistry GuardSetFull = default_guards"
proof -
  have "List.map_filter (\<lambda>g. m_get NewDefaultGuardRegistry (g_Name g)) gs = gs" if "set gs \<subseteq> set default_guards" for gs
    using that by (induction gs) (simp_all add: List.map_filter_simps default_registry_member)
  then show ?thesis
    by (simp add: Chain_def chainFromNames_def default_names [symmetric] List.map_filter_def comp_def filter_map)
qed

lemma chainExcluding_none: "list_all (\<lambda>n. n \<notin> set exclude) ns \<Longrightarrow> chainExcluding exclude r ns = chainFromNames r ns"
  unfolding chainExcluding_def chainFromNames_def List.map_filter_def by (induction ns) simp_all

text \<open>
  The default registry has every guard the presets name: the full chain is the list of built-in
  guards in the order of their registration, the cached chain and the stream chain have a guard for
  each of their names, in order.
\<close>

theorem default_chains_complete:
  "Chain NewDefaultGuardRegistry GuardSetFull = default_guards
   \<and> map g_Name default_guards = fullNames
   \<and> map g_Name (Chain NewDefaultGuardRegistry GuardSetCached) = cachedNames
   \<and> map g_Name (Chain NewDefaultGuardRegistry GuardSetStream) = streamNames"
proof (intro conjI)
  have "list_all (\<lambda>n. n \<notin> set guardsExcludedFromCache) cachedNames" by code_simp
  then have "chainExcluding guardsExcludedFromCache NewDefaultGuardRegistry cachedNames = chainFromNames NewDefaultGuardRegistry cachedNames"
    by (rule chainExcluding_none)
  moreover have "set cachedNames \<subseteq> set fullNames" by code_simp
  ultimately show "map g_Name (Chain NewDefaultGuardRegistry GuardSetCached) = cachedNames"
    by (simp add: Chain_def map_filter_names)
  have "set streamNames \<subseteq> set fullNames" by code_simp
  then show "map g_Name (Chain NewDefaultGuardRegistry GuardSetStream) = streamNames"
    by (simp add: Chain_def map_filter_names)
qed (rule full_chain, rule default_names)

section \<open>What an answer that passed the chain looks like\<close>

definition guard_output :: "'f guard \<Rightarrow> 'f GuardContext option \<Rightarrow> string \<Rightarrow> string" where
  "guard_output g ctx content =
     (let gr = check_guard g ctx content in if gr_Passed gr \<or> gr_Content gr = [] then content else gr_Content gr)"

definition guard_retries :: "'f guard \<Rightarrow> 'f GuardContext option \<Rightarrow> string \<Rightarrow> bool" where
  "guard_retries g ctx content \<longleftrightarrow> \<not> gr_Passed (check_guard g ctx content) \<and> gr_Retry (check_guard g ctx content)"

lemma chain_step:
  assumes "\<not> ar_RetryRequested (apply_with_context ctx (g # gs) r)"
  obtains r' where "\<not> guard_retries g ctx (ar_Content r)" and "apply_with_context ctx (g # gs) r = apply_with_context ctx gs r'"
    and "ar_Content r' = guard_output g ctx (ar_Content r)" and "ar_RetryRequested r' = ar_RetryRequested r"
proof -
  let ?gr = "check_guard g ctx (ar_Content r)" and ?r = "r\<lparr>ar_Violations := ar_Violations r @ [g_Name g]\<rparr>"
  define r' where "r' = (if gr_Passed ?gr then r else if gr_Content ?gr \<noteq> [] then ?r\<lparr>ar_Content := gr_Content ?gr\<rparr> else ?r)"
  have "\<not> guard_retries g ctx (ar_Content r)" "apply_with_context ctx (g # gs) r = apply_with_context ctx gs r'"
    using assms by (simp_all add: apply_with_context.simps Let_def guard_retries_def r'_def split: if_splits)
  then show thesis by (rule that) (simp_all add: r'_def guard_output_def Let_def)
qed

lemma chain_content:
  "\<not> ar_RetryRequested (apply_with_context ctx gs r) \<Longrightarrow>
   ar_Content (apply_with_context ctx gs r) = fold (\<lambda>g. guard_output g ctx) gs (ar_Content r)"
  by (induction gs arbitrary: r) (simp, metis chain_step fold_simps(2))

lemma chain_no_retry:
  "\<not> ar_RetryRequested (apply_with_context ctx (pre @ g # post) r) \<Longrightarrow>
   \<not> guard_retries g ctx (fold (\<lambda>g. guard_output g ctx) pre (ar_Content r))"
  by (induction pre arbitrary: r) (simp, metis chain_step, metis append_Cons chain_step fold_simps(2))

lemma fold_output_invariant:
  "P c \<Longrightarrow> (\<And>g x. g \<in> set gs \<Longrightarrow> P x \<Longrightarrow> P (guard_output g ctx x)) \<Longrightarrow> P (fold (\<lambda>g. guard_output g ctx) gs c)"
  by (induction gs arbitrary: c) simp_all

text \<open>What one guard establishes and the later ones keep holds of the answer of the chain.\<close>

lemma chain_establishes:
  assumes "\<not> ar_RetryRequested (apply_with_context ctx (pre @ g # post) (start_result content))"
    and "\<And>x. \<not> guard_retries g ctx x \<Longrightarrow> P (guard_output g ctx x)"
    and "\<And>h x. h \<in> set post \<Longrightarrow> P x \<Longrightarrow> P (guard_output h ctx x)"
  shows "P (ar_Content (apply_with_context ctx (pre @ g # post) (start_result content)))"
proof -
  from chain_no_retry [OF assms(1)] assms(2)
  have "P (guard_output g ctx (fold (\<lambda>g. guard_output g ctx) pre (ar_Content (start_result content))))" by blast
  then have "P (fold (\<lambda>g. guard_output g ctx) post (guard_output g ctx (fold (\<lambda>g. guard_output g ctx) pre (ar_Content (start_result content)))))"
    by (rule fold_output_invariant) (rule assms(3))
  then show ?thesis by (simp add: chain_content [OF assms(1)])
qed

text \<open>Markers and sentences.\<close>

lemma contains_sep:
  "contains (u @ c # v) m \<Longrightarrow> c \<notin> set m \<Longrightarrow> contains u m \<or> contains v m"
proof (induction u)
  case Nil
  then show ?case by (cases m) (auto simp: has_prefix_def)
next
  case (Cons x u)
  show ?case
  proof (cases "has_prefix (x # u @ c # v) m")
    case True
    then obtain w where w: "x # u @ c # v = m @ w" by (auto simp: has_prefix_iff)
    then have "take (length m) (x # u @ c # v) = m" by simp
    moreover have "length m \<le> length (x # u)"
    proof (rule ccontr)
      assume "\<not> length m \<le> length (x # u)"
      then have "m ! length (x # u) = (x # u @ c # v) ! length (x # u)" using w by (simp add: nth_append)
      also have "\<dots> = c" by (simp add: nth_append)
      finally show False using Cons.prems(2) \<open>\<not> length m \<le> length (x # u)\<close> by (metis not_le nth_mem)
    qed
    ultimately have "has_prefix (x # u) m" unfolding has_prefix_def by (cases m) auto
    then show ?thesis by simp
  qed (use Cons in simp)
qed

text \<open>A marker without a full stop that does not start with a blank lies within one sentence.\<close>

definition sentence_marker :: "string \<Rightarrow> bool" where
  "sentence_marker m \<longleftrightarrow> CHR ''.'' \<notin> set m \<and> m \<noteq> [] \<and> hd m \<noteq> CHR '' ''"

lemma contains_join_sentences:
  "contains (str_join ''. '' ws) m \<Longrightarrow> sentence_marker m \<Longrightarrow> list_ex (\<lambda>w. contains w m) ws"
proof (induction ws rule: induct_list012)
  case (3 w v ws)
  from contains_sep [of w "CHR ''.''" "'' '' @ str_join ''. '' (v # ws)" m] 3
  have "contains w m \<or> contains (CHR '' '' # str_join ''. '' (v # ws)) m" by (simp add: sentence_marker_def)
  then show ?case
  proof
    assume "contains (CHR '' '' # str_join ''. '' (v # ws)) m"
    moreover from 3(4) have "\<not> has_prefix (CHR '' '' # str_join ''. '' (v # ws)) m"
      unfolding sentence_marker_def by (cases m) (auto simp: has_prefix_def)
    ultimately show ?thesis using 3 by simp
  qed simp
qed (simp_all add: sentence_marker_def)

lemma to_lower_join: "to_lower (str_join sep ws) = str_join (to_lower sep) (map to_lower ws)"
  by (induction sep ws rule: str_join.induct) (simp_all add: to_lower_def)

lemma join_sentences_clean:
  "list_all sentence_marker markers \<Longrightarrow> list_all (\<lambda>w. \<not> has_marker markers w) ws \<Longrightarrow> \<not> has_marker markers (str_join ''. '' ws)"
proof
  assume markers: "list_all sentence_marker markers" and ws: "list_all (\<lambda>w. \<not> has_marker markers w) ws"
    and "has_marker markers (str_join ''. '' ws)"
  then obtain m where m: "m \<in> set markers" "contains (to_lower (str_join ''. '' ws)) m" by (auto simp: has_marker_def list_ex_iff)
  have sep: "to_lower ''. '' = ''. ''" by code_simp
  from m markers have "list_ex (\<lambda>w. contains w m) (map to_lower ws)"
    unfolding to_lower_join sep by (intro contains_join_sentences) (auto simp: list_all_iff)
  with ws m(1) show False by (auto simp: has_marker_def list_ex_iff list_all_iff)
qed

lemma stripped_clean:
  "list_all sentence_marker markers \<Longrightarrow> \<not> has_marker markers (stripSentencesContaining s markers)"
  unfolding stripSentencesContaining_def by (rule join_sentences_clean) (simp_all add: list_all_iff)

lemma contains_join_part: "w \<in> set ws \<Longrightarrow> contains (str_join sep ws) w"
proof (induction sep ws rule: str_join.induct)
  case (3 sep x y ws)
  have "contains (x @ sep @ str_join sep (y # ws)) x" using contains_append [of x x "[]"] by simp
  moreover have "contains (x @ sep @ str_join sep (y # ws)) w" if "contains (str_join sep (y # ws)) w"
    using contains_append [OF that, of "x @ sep" "[]"] by simp
  ultimately show ?case using 3 by auto
qed simp_all

lemma contains_lower: "contains s w \<Longrightarrow> contains (to_lower s) (to_lower w)"
  unfolding contains_iff to_lower_def by (metis map_append)

text \<open>Stripping sentences for one list of markers does not bring in another marker.\<close>

lemma stripping_keeps_clean:
  assumes "list_all sentence_marker markers" and "\<not> has_marker markers s"
  shows "\<not> has_marker markers (stripSentencesContaining s other)"
proof -
  have part: "contains s w" if "w \<in> set (str_split ''. '' s)" for w
    using that join_str_split [of "''. ''" s] by (metis contains_join_part)
  have "\<not> has_marker markers w" if "w \<in> set (str_split ''. '' s)" for w
    using part [OF that] assms(2) unfolding has_marker_def list_ex_iff by (metis contains_lower contains_trans)
  then show ?thesis
    unfolding stripSentencesContaining_def by (intro join_sentences_clean assms(1)) (auto simp: list_all_iff)
qed

lemmas guard_results = pass_result_def passed_def rejected_def retry_for_def retry_verdict_def rewritten_def

lemma plain_guard_output:
  assumes "g = plain_guard name (strip_check markers reason)"
  shows "guard_output g ctx x \<in> {x, stripSentencesContaining x markers}"
    and "\<not> guard_retries g ctx x \<Longrightarrow> list_all sentence_marker markers \<Longrightarrow> \<not> has_marker markers (guard_output g ctx x)"
proof -
  have "check_guard g ctx x = strip_check markers reason x"
    by (simp add: assms check_guard_def plain_guard_def both_guard_def without_context_def split: option.splits)
  then show "guard_output g ctx x \<in> {x, stripSentencesContaining x markers}"
    and "\<not> guard_retries g ctx x \<Longrightarrow> list_all sentence_marker markers \<Longrightarrow> \<not> has_marker markers (guard_output g ctx x)"
    by (auto simp: guard_output_def guard_retries_def strip_check_def guard_results Let_def stripped_clean trim_space_def
        split: if_splits)
qed

lemma filesystem_guard_output:
  "guard_output (both_guard name FilesystemDenialGuard_Check FilesystemDenialGuard_CheckWithContext) ctx x
     \<in> {x, stripSentencesContaining x filesystemDenialPatterns}"
  by (simp add: guard_output_def check_guard_def both_guard_def FilesystemDenialGuard_CheckWithContext_def
      FilesystemDenialGuard_Check_def strip_check_def guard_results Let_def split: option.splits)

lemma config_guard_output:
  "guard_output (context_guard name ConfigProtectionGuard_CheckWithContext) ctx x
     \<in> {x, ''I cannot modify security-sensitive configuration settings through tool calls.''}"
  by (auto simp: guard_output_def check_guard_def context_guard_def ConfigProtectionGuard_CheckWithContext_def guard_results Let_def
      split: option.splits list.splits)

lemma financial_guard_output:
  "guard_output (context_guard name FinancialActionTruthGuard_CheckWithContext) ctx x = x"
  by (simp add: guard_output_def check_guard_def context_guard_def FinancialActionTruthGuard_CheckWithContext_def guard_results Let_def
      split: option.splits)

definition last_guards :: "rat guard list" where
  "last_guards = [plain_guard ''delegation_metadata'' DelegationMetadataGuard_Check,
      both_guard ''filesystem_denial'' FilesystemDenialGuard_Check FilesystemDenialGuard_CheckWithContext,
      context_guard ''config_protection'' ConfigProtectionGuard_CheckWithContext,
      context_guard ''financial_action_truth'' FinancialActionTruthGuard_CheckWithContext]"

lemma default_guards_split:
  "default_guards = take 23 default_guards @ plain_guard ''execution_block'' ExecutionBlockGuard_Check # last_guards"
  by (simp add: default_guards_def last_guards_def)

lemma last_guards_keep_clean:
  assumes "h \<in> set last_guards" and "list_all sentence_marker markers" and "\<not> has_marker markers x"
    and "\<not> has_marker markers ''I cannot modify security-sensitive configuration settings through tool calls.''"
  shows "\<not> has_marker markers (guard_output h ctx x)"
  using assms(1) stripping_keeps_clean [OF assms(2,3)] assms(3,4) plain_guard_output(1) [OF refl, of _ _ _ ctx x]
    filesystem_guard_output [of _ ctx x] config_guard_output [of _ ctx x] financial_guard_output [of _ ctx x]
  unfolding last_guards_def DelegationMetadataGuard_Check_def [abs_def] list.set insert_iff empty_iff by metis

text \<open>The answer of the full chain with a context.\<close>

definition full_chain_result :: "string \<Rightarrow> rat GuardContext \<Rightarrow> ApplyResult" where
  "full_chain_result content ctx =
     ApplyFullWithContext precomputeGuardScores (Chain NewDefaultGuardRegistry GuardSetFull) content (Some ctx)"

lemma full_chain_result_eq:
  "full_chain_result content ctx = apply_with_context (Some (precomputeGuardScores content ctx)) default_guards (start_result content)"
  by (simp add: full_chain_result_def ApplyFullWithContext_def full_chain)

lemma precompute_results: "gx_ToolResults (precomputeGuardScores content ctx) = gx_ToolResults ctx"
  by (simp add: precomputeGuardScores_def Let_def)

lemma full_chain_establishes:
  assumes "\<not> ar_RetryRequested (full_chain_result content ctx)" and "default_guards = pre @ g # post"
    and "\<And>x. \<not> guard_retries g (Some (precomputeGuardScores content ctx)) x \<Longrightarrow> P (guard_output g (Some (precomputeGuardScores content ctx)) x)"
    and "\<And>h x. h \<in> set post \<Longrightarrow> P x \<Longrightarrow> P (guard_output h (Some (precomputeGuardScores content ctx)) x)"
  shows "P (ar_Content (full_chain_result content ctx))"
  unfolding full_chain_result_eq assms(2)
  by (rule chain_establishes) (use assms in \<open>simp_all add: full_chain_result_eq\<close>)

lemma execution_block_clean:
  assumes "\<not> ar_RetryRequested (full_chain_result content ctx)"
  shows "\<not> has_marker execBlockPatterns (ar_Content (full_chain_result content ctx))"
proof (rule full_chain_establishes [OF assms default_guards_split])
  have markers: "list_all sentence_marker execBlockPatterns" by code_simp
  show "\<not> has_marker execBlockPatterns (guard_output (plain_guard ''execution_block'' ExecutionBlockGuard_Check) c x)"
    if "\<not> guard_retries (plain_guard ''execution_block'' ExecutionBlockGuard_Check) c x" for c x
    by (rule plain_guard_output(2) [OF _ that markers]) (simp add: ExecutionBlockGuard_Check_def [abs_def])
  have "\<not> has_marker execBlockPatterns ''I cannot modify security-sensitive configuration settings through tool calls.''"
    by code_simp
  then show "\<not> has_marker execBlockPatterns (guard_output h c x)"
    if "h \<in> set last_guards" "\<not> has_marker execBlockPatterns x" for h c x
    using last_guards_keep_clean [OF that(1) markers that(2)] by blast
qed

lemma delegation_metadata_clean:
  assumes "\<not> ar_RetryRequested (full_chain_result content ctx)"
  shows "\<not> has_marker delegationMetadataPatterns (ar_Content (full_chain_result content ctx))"
proof (rule full_chain_establishes [OF assms])
  have markers: "list_all sentence_marker delegationMetadataPatterns" by code_simp
  show "default_guards = (take 23 default_guards @ [plain_guard ''execution_block'' ExecutionBlockGuard_Check])
      @ hd last_guards # tl last_guards"
    by (subst default_guards_split) (simp add: last_guards_def)
  show "\<not> has_marker delegationMetadataPatterns (guard_output (hd last_guards) c x)" if "\<not> guard_retries (hd last_guards) c x" for c x
    by (rule plain_guard_output(2) [OF _ that markers]) (simp add: DelegationMetadataGuard_Check_def [abs_def] last_guards_def)
  have "\<not> has_marker delegationMetadataPatterns ''I cannot modify security-sensitive configuration settings through tool calls.''"
    by code_simp
  then show "\<not> has_marker delegationMetadataPatterns (guard_output h c x)"
    if "h \<in> set (tl last_guards)" "\<not> has_marker delegationMetadataPatterns x" for h c x
    using last_guards_keep_clean [OF _ markers that(2)] list.set_sel(2) [OF _ that(1)] that(1)
    by (cases "last_guards = []") auto
qed

text \<open>
  C6. An answer the full chain accepts, that is for which no guard asks for a retry, carries no false claim that
  nothing was executed and no delegation metadata, in any mixture of upper and lower case, whatever the model wrote
  and whatever the guards after the stripping ones rewrote. An answer that is rejected and still delivered because
  the retries ran out or were refused (\<open>Guards.retry_loop_outcome\<close>) has passed the guards before the rejecting one
  only, and the theorem says nothing of it.
\<close>

theorem accepted_answer_is_clean:
  assumes "\<not> ar_RetryRequested (full_chain_result content ctx)"
  shows "\<not> has_marker execBlockPatterns (ar_Content (full_chain_result content ctx))
    \<and> \<not> has_marker delegationMetadataPatterns (ar_Content (full_chain_result content ctx))"
  using execution_block_clean [OF assms] delegation_metadata_clean [OF assms] by blast

text \<open>
  C5. An answer that claims a financial action, such as a payment or a transfer, leaves the full chain
  without a retry only when a financial tool was called in the turn and no call of a financial tool
  failed or was denied.
\<close>

theorem financial_claims_are_backed:
  assumes "\<not> ar_RetryRequested (full_chain_result content ctx)"
    and "list_ex (contains (to_lower (ar_Content (full_chain_result content ctx)))) financialActionClaims"
  shows "filter financial_tool (gx_ToolResults ctx) \<noteq> []
    \<and> list_all (\<lambda>tr. \<not> toolResultSignalsFailure tr) (filter financial_tool (gx_ToolResults ctx))"
proof -
  let ?g = "context_guard ''financial_action_truth'' FinancialActionTruthGuard_CheckWithContext"
  have split: "default_guards = take 27 default_guards @ ?g # []" by (simp add: default_guards_def)
  have "\<not> list_ex (contains (to_lower (ar_Content (full_chain_result content ctx)))) financialActionClaims
    \<or> filter financial_tool (gx_ToolResults ctx) \<noteq> [] \<and> \<not> list_ex toolResultSignalsFailure (filter financial_tool (gx_ToolResults ctx))"
    by (rule full_chain_establishes [OF assms(1) split], unfold financial_guard_output)
      (auto simp: guard_retries_def check_guard_def context_guard_def precompute_results
        FinancialActionTruthGuard_CheckWithContext_def guard_results Let_def split: if_splits)
  with assms(2) show ?thesis by (simp add: list_ex_iff list_all_iff)
qed

section \<open>Repetition\<close>

lemma common_prefix_ge: "n \<le> common_prefix a b \<longleftrightarrow> n \<le> length a \<and> n \<le> length b \<and> take n a = take n b"
  by (induction a b arbitrary: n rule: common_prefix.induct) (auto simp: take_Cons split: nat.splits)

lemma ex_suffix_Cons: "(\<exists>p q. y # ys = p @ q \<and> Q q) \<longleftrightarrow> Q (y # ys) \<or> (\<exists>p q. ys = p @ q \<and> Q q)"
  by (auto simp: Cons_eq_append_conv)

lemma lcs_row_ge:
  "n \<le> lcs_row a b best \<longleftrightarrow> n \<le> best \<or> (\<exists>p q. b = p @ q \<and> (q \<noteq> [] \<and> n \<le> common_prefix a q))"
proof (induction b arbitrary: best)
  case (Cons y ys)
  show ?case unfolding ex_suffix_Cons using Cons.IH by (cases "best < common_prefix a (y # ys)") (auto simp: Let_def)
qed simp

lemma lcs_rows_ge:
  "n \<le> lcs_rows a b best \<longleftrightarrow>
   n \<le> best \<or> (\<exists>p q. a = p @ q \<and> (q \<noteq> [] \<and> (\<exists>p' q'. b = p' @ q' \<and> (q' \<noteq> [] \<and> n \<le> common_prefix q q'))))"
proof (induction a arbitrary: best)
  case (Cons x xs)
  show ?case unfolding ex_suffix_Cons using Cons.IH by (simp add: lcs_row_ge)
qed simp

text \<open>The nested loops find the longest run of words that occurs in both texts.\<close>

lemma longest_common_run:
  assumes "0 < n"
  shows "n \<le> longestCommonSubseq a b \<longleftrightarrow> (\<exists>w. length w = n \<and> sublist w a \<and> sublist w b)"
proof
  assume "n \<le> longestCommonSubseq a b"
  with assms obtain p q p' q' where a: "a = p @ q" and b: "b = p' @ q'" and n: "n \<le> common_prefix q q'"
    by (auto simp: longestCommonSubseq_def lcs_rows_ge)
  then have "a = p @ take n q @ drop n q" "b = p' @ take n q @ drop n q'" "length (take n q) = n"
    by (simp_all add: common_prefix_ge) (metis append_take_drop_id)+
  then show "\<exists>w. length w = n \<and> sublist w a \<and> sublist w b" by (metis sublist_appendI)
next
  assume "\<exists>w. length w = n \<and> sublist w a \<and> sublist w b"
  then obtain w p q p' q' where w: "length w = n" and a: "a = p @ w @ q" and b: "b = p' @ w @ q'"
    by (auto simp: sublist_def)
  then have "n \<le> common_prefix (w @ q) (w @ q')" by (simp add: common_prefix_ge)
  moreover have "w @ q \<noteq> []" "w @ q' \<noteq> []" using w assms by auto
  ultimately show "n \<le> longestCommonSubseq a b" unfolding longestCommonSubseq_def lcs_rows_ge a b by blast
qed

text \<open>
  The echo guard asks for a retry exactly when the prompt has at least forty bytes and some eight
  consecutive words of it occur, in the same order and regardless of case, consecutively in the answer.
\<close>

theorem user_echo_exact:
  "gr_Retry (UserEchoGuard_CheckWithContext content ctx) \<longleftrightarrow>
     40 \<le> length (gx_UserPrompt ctx)
     \<and> (\<exists>w. length w = 8 \<and> sublist w (str_fields (to_lower (gx_UserPrompt ctx))) \<and> sublist w (str_fields (to_lower content)))"
  unfolding UserEchoGuard_CheckWithContext_def
  using longest_common_run [of 8 "str_fields (to_lower (gx_UserPrompt ctx))" "str_fields (to_lower content)"]
  by (auto simp: guard_results)

section \<open>Examples\<close>

text \<open>A context with a prompt and the results of the turn.\<close>

definition demo_context :: "string \<Rightarrow> ToolResultEntry list \<Rightarrow> rat GuardContext" where
  "demo_context prompt results =
     \<lparr>gx_UserPrompt = prompt, gx_Intents = [''task''], gx_ToolResults = results, gx_AgentName = ''Robo'', gx_ResolvedModel = [],
      gx_PreviousAssistant = [], gx_PriorAssistantMessages = [], gx_SubagentNames = [], gx_SemanticScores = [],
      gx_DelegationProvenance = \<lparr>dp_SubagentTaskStarted = False, dp_SubagentTaskCompleted = False,
        dp_SubagentResultAttached = False\<rparr>\<rparr>"

definition demo_result :: "string \<Rightarrow> string \<Rightarrow> ToolResultEntry" where
  "demo_result name output = \<lparr>tr_ToolName = name, tr_Output = output, tr_Metadata = [], tr_ArtifactProof = None,
     tr_ReadProof = None, tr_Inspection = None\<rparr>"

theorem accepted_answer_is_clean_witness:
  "ar_Violations (full_chain_result ''Done. I did not execute a TOOL. Bye'' (demo_context ''say bye'' [])) = [''execution_block'']
   \<and> ar_Content (full_chain_result ''Done. I did not execute a TOOL. Bye'' (demo_context ''say bye'' [])) = ''Done. Bye''
   \<and> \<not> has_marker execBlockPatterns (ar_Content (full_chain_result ''Done. I did not execute a TOOL. Bye'' (demo_context ''say bye'' [])))"
proof -
  have "full_chain_result ''Done. I did not execute a TOOL. Bye'' (demo_context ''say bye'' []) =
      \<lparr>ar_Content = ''Done. Bye'', ar_RetryRequested = False, ar_RetryReason = [], ar_Violations = [''execution_block'']\<rparr>"
    unfolding full_chain_result_eq by code_simp
  with accepted_answer_is_clean [of "''Done. I did not execute a TOOL. Bye''" "demo_context ''say bye'' []"] show ?thesis by simp
qed

theorem financial_claims_are_backed_witness:
  "ar_Content (full_chain_result ''I paid the rent'' (demo_context ''pay rent'' [demo_result ''send_payment'' ''sent'']))
     = ''I paid the rent''
   \<and> filter financial_tool (gx_ToolResults (demo_context ''pay rent'' [demo_result ''send_payment'' ''sent''])) \<noteq> []"
proof -
  have res: "full_chain_result ''I paid the rent'' (demo_context ''pay rent'' [demo_result ''send_payment'' ''sent'']) =
      \<lparr>ar_Content = ''I paid the rent'', ar_RetryRequested = False, ar_RetryReason = [], ar_Violations = []\<rparr>"
    unfolding full_chain_result_eq by code_simp
  moreover have "list_ex (contains (to_lower ''I paid the rent'')) financialActionClaims" by code_simp
  ultimately show ?thesis
    using financial_claims_are_backed [of "''I paid the rent''" "demo_context ''pay rent'' [demo_result ''send_payment'' ''sent'']"]
    by (simp only: ApplyResult.select_convs simp_thms)
qed

text \<open>
  The guard against foreign identities comes before the one that removes internal markers, and
  removing a marker can put together the phrase the first one looks for.
\<close>

theorem foreign_identity_reassembled:
  "full_chain_result ''As an AI lang[INTERNAL]uage model, no'' (demo_context ''hi'' []) =
     \<lparr>ar_Content = ''As an AI language model, no'', ar_RetryRequested = False, ar_RetryReason = [],
      ar_Violations = [''internal_marker'']\<rparr>
   \<and> has_marker foreignIdentityMarkers ''As an AI language model, no''"
  unfolding full_chain_result_eq by code_simp

text \<open>
  An answer of internal markers only is rewritten to nothing, and the chain keeps the original for an
  empty rewrite.
\<close>

theorem marker_only_answer_survives:
  "full_chain_result ''[INTERNAL]'' (demo_context ''hi'' []) =
     \<lparr>ar_Content = ''[INTERNAL]'', ar_RetryRequested = False, ar_RetryReason = [], ar_Violations = [''internal_marker'']\<rparr>"
  unfolding full_chain_result_eq by code_simp

definition ten_items :: string where
  "ten_items = str_join [CHR 0x0A] (map (\<lambda>i. show_nat i @ ''. x'') [1, 2, 3, 4, 5, 6, 7, 8, 9, 10])"

text \<open>
  A numbered list of ten items, as requested, is rejected: the tenth line has two digits and is not
  counted.
\<close>

theorem ten_item_list_rejected:
  "OutputContractGuard_CheckWithContext ten_items (demo_context ''list 10 items'' []) =
     retry_for ''requested 10 items but response has 9''"
  by code_simp

section \<open>Branches that are never taken\<close>

lemma build_context_intents:
  "list_all (\<lambda>i. i \<in> set task_intents \<or> i = ''delegation'')
     (gx_Intents (buildGuardContext js subagents model (s\<lparr>taskIntent := intent\<rparr>)))"
  if "intent \<in> set task_intents"
proof -
  have "trim_space intent = intent" if "intent \<in> set task_intents" for intent
    using that by (auto simp: task_intents_def trim_space_def is_space_def)
  with that show ?thesis by (simp add: buildGuardContext_def Let_def)
qed

lemma precompute_scores:
  "c \<notin> {''financial_claim'', ''prev_overlap'', ''identity_claim''} \<Longrightarrow>
   m_get (gx_SemanticScores (precomputeGuardScores content ctx)) c = m_get (gx_SemanticScores ctx) c"
  unfolding precomputeGuardScores_def Let_def by simp

lemma build_context_scores: "gx_SemanticScores (buildGuardContext js subagents model s) = []"
  by (simp add: buildGuardContext_def Let_def)

text \<open>
  In a turn whose intent the task synthesis set, the guard against outdated knowledge lets every
  answer pass, because no classification yields its intent, and no guard ever sees a classifier score:
  the precomputation sets three scores, none of which is a category of the classifier. So an answer is
  judged by its phrases only.
\<close>

theorem unreachable_guard_branches:
  "pred_option (\<lambda>ts.
     let ctx = precomputeGuardScores scored (buildGuardContext js subagents model (s\<lparr>taskIntent := ts_Intent ts\<rparr>))
     in CurrentEventsTruthGuard_CheckWithContext content ctx = pass_result
        \<and> list_all (\<lambda>c. m_get (gx_SemanticScores ctx) c = None) (map fst guard_thresholds))
     (SynthesizeTaskState prompt sessionTurns agentSkills)"
proof (cases "SynthesizeTaskState prompt sessionTurns agentSkills")
  case (Some ts)
  let ?c0 = "buildGuardContext js subagents model (s\<lparr>taskIntent := ts_Intent ts\<rparr>)"
  let ?ctx = "precomputeGuardScores scored ?c0"
  have "ts_Intent ts \<in> set task_intents" using synthesis_ok_Some [OF Some] by (simp add: synthesis_ok_def)
  note intents = build_context_intents [OF this, of js subagents model s]
  have "gx_Intents ?ctx = gx_Intents ?c0 \<or> gx_Intents ?ctx = [fst (Classify NewIntentRegistry (gx_UserPrompt ?c0))]"
    by (simp add: precomputeGuardScores_def Let_def)
  moreover have "''current_events'' \<notin> set task_intents" "''current_events'' \<notin> set keyword_intents" by code_simp+
  ultimately have "''current_events'' \<notin> set (gx_Intents ?ctx)"
    using intents Classify_default_range [of "gx_UserPrompt ?c0"] by (auto simp: list_all_iff)
  then have "CurrentEventsTruthGuard_CheckWithContext content ?ctx = pass_result"
    by (auto simp: CurrentEventsTruthGuard_CheckWithContext_def HasIntent_def list_ex_iff)
  moreover have "list_all (\<lambda>c. m_get (gx_SemanticScores ?ctx) c = None) (map fst guard_thresholds)"
    by (simp add: guard_thresholds_def precompute_scores build_context_scores)
  ultimately show ?thesis using Some by (simp add: Let_def)
qed simp

end
