(* ===== verification/Verifier.thy ===== *)
theory Verifier
  imports GuardRules
begin

text \<open>
  The response verifier of the pipeline: \<^verbatim>\<open>internal/pipeline/verifier.go\<close>, the claim checks of
  \<^verbatim>\<open>verifier_claims.go\<close>, the retry guidance of \<^verbatim>\<open>verifier_retry_guidance.go\<close>, the certainty labels of
  \<^verbatim>\<open>verifier_classifier.go\<close> and the directives of \<^verbatim>\<open>format_directives.go\<close>. An answer is split into claims,
  each claim gets a certainty and the proof it owes, and every check that objects adds an issue with a
  code. The embedding classifier is a parameter: it gives a label for a sentence or fails (\<open>None\<close>). A
  prompt on which the parser of artifact expectations panics makes the verifier panic (\<open>None\<close>). A
  backquote in a literal stands for an apostrophe (\<open>GuardRules.apo\<close>).
\<close>

section \<open>Format directives\<close>

definition directive_lead :: rx where
  "directive_lead = RSeq (ropt (RChar (\<lambda>c. c = CHR '','' \<or> c = CHR '';''))) (rstar rspace)"

definition directive_rest :: rx where
  "directive_rest = rplus (RChar (\<lambda>c. c \<notin> set ''.;!?''))"

definition outputShapeDirectivePatterns :: "rx list" where
  "outputShapeDirectivePatterns =
     [rseq [directive_lead, rlit_i ''return only '', directive_rest],
      rseq [directive_lead, rlit_i ''reply '', ropt (rlit_i ''with ''), rlit_i ''only '', directive_rest],
      rseq [directive_lead, rlit_i ''reply on one line''],
      rseq [directive_lead, rlit_i ''respond on one line''],
      rseq [directive_lead, rlit_i ''answer in one sentence'']]"

definition trailing_and :: rx where
  "trailing_and = rseq [RWordB, rlit_i ''and'', rstar rspace, ropt (RGroup 1 (RChar (\<lambda>c. c \<in> set ''.?!''))), REndText]"

definition stripOutputShapeDirectives :: "string \<Rightarrow> string" where
  "stripOutputShapeDirectives s =
     (let trimmed = trim_space s in
      if trimmed = [] then []
      else let t1 = foldl (\<lambda>t pattern. rx_replace_all pattern t []) trimmed outputShapeDirectivePatterns;
               t2 = rx_replace_all trailing_and t1 []
           in trim_chars '' ,;:.!?'' (trim_space t2))"

definition normalizeSemanticSubgoals :: "string list \<Rightarrow> string list" where
  "normalizeSemanticSubgoals goals =
     first_by (\<lambda>t. to_lower (trim_space t)) {} (filter (\<lambda>t. t \<noteq> []) (map stripOutputShapeDirectives goals))"

section \<open>Results and context\<close>

record VerificationIssue =
  vi_Code :: string
  vi_Detail :: string

record ClaimAudit =
  ca_Sentence :: string
  ca_Certainty :: string
  ca_CertaintyUpgraded :: bool
  ca_Supported :: bool
  ca_Anchored :: bool
  ca_Reconciled :: bool
  ca_Contested :: bool
  ca_ProofSatisfied :: bool
  ca_IssueCode :: string
  ca_KeywordHits :: nat
  ca_ProofRequired :: "string list"
  ca_MissingProof :: "string list"

record VerificationResult =
  vr_Passed :: bool
  vr_Issues :: "VerificationIssue list"
  vr_ClaimAudits :: "ClaimAudit list"

definition HasIssue :: "VerificationResult \<Rightarrow> string \<Rightarrow> bool" where
  "HasIssue vr code \<longleftrightarrow> list_ex (\<lambda>i. vi_Code i = code) (vr_Issues vr)"

definition HasAnyIssue :: "VerificationResult \<Rightarrow> string list \<Rightarrow> bool" where
  "HasAnyIssue vr codes \<longleftrightarrow> list_ex (\<lambda>i. vi_Code i \<in> set codes) (vr_Issues vr)"

record VerificationContext =
  vc_UserPrompt :: string
  vc_Intent :: string
  vc_Complexity :: string
  vc_PlannedAction :: string
  vc_Intents :: "string list"
  vc_MemoryContext :: string
  vc_HasEvidence :: bool
  vc_HasGaps :: bool
  vc_HasFreshnessRisk :: bool
  vc_HasContradictions :: bool
  vc_HasCanonicalEvidence :: bool
  vc_MemoryGapKind :: MemoryGapKind
  vc_MissingMemoryTiers :: "string list"
  vc_MemoryConfidence :: int
  vc_PolicySensitive :: bool
  vc_RequiresFreshness :: bool
  vc_RequiresActionPlan :: bool
  vc_Subgoals :: "string list"
  vc_EvidenceItems :: "string list"
  vc_Contradictions :: "ContradictionEvidence list"
  vc_ToolResults :: "ToolResultEntry list"
  vc_ArtifactProofs :: "artifact_proof list"
  vc_SourceArtifactProofs :: "artifact_read_proof list"
  vc_InspectionProofs :: "inspection_proof list"
  vc_ExpectedArtifacts :: "ExpectedArtifactSpec list"
  vc_SourceArtifacts :: "string list"
  vc_ArtifactConformance :: ArtifactConformance
  vc_SourceConformance :: SourceArtifactConformance
  vc_UnresolvedQuestions :: "string list"
  vc_VerifiedConclusions :: "string list"
  vc_StoppingCriteria :: "string list"
  vc_CertaintyClassifier :: "(string \<Rightarrow> string option) option"

section \<open>Keywords\<close>

definition keyword_stop :: "string list" where
  "keyword_stop = [''the'', ''and'', ''for'', ''with'', ''that'', ''this'', ''from'', ''into'', ''what'', ''when'', ''where'', ''which'',
     ''why'', ''how'', ''please'', ''about'', ''again'', ''then'', ''need'', ''want'', ''does'', ''have'', ''your'', ''our'',
     ''create'', ''report'', ''write'', ''summarize'', ''summary'', ''tell'', ''exactly'', ''describe'', ''discover'', ''current'',
     ''use'', ''using'', ''provide'', ''give'', ''show'', ''return'', ''order'', ''explains'', ''explain'', ''propose'', ''proposed'']"

definition keyword_trim :: string where
  "keyword_trim = ''.,:;!?()[]{}'' @ [CHR 0x22, CHR 0x27]"

definition verificationKeywords :: "string \<Rightarrow> string list" where
  "verificationKeywords goal =
     filter (\<lambda>t. length t \<ge> 4 \<and> t \<notin> set keyword_stop) (map (trim_chars keyword_trim) (str_fields (to_lower goal)))"

definition verificationStemKeyword :: "string \<Rightarrow> string" where
  "verificationStemKeyword token0 =
     (let token = trim_space (to_lower token0) in
      if length token < 4 then token
      else if has_suffix token ''ing'' \<and> length token > 5 then trim_suffix token ''ing''
      else if has_suffix token ''ed'' \<and> length token > 4
      then (let trimmed = trim_suffix token ''ed'' in if \<not> has_suffix trimmed ''e'' then trimmed @ ''e'' else trimmed)
      else if has_suffix token ''s'' \<and> \<not> has_suffix token ''ss'' \<and> length token > 4 then trim_suffix token ''s''
      else token)"

definition is_lower_letter :: "char \<Rightarrow> bool" where
  "is_lower_letter c \<longleftrightarrow> is_alnum_lower c \<and> \<not> is_digit c"

definition verificationTextContainsKeyword :: "string \<Rightarrow> string \<Rightarrow> bool" where
  "verificationTextContainsKeyword s keyword =
     (let lower = to_lower s; stemmed = verificationStemKeyword keyword in
      if contains lower keyword then True
      else if stemmed = [] then False
      else list_ex (\<lambda>token. verificationStemKeyword token = stemmed) (fields_func (\<lambda>c. \<not> is_lower_letter c) lower))"

definition verificationKeywordEvidenceMatches :: "string list \<Rightarrow> string list \<Rightarrow> nat" where
  "verificationKeywordEvidenceMatches keywords evidenceItems =
     length (filter (\<lambda>kw. list_ex (\<lambda>item. verificationTextContainsKeyword (to_lower item) kw) evidenceItems) keywords)"

definition verificationKeywordsOverlap :: "string list \<Rightarrow> string \<Rightarrow> nat" where
  "verificationKeywordsOverlap keywords s =
     (if keywords = [] \<or> s = [] then 0 else length (filter (contains (to_lower s)) keywords))"

definition entity_stop :: "string list" where
  "entity_stop = [''root'', ''cause'', ''affected'', ''systems'', ''system'', ''services'', ''service'', ''components'', ''component'',
     ''impact'', ''impacted'', ''because'', ''stale'', ''cache'', ''entry'', ''deploy'', ''after'', ''before'', ''during'']"

definition verificationEntityKeywords :: "string \<Rightarrow> string list" where
  "verificationEntityKeywords s = first_by id {} (filter (\<lambda>t. t \<notin> set entity_stop) (verificationKeywords s))"

section \<open>Predicates on prompts and answers\<close>

definition plan_words :: "string list" where
  "plan_words = [''remediation'', ''fix'', ''mitigation'', ''next step'', ''next steps'', ''recommend'', ''recommendation'', ''plan'',
     ''propose'', ''action'', ''actions'']"

definition verificationPolicySensitive :: "string \<Rightarrow> string \<Rightarrow> bool" where
  "verificationPolicySensitive prompt intent =
     containsAny (to_lower (prompt @ '' '' @ intent))
       [''policy'', ''refund'', ''compliance'', ''rule'', ''rules'', ''permission'', ''permissions'', ''security'', ''procedure'', ''sop'',
        ''approved'', ''allowed'']"

definition verificationRequiresFreshness :: "string \<Rightarrow> string \<Rightarrow> bool" where
  "verificationRequiresFreshness prompt intent =
     containsAny (to_lower (prompt @ '' '' @ intent))
       [''latest'', ''current'', ''today'', ''now'', ''recent'', ''recently'', ''up-to-date'', ''updated'', ''newest'', ''version'']"

definition verificationRequiresActionPlan :: "string \<Rightarrow> string list \<Rightarrow> bool" where
  "verificationRequiresActionPlan prompt subgoals \<longleftrightarrow>
     containsAny (to_lower prompt) plan_words \<or> list_ex (\<lambda>goal. containsAny (to_lower goal) plan_words) subgoals"

definition verificationHasActionPlan :: "string \<Rightarrow> bool" where
  "verificationHasActionPlan response =
     containsAny response
       [''recommend'', ''recommended'', ''should'', ''next step'', ''next steps'', ''plan'', ''fix'', ''mitigation'', ''remediation'',
        ''action'', ''actions'', ''add '', ''update '', ''change '', ''remove '', ''invalidate '', ''deploy '']"

definition verificationMentionsCanonical :: "string \<Rightarrow> bool" where
  "verificationMentionsCanonical response =
     containsAny response
       [''according to'', ''current policy'', ''current rule'', ''policy says'', ''canonical'', ''documented'', ''source'', ''official'',
        ''current documentation'']"

definition verificationResponseAcknowledgesEntityUncertainty :: "string \<Rightarrow> bool" where
  "verificationResponseAcknowledgesEntityUncertainty response =
     containsAny response
       [''needs verification'', ''need verification'', ''still needs verification'', ''requires verification'',
        ''require verification'', ''unverified'', ''available evidence confirms'', ''based on the available evidence'',
        ''not certain'', ''unclear'', ''still needs confirmation'', ''needs confirmation'']"

definition uncertainty_words :: "string list" where
  "uncertainty_words =
     [apo ''don`t know'', ''do not know'', ''unclear'', ''not enough'', ''insufficient'', ''need more'', ''based on the available'',
      ''from the available'', ''available evidence'', apo ''i`m not certain'', ''needs verification'', ''requires verification'']"

definition verificationAcknowledgesUncertainty :: "string \<Rightarrow> bool" where
  "verificationAcknowledgesUncertainty lowerContent =
     containsAny lowerContent (uncertainty_words @
       [apo ''don`t have up-to-date information'', ''do not have up-to-date information'', apo ''don`t currently have'',
        ''do not currently have'', ''best to refer'', ''best to check'', ''recommend checking'',
        ''within the limitations of my resources'', ''within my limitations'', apo ''i can`t verify'', ''cannot verify'',
        ''may be outdated'', apo ''don`t have specific information'', ''do not have specific information'',
        apo ''don`t have specific details'', ''do not have specific details'', apo ''don`t have updates'',
        ''do not have updates'', ''topic is complex'', ''can shift rapidly'', ''changes rapidly''])"

definition verificationGoalAllowsPlanInference :: "string \<Rightarrow> bool" where
  "verificationGoalAllowsPlanInference goal = containsAny (to_lower goal) plan_words"

definition verificationGoalNeedsEntitySupport :: "string \<Rightarrow> bool" where
  "verificationGoalNeedsEntitySupport goal =
     containsAny (to_lower goal)
       [''affected system'', ''affected systems'', ''impacted system'', ''impacted systems'', ''system affected'', ''systems affected'',
        ''systems were affected'', ''service affected'', ''services affected'', ''services were affected'', ''component affected'',
        ''components affected'', ''components were affected'', ''affected component'', ''affected components'',
        ''impacted component'', ''impacted components'', ''affected service'', ''affected services'', ''dependency'',
        ''dependencies'', ''blast radius'', ''what breaks'', ''impact'']"

definition verificationGoalCovered :: "string \<Rightarrow> string \<Rightarrow> bool" where
  "verificationGoalCovered goal response =
     (if verificationGoalAllowsPlanInference goal \<and> verificationHasActionPlan response then True
      else if verificationGoalNeedsEntitySupport goal
           \<and> (containsAny response [''affected'', ''impacted'', ''impact to'', ''impact on'', ''blast radius'', ''needs verification'']
              \<or> verificationEntityKeywords response \<noteq> []) then True
      else let keywords = verificationKeywords goal in
        if keywords = [] then True
        else length (filter (verificationTextContainsKeyword response) keywords) \<ge> (if length keywords \<ge> 4 then 2 else 1))"

definition verificationGoalSupportedByEvidence :: "string \<Rightarrow> string \<Rightarrow> string list \<Rightarrow> bool" where
  "verificationGoalSupportedByEvidence goal response evidenceItems =
     (if evidenceItems = [] then False
      else if verificationGoalNeedsEntitySupport goal
      then let entities = verificationEntityKeywords response;
               keywords = (if entities = [] then verificationKeywords goal else entities);
               matches = verificationKeywordEvidenceMatches keywords evidenceItems
           in if verificationResponseAcknowledgesEntityUncertainty response \<and> matches \<ge> 1 then True
              else matches \<ge> (if length keywords \<ge> 2 then 2 else 1)
      else if verificationKeywordEvidenceMatches (verificationKeywords goal) evidenceItems \<ge> 1 then True
      else verificationKeywordEvidenceMatches (verificationKeywords response) evidenceItems \<ge> 2)"

definition verificationPromptIsDerivable :: "VerificationContext \<Rightarrow> bool" where
  "verificationPromptIsDerivable ctx =
     (let lower = to_lower (vc_UserPrompt ctx) in
      if trim_space (vc_PlannedAction ctx) \<noteq> [] \<and> vc_PlannedAction ctx \<noteq> ''execute_directly'' then False
      else vc_Intent ctx = ''code'' \<or> looksLikeTimeQuestion lower \<or> looksLikeSimpleArithmeticQuestion lower
           \<or> looksLikeLanguageRuntimeFactQuestion lower)"

definition verificationRequiresGapAwareUncertainty :: "VerificationContext \<Rightarrow> bool" where
  "verificationRequiresGapAwareUncertainty ctx =
     (if \<not> vc_HasGaps ctx then False
      else case vc_MemoryGapKind ctx of
        MemoryGapMissingTiers \<Rightarrow> False
      | MemoryGapLegacy \<Rightarrow> True
      | MemoryGapNoEvidence \<Rightarrow> \<not> verificationPromptIsDerivable ctx
      | MemoryGapNone \<Rightarrow> \<not> verificationPromptIsDerivable ctx)"

definition verificationGoalEvidenceIsOptional :: "string \<Rightarrow> VerificationContext \<Rightarrow> bool" where
  "verificationGoalEvidenceIsOptional goal ctx \<longleftrightarrow>
     verificationPromptIsDerivable ctx \<and> \<not> verificationGoalAllowsPlanInference goal
     \<and> \<not> (vc_RequiresFreshness ctx \<or> vc_PolicySensitive ctx \<or> vc_RequiresActionPlan ctx)
     \<and> vc_ToolResults ctx = [] \<and> vc_ArtifactProofs ctx = [] \<and> vc_SourceArtifactProofs ctx = [] \<and> vc_InspectionProofs ctx = []"

definition verificationIsArtifactAuthoringPrompt :: "string \<Rightarrow> bool" where
  "verificationIsArtifactAuthoringPrompt prompt =
     (let lower = to_lower prompt in
      containsAny lower [''write'', ''create'', ''save'', ''generate'', ''draft'']
      \<and> containsAny lower [''report'', ''document'', ''note'', ''file'', ''markdown'', ''md'', ''vault''])"

definition artifact_internal :: "string \<Rightarrow> bool" where
  "artifact_internal goal =
     (let lower = trim_space (to_lower goal) in
      if lower = [] then False
      else if containsAny lower [''summarize'', ''summary'', ''explain'', ''describe'', ''recommend'', ''next step'', ''tell me'', ''in chat'',
             ''here'', ''why '', ''how '', ''top '', ''compare'', ''analyze'', ''analysis''] then False
      else if containsAny lower [''project path'', ''project name'', ''project language'', ''first edit date'', ''last edit date'',
             ''remote'', ''origin repo'', ''direction'', ''status'', ''field'', ''column'', ''order'', ''sort'', ''descending'',
             ''ascending''] then True
      else \<not> contains lower '' '' \<and> containsAny lower [''path'', ''name'', ''language'', ''date'', ''status'', ''direction'', ''repo'', ''field''])"

definition verificationSubgoalsAreArtifactInternal :: "string list \<Rightarrow> bool" where
  "verificationSubgoalsAreArtifactInternal subgoals \<longleftrightarrow> list_all artifact_internal subgoals"

definition verificationAllowsArtifactBackedCompletion :: "VerificationContext \<Rightarrow> bool" where
  "verificationAllowsArtifactBackedCompletion ctx =
     (if vc_ArtifactProofs ctx = [] then False
      else if vc_ExpectedArtifacts ctx \<noteq> [] \<and> HasUnsatisfied (vc_ArtifactConformance ctx) then False
      else if HasUnread (vc_SourceConformance ctx) then False
      else if trim_space (vc_PlannedAction ctx) \<noteq> [] \<and> vc_PlannedAction ctx \<noteq> ''execute_directly'' then False
      else if \<not> verificationIsArtifactAuthoringPrompt (vc_UserPrompt ctx) then False
      else verificationSubgoalsAreArtifactInternal (vc_Subgoals ctx))"

definition contradictionChecksSuppressedByArtifactProof :: "VerificationContext \<Rightarrow> string \<Rightarrow> bool option" where
  "contradictionChecksSuppressedByArtifactProof ctx content =
     map_option (\<lambda>required. required \<and> responseClaimsPersistentArtifactMutation content \<and> AllExactSatisfied (vc_ArtifactConformance ctx))
       (persistentArtifactProofRequired (vc_UserPrompt ctx))"

section \<open>The context of a session\<close>

definition and_parts :: "string \<Rightarrow> string list" where
  "and_parts prompt = filter (\<lambda>p. p \<noteq> []) (map trim_space (str_split '' and '' prompt))"

definition verificationSubgoals :: "string \<Rightarrow> string list" where
  "verificationSubgoals prompt0 =
     (let prompt = stripOutputShapeDirectives prompt0;
          tasks = filter (\<lambda>t. t \<noteq> []) (map trim_space (extractSubtasks prompt));
          parts = filter (\<lambda>p. p \<noteq> []) (map trim_space (fields_func (\<lambda>c. c = CHR ''?'' \<or> c = CHR '';'') prompt))
      in if tasks \<noteq> [] then tasks
         else if length parts > 1 then parts
         else if contains (to_lower prompt) '' and '' then and_parts prompt
         else parts)"

definition verificationNeedsSessionContinuity :: "string \<Rightarrow> bool" where
  "verificationNeedsSessionContinuity prompt =
     containsAny (to_lower prompt)
       [''did i tell you'', ''for the rest of this session'', ''what codename'', ''what did i tell you'', ''quiet ticker'', ''target docs dir'']"

definition history_item :: "string \<Rightarrow> Message \<Rightarrow> string option" where
  "history_item lowerPrompt msg =
     (let content = trim_space (msg_Content msg);
          both = (\<lambda>phrase. msg_Role msg = ''user'' \<and> contains lowerPrompt phrase \<and> contains (to_lower content) phrase)
      in if msg_Role msg \<noteq> ''user'' \<and> msg_Role msg \<noteq> ''assistant'' then None
         else if content = [] then None
         else if both ''quiet ticker'' \<or> both ''target docs dir'' then Some (''session continuity: '' @ content)
         else if contains lowerPrompt ''what codename'' \<or> contains lowerPrompt ''did i tell you'' then Some (''session history: '' @ content)
         else None)"

definition verificationSessionHistoryEvidence :: "Session \<Rightarrow> string \<Rightarrow> string list" where
  "verificationSessionHistoryEvidence s prompt =
     (let msgs = messages s in List.map_filter (history_item (to_lower prompt)) (drop (length msgs - 8) msgs))"

definition no_verification :: VerificationContext where
  "no_verification =
     \<lparr>vc_UserPrompt = [], vc_Intent = [], vc_Complexity = [], vc_PlannedAction = [], vc_Intents = [], vc_MemoryContext = [],
      vc_HasEvidence = False, vc_HasGaps = False, vc_HasFreshnessRisk = False, vc_HasContradictions = False,
      vc_HasCanonicalEvidence = False, vc_MemoryGapKind = MemoryGapNone, vc_MissingMemoryTiers = [], vc_MemoryConfidence = 0,
      vc_PolicySensitive = False, vc_RequiresFreshness = False, vc_RequiresActionPlan = False, vc_Subgoals = [],
      vc_EvidenceItems = [], vc_Contradictions = [], vc_ToolResults = [], vc_ArtifactProofs = [], vc_SourceArtifactProofs = [],
      vc_InspectionProofs = [], vc_ExpectedArtifacts = [], vc_SourceArtifacts = [],
      vc_ArtifactConformance = \<lparr>ac_Expected = [], ac_Missing = [], ac_Mismatched = [], ac_Unexpected = [], ac_MatchedPath = []\<rparr>,
      vc_SourceConformance = \<lparr>sc_ExpectedSources = [], sc_Unread = [], sc_ReadPaths = []\<rparr>,
      vc_UnresolvedQuestions = [], vc_VerifiedConclusions = [], vc_StoppingCriteria = [], vc_CertaintyClassifier = None\<rparr>"

text \<open>The fields taken from the retrieval's evidence.\<close>

definition with_evidence :: "VerificationEvidence \<Rightarrow> VerificationContext \<Rightarrow> VerificationContext" where
  "with_evidence ve ctx =
     ctx\<lparr>vc_HasEvidence := ve_HasEvidence ve, vc_HasGaps := ve_HasGaps ve, vc_HasFreshnessRisk := ve_HasFreshnessRisks ve,
         vc_HasContradictions := ve_HasContradictions ve, vc_HasCanonicalEvidence := ve_HasCanonicalEvidence ve,
         vc_MemoryGapKind := ve_MemoryGapKind ve, vc_MissingMemoryTiers := ve_MissingMemoryTiers ve,
         vc_MemoryConfidence := ve_MemoryConfidenceInfluence ve, vc_Contradictions := ve_Contradictions ve,
         vc_EvidenceItems := ve_EvidenceItems ve, vc_UnresolvedQuestions := ve_UnresolvedQuestions ve,
         vc_VerifiedConclusions := ve_VerifiedConclusions ve, vc_StoppingCriteria := ve_StoppingCriteria ve\<rparr>"

definition BuildVerificationContext :: "json_lib \<Rightarrow> Session option \<Rightarrow> VerificationContext option" where
  "BuildVerificationContext js sess =
     (case sess of
        None \<Rightarrow> Some no_verification
      | Some s \<Rightarrow>
          let prompt = (case find (\<lambda>m. msg_Role m = ''user'') (rev (messages s)) of Some m \<Rightarrow> msg_Content m | None \<Rightarrow> []);
              intent = (if taskIntent s = [] \<and> prompt \<noteq> [] then fst (Classify NewIntentRegistry prompt) else taskIntent s);
              c1 = no_verification\<lparr>vc_UserPrompt := prompt, vc_Intent := intent, vc_Complexity := taskComplexity s,
                     vc_PlannedAction := taskPlannedAction s, vc_Intents := (if intent \<noteq> [] then [intent] else []),
                     vc_MemoryContext := memoryContext s\<rparr>;
              c2 = (case verificationEvidence s of Some ve \<Rightarrow> with_evidence ve c1 | None \<Rightarrow> c1);
              results = currentTurnToolResults js (Some s);
              writes = toolResultArtifactProofs results; reads = toolResultReadProofs results
          in map_option (\<lambda>contract.
               let c3 = c2\<lparr>vc_ToolResults := results, vc_ArtifactProofs := writes, vc_SourceArtifactProofs := reads,
                          vc_InspectionProofs := toolResultInspectionProofs results,
                          vc_ExpectedArtifacts := pc_ExpectedOutputs contract, vc_SourceArtifacts := pc_SourceInputs contract,
                          vc_ArtifactConformance := CompareArtifactConformance (pc_ExpectedOutputs contract) writes,
                          vc_SourceConformance := CompareSourceArtifactConformance (pc_SourceInputs contract) reads,
                          vc_EvidenceItems := vc_EvidenceItems c2 @ toolResultEvidenceItems results\<rparr>;
                   c4 = (if writes \<noteq> [] \<or> reads \<noteq> [] then c3\<lparr>vc_HasEvidence := True, vc_HasCanonicalEvidence := True\<rparr> else c3);
                   history = verificationSessionHistoryEvidence s prompt;
                   c5 = (if verificationNeedsSessionContinuity prompt \<and> history \<noteq> []
                         then c4\<lparr>vc_EvidenceItems := vc_EvidenceItems c4 @ history, vc_HasEvidence := True,
                                 vc_HasCanonicalEvidence := True, vc_HasGaps := False, vc_MemoryGapKind := MemoryGapNone,
                                 vc_MissingMemoryTiers := [], vc_MemoryConfidence := 1\<rparr> else c4);
                   own = normalizeSemanticSubgoals (taskSubgoals s);
                   subgoals = (if own = [] then normalizeSemanticSubgoals (verificationSubgoals prompt) else own)
               in c5\<lparr>vc_Subgoals := subgoals, vc_PolicySensitive := verificationPolicySensitive prompt intent,
                     vc_RequiresFreshness := verificationRequiresFreshness prompt intent,
                     vc_RequiresActionPlan := verificationRequiresActionPlan prompt subgoals\<rparr>)
             (ParseArtifactPromptContract prompt))"

section \<open>Claims\<close>

datatype ClaimCertainty = CertaintyHedged | CertaintyModerate | CertaintyHigh | CertaintyAbsolute

fun ClaimCertainty_String :: "ClaimCertainty \<Rightarrow> string" where
  "ClaimCertainty_String CertaintyHedged = ''hedged''"
| "ClaimCertainty_String CertaintyModerate = ''moderate''"
| "ClaimCertainty_String CertaintyHigh = ''high''"
| "ClaimCertainty_String CertaintyAbsolute = ''absolute''"

record VerifiedClaim =
  cl_Sentence :: string
  cl_Lower :: string
  cl_Certainty :: ClaimCertainty
  cl_HasCanonicalAnchor :: bool
  cl_Keywords :: "string list"
  cl_CertaintyUpgraded :: bool

definition absoluteMarkers :: "string list" where
  "absoluteMarkers = [''definitely'', ''always'', ''never'', ''guaranteed'', ''certainly'', ''without exception'', ''in every case'',
     ''in all cases'', ''undoubtedly'', ''unquestionably'', ''invariably'', ''absolutely'', ''under no circumstances'']"

definition hedgeMarkers :: "string list" where
  "hedgeMarkers = [''maybe'', ''might'', ''may '', ''perhaps'', ''possibly'', ''could be'', ''not sure'', apo ''i`m not certain'',
     ''i am not certain'', ''it seems'', ''appears to'', ''likely'', ''unlikely'', ''probably'', ''presumably'',
     ''based on the available'', ''from the available'']"

definition highCertaintyMarkers :: "string list" where
  "highCertaintyMarkers = ['' is '', '' was '', '' are '', '' were '', '' will '', '' has been '', '' have been '', '' does '', '' did '', '' must '']"

definition canonicalAnchorMarkers :: "string list" where
  "canonicalAnchorMarkers = [''according to'', ''per the canonical'', ''per the documented'', ''per the current'', ''the current policy'',
     ''the current rule'', ''the canonical source'', ''the documentation says'', ''the spec says'', ''official documentation'',
     ''per the policy'', ''as documented in'', ''cited in'']"

definition classifyClaimCertainty :: "string \<Rightarrow> ClaimCertainty" where
  "classifyClaimCertainty lower =
     (if list_ex (contains lower) absoluteMarkers then CertaintyAbsolute
      else if list_ex (contains lower) hedgeMarkers then CertaintyHedged
      else if list_ex (contains lower) highCertaintyMarkers then CertaintyHigh
      else CertaintyModerate)"

definition claimHasCanonicalAnchor :: "string \<Rightarrow> bool" where
  "claimHasCanonicalAnchor lower \<longleftrightarrow> list_ex (contains lower) canonicalAnchorMarkers"

text \<open>\<^verbatim>\<open>strings.SplitAfter\<close>: every piece but the last keeps its separator.\<close>

definition split_after :: "string \<Rightarrow> string \<Rightarrow> string list" where
  "split_after sep s = (let ps = str_split sep s in map (\<lambda>p. p @ sep) (butlast ps) @ [List.last ps])"

definition splitKeepingDelimiters :: "string \<Rightarrow> string list \<Rightarrow> string list" where
  "splitKeepingDelimiters s delims =
     (if s = [] then []
      else foldl (\<lambda>out d. filter (\<lambda>p. p \<noteq> []) (concat (map (split_after d) out))) [s] delims)"

text \<open>\<^verbatim>\<open>strings.TrimLeft\<close> with a set of runes, given by their encodings.\<close>

function trim_left_runes :: "string list \<Rightarrow> string \<Rightarrow> string" where
  "trim_left_runes runes s =
     (case find (\<lambda>r. r \<noteq> [] \<and> has_prefix s r) runes of
        None \<Rightarrow> s | Some r \<Rightarrow> trim_left_runes runes (drop (length r) s))"
  by pat_completeness auto
termination
proof (relation "measure (\<lambda>(runes, s). length s)")
  fix runes s r
  assume "find (\<lambda>r. r \<noteq> [] \<and> has_prefix s r) runes = Some r"
  then have "r \<noteq> []" "has_prefix s r" by (auto simp: find_Some_iff)
  then have "length r > 0" "s \<noteq> []" by (auto simp: has_prefix_def)
  then show "((runes, drop (length r) s), runes, s) \<in> measure (\<lambda>(runes, s). length s)" by simp
qed simp

declare trim_left_runes.simps [simp del]

definition list_bullets :: "string list" where
  "list_bullets = [''-'', ''*'', [CHR 0xE2, CHR 0x80, CHR 0xA2], [CHR 0xC2, CHR 0xB7], [CHR 0xE2, CHR 0x80, CHR 0x93], '' '']"

definition splitIntoSentences :: "string \<Rightarrow> string list" where
  "splitIntoSentences response =
     (let normalized = replace_all [CHR 0x0D, CHR 0x0A] [CHR 0x0A] response;
          candidates = map (trim_left_runes list_bullets)
            (filter (\<lambda>l. l \<noteq> []) (map trim_space (split_on (CHR 0x0A) normalized)))
      in filter (\<lambda>c. c \<noteq> []) (map trim_space (concat (map (\<lambda>c. splitKeepingDelimiters c [''. '', ''! '', ''? '']) candidates))))"

definition claim_of :: "string \<Rightarrow> VerifiedClaim" where
  "claim_of sentence =
     (let lower = to_lower sentence in
      \<lparr>cl_Sentence = sentence, cl_Lower = lower, cl_Certainty = classifyClaimCertainty lower,
       cl_HasCanonicalAnchor = claimHasCanonicalAnchor lower, cl_Keywords = verificationKeywords sentence,
       cl_CertaintyUpgraded = False\<rparr>)"

definition ExtractClaims :: "string \<Rightarrow> VerifiedClaim list" where
  "ExtractClaims response =
     (if trim_space response = [] then []
      else map claim_of (filter (\<lambda>s. s \<noteq> [] \<and> \<not> length s < 8 \<and> \<not> has_suffix s ''?'') (map trim_space (splitIntoSentences response))))"

text \<open>The label of the classifier for a sentence; \<open>None\<close> keeps the lexical certainty.\<close>

definition classifyCertaintySemantic :: "(string \<Rightarrow> string option) \<Rightarrow> string \<Rightarrow> ClaimCertainty option" where
  "classifyCertaintySemantic classify sentence =
     (if sentence = [] then None
      else case classify sentence of
        None \<Rightarrow> None
      | Some intent \<Rightarrow>
          if intent = ''absolute'' then Some CertaintyAbsolute
          else if intent = ''high'' then Some CertaintyHigh
          else if intent = ''hedged'' then Some CertaintyHedged
          else None)"

definition upgrade_claim :: "(string \<Rightarrow> string option) option \<Rightarrow> VerifiedClaim \<Rightarrow> VerifiedClaim" where
  "upgrade_claim classifier claim =
     (case classifier of
        None \<Rightarrow> claim
      | Some classify \<Rightarrow>
          if cl_Certainty claim \<noteq> CertaintyModerate then claim
          else case classifyCertaintySemantic classify (cl_Sentence claim) of
            Some upgraded \<Rightarrow> claim\<lparr>cl_Certainty := upgraded, cl_CertaintyUpgraded := True\<rparr>
          | None \<Rightarrow> claim)"

definition upgradeClaimCertaintyWithClassifier ::
  "VerifiedClaim list \<Rightarrow> (string \<Rightarrow> string option) option \<Rightarrow> VerifiedClaim list" where
  "upgradeClaimCertaintyWithClassifier claims classifier = map (upgrade_claim classifier) claims"

definition claimEvidenceSupport :: "VerifiedClaim \<Rightarrow> string list \<Rightarrow> nat" where
  "claimEvidenceSupport claim evidenceItems =
     (if cl_Keywords claim = [] \<or> evidenceItems = [] then 0
      else verificationKeywordEvidenceMatches (cl_Keywords claim) evidenceItems)"

definition ClaimSupportedByEvidence :: "VerifiedClaim \<Rightarrow> string list \<Rightarrow> bool" where
  "ClaimSupportedByEvidence claim evidenceItems =
     (let matches = claimEvidenceSupport claim evidenceItems in
      if matches = 0 then False else matches \<ge> (if length (cl_Keywords claim) \<ge> 4 then 2 else 1))"

definition ClaimAcknowledgesConflict :: "VerifiedClaim \<Rightarrow> bool" where
  "ClaimAcknowledgesConflict claim =
     containsAny (cl_Lower claim)
       [''however'', ''but '', ''although'', ''on the other hand'', ''conflict'', ''contradict'', ''inconsistent'', ''mixed evidence'',
        ''unclear'', ''sources disagree'', ''depending on'']"

definition requiresPerClaimAnchoring :: "VerificationContext \<Rightarrow> bool" where
  "requiresPerClaimAnchoring ctx =
     (if vc_PolicySensitive ctx then True
      else if list_ex (\<lambda>i. to_lower i \<in> set [''financial_action'', ''financial_verification'', ''security_audit'', ''security'', ''compliance'', ''policy''])
                (vc_Intents ctx) then True
      else containsAny (to_lower (vc_UserPrompt ctx))
        [''financial'', ''compliance'', ''audit'', ''security'', ''refund'', ''chargeback'', ''kyc'', ''aml'', ''gdpr'', ''hipaa'', ''sox''])"

definition canonicalEvidenceMarkers :: "string list" where
  "canonicalEvidenceMarkers = [''canonical'', ''policy'', ''policies'', ''documentation'', ''spec '', ''specification'', ''runbook'', ''standard'',
     ''rfc '', ''compliance'', ''authoritative'', ''official'']"

definition claimEvidenceIsCanonical :: "VerifiedClaim \<Rightarrow> string list \<Rightarrow> bool" where
  "claimEvidenceIsCanonical claim evidenceItems =
     (if cl_Keywords claim = [] \<or> evidenceItems = [] then False
      else list_ex (\<lambda>item. list_ex (contains (to_lower item)) (cl_Keywords claim)
                         \<and> list_ex (contains (to_lower item)) canonicalEvidenceMarkers) evidenceItems)"

definition isHighRiskQuery :: "VerificationContext \<Rightarrow> bool" where
  "isHighRiskQuery ctx \<longleftrightarrow>
     vc_PolicySensitive ctx \<or> vc_RequiresFreshness ctx \<and> vc_HasFreshnessRisk ctx \<or> vc_HasContradictions ctx
     \<or> vc_RequiresActionPlan ctx \<and> length (vc_Subgoals ctx) \<ge> 2
     \<or> list_ex (\<lambda>i. to_lower i \<in> set [''financial_verification'', ''compliance'', ''security'', ''policy'']) (vc_Intents ctx)"

definition contradictionMatchesClaim :: "VerifiedClaim \<Rightarrow> ContradictionEvidence \<Rightarrow> bool" where
  "contradictionMatchesClaim claim contradiction =
     (if cl_Keywords claim = [] then False
      else list_ex (\<lambda>kw. kw \<in> set (cl_Keywords claim)) (ce_SharedKeywords contradiction)
           \<or> trim_space (ce_Topic contradiction) \<noteq> [] \<and> list_ex (contains (to_lower (ce_Topic contradiction))) (cl_Keywords claim)
           \<or> list_ex (\<lambda>item. list_ex (contains (to_lower item)) (cl_Keywords claim)) (ce_EvidenceItems contradiction))"

definition claimContradictions :: "VerifiedClaim \<Rightarrow> ContradictionEvidence list \<Rightarrow> ContradictionEvidence list" where
  "claimContradictions claim contradictions = filter (contradictionMatchesClaim claim) contradictions"

definition claimProofRequirements :: "VerifiedClaim \<Rightarrow> VerificationContext \<Rightarrow> ContradictionEvidence list \<Rightarrow> string list" where
  "claimProofRequirements claim ctx contradictions0 =
     (if cl_Certainty claim \<noteq> CertaintyAbsolute then []
      else let contradictions = (if contradictions0 = [] \<and> vc_HasContradictions ctx \<and> ClaimAcknowledgesConflict claim
                                 then vc_Contradictions ctx else contradictions0)
           in (if isHighRiskQuery ctx then [''evidence_support''] else [])
              @ (if requiresPerClaimAnchoring ctx then [''canonical_anchor''] else [])
              @ (if contradictions \<noteq> [] then [''contradiction_resolution''] else []))"

definition obligation_missing :: "VerifiedClaim \<Rightarrow> VerificationContext \<Rightarrow> string \<Rightarrow> bool" where
  "obligation_missing claim ctx obligation =
     (let reconciled = vc_HasContradictions ctx \<and> ClaimAcknowledgesConflict claim;
          anchored = cl_HasCanonicalAnchor claim \<or> claimEvidenceIsCanonical claim (vc_EvidenceItems ctx)
      in if obligation = ''evidence_support''
         then \<not> reconciled \<and> \<not> anchored \<and> \<not> ClaimSupportedByEvidence claim (vc_EvidenceItems ctx)
         else if obligation = ''canonical_anchor'' then \<not> reconciled \<and> \<not> anchored
         else if obligation = ''contradiction_resolution'' then \<not> ClaimAcknowledgesConflict claim
         else False)"

definition claimMissingProof :: "VerifiedClaim \<Rightarrow> VerificationContext \<Rightarrow> ContradictionEvidence list \<Rightarrow> string list" where
  "claimMissingProof claim ctx contradictions =
     filter (obligation_missing claim ctx) (claimProofRequirements claim ctx contradictions)"

section \<open>The checks\<close>

definition add_issue :: "string \<Rightarrow> string \<Rightarrow> VerificationResult \<Rightarrow> VerificationResult" where
  "add_issue code detail r = r\<lparr>vr_Passed := False, vr_Issues := vr_Issues r @ [\<lparr>vi_Code = code, vi_Detail = detail\<rparr>]\<rparr>"

definition check_issue :: "bool \<Rightarrow> string \<Rightarrow> string \<Rightarrow> VerificationResult \<Rightarrow> VerificationResult" where
  "check_issue cond code detail r = (if cond then add_issue code detail r else r)"

definition truncate_text :: "string \<Rightarrow> nat \<Rightarrow> string" where
  "truncate_text s maxLen = (if length s \<le> maxLen then s else take maxLen s @ ''...'')"

definition audit_claim :: "VerificationContext \<Rightarrow> VerifiedClaim \<Rightarrow> ClaimAudit" where
  "audit_claim ctx claim =
     (let matched = claimContradictions claim (vc_Contradictions ctx); missing = claimMissingProof claim ctx matched in
      \<lparr>ca_Sentence = truncate_text (cl_Sentence claim) 200, ca_Certainty = ClaimCertainty_String (cl_Certainty claim),
       ca_CertaintyUpgraded = cl_CertaintyUpgraded claim, ca_Supported = ClaimSupportedByEvidence claim (vc_EvidenceItems ctx),
       ca_Anchored = (cl_HasCanonicalAnchor claim \<or> claimEvidenceIsCanonical claim (vc_EvidenceItems ctx)),
       ca_Reconciled = ClaimAcknowledgesConflict claim,
       ca_Contested = (matched \<noteq> [] \<or> vc_HasContradictions ctx \<and> ClaimAcknowledgesConflict claim),
       ca_ProofSatisfied = (missing = []), ca_IssueCode = [], ca_KeywordHits = claimEvidenceSupport claim (vc_EvidenceItems ctx),
       ca_ProofRequired = claimProofRequirements claim ctx matched, ca_MissingProof = missing\<rparr>)"

text \<open>The map from a sentence to the index of its audit; a later sentence of the same text replaces an earlier one.\<close>

definition audit_index :: "nat \<Rightarrow> VerifiedClaim list \<Rightarrow> (string, nat) gomap" where
  "audit_index start claims = fold (\<lambda>(i, claim). m_put (cl_Sentence claim) i) (enumerate start claims) []"

definition mark_audit :: "(string, nat) gomap \<Rightarrow> bool \<Rightarrow> string \<Rightarrow> VerifiedClaim \<Rightarrow> VerificationResult \<Rightarrow> VerificationResult" where
  "mark_audit index keep code claim r =
     (case m_get index (cl_Sentence claim) of
        None \<Rightarrow> r
      | Some i \<Rightarrow>
          let audits = vr_ClaimAudits r in
          if i < length audits \<and> \<not> (keep \<and> ca_IssueCode (audits ! i) \<noteq> [])
          then r\<lparr>vr_ClaimAudits := audits[i := (audits ! i)\<lparr>ca_IssueCode := code\<rparr>]\<rparr> else r)"

definition unresolved_claim :: "string \<Rightarrow> VerificationContext \<Rightarrow> VerifiedClaim \<Rightarrow> bool" where
  "unresolved_claim content ctx claim \<longleftrightarrow>
     cl_Certainty claim = CertaintyAbsolute \<and> \<not> cl_HasCanonicalAnchor claim \<and> \<not> ClaimAcknowledgesConflict claim
     \<and> claimContradictions claim (vc_Contradictions ctx) \<noteq> []
     \<and> \<not> containsAny (to_lower content)
          [''conflict'', ''contradict'', ''inconsistent'', ''mixed evidence'', ''sources disagree'', ''however'', ''depending on'']"

definition check_contradicted_claims ::
  "string \<Rightarrow> VerificationContext \<Rightarrow> VerifiedClaim list \<Rightarrow> (string, nat) gomap \<Rightarrow> VerificationResult \<Rightarrow> VerificationResult" where
  "check_contradicted_claims content ctx claims index r =
     (if vc_HasContradictions ctx \<and> vc_Contradictions ctx \<noteq> []
      then let unresolved = filter (unresolved_claim content ctx) claims;
               r1 = fold (mark_audit index False ''unresolved_contradicted_claim'') unresolved r
           in check_issue (unresolved \<noteq> []) ''unresolved_contradicted_claim''
                (''the response states absolute claims on topics the evidence treats as contested without reconciling the conflict: ''
                 @ str_join '' || '' (map (\<lambda>c. truncate_text (cl_Sentence c) 120) unresolved)) r1
      else r)"

definition check_provenance :: "VerificationContext \<Rightarrow> VerifiedClaim list \<Rightarrow> VerificationResult \<Rightarrow> VerificationResult" where
  "check_provenance ctx claims r =
     (if isHighRiskQuery ctx \<and> vc_EvidenceItems ctx \<noteq> []
      then let absolute = filter (\<lambda>c. cl_Certainty c = CertaintyAbsolute) claims;
               supported = length (filter (\<lambda>c. cl_HasCanonicalAnchor c \<or> ClaimSupportedByEvidence c (vc_EvidenceItems ctx)) absolute)
           in check_issue (length absolute \<ge> 2 \<and> 2 * supported < length absolute) ''weak_provenance_coverage''
                (''only '' @ show_nat supported @ ''/'' @ show_nat (length absolute)
                 @ '' absolute claims trace back to retrieved evidence or a canonical anchor on a high-risk query'') r
      else r)"

definition orphaned_claim :: "VerificationContext \<Rightarrow> VerifiedClaim \<Rightarrow> bool" where
  "orphaned_claim ctx claim \<longleftrightarrow>
     cl_Certainty claim = CertaintyAbsolute \<and> \<not> cl_HasCanonicalAnchor claim \<and> \<not> ClaimAcknowledgesConflict claim
     \<and> \<not> ClaimSupportedByEvidence claim (vc_EvidenceItems ctx) \<and> \<not> length (cl_Keywords claim) < 2"

definition check_orphans ::
  "VerificationContext \<Rightarrow> VerifiedClaim list \<Rightarrow> (string, nat) gomap \<Rightarrow> VerificationResult \<Rightarrow> VerificationResult" where
  "check_orphans ctx claims index r =
     (if isHighRiskQuery ctx \<and> vc_EvidenceItems ctx \<noteq> []
      then let orphaned = filter (orphaned_claim ctx) claims;
               r1 = fold (mark_audit index True ''unsupported_absolute_claim'') orphaned r
           in check_issue (orphaned \<noteq> [] \<and> \<not> HasIssue r1 ''weak_provenance_coverage'') ''unsupported_absolute_claim''
                (''absolute claims on a high-risk query have no evidence support and no canonical anchor: ''
                 @ str_join '' || '' (map (\<lambda>c. truncate_text (cl_Sentence c) 120) orphaned)) r1
      else r)"

text \<open>The missing proof of a claim as its audit has it, when the claim is absolute.\<close>

definition unmet_proof :: "(string, nat) gomap \<Rightarrow> ClaimAudit list \<Rightarrow> VerifiedClaim \<Rightarrow> string list" where
  "unmet_proof index audits claim =
     (if cl_Certainty claim \<noteq> CertaintyAbsolute then []
      else case m_get index (cl_Sentence claim) of
        None \<Rightarrow> []
      | Some i \<Rightarrow> if i < length audits then ca_MissingProof (audits ! i) else [])"

definition verifyProofObligations ::
  "VerificationContext \<Rightarrow> VerifiedClaim list \<Rightarrow> (string, nat) gomap \<Rightarrow> VerificationResult \<Rightarrow> VerificationResult" where
  "verifyProofObligations ctx claims index r =
     (if claims = [] \<or> vr_ClaimAudits r = [] then r
      else let unmet = filter (\<lambda>c. unmet_proof index (vr_ClaimAudits r) c \<noteq> []) claims;
               r1 = fold (mark_audit index True ''proof_obligation_unmet'') unmet r
           in check_issue (unmet \<noteq> []) ''proof_obligation_unmet''
                (''high-risk absolute claims are missing required proof obligations: ''
                 @ str_join '' || '' (map (\<lambda>c. truncate_text (cl_Sentence c) 120 @ '' (missing: ''
                     @ str_join '', '' (unmet_proof index (vr_ClaimAudits r) c) @ '')'') unmet)) r1)"

definition verifyClaimLevel :: "string \<Rightarrow> VerificationContext \<Rightarrow> VerifiedClaim list \<Rightarrow> VerificationResult \<Rightarrow> VerificationResult" where
  "verifyClaimLevel content ctx claims r =
     (if claims = [] then r
      else let index = audit_index (length (vr_ClaimAudits r)) claims;
               r0 = r\<lparr>vr_ClaimAudits := vr_ClaimAudits r @ map (audit_claim ctx) claims\<rparr>
           in verifyProofObligations ctx claims index
                (check_orphans ctx claims index
                  (check_provenance ctx claims (check_contradicted_claims content ctx claims index r0))))"

definition abandoned_question :: "string \<Rightarrow> VerificationContext \<Rightarrow> string \<Rightarrow> bool" where
  "abandoned_question lowerContent ctx question =
     (let keywords = verificationKeywords question in
      question \<noteq> [] \<and> keywords \<noteq> [] \<and> verificationKeywordsOverlap keywords (vc_UserPrompt ctx) > 0
      \<and> \<not> list_ex (contains lowerContent) keywords)"

definition missing_criterion :: "string \<Rightarrow> string \<Rightarrow> bool" where
  "missing_criterion lowerContent crit =
     (let keywords = verificationKeywords crit in
      crit \<noteq> [] \<and> length (filter (contains lowerContent) keywords) < (if length keywords \<ge> 4 then 2 else 1))"

definition completion_words :: "string list" where
  "completion_words = [''task complete'', ''task completed'', ''done.'', ''finished.'', ''we are done'', apo ''we`re done'', ''work is complete'']"

definition verifyExecutiveState :: "string \<Rightarrow> VerificationContext \<Rightarrow> VerificationResult \<Rightarrow> VerificationResult" where
  "verifyExecutiveState lowerContent ctx r =
     (let abandoned = filter (abandoned_question lowerContent ctx) (map trim_space (vc_UnresolvedQuestions ctx));
          missing = filter (missing_criterion lowerContent) (map trim_space (vc_StoppingCriteria ctx));
          r1 = check_issue (abandoned \<noteq> []) ''abandoned_unresolved_question''
                 (''the response ignores unresolved executive-state questions that the current prompt is related to: ''
                  @ str_join ''; '' abandoned) r
      in check_issue (containsAny lowerContent completion_words \<and> missing \<noteq> []) ''stopping_criteria_unmet''
           (''the response declares the task complete without addressing the stopping criteria: '' @ str_join ''; '' missing) r1)"

definition conflict_words :: "string list" where
  "conflict_words = [''conflict'', ''contradict'', ''inconsistent'', ''unclear'', ''mixed evidence'', ''however'', ''sources disagree'',
     ''depending on'', ''disagree'', ''differs'', ''differ '']"

definition freshness_words :: "string list" where
  "freshness_words = [''current'', ''latest'', ''as of'', ''may be outdated'', ''might be stale'', ''verify'', ''need a fresher'',
     ''need current'', ''available evidence'', ''not certain'', ''unclear'']"

definition check_artifacts :: "VerificationContext \<Rightarrow> VerificationResult \<Rightarrow> VerificationResult" where
  "check_artifacts ctx r =
     (let conf = vc_ArtifactConformance ctx in
      if vc_ExpectedArtifacts ctx \<noteq> [] \<and> HasUnsatisfied conf
      then let r1 = check_issue (ac_Unexpected conf \<noteq> []) ''artifact_unexpected_write''
                      (''unexpected artifacts were written outside the requested exact set: '' @ str_join '', '' (ac_Unexpected conf))
                      (r\<lparr>vr_Passed := False\<rparr>)
           in if ac_Missing conf \<noteq> []
              then add_issue ''artifact_content_mismatch''
                     (''exact artifact content could not be proven for: '' @ str_join '', '' (map es_Path (ac_Missing conf))) r1
              else check_issue (ac_Mismatched conf \<noteq> []) ''artifact_content_mismatch''
                     (''written artifact content did not match the requested exact content for: ''
                      @ str_join '', '' (map cm_Path (ac_Mismatched conf))) r1
      else r)"

definition unsupported_goals :: "string \<Rightarrow> VerificationContext \<Rightarrow> string list" where
  "unsupported_goals lowerContent ctx =
     filter (\<lambda>goal. verificationGoalCovered goal lowerContent \<and> \<not> verificationGoalEvidenceIsOptional goal ctx
                \<and> \<not> verificationGoalAllowsPlanInference goal
                \<and> \<not> verificationGoalSupportedByEvidence goal lowerContent (vc_EvidenceItems ctx)) (vc_Subgoals ctx)"

text \<open>The checks on the answer as a whole, in order.\<close>

definition block_checks :: "string \<Rightarrow> VerificationContext \<Rightarrow> bool \<Rightarrow> VerificationResult \<Rightarrow> VerificationResult" where
  "block_checks content ctx artifactProofPrimary r0 =
     (let lower = to_lower content;
          claims = CompareArtifactClaims content (vc_ExpectedArtifacts ctx) (vc_SourceArtifacts ctx) (vc_ArtifactProofs ctx)
                     (vc_InspectionProofs ctx) (vc_UserPrompt ctx);
          covered = length (filter (\<lambda>goal. verificationGoalCovered goal lower) (vc_Subgoals ctx));
          r1 = check_issue (verificationIsSocialTurn (vc_UserPrompt ctx) (vc_Intent ctx) \<and> verificationLooksOperationalStatus lower)
                 ''off_topic_social_turn''
                 ''the user made a lightweight social or colloquial greeting, but the response pivoted into operational status instead of acknowledging the greeting'' r0;
          r2 = check_issue (verificationRequiresGapAwareUncertainty ctx \<and> \<not> artifactProofPrimary
                   \<and> \<not> containsAny lower uncertainty_words \<and> \<not> verificationAcknowledgesUncertainty lower)
                 ''unsupported_certainty'' ''the evidence contains explicit gaps, but the response sounds fully certain'' r1;
          r3 = check_issue (vc_HasContradictions ctx \<and> \<not> artifactProofPrimary \<and> \<not> containsAny lower conflict_words)
                 ''ignored_contradictions'' ''the evidence contains contradictions, but the response does not acknowledge them'' r2;
          r4 = check_artifacts ctx r3;
          r5 = check_issue (HasUnread (vc_SourceConformance ctx)) ''source_artifact_unread''
                 (''the response depends on source artifacts that were referenced in the prompt but not read through authoritative tool-backed evidence: ''
                  @ str_join '', '' (sc_Unread (vc_SourceConformance ctx))) r4;
          r6 = check_issue (HasUnsupported claims) ''artifact_set_overclaim''
                 (''the response claimed artifacts that were neither requested nor proven by write evidence: ''
                  @ str_join '', '' (cc_UnsupportedClaim claims)) r5;
          r7 = check_issue (vc_RequiresFreshness ctx \<and> vc_HasFreshnessRisk ctx \<and> \<not> containsAny lower freshness_words)
                 ''freshness_overclaim''
                 ''the request depends on current information, but the supporting evidence is stale and the response does not acknowledge that risk'' r6;
          r8 = check_issue (length (vc_Subgoals ctx) \<ge> 2 \<and> \<not> verificationAllowsArtifactBackedCompletion ctx
                   \<and> covered < length (vc_Subgoals ctx)) ''subgoal_coverage''
                 (''the response appears to cover '' @ show_nat covered @ ''/'' @ show_nat (length (vc_Subgoals ctx)) @ '' requested parts'') r7;
          r9 = check_issue (vc_EvidenceItems ctx \<noteq> [] \<and> unsupported_goals lower ctx \<noteq> []) ''unsupported_subgoal''
                 (''the response answers requested parts that are not supported by the retrieved evidence: ''
                  @ str_join ''; '' (unsupported_goals lower ctx)) r8;
          r10 = check_issue (vc_RequiresActionPlan ctx \<and> \<not> verificationHasActionPlan lower) ''missing_action_plan''
                 ''the request asked for remediation, recommendations, or next steps, but the response does not offer a concrete action plan'' r9
      in check_issue (vc_PolicySensitive ctx \<and> vc_HasCanonicalEvidence ctx
             \<and> containsAny lower [''definitely'', ''always'', ''never'', ''guaranteed'', ''certainly''] \<and> \<not> verificationMentionsCanonical lower)
           ''canonical_source_omitted''
           ''the response sounds absolute on a policy-sensitive question without anchoring itself to the canonical source'' r10)"

definition VerifyResponse :: "string \<Rightarrow> VerificationContext \<Rightarrow> VerificationResult option" where
  "VerifyResponse content ctx =
     map_option (\<lambda>artifactProofPrimary.
       let r = block_checks content ctx artifactProofPrimary \<lparr>vr_Passed = True, vr_Issues = [], vr_ClaimAudits = []\<rparr>;
           claims = upgradeClaimCertaintyWithClassifier (ExtractClaims content) (vc_CertaintyClassifier ctx)
       in verifyExecutiveState (to_lower content) ctx (verifyClaimLevel content ctx claims r))
     (contradictionChecksSuppressedByArtifactProof ctx content)"

section \<open>Summary and retry guidance\<close>

record VerifierSummary =
  vs_Passed :: bool
  vs_IssueCodes :: "string list"
  vs_ClaimCount :: nat
  vs_AbsoluteCount :: nat
  vs_SupportedCount :: nat
  vs_AnchoredCount :: nat
  vs_UnsupportedAbs :: nat
  vs_CoverageRatio :: rat
  vs_FlaggedClaims :: nat
  vs_ContestedCount :: nat
  vs_ProofGapCount :: nat
  vs_ReconciledCount :: nat

definition SummarizeVerification :: "VerificationResult \<Rightarrow> VerifierSummary" where
  "SummarizeVerification result =
     (let audits = vr_ClaimAudits result; count = (\<lambda>P. length (filter P audits));
          isAbs = (\<lambda>a. ca_Certainty a = ClaimCertainty_String CertaintyAbsolute);
          backed = (\<lambda>a. ca_Supported a \<or> ca_Anchored a);
          absolute = count isAbs; supported = count (\<lambda>a. isAbs a \<and> backed a)
      in \<lparr>vs_Passed = vr_Passed result, vs_IssueCodes = map vi_Code (vr_Issues result), vs_ClaimCount = length audits,
          vs_AbsoluteCount = absolute, vs_SupportedCount = supported, vs_AnchoredCount = count ca_Anchored,
          vs_UnsupportedAbs = count (\<lambda>a. isAbs a \<and> \<not> backed a),
          vs_CoverageRatio = (if absolute > 0 then of_nat supported / of_nat absolute else 0),
          vs_FlaggedClaims = count (\<lambda>a. ca_IssueCode a \<noteq> []), vs_ContestedCount = count ca_Contested,
          vs_ProofGapCount = count (\<lambda>a. ca_MissingProof a \<noteq> []), vs_ReconciledCount = count ca_Reconciled\<rparr>)"

definition RetryMessage :: "VerificationResult \<Rightarrow> string" where
  "RetryMessage vr =
     (let lead = ''Your previous response failed verification: '' @ str_join ''; '' (map vi_Detail (vr_Issues vr));
          summary = SummarizeVerification vr;
          requirements = (if vs_ContestedCount summary > 0
                          then [''explicitly reconcile contested evidence before making definite claims''] else [])
            @ (if vs_ProofGapCount summary > 0
               then [''anchor each high-risk claim to retrieved or canonical evidence, or clearly lower certainty''] else [])
      in if vr_Passed vr \<or> vr_Issues vr = [] then []
         else if HasIssue vr ''off_topic_social_turn''
         then lead @ apo ''. Revise the answer so it directly answers the user`s greeting in a brief, natural way. Do not mention sandbox state, workspace paths, vault access, memory state, or runtime status unless the user explicitly asked about them.''
         else if HasAnyIssue vr [''proof_obligation_unmet'', ''unresolved_contradicted_claim'', ''unsupported_absolute_claim'']
                 \<and> requirements \<noteq> []
         then lead @ ''. Revise the answer so it matches the available evidence, covers each requested part, and ''
              @ str_join ''; '' requirements @ ''.''
         else lead @ ''. Revise the answer so it matches the available evidence, covers each requested part, and acknowledges uncertainty where needed.'')"

record verifierRetryPlan =
  vp_Message :: string
  vp_ToolDefs :: "ToolDef list"
  vp_CorrectionReason :: string

definition hasOperationClass :: "ToolDef list \<Rightarrow> OperationClass \<Rightarrow> bool" where
  "hasOperationClass defs class = list_ex (\<lambda>d. OperationClassForName (tdef_Name d) = class) defs"

definition retry_class :: "OperationClass \<Rightarrow> bool" where
  "retry_class c \<longleftrightarrow> c = OperationArtifactRead \<or> c = OperationArtifactWrite \<or> c = OperationRuntimeContextRead \<or> c = OperationWorkspaceInspect"

definition prioritizeSourceReadRetryTools :: "ToolDef list \<Rightarrow> ToolDef list" where
  "prioritizeSourceReadRetryTools selected =
     (let filtered = filter (\<lambda>d. retry_class (OperationClassForName (tdef_Name d))) selected in
      if selected = [] then selected
      else if \<not> hasOperationClass filtered OperationArtifactRead then selected else filtered)"

definition buildSourceArtifactRetryMessage :: "VerificationResult \<Rightarrow> VerificationContext \<Rightarrow> string" where
  "buildSourceArtifactRetryMessage result ctx =
     (if vc_SourceArtifacts ctx = [] then RetryMessage result
      else RetryMessage result
        @ '' Before revising the answer, gather authoritative source proof by reading the prompt-named source artifact(s) with the file-read tool: ''
        @ str_join '', '' (vc_SourceArtifacts ctx)
        @ ''. Do not treat memory recall or memory search as a substitute for reading those source artifacts.'')"

definition buildVerifierRetryPlan :: "VerificationResult \<Rightarrow> VerificationContext \<Rightarrow> ToolDef list \<Rightarrow> verifierRetryPlan" where
  "buildVerifierRetryPlan result ctx selected =
     (let plan = \<lparr>vp_Message = RetryMessage result, vp_ToolDefs = selected, vp_CorrectionReason = []\<rparr>;
          filtered = prioritizeSourceReadRetryTools selected
      in if \<not> HasIssue result ''source_artifact_unread'' \<or> vc_SourceArtifacts ctx = [] then plan
         else let plan1 = plan\<lparr>vp_Message := buildSourceArtifactRetryMessage result ctx\<rparr> in
           if length filtered \<noteq> length selected
           then plan1\<lparr>vp_ToolDefs := filtered,
                  vp_CorrectionReason := ''source_artifact_unread requires authoritative source-read correction before further memory hydration''\<rparr>
           else plan1)"

definition formatVerifierRetryCorrectionSummary :: "verifierRetryPlan \<Rightarrow> string" where
  "formatVerifierRetryCorrectionSummary plan =
     (if vp_CorrectionReason plan = [] then []
      else vp_CorrectionReason plan @ ''; retry tools now constrained to: '' @ str_join '', '' (map tdef_Name (vp_ToolDefs plan)))"

section \<open>Properties\<close>

definition verification_codes :: "string list" where
  "verification_codes =
     [''off_topic_social_turn'', ''unsupported_certainty'', ''ignored_contradictions'', ''artifact_unexpected_write'',
      ''artifact_content_mismatch'', ''source_artifact_unread'', ''artifact_set_overclaim'', ''freshness_overclaim'',
      ''subgoal_coverage'', ''unsupported_subgoal'', ''missing_action_plan'', ''canonical_source_omitted'',
      ''unresolved_contradicted_claim'', ''weak_provenance_coverage'', ''unsupported_absolute_claim'',
      ''proof_obligation_unmet'', ''abandoned_unresolved_question'', ''stopping_criteria_unmet'']"

text \<open>
  What every check keeps: the verdict is negative exactly when there are issues, and the code of every
  issue is one of eighteen.
\<close>

definition verdict_ok :: "VerificationResult \<Rightarrow> bool" where
  "verdict_ok r \<longleftrightarrow> (vr_Passed r \<longleftrightarrow> vr_Issues r = []) \<and> list_all (\<lambda>i. vi_Code i \<in> set verification_codes) (vr_Issues r)"

named_theorems verdicts

lemma verdict_add [verdicts]:
  "code \<in> set verification_codes \<Longrightarrow> list_all (\<lambda>i. vi_Code i \<in> set verification_codes) (vr_Issues r) \<Longrightarrow> verdict_ok (add_issue code detail r)"
  by (simp add: verdict_ok_def add_issue_def)

lemma verdict_check [verdicts]: "code \<in> set verification_codes \<Longrightarrow> verdict_ok r \<Longrightarrow> verdict_ok (check_issue cond code detail r)"
  by (simp add: check_issue_def verdict_add verdict_ok_def [of r])

text \<open>Marking an audit changes neither the verdict nor the issues nor the missing proofs.\<close>

lemma mark_audit_frame:
  "vr_Passed (mark_audit index keep code c r) = vr_Passed r"
  "vr_Issues (mark_audit index keep code c r) = vr_Issues r"
  "map ca_MissingProof (vr_ClaimAudits (mark_audit index keep code c r)) = map ca_MissingProof (vr_ClaimAudits r)"
  "map ca_Certainty (vr_ClaimAudits (mark_audit index keep code c r)) = map ca_Certainty (vr_ClaimAudits r)"
  by (simp_all add: mark_audit_def Let_def map_update split: option.splits)
    (metis list_update_id map_update nth_map)+

lemma mark_audits_frame:
  "vr_Passed (fold (mark_audit index keep code) cs r) = vr_Passed r"
  "vr_Issues (fold (mark_audit index keep code) cs r) = vr_Issues r"
  "map ca_MissingProof (vr_ClaimAudits (fold (mark_audit index keep code) cs r)) = map ca_MissingProof (vr_ClaimAudits r)"
  "map ca_Certainty (vr_ClaimAudits (fold (mark_audit index keep code) cs r)) = map ca_Certainty (vr_ClaimAudits r)"
  by (induction cs arbitrary: r) (simp_all add: mark_audit_frame)

lemma verdict_marks [verdicts]: "verdict_ok r \<Longrightarrow> verdict_ok (fold (mark_audit index keep code) cs r)"
  by (simp add: verdict_ok_def mark_audits_frame)

lemma check_issue_audits [simp]: "vr_ClaimAudits (check_issue cond code detail r) = vr_ClaimAudits r"
  by (simp add: check_issue_def add_issue_def)

lemma add_issue_audits [simp]: "vr_ClaimAudits (add_issue code detail r) = vr_ClaimAudits r"
  by (simp add: add_issue_def)

lemma verdict_artifacts [verdicts]: "verdict_ok r \<Longrightarrow> verdict_ok (check_artifacts ctx r)"
proof -
  assume ok: "verdict_ok r"
  have codes: "''artifact_unexpected_write'' \<in> set verification_codes" "''artifact_content_mismatch'' \<in> set verification_codes"
    by code_simp+
  show ?thesis
    using ok codes unfolding check_artifacts_def HasUnsatisfied_def
    by (auto simp: verdict_ok_def check_issue_def add_issue_def Let_def)
qed

lemma verdict_block_checks [verdicts]: "verdict_ok r \<Longrightarrow> verdict_ok (block_checks content ctx primary r)"
  unfolding block_checks_def Let_def
  by (intro verdicts; (assumption | code_simp))

lemma verdict_claim_level [verdicts]: "verdict_ok r \<Longrightarrow> verdict_ok (verifyClaimLevel content ctx claims r)"
proof -
  have orphans: "verdict_ok (check_orphans ctx claims index r)" if "verdict_ok r" for r index
    unfolding check_orphans_def Let_def using that by (auto intro!: verdicts simp: verification_codes_def)
  have provenance: "verdict_ok (check_provenance ctx claims r)" if "verdict_ok r" for r
    unfolding check_provenance_def Let_def using that by (auto intro!: verdicts simp: verification_codes_def)
  have contradicted: "verdict_ok (check_contradicted_claims content ctx claims index r)" if "verdict_ok r" for r index
    unfolding check_contradicted_claims_def Let_def using that by (auto intro!: verdicts simp: verification_codes_def)
  have obligations: "verdict_ok (verifyProofObligations ctx claims index r)" if "verdict_ok r" for r index
    unfolding verifyProofObligations_def Let_def using that by (auto intro!: verdicts simp: verification_codes_def)
  assume "verdict_ok r"
  then have "verdict_ok (r\<lparr>vr_ClaimAudits := audits\<rparr>)" for audits by (simp add: verdict_ok_def)
  with \<open>verdict_ok r\<close> show ?thesis
    unfolding verifyClaimLevel_def Let_def by (simp add: orphans provenance contradicted obligations)
qed

lemma verdict_executive [verdicts]: "verdict_ok r \<Longrightarrow> verdict_ok (verifyExecutiveState lower ctx r)"
  unfolding verifyExecutiveState_def Let_def by (intro verdicts; (assumption | code_simp))

lemma start_verdict: "verdict_ok \<lparr>vr_Passed = True, vr_Issues = [], vr_ClaimAudits = []\<rparr>"
  by (simp add: verdict_ok_def)

lemma VerifyResponse_verdict: "VerifyResponse content ctx = Some r \<Longrightarrow> verdict_ok r"
  unfolding VerifyResponse_def Let_def by (auto intro!: verdicts start_verdict)

lemma RetryMessage_iff: "verdict_ok r \<Longrightarrow> RetryMessage r = [] \<longleftrightarrow> vr_Passed r"
  by (auto simp: RetryMessage_def verdict_ok_def Let_def)

text \<open>
  The verdict of the verifier is consistent: an answer fails exactly when an issue was found, the
  code of every issue is one of eighteen, and a message that asks for a revision exists exactly for the
  answers that failed.
\<close>

theorem verifier_verdict_consistent:
  "pred_option (\<lambda>r. verdict_ok r \<and> (RetryMessage r = [] \<longleftrightarrow> vr_Passed r)) (VerifyResponse content ctx)"
  by (cases "VerifyResponse content ctx") (simp_all add: VerifyResponse_verdict RetryMessage_iff)

text \<open>The audits of a result by the index of their sentence.\<close>

lemma audit_index_get:
  "c \<in> set cs \<Longrightarrow> \<exists>i < length cs. m_get (audit_index n cs) (cl_Sentence c) = Some (n + i) \<and> cl_Sentence (cs ! i) = cl_Sentence c"
proof (induction cs rule: rev_induct)
  case (snoc d cs)
  have index: "audit_index n (cs @ [d]) = m_put (cl_Sentence d) (n + length cs) (audit_index n cs)"
    by (simp add: audit_index_def enumerate_append_eq)
  show ?case
  proof (cases "cl_Sentence c = cl_Sentence d")
    case True
    then have "m_get (audit_index n (cs @ [d])) (cl_Sentence c) = Some (n + length cs) \<and> cl_Sentence ((cs @ [d]) ! length cs) = cl_Sentence c"
      by (simp add: index)
    then show ?thesis by (metis length_append_singleton lessI)
  next
    case False
    with snoc have "c \<in> set cs" by auto
    with snoc.IH obtain i where "i < length cs" "m_get (audit_index n cs) (cl_Sentence c) = Some (n + i)" "cl_Sentence (cs ! i) = cl_Sentence c"
      by blast
    with False have "i < length (cs @ [d]) \<and> m_get (audit_index n (cs @ [d])) (cl_Sentence c) = Some (n + i)
        \<and> cl_Sentence ((cs @ [d]) ! i) = cl_Sentence c"
      by (simp add: index nth_append)
    then show ?thesis by blast
  qed
qed simp

text \<open>The claims of an answer, with the classifier's certainty; a sentence determines its claim.\<close>

definition answer_claims :: "string \<Rightarrow> VerificationContext \<Rightarrow> VerifiedClaim list" where
  "answer_claims content ctx = upgradeClaimCertaintyWithClassifier (ExtractClaims content) (vc_CertaintyClassifier ctx)"

lemma upgrade_sentence: "cl_Sentence (upgrade_claim f c) = cl_Sentence c"
  by (simp add: upgrade_claim_def split: option.splits)

lemma answer_claims_by_sentence:
  assumes "c \<in> set (answer_claims content ctx)" "d \<in> set (answer_claims content ctx)" "cl_Sentence c = cl_Sentence d"
  shows "c = d"
proof -
  have "\<exists>s. x = upgrade_claim (vc_CertaintyClassifier ctx) (claim_of s)" if "x \<in> set (answer_claims content ctx)" for x
    using that by (auto simp: answer_claims_def upgradeClaimCertaintyWithClassifier_def ExtractClaims_def split: if_splits)
  moreover have "cl_Sentence (claim_of s) = s" for s by (simp add: claim_of_def Let_def)
  ultimately show ?thesis using assms by (metis upgrade_sentence)
qed

lemma block_checks_audits: "vr_ClaimAudits (block_checks content ctx primary r) = vr_ClaimAudits r"
  by (simp add: block_checks_def check_artifacts_def Let_def)

lemma claim_checks_missing:
  "map ca_MissingProof (vr_ClaimAudits (check_contradicted_claims content ctx claims index r)) = map ca_MissingProof (vr_ClaimAudits r)"
  "map ca_MissingProof (vr_ClaimAudits (check_provenance ctx claims r)) = map ca_MissingProof (vr_ClaimAudits r)"
  "map ca_MissingProof (vr_ClaimAudits (check_orphans ctx claims index r)) = map ca_MissingProof (vr_ClaimAudits r)"
  by (simp_all add: check_contradicted_claims_def check_provenance_def check_orphans_def Let_def mark_audits_frame)

lemma check_issue_Nil: "vr_Issues (check_issue cond code detail r) = [] \<longleftrightarrow> vr_Issues r = [] \<and> \<not> cond"
  by (simp add: check_issue_def add_issue_def)

lemma executive_Nil: "vr_Issues (verifyExecutiveState lower ctx r) = [] \<Longrightarrow> vr_Issues r = []"
  by (simp add: verifyExecutiveState_def Let_def check_issue_Nil)

text \<open>When the claim checks find nothing, no absolute claim of the answer lacks a proof it owes.\<close>

lemma claim_level_proofs:
  assumes "vr_Issues (verifyClaimLevel content ctx (answer_claims content ctx) r) = []" and "vr_ClaimAudits r = []"
    and c: "c \<in> set (answer_claims content ctx)" and absolute: "cl_Certainty c = CertaintyAbsolute"
  shows "claimMissingProof c ctx (claimContradictions c (vc_Contradictions ctx)) = []"
proof -
  let ?cs = "answer_claims content ctx"
  let ?index = "audit_index 0 ?cs"
  define r1 where "r1 = check_orphans ctx ?cs ?index (check_provenance ctx ?cs (check_contradicted_claims content ctx ?cs ?index
    (r\<lparr>vr_ClaimAudits := map (audit_claim ctx) ?cs\<rparr>)))"
  have ne: "?cs \<noteq> []" using c by auto
  have missing: "map ca_MissingProof (vr_ClaimAudits r1) = map ca_MissingProof (map (audit_claim ctx) ?cs)"
    unfolding r1_def claim_checks_missing by simp
  then have len: "length (vr_ClaimAudits r1) = length ?cs" by (metis length_map)
  have "vr_Issues (verifyProofObligations ctx ?cs ?index r1) = []"
    using assms(1,2) ne unfolding verifyClaimLevel_def Let_def r1_def by simp
  moreover have "vr_ClaimAudits r1 \<noteq> []" using len ne by auto
  ultimately have "list_all (\<lambda>c. unmet_proof ?index (vr_ClaimAudits r1) c = []) ?cs"
    using ne by (simp add: verifyProofObligations_def Let_def check_issue_Nil filter_empty_conv list_all_iff)
  with c have unmet: "unmet_proof ?index (vr_ClaimAudits r1) c = []" by (simp add: list_all_iff)
  obtain i where i: "i < length ?cs" "m_get ?index (cl_Sentence c) = Some i" "cl_Sentence (?cs ! i) = cl_Sentence c"
    using audit_index_get [OF c, of 0] by auto
  then have "?cs ! i = c" using answer_claims_by_sentence [OF nth_mem c] by simp
  moreover have "ca_MissingProof (vr_ClaimAudits r1 ! i) = ca_MissingProof (audit_claim ctx (?cs ! i))"
    using missing i(1) len by (metis (no_types, lifting) length_map nth_map)
  ultimately show ?thesis using unmet i len absolute by (simp add: unmet_proof_def audit_claim_def Let_def)
qed

text \<open>
  C7. On a policy-sensitive, financial, compliance or security question an answer that passes
  verification contains no bare absolute claim: every sentence with words such as always, never or
  guaranteed, or to which the classifier gives that certainty, names its source, shares a keyword with
  retrieved evidence of a canonical kind, or acknowledges the conflict where the evidence has one.
\<close>

theorem passed_absolute_claims_are_anchored:
  assumes "VerifyResponse content ctx = Some r" and "vr_Passed r" and "requiresPerClaimAnchoring ctx"
    and "c \<in> set (answer_claims content ctx)" and "cl_Certainty c = CertaintyAbsolute"
  shows "cl_HasCanonicalAnchor c \<or> claimEvidenceIsCanonical c (vc_EvidenceItems ctx)
    \<or> vc_HasContradictions ctx \<and> ClaimAcknowledgesConflict c"
proof -
  obtain primary where r: "r = verifyExecutiveState (to_lower content) ctx (verifyClaimLevel content ctx (answer_claims content ctx)
      (block_checks content ctx primary \<lparr>vr_Passed = True, vr_Issues = [], vr_ClaimAudits = []\<rparr>))"
    using assms(1) by (auto simp: VerifyResponse_def answer_claims_def Let_def)
  have "vr_Issues r = []" using VerifyResponse_verdict [OF assms(1)] assms(2) by (simp add: verdict_ok_def)
  then have "vr_Issues (verifyClaimLevel content ctx (answer_claims content ctx)
      (block_checks content ctx primary \<lparr>vr_Passed = True, vr_Issues = [], vr_ClaimAudits = []\<rparr>)) = []"
    unfolding r by (rule executive_Nil)
  from claim_level_proofs [OF this _ assms(4,5)]
  have "claimMissingProof c ctx (claimContradictions c (vc_Contradictions ctx)) = []" by (simp add: block_checks_audits)
  then have "\<not> obligation_missing c ctx ''canonical_anchor''"
    using assms(3,5) by (auto simp: claimMissingProof_def claimProofRequirements_def Let_def filter_empty_conv split: if_splits)
  then show ?thesis by (auto simp: obligation_missing_def Let_def)
qed

definition demo_question :: VerificationContext where
  "demo_question = no_verification\<lparr>vc_UserPrompt := ''refunds'', vc_PolicySensitive := True\<rparr>"

theorem passed_absolute_claims_are_anchored_witness:
  "map_option vr_Passed (VerifyResponse ''According to the policy refunds are never paid.'' demo_question) = Some True
   \<and> map_option vr_Passed (VerifyResponse ''Refunds are never paid.'' demo_question) = Some False
   \<and> list_all cl_HasCanonicalAnchor (answer_claims ''According to the policy refunds are never paid.'' demo_question)
   \<and> answer_claims ''According to the policy refunds are never paid.'' demo_question \<noteq> []"
proof -
  let ?s = "''According to the policy refunds are never paid.''"
  have passed: "map_option vr_Passed (VerifyResponse ?s demo_question) = Some True"
    and failed: "map_option vr_Passed (VerifyResponse ''Refunds are never paid.'' demo_question) = Some False" by code_simp+
  then obtain r where r: "VerifyResponse ?s demo_question = Some r" "vr_Passed r" by auto
  have needs: "requiresPerClaimAnchoring demo_question" by code_simp
  have abs: "list_all (\<lambda>c. cl_Certainty c = CertaintyAbsolute \<and> \<not> claimEvidenceIsCanonical c (vc_EvidenceItems demo_question))
      (answer_claims ?s demo_question) \<and> answer_claims ?s demo_question \<noteq> [] \<and> \<not> vc_HasContradictions demo_question"
    by code_simp
  have "cl_HasCanonicalAnchor c" if "c \<in> set (answer_claims ?s demo_question)" for c
    using passed_absolute_claims_are_anchored [OF r needs that] abs that by (auto simp: list_all_iff)
  with abs passed failed show ?thesis by (simp add: list_all_iff)
qed

text \<open>
  A stopping criterion all of whose words are short has no keywords, and the check asks for one: no
  answer can meet it.
\<close>

theorem short_criterion_never_met: "missing_criterion lowerContent ''run QA''"
proof -
  have "verificationKeywords ''run QA'' = []" by code_simp
  then show ?thesis by (simp add: missing_criterion_def Let_def)
qed

text \<open>A prompt with the word know counts as a question about current information.\<close>

theorem know_requires_freshness: "verificationRequiresFreshness ''what do you know about ducks'' ''question''"
  by code_simp

text \<open>
  The retry plan never takes all tools away, offers only tools the turn had, and when it restricts them
  it keeps one that reads files.
\<close>

theorem retry_plan_tools:
  "let plan = buildVerifierRetryPlan r ctx selected in
   set (vp_ToolDefs plan) \<subseteq> set selected \<and> (vp_ToolDefs plan = [] \<longleftrightarrow> selected = [])
   \<and> (vp_CorrectionReason plan = [] \<or> hasOperationClass (vp_ToolDefs plan) OperationArtifactRead)"
proof -
  have "prioritizeSourceReadRetryTools selected = selected
    \<or> set (prioritizeSourceReadRetryTools selected) \<subseteq> set selected \<and> hasOperationClass (prioritizeSourceReadRetryTools selected) OperationArtifactRead"
    by (auto simp: prioritizeSourceReadRetryTools_def Let_def)
  moreover have "hasOperationClass ds OperationArtifactRead \<Longrightarrow> ds \<noteq> []" for ds by (auto simp: hasOperationClass_def)
  ultimately show ?thesis by (auto simp: buildVerifierRetryPlan_def Let_def)
qed

end
