(* ===== verification/Routing.thy ===== *)
theory Routing
  imports Complex_Main "HOL-Library.Multiset" Circuit AgentLoop
begin

text \<open>
  Which model answers a request: the router (\<^verbatim>\<open>internal/llm/router.go\<close>), the lifecycle policies and role
  eligibility of models (\<^verbatim>\<open>model_policy.go\<close>, \<^verbatim>\<open>model_policy_sources.go\<close>, \<^verbatim>\<open>role_eligibility.go\<close>), their identities
  and tiers (\<^verbatim>\<open>model_key.go\<close> and the inference functions of \<^verbatim>\<open>service.go\<close>), the task labels of
  \<^verbatim>\<open>task_semantics.go\<close> and the selection by metascore of \<^verbatim>\<open>profile.go\<close>.

  The heuristic complexity of a request is a sum in \<^verbatim>\<open>float64\<close>, and its rounding decides tiers; it is
  modelled with the doubles as they are, as integers in units of \<open>2 ^ -57\<close> rounded to 53 bits, half to even.
  The metascore of a profile comes from averages over past runs; it is a parameter, a rational since finite doubles
  are (no score is NaN), and so are the numbers of past observations. Selection reads breakers through the registry
  of \<open>Circuit\<close>, which it changes.
\<close>

section \<open>Model specifications\<close>

definition splitModelSpec :: "string \<Rightarrow> string \<times> string" where
  "splitModelSpec spec = (case str_index spec ''/'' of Some i \<Rightarrow> (take i spec, drop (i + 1) spec) | None \<Rightarrow> (spec, []))"

definition executionModelSpec :: "string \<Rightarrow> string \<Rightarrow> string" where
  "executionModelSpec provider0 model0 =
     (let provider = trim_space provider0; model = trim_space model0 in
      if provider = [] then model
      else if model = [] then provider
      else if has_prefix model (provider @ ''/'') then model
      else provider @ ''/'' @ model)"

definition canonicalModelKey :: "string \<Rightarrow> string" where
  "canonicalModelKey model0 =
     (let model = trim_space model0; (provider, bare) = splitModelSpec model in
      if model = [] then []
      else if length (filter (\<lambda>c. c = CHR ''/'') model) \<ge> 2 \<and> bare \<noteq> [] \<and> provider \<noteq> [] then bare
      else model)"

definition historyModelKey :: "string \<Rightarrow> string \<Rightarrow> string" where
  "historyModelKey provider0 model0 =
     (let model = canonicalModelKey model0; provider = trim_space provider0 in
      if provider = [] \<or> model = [] then model else trim_prefix model (provider @ ''/''))"

definition add_key :: "string list \<Rightarrow> string \<Rightarrow> string list" where
  "add_key items value0 = (let value = trim_space value0 in if value = [] \<or> value \<in> set items then items else items @ [value])"

definition modelIdentityKeys :: "string \<Rightarrow> string \<Rightarrow> string list" where
  "modelIdentityKeys provider model =
     (let rawModel = trim_space model; rawSpec = trim_space (executionModelSpec provider model) in
      fold (\<lambda>v ks. add_key ks v) [canonicalModelKey rawModel, canonicalModelKey rawSpec, rawModel, rawSpec] [])"

definition normalizeEligibilityModelSpec :: "string \<Rightarrow> string" where
  "normalizeEligibilityModelSpec spec = (let model = snd (splitModelSpec spec) in if model \<noteq> [] then model else trim_space spec)"

section \<open>Lifecycle policies\<close>

definition normalizeModelState :: "string \<Rightarrow> string" where
  "normalizeModelState st =
     (let t = trim_space (to_lower st) in
      if t = ''niche'' \<or> t = ''disabled'' \<or> t = ''benchmark_only'' then t else ''enabled'')"

definition liveRoutingAllowedForState :: "string \<Rightarrow> bool" where
  "liveRoutingAllowedForState st \<longleftrightarrow> normalizeModelState st \<noteq> ''disabled'' \<and> normalizeModelState st \<noteq> ''benchmark_only''"

definition benchmarkAllowedForState :: "string \<Rightarrow> bool" where
  "benchmarkAllowedForState st \<longleftrightarrow> normalizeModelState st \<noteq> ''disabled''"

record ModelPolicy =
  mp_State :: string
  mp_PrimaryReasonCode :: string
  mp_ReasonCodes :: "string list"
  mp_HumanReason :: string
  mp_EvidenceRefs :: "string list"
  mp_Source :: string

definition enabled_policy :: ModelPolicy where
  "enabled_policy = \<lparr>mp_State = ''enabled'', mp_PrimaryReasonCode = [], mp_ReasonCodes = [], mp_HumanReason = [],
     mp_EvidenceRefs = [], mp_Source = []\<rparr>"

fun first_key :: "('k, 'v) gomap \<Rightarrow> 'k list \<Rightarrow> 'v option" where
  "first_key m [] = None"
| "first_key m (k # ks) = (case m_get m k of Some v \<Rightarrow> Some v | None \<Rightarrow> first_key m ks)"

definition policy_keys :: "string \<Rightarrow> string list" where
  "policy_keys model =
     (let normalized = normalizeEligibilityModelSpec model in
      [trim_space model, to_lower (trim_space model), normalized, to_lower normalized])"

definition lookupModelPolicy :: "(string, ModelPolicy) gomap \<Rightarrow> string \<Rightarrow> ModelPolicy option" where
  "lookupModelPolicy policies model =
     map_option (\<lambda>p. p\<lparr>mp_State := normalizeModelState (mp_State p)\<rparr>) (first_key policies (policy_keys model))"

definition effectiveModelPolicy :: "string \<Rightarrow> (string, ModelPolicy) gomap \<Rightarrow> ModelPolicy" where
  "effectiveModelPolicy model policies = (case lookupModelPolicy policies model of Some p \<Rightarrow> p | None \<Rightarrow> enabled_policy)"

definition clone_policy :: "string \<Rightarrow> ModelPolicy \<Rightarrow> ModelPolicy" where
  "clone_policy source p =
     p\<lparr>mp_State := normalizeModelState (mp_State p), mp_Source := (if trim_space (mp_Source p) = [] then source else mp_Source p)\<rparr>"

definition MergeModelPolicies :: "(string, ModelPolicy) gomap \<Rightarrow> (string, ModelPolicy) gomap \<Rightarrow> (string, ModelPolicy) gomap" where
  "MergeModelPolicies base overrides =
     fold (\<lambda>(k, p). m_put k (clone_policy ''persisted_policy'' p)) overrides
       (fold (\<lambda>(k, p). m_put k (clone_policy ''configured_policy'' p)) base [])"

text \<open>\<^verbatim>\<open>ModelPoliciesFromCore\<close> and \<^verbatim>\<open>ModelPoliciesFromRows\<close>: the configured map in the order of its iteration, the
  rows in theirs; a later model with the same normalized name wins.\<close>

definition ModelPoliciesFrom :: "(string \<times> ModelPolicy) list \<Rightarrow> (string, ModelPolicy) gomap" where
  "ModelPoliciesFrom rows = fold (\<lambda>(model, p). m_put (normalizeEligibilityModelSpec model) p) rows []"

definition EffectiveModelPolicies ::
  "(string \<times> ModelPolicy) list option \<Rightarrow> (string \<times> ModelPolicy) list \<Rightarrow> (string, ModelPolicy) gomap" where
  "EffectiveModelPolicies rows cfg =
     (case rows of None \<Rightarrow> ModelPoliciesFrom cfg
      | Some rs \<Rightarrow> MergeModelPolicies (ModelPoliciesFrom cfg) (ModelPoliciesFrom rs))"

record ModelPolicyDecision =
  pd_Model :: string
  pd_State :: string
  pd_LiveRoutable :: bool
  pd_BenchmarkEligible :: bool
  pd_PrimaryReasonCode :: string
  pd_ReasonCodes :: "string list"
  pd_HumanReason :: string
  pd_EvidenceRefs :: "string list"
  pd_Source :: string

definition model_decision :: "(string, ModelPolicy) gomap \<Rightarrow> string \<Rightarrow> ModelPolicyDecision" where
  "model_decision policies spec =
     (let found = lookupModelPolicy policies spec;
          policy = (case found of Some p \<Rightarrow> p | None \<Rightarrow> enabled_policy);
          source = (case found of None \<Rightarrow> ''default''
                    | Some p \<Rightarrow> if trim_space (mp_Source p) = [] then ''configured_policy'' else trim_space (mp_Source p))
      in \<lparr>pd_Model = normalizeEligibilityModelSpec spec, pd_State = normalizeModelState (mp_State policy),
          pd_LiveRoutable = liveRoutingAllowedForState (mp_State policy),
          pd_BenchmarkEligible = benchmarkAllowedForState (mp_State policy),
          pd_PrimaryReasonCode = mp_PrimaryReasonCode policy, pd_ReasonCodes = mp_ReasonCodes policy,
          pd_HumanReason = mp_HumanReason policy, pd_EvidenceRefs = mp_EvidenceRefs policy, pd_Source = source\<rparr>)"

definition EffectiveModelPolicy :: "string list \<Rightarrow> (string, ModelPolicy) gomap \<Rightarrow> ModelPolicyDecision list" where
  "EffectiveModelPolicy specs policies = map (model_decision policies) specs"

section \<open>Tiers and roles\<close>

datatype ModelTier = TierSmall | TierMedium | TierLarge | TierFrontier

fun tier_rank :: "ModelTier \<Rightarrow> nat" where
  "tier_rank TierSmall = 0"
| "tier_rank TierMedium = 1"
| "tier_rank TierLarge = 2"
| "tier_rank TierFrontier = 3"

instantiation ModelTier :: linorder
begin
definition less_eq_ModelTier :: "ModelTier \<Rightarrow> ModelTier \<Rightarrow> bool" where
  "less_eq_ModelTier a b \<longleftrightarrow> tier_rank a \<le> tier_rank b"
definition less_ModelTier :: "ModelTier \<Rightarrow> ModelTier \<Rightarrow> bool" where
  "less_ModelTier a b \<longleftrightarrow> tier_rank a < tier_rank b"
instance
proof
  fix x y :: ModelTier
  assume "x \<le> y" "y \<le> x"
  then show "x = y" by (cases x; cases y) (simp_all add: less_eq_ModelTier_def)
qed (auto simp: less_eq_ModelTier_def less_ModelTier_def)
end

definition tierForParameterCount :: "int \<Rightarrow> ModelTier" where
  "tierForParameterCount n =
     (if n \<le> 8 then TierSmall else if n \<le> 16 then TierMedium else if n \<le> 40 then TierLarge else TierFrontier)"

text \<open>The digits in front of \<^verbatim>\<open>b\<close>: the first run of digits that \<^verbatim>\<open>b\<close> follows.\<close>

fun extractModelSizeToken :: "string \<Rightarrow> string" where
  "extractModelSizeToken [] = []"
| "extractModelSizeToken (c # s) =
     (let ds = takeWhile is_digit (c # s); rest = dropWhile is_digit (c # s) in
      if is_digit c \<and> has_prefix rest ''b'' then ds else extractModelSizeToken s)"

text \<open>
  \<^verbatim>\<open>fmt.Sscanf(token, "%d", &size)\<close> on a token of digits; an empty token and a number that does not fit in 64
  bits are errors. The product of \<^verbatim>\<open>8x7b\<close> wraps.
\<close>

fun extractMoEParameterCount :: "string \<Rightarrow> int" where
  "extractMoEParameterCount [] = 0"
| "extractMoEParameterCount (c # s) =
     (let ds = takeWhile is_digit (c # s); rest = dropWhile is_digit (c # s); rest1 = drop 1 rest;
          es = takeWhile is_digit rest1
      in if is_digit c \<and> has_prefix rest ''x'' \<and> has_prefix (dropWhile is_digit rest1) ''b'' then
           (case (atoi ds, atoi es) of (Some lhs, Some rhs) \<Rightarrow> i64 (lhs * rhs) | _ \<Rightarrow> extractMoEParameterCount s)
         else extractMoEParameterCount s)"

definition inferRouteTargetTier :: "string \<Rightarrow> ModelTier" where
  "inferRouteTargetTier model =
     (let lower = to_lower model; moe = extractMoEParameterCount lower in
      if contains lower ''mini'' \<or> contains lower ''small'' then TierSmall
      else if contains lower ''turbo'' \<or> contains lower ''preview'' \<or> contains lower ''frontier'' then TierFrontier
      else if moe > 0 then tierForParameterCount moe
      else case atoi (extractModelSizeToken lower) of
             Some n \<Rightarrow> if n > 0 then tierForParameterCount n
                          else if contains lower ''gemma4'' \<or> contains lower ''gpt-4'' \<or> contains lower ''kimi-k2'' then TierLarge
                          else TierMedium
           | None \<Rightarrow> if contains lower ''gemma4'' \<or> contains lower ''gpt-4'' \<or> contains lower ''kimi-k2'' then TierLarge
                     else TierMedium)"

record RoleEligibility =
  el_Orchestrator :: bool
  el_Subagent :: bool
  el_Reason :: string

definition lookupRoleEligibilityOverride :: "(string, RoleEligibility) gomap \<Rightarrow> string \<Rightarrow> RoleEligibility option" where
  "lookupRoleEligibilityOverride overrides model = first_key overrides [trim_space model, to_lower (trim_space model)]"

definition inferRouteTargetEligibility :: "string \<Rightarrow> (string, RoleEligibility) gomap \<Rightarrow> bool \<times> bool \<times> string" where
  "inferRouteTargetEligibility model overrides =
     (case lookupRoleEligibilityOverride overrides model of
        Some e \<Rightarrow> (el_Orchestrator e, el_Subagent e, trim_space (el_Reason e))
      | None \<Rightarrow>
          let lower = to_lower (trim_space model) in
          if lower = [] then (True, True, ''unspecified_default'')
          else if contains lower ''coder'' \<or> contains lower ''codestral'' \<or> contains lower ''codegeex''
          then (False, True, ''coding_specialist_subagent_only'')
          else if contains lower ''embed'' \<or> contains lower ''embedding'' \<or> contains lower ''rerank'' \<or> contains lower ''whisper''
          then (False, False, ''non_chat_model'')
          else (True, True, ''generalist_default''))"

record RoleEligibilityDecision =
  rd_Model :: string
  rd_OrchestratorEligible :: bool
  rd_SubagentEligible :: bool
  rd_Reason :: string
  rd_Source :: string

definition role_decision :: "(string, RoleEligibility) gomap \<Rightarrow> string \<Rightarrow> RoleEligibilityDecision" where
  "role_decision overrides spec =
     (let model = normalizeEligibilityModelSpec spec; (orch, sub, reason) = inferRouteTargetEligibility model overrides in
      \<lparr>rd_Model = model, rd_OrchestratorEligible = orch, rd_SubagentEligible = sub, rd_Reason = reason,
       rd_Source = (if lookupRoleEligibilityOverride overrides model \<noteq> None then ''configured_override'' else ''heuristic'')\<rparr>)"

definition EffectiveRoleEligibility :: "string list \<Rightarrow> (string, RoleEligibility) gomap \<Rightarrow> RoleEligibilityDecision list" where
  "EffectiveRoleEligibility specs overrides = map (role_decision overrides) specs"

text \<open>Models known to refuse tools; the configured lists come first.\<close>

definition noToolModels :: "string list" where
  "noToolModels = [''phi4-reasoning'', ''gemma3:'', ''gemma2:'', ''llama-guard'', ''nomic-embed'', ''mxbai-embed'', ''all-minilm'']"

definition modelSupportsTools :: "string list \<Rightarrow> string list \<Rightarrow> string \<Rightarrow> bool" where
  "modelSupportsTools allowlist blocklist model =
     (let lower = to_lower model in
      if list_ex (\<lambda>a. contains lower (to_lower a)) allowlist then True
      else if list_ex (\<lambda>b. contains lower (to_lower b)) blocklist then False
      else \<not> list_ex (contains lower) noToolModels)"

section \<open>Routing targets\<close>

record RouteTarget =
  tg_Model :: string
  tg_Provider :: string
  tg_Tier :: ModelTier
  tg_IsLocal :: bool
  tg_Cost :: rat
  tg_State :: string
  tg_PrimaryReasonCode :: string
  tg_ReasonCodes :: "string list"
  tg_HumanReason :: string
  tg_EvidenceRefs :: "string list"
  tg_PolicySource :: string
  tg_OrchestratorEligible :: bool
  tg_SubagentEligible :: bool
  tg_EligibilityReason :: string

definition bare_target :: "string \<Rightarrow> string \<Rightarrow> RouteTarget" where
  "bare_target model provider =
     \<lparr>tg_Model = model, tg_Provider = provider, tg_Tier = TierSmall, tg_IsLocal = False, tg_Cost = 0, tg_State = [],
      tg_PrimaryReasonCode = [], tg_ReasonCodes = [], tg_HumanReason = [], tg_EvidenceRefs = [], tg_PolicySource = [],
      tg_OrchestratorEligible = False, tg_SubagentEligible = False, tg_EligibilityReason = []\<rparr>"

definition ModelSpecForTarget :: "RouteTarget \<Rightarrow> string" where
  "ModelSpecForTarget t = executionModelSpec (tg_Provider t) (tg_Model t)"

definition with_policy :: "ModelPolicy \<Rightarrow> RouteTarget \<Rightarrow> RouteTarget" where
  "with_policy p t =
     t\<lparr>tg_State := mp_State p, tg_PrimaryReasonCode := mp_PrimaryReasonCode p, tg_ReasonCodes := mp_ReasonCodes p,
       tg_HumanReason := mp_HumanReason p, tg_EvidenceRefs := mp_EvidenceRefs p, tg_PolicySource := mp_Source p\<rparr>"

text \<open>The ordered specifications: one list of models per provider, in the order they are first named.\<close>

definition add_spec :: "string \<Rightarrow> (string, string list) gomap \<times> string list \<Rightarrow> (string, string list) gomap \<times> string list" where
  "add_spec spec acc =
     (let (specs, seen) = acc; (provider, model) = splitModelSpec spec; key = provider @ ''/'' @ model in
      if provider = [] \<or> model = [] \<or> key \<in> set seen then acc
      else (m_put provider ((case m_get specs provider of Some ms \<Rightarrow> ms | None \<Rightarrow> []) @ [model]) specs, key # seen))"

definition orderedRoutingSpecs :: "string \<Rightarrow> string list \<Rightarrow> (string, string list) gomap" where
  "orderedRoutingSpecs primary fallbacks = fst (fold add_spec (primary # fallbacks) ([], []))"

record Provider =
  pv_Name :: string
  pv_IsLocal :: bool
  pv_CostPerOutputTok :: rat

text \<open>The target \<^verbatim>\<open>NewService\<close> builds for one model of a provider, and all of them.\<close>

definition new_target ::
  "(string, ModelPolicy) gomap \<Rightarrow> (string, RoleEligibility) gomap \<Rightarrow> Provider \<Rightarrow> string \<Rightarrow> RouteTarget" where
  "new_target policies overrides p model =
     (let (orch, sub, reason) = inferRouteTargetEligibility model overrides in
      with_policy (effectiveModelPolicy model policies)
        ((bare_target model (pv_Name p))
           \<lparr>tg_Tier := inferRouteTargetTier model, tg_IsLocal := pv_IsLocal p, tg_Cost := pv_CostPerOutputTok p,
            tg_OrchestratorEligible := orch, tg_SubagentEligible := sub, tg_EligibilityReason := reason\<rparr>))"

definition new_targets ::
  "(string, ModelPolicy) gomap \<Rightarrow> (string, RoleEligibility) gomap \<Rightarrow> string \<Rightarrow> string list \<Rightarrow> Provider list \<Rightarrow> RouteTarget list" where
  "new_targets policies overrides primary fallbacks providers =
     concat (map (\<lambda>p. map (new_target policies overrides p)
                   (case m_get (orderedRoutingSpecs primary fallbacks) (pv_Name p) of Some ms \<Rightarrow> ms | None \<Rightarrow> []))
               providers)"

definition normalizeAgentRole :: "string \<Rightarrow> string" where
  "normalizeAgentRole role = (if trim_space (to_lower role) = ''subagent'' then ''subagent'' else ''orchestrator'')"

definition routeTargetEligibleForRole :: "string \<Rightarrow> RouteTarget \<Rightarrow> bool" where
  "routeTargetEligibleForRole role t \<longleftrightarrow>
     liveRoutingAllowedForState (tg_State t)
     \<and> (\<not> tg_OrchestratorEligible t \<and> \<not> tg_SubagentEligible t
        \<or> (if normalizeAgentRole role = ''subagent'' then tg_SubagentEligible t else tg_OrchestratorEligible t))"

definition filterTargetsForRole :: "Request \<Rightarrow> RouteTarget list \<Rightarrow> RouteTarget list" where
  "filterTargetsForRole req ts = filter (routeTargetEligibleForRole (normalizeAgentRole (lr_AgentRole req))) ts"

record RouteTargetAssessment =
  ta_Target :: RouteTarget
  ta_Model :: string
  ta_RoleEligible :: bool
  ta_ToolCapable :: bool
  ta_RequestEligible :: bool
  ta_ExclusionReasons :: "string list"

definition appendIfMissing :: "string list \<Rightarrow> string \<Rightarrow> string list" where
  "appendIfMissing items value0 =
     (let value = trim_space value0 in
      if value = [] \<or> list_ex (\<lambda>x. trim_space x = value) items then items else items @ [value])"

definition assess_target :: "string \<Rightarrow> bool \<Rightarrow> string list \<Rightarrow> string list \<Rightarrow> RouteTarget \<Rightarrow> RouteTargetAssessment" where
  "assess_target role requireTools allowlist blocklist t =
     (let spec = ModelSpecForTarget t; eligible = routeTargetEligibleForRole role t;
          capable = (requireTools \<longrightarrow> modelSupportsTools allowlist blocklist (tg_Model t));
          st = normalizeModelState (tg_State t);
          reasons = (if eligible then []
                     else [if st = ''disabled'' then ''policy_disabled'' else if st = ''benchmark_only'' then ''benchmark_only''
                           else ''role_ineligible''])
      in \<lparr>ta_Target = t, ta_Model = (if spec = [] then tg_Model t else spec), ta_RoleEligible = eligible, ta_ToolCapable = capable,
          ta_RequestEligible = False,
          ta_ExclusionReasons = reasons @ (if eligible \<and> requireTools \<and> \<not> capable then [''missing_tool_capability''] else [])\<rparr>)"

definition finish_assessment :: "bool \<Rightarrow> bool \<Rightarrow> RouteTargetAssessment \<Rightarrow> RouteTargetAssessment" where
  "finish_assessment requireTools capableExists a =
     a\<lparr>ta_RequestEligible := (ta_RoleEligible a \<and> (requireTools \<and> capableExists \<longrightarrow> ta_ToolCapable a)),
       ta_ExclusionReasons := (if requireTools \<and> capableExists \<and> ta_RoleEligible a \<and> \<not> ta_ToolCapable a
                               then appendIfMissing (ta_ExclusionReasons a) ''missing_tool_capability''
                               else ta_ExclusionReasons a)\<rparr>"

definition assessTargetsForRequest :: "string list \<Rightarrow> string list \<Rightarrow> Request \<Rightarrow> RouteTarget list \<Rightarrow> RouteTargetAssessment list" where
  "assessTargetsForRequest allowlist blocklist req ts =
     (let role = normalizeAgentRole (lr_AgentRole req); requireTools = (lr_Tools req \<noteq> []);
          first = map (assess_target role requireTools allowlist blocklist) ts;
          capableExists = list_ex (\<lambda>a. ta_RoleEligible a \<and> (\<not> requireTools \<or> ta_ToolCapable a)) first
      in map (finish_assessment requireTools capableExists) first)"

definition filterTargetsForRequest :: "string list \<Rightarrow> string list \<Rightarrow> Request \<Rightarrow> RouteTarget list \<Rightarrow> RouteTarget list" where
  "filterTargetsForRequest allowlist blocklist req ts =
     map ta_Target (filter ta_RequestEligible (assessTargetsForRequest allowlist blocklist req ts))"

section \<open>The complexity of a request\<close>

text \<open>\<^verbatim>\<open>utf8.RuneCountInString\<close>: a byte that starts no valid encoding counts as one rune.\<close>

definition byte_in :: "nat \<Rightarrow> nat \<Rightarrow> string \<Rightarrow> nat \<Rightarrow> bool" where
  "byte_in lo hi s i \<longleftrightarrow> i < length s \<and> lo \<le> (of_char (s ! i) :: nat) \<and> (of_char (s ! i) :: nat) \<le> hi"

definition rune_size :: "string \<Rightarrow> nat" where
  "rune_size s =
     (let c1 = byte_in 128 191 s 1; c2 = byte_in 128 191 s 2; c3 = byte_in 128 191 s 3 in
      if byte_in 194 223 s 0 \<and> c1 then 2
      else if (byte_in 224 224 s 0 \<and> byte_in 160 191 s 1 \<or> byte_in 225 236 s 0 \<and> c1 \<or> byte_in 237 237 s 0 \<and> byte_in 128 159 s 1
               \<or> byte_in 238 239 s 0 \<and> c1) \<and> c2 then 3
      else if (byte_in 240 240 s 0 \<and> byte_in 144 191 s 1 \<or> byte_in 241 243 s 0 \<and> c1 \<or> byte_in 244 244 s 0 \<and> byte_in 128 143 s 1)
               \<and> c2 \<and> c3 then 4
      else 1)"

fun rune_count :: "string \<Rightarrow> nat" where
  "rune_count [] = 0"
| "rune_count (c # s) = Suc (rune_count (drop (rune_size (c # s) - 1) s))"

text \<open>Doubles as integers in units of \<open>2 ^ -57\<close>: the nearest one to \<open>a / b\<close>, ties to even.\<close>

function bit_length :: "int \<Rightarrow> nat" where
  "bit_length n = (if n \<le> 0 then 0 else Suc (bit_length (n div 2)))"
  by auto
termination by (relation "measure nat") auto

declare bit_length.simps [simp del]

definition half_even :: "int \<Rightarrow> int \<Rightarrow> int" where
  "half_even a b =
     (let q = a div b; r = a mod b in if 2 * r < b \<or> 2 * r = b \<and> even q then q else q + 1)"

definition double_of :: "int \<Rightarrow> int \<Rightarrow> int" where
  "double_of a b = (let s = bit_length (\<bar>a\<bar> div b) - 53 in half_even a (b * 2 ^ s) * 2 ^ s)"

definition hundredths :: "int \<Rightarrow> int" where
  "hundredths n = double_of (n * 2 ^ 57) 100"

definition fadd :: "int \<Rightarrow> int \<Rightarrow> int" where
  "fadd x y = double_of (x + y) 1"

definition complexitySignals :: "string list" where
  "complexitySignals = [''analyze'', ''compare'', ''evaluate'', ''design'', ''architect'', ''implement'', ''refactor'', ''debug'',
     ''optimize'', ''explain why'', ''trade-off'', ''security'', ''performance'']"

definition simpleSignals :: "string list" where
  "simpleSignals = [''hello'', ''hi'', ''thanks'', ''yes'', ''no'', ''ok'', ''what time'', ''what date'', ''how are you'']"

text \<open>
  The score from the features it reads: the terms in hundredths, in the order they are added (characters, messages,
  tools, the two kinds of signals), their sum in doubles, clamped.
\<close>

definition char_points :: "nat \<Rightarrow> int list" where
  "char_points chars = (if chars > 10000 then [30] else if chars > 3000 then [20] else if chars > 500 then [10] else [])"

definition message_points :: "nat \<Rightarrow> int list" where
  "message_points n = (if n > 20 then [20] else if n > 8 then [10] else [])"

definition tool_points :: "nat \<Rightarrow> int list" where
  "tool_points n = (if n > 5 then [15, 10] else if n > 0 then [15] else [])"

definition complexity_points :: "nat \<Rightarrow> nat \<Rightarrow> nat \<Rightarrow> bool \<Rightarrow> bool \<Rightarrow> int list" where
  "complexity_points chars msgs ntools complex simple =
     char_points chars @ message_points msgs @ tool_points ntools @ (if complex then [5] else [])
     @ (if simple \<and> chars < 100 then [- 20] else [])"

definition add_points :: "int \<Rightarrow> int \<Rightarrow> int" where
  "add_points n s = fadd s (hundredths n)"

definition complexity_score :: "int list \<Rightarrow> int" where
  "complexity_score pts = (let s = fold add_points pts 0 in if s < 0 then 0 else if s > 2 ^ 57 then 2 ^ 57 else s)"

definition total_chars :: "Request \<Rightarrow> nat" where
  "total_chars req = sum_list (map (\<lambda>m. rune_count (msg_Content m)) (lr_Messages req))"

definition last_message :: "Request \<Rightarrow> string" where
  "last_message req = (if lr_Messages req = [] then [] else to_lower (msg_Content (last (lr_Messages req))))"

definition estimateComplexity :: "Request \<Rightarrow> int" where
  "estimateComplexity req =
     complexity_score
       (complexity_points (total_chars req) (length (lr_Messages req)) (length (lr_Tools req))
         (list_ex (contains (last_message req)) complexitySignals) (list_ex (contains (last_message req)) simpleSignals))"

definition tierForComplexity :: "int \<Rightarrow> ModelTier" where
  "tierForComplexity c =
     (if c \<ge> hundredths 70 then TierFrontier else if c \<ge> hundredths 40 then TierLarge
      else if c \<ge> hundredths 20 then TierMedium else TierSmall)"

section \<open>Task labels\<close>

definition canonicalIntentClassForTask :: "string \<Rightarrow> string" where
  "canonicalIntentClassForTask intent =
     (let t = trim_space (to_lower intent) in
      if t = ''conversational'' \<or> t = ''creative'' then ''CONVERSATION''
      else if t = ''code'' then ''CODING'' else if t = ''task'' then ''TOOL_USE'' else if t = ''question'' then ''EXECUTION'' else [])"

definition upper_char :: "char \<Rightarrow> char" where
  "upper_char c = (if 97 \<le> (of_char c :: nat) \<and> (of_char c :: nat) \<le> 122 then char_of ((of_char c :: nat) - 32) else c)"

definition requestIntentClass :: "Request \<Rightarrow> string" where
  "requestIntentClass req =
     (let cls = trim_space (map upper_char (lr_IntentClass req)) in
      if lr_Tools req \<noteq> [] then ''TOOL_USE'' else if cls \<noteq> [] then cls else canonicalIntentClassForTask (lr_TaskIntent req))"

definition requestRoutingIntent :: "Request \<Rightarrow> string" where
  "requestRoutingIntent req = (if lr_Tools req \<noteq> [] then ''task'' else trim_space (to_lower (lr_TaskIntent req)))"

definition semanticComplexityScore :: "string \<Rightarrow> int option" where
  "semanticComplexityScore level =
     (let t = trim_space (to_lower level) in
      if t = ''simple'' then Some (hundredths 15) else if t = ''moderate'' then Some (hundredths 45)
      else if t = ''complex'' then Some (hundredths 78) else if t = ''specialist'' \<or> t = ''expert'' then Some (hundredths 92) else None)"

definition requestRoutingComplexity :: "Request \<Rightarrow> int" where
  "requestRoutingComplexity req =
     (case semanticComplexityScore (lr_TaskComplexity req) of Some score \<Rightarrow> score | None \<Rightarrow> estimateComplexity req)"

section \<open>Selection by metascore\<close>

record ModelProfile =
  pf_Model :: string
  pf_Provider :: string
  pf_Tier :: ModelTier
  pf_IsLocal :: bool
  pf_State :: string
  pf_ReasonCodes :: "string list"
  pf_GlobalObservationCount :: int
  pf_IntentObservationCount :: int
  pf_CapabilityEvidence :: string
  pf_Availability :: rat

text \<open>
  The axes in floating point (quality, cost, locality, confidence, speed) are left to the score.
  What the trackers say: how often a model was observed, in all and for an intent class, and the score of a profile
  for a request; the time of the clock at the n-th breaker asked.
\<close>

record routing_env =
  rv_observations :: "string \<Rightarrow> string \<Rightarrow> int"
  rv_intent_observations :: "string \<Rightarrow> string \<Rightarrow> string \<Rightarrow> int"
  rv_score :: "ModelProfile \<Rightarrow> Request \<Rightarrow> rat"
  rv_clock :: "nat \<Rightarrow> time"

definition put_breaker :: "string \<Rightarrow> CircuitBreaker \<Rightarrow> BreakerRegistry \<Rightarrow> BreakerRegistry" where
  "put_breaker name cb r = r\<lparr>breakers := m_put name cb (breakers r)\<rparr>"

text \<open>\<^verbatim>\<open>breakers.Get(name).Allow()\<close>.\<close>

definition allow_provider :: "time \<Rightarrow> string \<Rightarrow> BreakerRegistry \<Rightarrow> bool \<times> BreakerRegistry" where
  "allow_provider now name r =
     (let (cb, r1) = Get_breaker name r; (ok, cb1) = Circuit.Allow now cb in (ok, put_breaker name cb1 r1))"

definition availability :: "CircuitState \<Rightarrow> rat" where
  "availability st = (case st of CircuitClosed \<Rightarrow> 1 | CircuitHalfOpen \<Rightarrow> 1 / 2 | CircuitOpen \<Rightarrow> 0)"

definition target_profile :: "routing_env \<Rightarrow> RouteTarget \<Rightarrow> CircuitState \<Rightarrow> ModelProfile" where
  "target_profile env t st =
     \<lparr>pf_Model = tg_Model t, pf_Provider = tg_Provider t, pf_Tier = tg_Tier t, pf_IsLocal = tg_IsLocal t,
      pf_State = tg_State t, pf_ReasonCodes = tg_ReasonCodes t,
      pf_GlobalObservationCount = rv_observations env (tg_Provider t) (tg_Model t), pf_IntentObservationCount = 0,
      pf_CapabilityEvidence = ''unexercised'', pf_Availability = availability st\<rparr>"

fun BuildModelProfiles :: "routing_env \<Rightarrow> RouteTarget list \<Rightarrow> BreakerRegistry \<Rightarrow> ModelProfile list \<times> BreakerRegistry" where
  "BuildModelProfiles env [] r = ([], r)"
| "BuildModelProfiles env (t # ts) r =
     (let (cb, r1) = Get_breaker (tg_Provider t) r; (ps, r2) = BuildModelProfiles env ts r1 in
      (target_profile env t (Circuit.State cb) # ps, r2))"

definition applyIntentEvidence :: "routing_env \<Rightarrow> string \<Rightarrow> ModelProfile \<Rightarrow> ModelProfile" where
  "applyIntentEvidence env intentClass0 p =
     (let intentClass = trim_space intentClass0;
          obs = rv_intent_observations env (pf_Provider p) (pf_Model p) intentClass
      in if intentClass = []
         then p\<lparr>pf_IntentObservationCount := 0,
                pf_CapabilityEvidence := (if pf_GlobalObservationCount p > 0 then ''observed_generic'' else ''unexercised'')\<rparr>
         else p\<lparr>pf_IntentObservationCount := obs,
                pf_CapabilityEvidence := (if obs > 0 then ''observed_for_intent''
                  else if pf_GlobalObservationCount p > 0 then ''unproven_for_intent'' else ''unexercised'')\<rparr>)"

definition filterProfilesForCapabilityEvidence :: "Request \<Rightarrow> ModelProfile list \<Rightarrow> ModelProfile list" where
  "filterProfilesForCapabilityEvidence req ps =
     (let observed = filter (\<lambda>p. pf_CapabilityEvidence p = ''observed_for_intent'') ps in
      if lr_Tools req \<noteq> [] \<and> observed \<noteq> [] then observed else ps)"

text \<open>
  The loop of \<^verbatim>\<open>selectByMetascoreForRequest\<close> (and of the variant without a turn weight, which only scores differently):
  a profile is skipped when it is unavailable or its breaker does not allow it, and asking the breaker changes it.
\<close>

fun metascore_scan ::
  "routing_env \<Rightarrow> Request \<Rightarrow> nat \<Rightarrow> ModelProfile list \<Rightarrow> ModelProfile option \<Rightarrow> BreakerRegistry
     \<Rightarrow> ModelProfile option \<times> BreakerRegistry" where
  "metascore_scan env req i [] best r = (best, r)"
| "metascore_scan env req i (p # ps) best r =
     (if pf_Availability p \<le> 0 then metascore_scan env req (Suc i) ps best r
      else let (ok, r1) = allow_provider (rv_clock env i) (pf_Provider p) r in
        metascore_scan env req (Suc i) ps
          (if ok \<and> (case best of None \<Rightarrow> True | Some b \<Rightarrow> rv_score env b req < rv_score env p req) then Some p else best) r1)"

definition MetascoreSelector ::
  "routing_env \<Rightarrow> RouteTarget list \<Rightarrow> Request \<Rightarrow> BreakerRegistry \<Rightarrow> ModelProfile option \<times> BreakerRegistry" where
  "MetascoreSelector env ts req r =
     (let (profiles, r1) = BuildModelProfiles env ts r in
      metascore_scan env req 0
        (filterProfilesForCapabilityEvidence req (map (applyIntentEvidence env (requestIntentClass req)) profiles)) None r1)"

section \<open>The router\<close>

record Router =
  ro_models :: "RouteTarget list"
  ro_costAware :: bool
  ro_localFirst :: bool
  ro_roundRobin :: bool
  ro_toolAllowlist :: "string list"
  ro_toolBlocklist :: "string list"
  ro_roundRobinIdx :: "64 word"
  ro_override :: string
  ro_metascore :: bool

record RouterConfig =
  rc_CostAware :: bool
  rc_LocalFirst :: bool
  rc_RoundRobin :: bool

definition NewRouter :: "RouteTarget list \<Rightarrow> RouterConfig \<Rightarrow> Router" where
  "NewRouter ts cfg =
     \<lparr>ro_models = ts, ro_costAware = rc_CostAware cfg, ro_localFirst = rc_LocalFirst cfg, ro_roundRobin = rc_RoundRobin cfg,
      ro_toolAllowlist = [], ro_toolBlocklist = [], ro_roundRobinIdx = 0, ro_override = [], ro_metascore = False\<rparr>"

definition SetToolSupportPolicy :: "string list \<Rightarrow> string list \<Rightarrow> Router \<Rightarrow> Router" where
  "SetToolSupportPolicy allowlist blocklist r = r\<lparr>ro_toolAllowlist := allowlist, ro_toolBlocklist := blocklist\<rparr>"

definition SetOverride :: "string \<Rightarrow> Router \<Rightarrow> Router" where
  "SetOverride model r = r\<lparr>ro_override := model\<rparr>"

definition ClearOverride :: "Router \<Rightarrow> Router" where
  "ClearOverride r = r\<lparr>ro_override := []\<rparr>"

definition EnableMetascoreRouting :: "Router \<Rightarrow> Router" where
  "EnableMetascoreRouting r = r\<lparr>ro_metascore := True\<rparr>"

definition ApplyModelPolicies :: "(string, ModelPolicy) gomap \<Rightarrow> Router \<Rightarrow> Router" where
  "ApplyModelPolicies policies r =
     r\<lparr>ro_models := map (\<lambda>t. with_policy (effectiveModelPolicy (tg_Model t) policies) t) (ro_models r)\<rparr>"

text \<open>The targets a selection works on: for the request, else for the role, else all.\<close>

definition candidate_targets :: "Router \<Rightarrow> Request \<Rightarrow> RouteTarget list" where
  "candidate_targets r req =
     (let ts = filterTargetsForRequest (ro_toolAllowlist r) (ro_toolBlocklist r) req (ro_models r);
          ts1 = (if ts = [] then filterTargetsForRole req (ro_models r) else ts)
      in if ts1 = [] then ro_models r else ts1)"

text \<open>The two scans of the heuristic: the exact tier, local targets first, and the closest tier above.\<close>

fun exact_tier_scan :: "Router \<Rightarrow> ModelTier \<Rightarrow> RouteTarget list \<Rightarrow> RouteTarget option \<Rightarrow> RouteTarget + RouteTarget option" where
  "exact_tier_scan r tier [] best = Inr best"
| "exact_tier_scan r tier (m # ms) best =
     (if ro_localFirst r \<and> tg_IsLocal m \<and> tier \<le> tg_Tier m then Inl m
      else exact_tier_scan r tier ms
        (if tg_Tier m = tier \<and> (case best of None \<Rightarrow> True | Some b \<Rightarrow> ro_costAware r \<and> tg_Cost m < tg_Cost b) then Some m else best))"

fun upward_scan :: "Router \<Rightarrow> ModelTier \<Rightarrow> RouteTarget list \<Rightarrow> RouteTarget option \<Rightarrow> RouteTarget option" where
  "upward_scan r tier [] best = best"
| "upward_scan r tier (m # ms) best =
     upward_scan r tier ms
       (if tier \<le> tg_Tier m
           \<and> (case best of None \<Rightarrow> True
              | Some b \<Rightarrow> tg_Tier m < tg_Tier b \<or> tg_Tier m = tg_Tier b \<and> ro_costAware r \<and> tg_Cost m < tg_Cost b)
        then Some m else best)"

definition heuristic_target :: "Router \<Rightarrow> Request \<Rightarrow> RouteTarget list \<Rightarrow> RouteTarget" where
  "heuristic_target r req ts =
     (let tier = tierForComplexity (estimateComplexity req) in
      case exact_tier_scan r tier ts None of
        Inl m \<Rightarrow> m
      | Inr (Some m) \<Rightarrow> m
      | Inr None \<Rightarrow> (case upward_scan r tier ts None of Some m \<Rightarrow> m | None \<Rightarrow> hd ts))"

definition override_target :: "Router \<Rightarrow> RouteTarget" where
  "override_target r =
     (case List.find (\<lambda>m. tg_Model m = ro_override r) (ro_models r) of Some m \<Rightarrow> m | None \<Rightarrow> bare_target (ro_override r) [])"

definition round_robin_target :: "Router \<Rightarrow> Request \<Rightarrow> RouteTarget" where
  "round_robin_target r req =
     (let ts = candidate_targets r req in ts ! (unat (ro_roundRobinIdx r + 1) mod length ts))"

definition metascore_target :: "RouteTarget list \<Rightarrow> ModelProfile \<Rightarrow> RouteTarget" where
  "metascore_target ts p =
     (case List.find (\<lambda>t. tg_Model t = pf_Model p \<and> tg_Provider t = pf_Provider p) ts of
        Some t \<Rightarrow> t | None \<Rightarrow> bare_target (pf_Model p) (pf_Provider p))"

definition Select :: "routing_env \<Rightarrow> Request \<Rightarrow> Router \<Rightarrow> BreakerRegistry \<Rightarrow> RouteTarget \<times> Router \<times> BreakerRegistry" where
  "Select env req r br =
     (if ro_models r = [] then (bare_target (lr_Model req) [], r, br)
      else if ro_override r \<noteq> [] then (override_target r, r, br)
      else if ro_roundRobin r then (round_robin_target r req, r\<lparr>ro_roundRobinIdx := ro_roundRobinIdx r + 1\<rparr>, br)
      else let ts = candidate_targets r req;
               (chosen, br1) = (if ro_metascore r then MetascoreSelector env ts req br else (None, br))
           in case chosen of Some p \<Rightarrow> (metascore_target ts p, r, br1) | None \<Rightarrow> (heuristic_target r req ts, r, br1))"

section \<open>What a selection returns\<close>

definition may_serve :: "Router \<Rightarrow> Request \<Rightarrow> RouteTarget \<Rightarrow> bool" where
  "may_serve r req t \<longleftrightarrow> routeTargetEligibleForRole (normalizeAgentRole (lr_AgentRole req)) t"

definition serves_tools :: "Router \<Rightarrow> RouteTarget \<Rightarrow> bool" where
  "serves_tools r t \<longleftrightarrow> modelSupportsTools (ro_toolAllowlist r) (ro_toolBlocklist r) (tg_Model t)"

lemma finish_assess_simps [simp]:
  "ta_Target (finish_assessment q c (assess_target role q al bl t)) = t"
  "ta_RequestEligible (finish_assessment q c (assess_target role q al bl t)) \<longleftrightarrow>
     routeTargetEligibleForRole role t \<and> (q \<and> c \<longrightarrow> modelSupportsTools al bl (tg_Model t))"
  by (auto simp: finish_assessment_def assess_target_def Let_def)

lemma filterTargetsForRequest_eq:
  "filterTargetsForRequest (ro_toolAllowlist r) (ro_toolBlocklist r) req ts =
     filter (\<lambda>t. may_serve r req t
       \<and> (lr_Tools req \<noteq> [] \<and> (\<exists>u\<in>set ts. may_serve r req u \<and> serves_tools r u) \<longrightarrow> serves_tools r t)) ts"
proof -
  let ?role = "normalizeAgentRole (lr_AgentRole req)"
  let ?q = "lr_Tools req \<noteq> []"
  let ?first = "map (assess_target ?role ?q (ro_toolAllowlist r) (ro_toolBlocklist r)) ts"
  let ?c = "list_ex (\<lambda>a. ta_RoleEligible a \<and> (\<not> ?q \<or> ta_ToolCapable a)) ?first"
  have c: "?q \<Longrightarrow> ?c \<longleftrightarrow> (\<exists>u\<in>set ts. may_serve r req u \<and> serves_tools r u)"
    by (auto simp: list_ex_iff assess_target_def Let_def may_serve_def serves_tools_def)
  have map_filter: "map ta_Target (filter ta_RequestEligible (map f xs)) = map (ta_Target \<circ> f) (filter (ta_RequestEligible \<circ> f) xs)"
    for f :: "RouteTarget \<Rightarrow> RouteTargetAssessment" and xs
    by (induction xs) auto
  have "filterTargetsForRequest (ro_toolAllowlist r) (ro_toolBlocklist r) req ts =
      map (\<lambda>t. t) (filter (\<lambda>t. routeTargetEligibleForRole ?role t
        \<and> (?q \<and> ?c \<longrightarrow> modelSupportsTools (ro_toolAllowlist r) (ro_toolBlocklist r) (tg_Model t))) ts)"
    unfolding filterTargetsForRequest_def assessTargetsForRequest_def Let_def map_map map_filter
    by (simp add: comp_def)
  also have "\<dots> = filter (\<lambda>t. may_serve r req t
       \<and> (?q \<and> (\<exists>u\<in>set ts. may_serve r req u \<and> serves_tools r u) \<longrightarrow> serves_tools r t)) ts"
    using c by (auto simp: may_serve_def serves_tools_def intro!: filter_cong)
  finally show ?thesis .
qed

lemma candidate_targets_eligible:
  assumes "t \<in> set (ro_models r)" and "may_serve r req t" and "x \<in> set (candidate_targets r req)"
  shows "x \<in> set (ro_models r) \<and> may_serve r req x
    \<and> (lr_Tools req \<noteq> [] \<and> (\<exists>u\<in>set (ro_models r). may_serve r req u \<and> serves_tools r u) \<longrightarrow> serves_tools r x)"
proof -
  let ?fs = "filterTargetsForRequest (ro_toolAllowlist r) (ro_toolBlocklist r) req (ro_models r)"
  have "?fs \<noteq> []"
  proof (cases "lr_Tools req \<noteq> [] \<and> (\<exists>u\<in>set (ro_models r). may_serve r req u \<and> serves_tools r u)")
    case True
    then obtain u where "u \<in> set (ro_models r)" "may_serve r req u" "serves_tools r u" by blast
    then have "u \<in> set ?fs" by (simp add: filterTargetsForRequest_eq)
    then show ?thesis by auto
  next
    case False
    with assms have "t \<in> set ?fs" by (auto simp: filterTargetsForRequest_eq)
    then show ?thesis by auto
  qed
  then have "candidate_targets r req = ?fs" by (simp add: candidate_targets_def Let_def)
  with assms(3) show ?thesis by (simp add: filterTargetsForRequest_eq)
qed

lemma candidate_targets_none:
  assumes "\<forall>t\<in>set (ro_models r). \<not> may_serve r req t"
  shows "candidate_targets r req = ro_models r"
proof -
  have "filterTargetsForRequest (ro_toolAllowlist r) (ro_toolBlocklist r) req (ro_models r) = []"
    using assms by (auto simp: filterTargetsForRequest_eq filter_empty_conv)
  moreover have "filterTargetsForRole req (ro_models r) = []"
    using assms by (auto simp: filterTargetsForRole_def filter_empty_conv may_serve_def)
  ultimately show ?thesis by (simp add: candidate_targets_def Let_def)
qed

lemma candidate_targets_nonempty: "ro_models r \<noteq> [] \<Longrightarrow> candidate_targets r req \<noteq> []"
  by (simp add: candidate_targets_def Let_def)

lemma candidate_targets_subset: "set (candidate_targets r req) \<subseteq> set (ro_models r)"
  by (auto simp: candidate_targets_def Let_def filterTargetsForRequest_eq filterTargetsForRole_def)

text \<open>Every scan returns one of the targets it scans.\<close>

lemma exact_tier_scan_in:
  "exact_tier_scan r tier ts best = Inl m \<Longrightarrow> m \<in> set ts"
  "exact_tier_scan r tier ts best = Inr (Some m) \<Longrightarrow> m \<in> set ts \<or> best = Some m"
  by (induction ts arbitrary: best) (auto split: if_splits option.splits)

lemma upward_scan_in: "upward_scan r tier ts best = Some m \<Longrightarrow> m \<in> set ts \<or> best = Some m"
  by (induction ts arbitrary: best) (auto split: if_splits option.splits)

lemma heuristic_target_in: "ts \<noteq> [] \<Longrightarrow> heuristic_target r req ts \<in> set ts"
  by (auto simp: heuristic_target_def Let_def split: sum.splits option.splits
      dest: exact_tier_scan_in upward_scan_in)

lemma metascore_scan_in: "metascore_scan env req i ps best br = (Some p, br') \<Longrightarrow> p \<in> set ps \<or> best = Some p"
  by (induction env req i ps best br rule: metascore_scan.induct)
    (auto simp: Let_def split: if_splits option.splits prod.splits)

lemma profiles_in:
  "BuildModelProfiles env ts br = (ps, br') \<Longrightarrow> p \<in> set ps \<Longrightarrow> \<exists>t\<in>set ts. tg_Model t = pf_Model p \<and> tg_Provider t = pf_Provider p"
proof (induction ts arbitrary: br ps br')
  case (Cons t ts)
  obtain cb br1 where g: "Get_breaker (tg_Provider t) br = (cb, br1)" by (cases "Get_breaker (tg_Provider t) br")
  obtain qs br2 where q: "BuildModelProfiles env ts br1 = (qs, br2)" by (cases "BuildModelProfiles env ts br1")
  from Cons.prems g q have "p = target_profile env t (Circuit.State cb) \<or> p \<in> set qs" by auto
  then show ?case using Cons.IH [OF q] by (auto simp: target_profile_def)
qed simp

lemma evidence_identity [simp]:
  "pf_Model (applyIntentEvidence env cls p) = pf_Model p" "pf_Provider (applyIntentEvidence env cls p) = pf_Provider p"
  by (simp_all add: applyIntentEvidence_def Let_def)

lemma evidence_filter_subset: "set (filterProfilesForCapabilityEvidence req ps) \<subseteq> set ps"
  by (auto simp: filterProfilesForCapabilityEvidence_def Let_def)

lemma metascore_target_in:
  assumes "MetascoreSelector env ts req br = (Some p, br')"
  shows "metascore_target ts p \<in> set ts"
proof -
  obtain ps br1 where b: "BuildModelProfiles env ts br = (ps, br1)" by (cases "BuildModelProfiles env ts br")
  let ?qs = "map (applyIntentEvidence env (requestIntentClass req)) ps"
  from assms b have "metascore_scan env req 0 (filterProfilesForCapabilityEvidence req ?qs) None br1 = (Some p, br')"
    by (simp add: MetascoreSelector_def)
  then have "p \<in> set ?qs" using metascore_scan_in evidence_filter_subset by fastforce
  then obtain t where t: "t \<in> set ts" "tg_Model t = pf_Model p" "tg_Provider t = pf_Provider p"
    using profiles_in [OF b] by (metis evidence_identity imageE set_map)
  then obtain u where u: "List.find (\<lambda>t. tg_Model t = pf_Model p \<and> tg_Provider t = pf_Provider p) ts = Some u"
    by (cases "List.find (\<lambda>t. tg_Model t = pf_Model p \<and> tg_Provider t = pf_Provider p) ts") (auto simp: find_None_iff)
  then have "u \<in> set ts" by (auto simp: find_Some_iff)
  with u show ?thesis by (simp add: metascore_target_def)
qed

lemma Select_in_candidates:
  assumes "ro_models r \<noteq> []" and "ro_override r = []" and "Select env req r br = (sel, r', br')"
  shows "sel \<in> set (candidate_targets r req)"
proof -
  have ne: "candidate_targets r req \<noteq> []" by (rule candidate_targets_nonempty [OF assms(1)])
  show ?thesis
  proof (cases "ro_roundRobin r")
    case True
    with assms ne show ?thesis by (auto simp: Select_def round_robin_target_def Let_def)
  next
    case False
    with assms ne show ?thesis
      by (auto simp: Select_def Let_def split: if_splits prod.splits option.splits
          intro: heuristic_target_in metascore_target_in)
  qed
qed

text \<open>
  C16. Selection respects policy and roles whenever it can: without an override the target selected is one of the
  configured ones; it may serve the role of the request (live by policy, eligible for the role) exactly when some
  target may; and a request with tools goes to a model that takes tools when an eligible one exists. The other direction
  is the exception the code makes: when no target may serve the request, one that may not is selected all the same.
\<close>

theorem selected_target_permitted:
  assumes "ro_models r \<noteq> []" and "ro_override r = []" and "Select env req r br = (sel, r', br')"
  shows "sel \<in> set (ro_models r) \<and> (may_serve r req sel \<longleftrightarrow> (\<exists>t\<in>set (ro_models r). may_serve r req t))
    \<and> (lr_Tools req \<noteq> [] \<and> (\<exists>t\<in>set (ro_models r). may_serve r req t \<and> serves_tools r t) \<longrightarrow> serves_tools r sel)"
proof -
  from Select_in_candidates [OF assms] have sel: "sel \<in> set (candidate_targets r req)" .
  with candidate_targets_subset have "sel \<in> set (ro_models r)" by blast
  with candidate_targets_eligible [OF _ _ sel] show ?thesis by blast
qed

section \<open>Round robin\<close>

text \<open>The targets of consecutive requests.\<close>

fun select_all :: "routing_env \<Rightarrow> Request list \<Rightarrow> Router \<Rightarrow> BreakerRegistry \<Rightarrow> RouteTarget list" where
  "select_all env [] r br = []"
| "select_all env (q # qs) r br = (let (t, r1, br1) = Select env q r br in t # select_all env qs r1 br1)"

lemma candidate_targets_idx [simp]: "candidate_targets (r\<lparr>ro_roundRobinIdx := i\<rparr>) req = candidate_targets r req"
  by (simp add: candidate_targets_def Let_def)

lemma round_robin_run:
  assumes "ro_roundRobin r" and "ro_override r = []" and "ro_models r \<noteq> []"
    and "unat (ro_roundRobinIdx r) + n < 2 ^ 64"
  shows "select_all env (replicate n req) r br =
    map (\<lambda>k. candidate_targets r req ! ((unat (ro_roundRobinIdx r) + 1 + k) mod length (candidate_targets r req))) [0..<n]"
  using assms
proof (induction n arbitrary: r)
  case (Suc n)
  let ?i = "unat (ro_roundRobinIdx r)"
  let ?r = "r\<lparr>ro_roundRobinIdx := ro_roundRobinIdx r + 1\<rparr>"
  have i: "unat (ro_roundRobinIdx r + 1) = ?i + 1"
    using Suc.prems(4) by (simp add: unat_word_ariths unat_add_lem [THEN iffD1])
  have step: "Select env req r br = (candidate_targets r req ! ((?i + 1) mod length (candidate_targets r req)), ?r, br)"
    using Suc.prems i by (simp add: Select_def round_robin_target_def Let_def)
  have IH: "select_all env (replicate n req) ?r br =
    map (\<lambda>k. candidate_targets r req ! ((?i + 1 + 1 + k) mod length (candidate_targets r req))) [0..<n]"
    using Suc.IH [of ?r] Suc.prems i by simp
  have "[0..<Suc n] = 0 # map Suc [0..<n]" by (simp add: map_Suc_upt upt_conv_Cons del: upt_Suc)
  then show ?case using step IH by (simp add: comp_def add.commute add.left_commute del: upt_Suc)
qed simp

lemma mset_rotate: "mset (rotate m xs) = mset xs"
  by (metis append_take_drop_id mset_append rotate_drop_take union_commute)

text \<open>
  C28. Round robin is fair: as many selections for a request as there are candidates choose every candidate exactly
  once, from any position of the 64-bit counter that does not wrap on the way.
\<close>

theorem round_robin_is_fair:
  assumes "ro_roundRobin r" and "ro_override r = []" and "ro_models r \<noteq> []"
    and "n = length (candidate_targets r req)" and "unat (ro_roundRobinIdx r) + n < 2 ^ 64"
  shows "mset (select_all env (replicate n req) r br) = mset (candidate_targets r req)"
proof -
  let ?ts = "candidate_targets r req"
  have "map (\<lambda>k. ?ts ! ((unat (ro_roundRobinIdx r) + 1 + k) mod length ?ts)) [0..<length ?ts] =
      map (\<lambda>k. rotate (unat (ro_roundRobinIdx r) + 1) ?ts ! k) [0..<length ?ts]"
    by (rule map_cong [OF refl]) (simp add: nth_rotate del: rotate_Suc)
  then have "select_all env (replicate n req) r br = map (\<lambda>k. rotate (unat (ro_roundRobinIdx r) + 1) ?ts ! k) [0..<length ?ts]"
    using round_robin_run [OF assms(1,2,3,5)] assms(4) by simp
  also have "\<dots> = rotate (unat (ro_roundRobinIdx r) + 1) ?ts" by (metis length_rotate map_nth)
  finally show ?thesis by (simp add: mset_rotate del: rotate_Suc)
qed

section \<open>Policies\<close>

lemma m_get_fold_put:
  "m_get (fold (\<lambda>(k, p). m_put k (f p)) xs m) j =
     (case map_of (rev xs) j of Some p \<Rightarrow> Some (f p) | None \<Rightarrow> m_get m j)"
proof (induction xs rule: rev_induct)
  case (snoc x xs)
  then show ?case by (cases x) (auto split: option.splits)
qed simp

lemma map_of_rev: "m_ok m \<Longrightarrow> map_of (rev m) = map_of m"
  by (rule map_of_inject_set [THEN iffD2]) (auto simp: m_ok_def rev_map [symmetric])

text \<open>
  A persisted policy replaces the configured one of the same model; states are normalized and sources filled in.
\<close>

theorem persisted_policy_wins:
  assumes "m_ok base" and "m_ok persisted"
  shows "m_get (MergeModelPolicies base persisted) model =
    (case m_get persisted model of
       Some p \<Rightarrow> Some (clone_policy ''persisted_policy'' p)
     | None \<Rightarrow> map_option (clone_policy ''configured_policy'') (m_get base model))"
  using assms by (simp add: MergeModelPolicies_def m_get_fold_put map_of_rev split: option.splits)

lemma applied_state:
  "ro_models (ApplyModelPolicies policies r) = map (\<lambda>t. with_policy (effectiveModelPolicy (tg_Model t) policies) t) (ro_models r)"
  by (simp add: ApplyModelPolicies_def)

text \<open>
  C17. A model that a policy disables (or leaves to benchmarks) is not selected after the policies are applied, as long
  as some other target may serve the request and no override is set.
\<close>

theorem disabled_model_never_selected:
  assumes "u \<in> set (ro_models r)" and "may_serve (ApplyModelPolicies policies r) req (with_policy (effectiveModelPolicy (tg_Model u) policies) u)"
    and "ro_override r = []" and "\<not> liveRoutingAllowedForState (mp_State (effectiveModelPolicy model policies))"
    and "Select env req (ApplyModelPolicies policies r) br = (sel, r', br')"
  shows "tg_Model sel \<noteq> model"
proof
  assume m: "tg_Model sel = model"
  let ?r = "ApplyModelPolicies policies r"
  have models: "ro_models ?r \<noteq> []" "ro_override ?r = []" using assms by (auto simp: ApplyModelPolicies_def)
  have "with_policy (effectiveModelPolicy (tg_Model u) policies) u \<in> set (ro_models ?r)"
    using assms(1) by (simp add: applied_state)
  with candidate_targets_eligible [OF this assms(2) Select_in_candidates [OF models assms(5)]]
  have "sel \<in> set (ro_models ?r)" "may_serve ?r req sel" by auto
  then have "tg_State sel = mp_State (effectiveModelPolicy (tg_Model sel) policies)" and "liveRoutingAllowedForState (tg_State sel)"
    by (auto simp: applied_state with_policy_def may_serve_def routeTargetEligibleForRole_def)
  with m assms(4) show False by simp
qed

section \<open>What the heuristics say\<close>

text \<open>
  Models recognised as no chat models (embeddings, rerankers, speech) get neither role, and a target without a role
  counts as eligible for both: they are routed like any other model.
\<close>

theorem embedding_model_takes_turns:
  assumes "lookupRoleEligibilityOverride overrides model = None"
    and "snd (snd (inferRouteTargetEligibility model overrides)) = ''non_chat_model''"
    and "liveRoutingAllowedForState (mp_State (effectiveModelPolicy model policies))"
  shows "routeTargetEligibleForRole role (new_target policies overrides p model)"
proof -
  have "fst (inferRouteTargetEligibility model overrides) = False" "fst (snd (inferRouteTargetEligibility model overrides)) = False"
    using assms(1,2) by (auto simp: inferRouteTargetEligibility_def Let_def split: if_splits)
  with assms(3) show ?thesis
    by (auto simp: new_target_def routeTargetEligibleForRole_def with_policy_def split: prod.splits)
qed

text \<open>
  The marker of small models occurs in the name of a family: every Gemini model is routed as a small one.
\<close>

theorem gemini_models_are_small: "contains (to_lower model) ''gemini'' \<Longrightarrow> inferRouteTargetTier model = TierSmall"
proof -
  assume "contains (to_lower model) ''gemini''"
  then have "contains (to_lower model) ''mini''"
    unfolding contains_iff by (metis append.assoc append_Cons append_Nil)
  then show ?thesis by (simp add: inferRouteTargetTier_def)
qed

text \<open>The tier a score in hundredths stands for, and the points that rounding takes off.\<close>

definition decimal_tier :: "int \<Rightarrow> ModelTier" where
  "decimal_tier d = (if d \<ge> 70 then TierFrontier else if d \<ge> 40 then TierLarge else if d \<ge> 20 then TierMedium else TierSmall)"

definition rounded_off :: "int list \<Rightarrow> int" where
  "rounded_off pts = (if 15 \<in> set pts \<and> 5 \<in> set pts \<and> sum_list (filter ((<) 0) pts) = 40 then 1 else 0)"

definition score_ok :: "int \<Rightarrow> int \<Rightarrow> bool" where
  "score_ok s d \<longleftrightarrow> tierForComplexity s = decimal_tier d \<and> 0 \<le> s \<and> s < 2 ^ 57"

definition score_row :: "int list \<Rightarrow> bool" where
  "score_row pts \<longleftrightarrow> score_ok (complexity_score pts) (sum_list pts - rounded_off pts)"

definition join5 :: "int list \<times> int list \<times> int list \<times> int list \<times> int list \<Rightarrow> int list" where
  "join5 = (\<lambda>(a, b, c, d, e). a @ b @ c @ d @ e)"

definition score_table :: "unit \<Rightarrow> (int list \<times> int list \<times> int list \<times> int list \<times> int list) list" where
  "score_table u =
     List.product [[], [10], [20], [30]] (List.product [[], [10], [20]] (List.product [[], [15], [15, 10]] (List.product [[], [5]] [[]])))
     @ List.product [[]] (List.product [[], [10], [20]] (List.product [[], [15], [15, 10]] (List.product [[], [5]] [[- 20]])))"

definition row_of :: "int list \<times> int list \<times> int list \<times> int list \<times> int list \<Rightarrow> bool" where
  "row_of r = score_row (join5 r)"

lemma bit_length_shift: "2 ^ k \<le> n \<Longrightarrow> bit_length n = k + bit_length (n div 2 ^ k)"
proof (induction k arbitrary: n)
  case (Suc k)
  have "(2::int) ^ k \<le> n div 2" and "n > 0"
    using Suc.prems by (auto simp: less_le_trans [of 0 "2 ^ k"] intro: order_less_le_trans [OF _ Suc.prems])
  then show ?case using Suc.IH [of "n div 2"] by (subst bit_length.simps) (simp add: zdiv_zmult2_eq)
qed simp

lemma bit_length_range: "2 ^ k \<le> n \<Longrightarrow> n < 2 ^ Suc k \<Longrightarrow> bit_length n = Suc k"
proof -
  assume n: "2 ^ k \<le> n" "n < 2 ^ Suc k"
  then have "n div 2 ^ k = 1" using int_div_pos_eq [of n "2 ^ k" 1 "n - 2 ^ k"] by simp
  moreover have "bit_length 1 = 1" by (simp add: bit_length.simps)
  ultimately show ?thesis using bit_length_shift [OF n(1)] by simp
qed

lemma double_of_exact: "\<bar>v\<bar> < 2 ^ 53 \<Longrightarrow> double_of v 1 = v"
proof -
  assume v: "\<bar>v\<bar> < 2 ^ 53"
  have "bit_length \<bar>v\<bar> \<le> 53"
  proof (rule ccontr)
    assume "\<not> bit_length \<bar>v\<bar> \<le> 53"
    moreover have "bit_length n \<le> m" if "n < 2 ^ m" for n m
      using that
    proof (induction m arbitrary: n)
      case (Suc m)
      then have "n div 2 < 2 ^ m" by auto
      with Suc.IH show ?case by (subst bit_length.simps) auto
    qed (subst bit_length.simps, simp)
    ultimately show False using v by blast
  qed
  then show ?thesis by (simp add: double_of_def half_even_def Let_def)
qed

lemma double_of_range: "2 ^ (52 + k) \<le> \<bar>v\<bar> \<Longrightarrow> \<bar>v\<bar> < 2 ^ (53 + k) \<Longrightarrow> double_of v 1 = half_even v (2 ^ k) * 2 ^ k"
  using bit_length_range [of "52 + k" "\<bar>v\<bar>"] by (simp add: double_of_def Let_def)

text \<open>Sums below one, by the number of bits that are rounded away.\<close>

lemma fadd_eval:
  "\<bar>x + y\<bar> < 144115188075855872 \<Longrightarrow> fadd x y =
     (let v = x + y in
      if \<bar>v\<bar> < 9007199254740992 then v
      else if \<bar>v\<bar> < 18014398509481984 then half_even v 2 * 2
      else if \<bar>v\<bar> < 36028797018963968 then half_even v 4 * 4
      else if \<bar>v\<bar> < 72057594037927936 then half_even v 8 * 8
      else half_even v 16 * 16)"
  using double_of_exact [of "x + y"] double_of_range [of 1 "x + y"] double_of_range [of 2 "x + y"]
    double_of_range [of 3 "x + y"] double_of_range [of 4 "x + y"]
  by (simp add: fadd_def Let_def)

lemma half_even_eval: "half_even a b = (if 2 * (a mod b) < b \<or> 2 * (a mod b) = b \<and> even (a div b) then a div b else a div b + 1)"
  by (simp add: half_even_def Let_def)

lemma bit_length_low:
  "bit_length 0 = 0" "bit_length 1 = 1"
  "bit_length (numeral (num.Bit0 k)) = Suc (bit_length (numeral k))" "bit_length (numeral (num.Bit1 k)) = Suc (bit_length (numeral k))"
  by (subst bit_length.simps, simp add: bit_length.simps [of 0] bit_length.simps [of 1])+

lemma bit_length_high:
  "1125899906842624 \<le> (numeral w :: int) \<Longrightarrow> bit_length (numeral w) = 50 + bit_length (numeral w div 1125899906842624)"
  using bit_length_shift [of 50 "numeral w"] by simp

lemma hundredths_values [simp]:
  "hundredths 5 = 7205759403792794" "hundredths 10 = 14411518807585588" "hundredths 15 = 21617278211378380"
  "hundredths 20 = 28823037615171176" "hundredths 30 = 43234556422756760" "hundredths 40 = 57646075230342352"
  "hundredths 70 = 100880631653099104" "hundredths (- 20) = - 28823037615171176"
  by (simp_all add: hundredths_def double_of_def half_even_def bit_length_high bit_length_low Let_def)

lemma score_table_ok: "list_all row_of (score_table ())"
  by (simp add: score_table_def row_of_def join5_def score_row_def score_ok_def complexity_score_def add_points_def fadd_eval half_even_eval
      rounded_off_def decimal_tier_def tierForComplexity_def Let_def)

lemma complexity_points_row: "score_row (complexity_points chars msgs ntools complex simple)"
proof -
  let ?r = "(char_points chars, message_points msgs, tool_points ntools, if complex then [5] else [] :: int list,
    if simple \<and> chars < 100 then [- 20] else [] :: int list)"
  have "?r \<in> set (score_table ())"
    by (auto simp: score_table_def char_points_def message_points_def tool_points_def)
  with score_table_ok have "row_of ?r" by (auto simp: list_all_iff)
  then show ?thesis by (simp add: row_of_def join5_def complexity_points_def)
qed

text \<open>
  C30. The heuristic score of a request and its tier: the tier is the one of the sum of the points in hundredths, except
  that forty points made with tools and a complexity signal count as thirty-nine, since the sum of the doubles falls
  short of 0.4. The score stays between zero and one.
\<close>

theorem complexity_tier_exact:
  "let pts = complexity_points (total_chars req) (length (lr_Messages req)) (length (lr_Tools req))
       (list_ex (contains (last_message req)) complexitySignals) (list_ex (contains (last_message req)) simpleSignals)
   in tierForComplexity (estimateComplexity req) = decimal_tier (sum_list pts - rounded_off pts)
      \<and> 0 \<le> estimateComplexity req \<and> estimateComplexity req < 2 ^ 57"
  using complexity_points_row by (simp add: estimateComplexity_def Let_def score_row_def score_ok_def)

section \<open>Witnesses\<close>

definition routing_demo_env :: routing_env where
  "routing_demo_env = \<lparr>rv_observations = (\<lambda>p m. 0), rv_intent_observations = (\<lambda>p m c. 0), rv_score = (\<lambda>p q. 1 / 2), rv_clock = (\<lambda>i. 0)\<rparr>"

definition demo_provider :: Provider where
  "demo_provider = \<lparr>pv_Name = ''cloud'', pv_IsLocal = False, pv_CostPerOutputTok = 0\<rparr>"

definition demo_turn :: Request where
  "demo_turn = \<lparr>lr_Model = [], lr_Messages = [plain_message ''user'' ''good day''], lr_Tools = [], lr_IntentClass = [], lr_AgentRole = [],
     lr_TurnWeight = [], lr_TaskIntent = [], lr_TaskComplexity = []\<rparr>"

definition demo_router :: "bool \<Rightarrow> Router" where
  "demo_router rr = EnableMetascoreRouting (NewRouter (map (new_target [] [] demo_provider) [''a:7b'', ''c:70b''])
     \<lparr>rc_CostAware = False, rc_LocalFirst = False, rc_RoundRobin = rr\<rparr>)"

definition demo_breakers :: BreakerRegistry where
  "demo_breakers = NewBreakerRegistry DefaultCircuitBreakerConfig"

lemma demo_models: "ro_models (demo_router rr) \<noteq> []" "ro_override (demo_router rr) = []"
  by (simp_all add: demo_router_def EnableMetascoreRouting_def NewRouter_def)

theorem selected_target_permitted_witness:
  "may_serve (demo_router False) demo_turn (fst (Select routing_demo_env demo_turn (demo_router False) demo_breakers))"
proof -
  obtain sel r br where s: "Select routing_demo_env demo_turn (demo_router False) demo_breakers = (sel, r, br)"
    by (cases "Select routing_demo_env demo_turn (demo_router False) demo_breakers")
  have "list_ex (may_serve (demo_router False) demo_turn) (ro_models (demo_router False))" by code_simp
  then have "\<exists>t\<in>set (ro_models (demo_router False)). may_serve (demo_router False) demo_turn t" by (simp only: list_ex_iff)
  with selected_target_permitted [OF demo_models s] s show ?thesis by simp
qed

lemma candidate_targets_all: "lr_Tools req = [] \<Longrightarrow> list_all (may_serve r req) (ro_models r) \<Longrightarrow> candidate_targets r req = ro_models r"
  by (simp add: candidate_targets_def filterTargetsForRequest_eq filterTargetsForRole_def Let_def list_all_iff filter_True)

theorem round_robin_is_fair_witness:
  "mset (map tg_Model (select_all routing_demo_env (replicate 2 demo_turn) (demo_router True) demo_breakers)) = {#''a:7b'', ''c:70b''#}"
proof -
  have "lr_Tools demo_turn = []" "list_all (may_serve (demo_router True) demo_turn) (ro_models (demo_router True))" by code_simp+
  then have all: "candidate_targets (demo_router True) demo_turn = ro_models (demo_router True)" by (rule candidate_targets_all)
  have "ro_roundRobin (demo_router True)" "2 = length (ro_models (demo_router True))" "unat (ro_roundRobinIdx (demo_router True)) + 2 < 2 ^ 64"
    by (simp_all add: demo_router_def EnableMetascoreRouting_def NewRouter_def)
  from round_robin_is_fair [OF this(1) demo_models(2,1) this(2) [folded all] this(3)] all
  have "mset (select_all routing_demo_env (replicate 2 demo_turn) (demo_router True) demo_breakers) = mset (ro_models (demo_router True))"
    by simp
  moreover have "map tg_Model (ro_models (demo_router True)) = [''a:7b'', ''c:70b'']" by code_simp
  ultimately show ?thesis by (metis mset.simps mset_map)
qed

definition disable_a :: "(string, ModelPolicy) gomap" where
  "disable_a = [(''a:7b'', enabled_policy\<lparr>mp_State := ''disabled''\<rparr>)]"

theorem disabled_model_never_selected_witness:
  "tg_Model (fst (Select routing_demo_env demo_turn (ApplyModelPolicies disable_a (demo_router False)) demo_breakers)) \<noteq> ''a:7b''"
proof -
  obtain sel r br where s: "Select routing_demo_env demo_turn (ApplyModelPolicies disable_a (demo_router False)) demo_breakers = (sel, r, br)"
    by (cases "Select routing_demo_env demo_turn (ApplyModelPolicies disable_a (demo_router False)) demo_breakers")
  let ?u = "ro_models (demo_router False) ! 1"
  have "?u \<in> set (ro_models (demo_router False))" by (rule nth_mem) code_simp
  moreover have "may_serve (ApplyModelPolicies disable_a (demo_router False)) demo_turn (with_policy (effectiveModelPolicy (tg_Model ?u) disable_a) ?u)"
    by code_simp
  moreover have "\<not> liveRoutingAllowedForState (mp_State (effectiveModelPolicy ''a:7b'' disable_a))" by code_simp
  ultimately show ?thesis using disabled_model_never_selected [OF _ _ demo_models(2) _ s] s by simp
qed

end
