(* ===== verification/LLMService.thy ===== *)
theory LLMService
  imports "HOL-Library.Sublist" Routing Caches
begin

text \<open>
  How a request is answered: the transforms of answers (\<^verbatim>\<open>internal/llm/transform.go\<close>), the dropping of empty messages
  (\<^verbatim>\<open>message_sanitize.go\<close>), the escalation of sessions (\<^verbatim>\<open>session_escalation.go\<close>), the sharing of requests in flight
  (\<^verbatim>\<open>dedup.go\<close>), and the service with its chain of providers (\<^verbatim>\<open>Complete\<close>, \<^verbatim>\<open>completeWithFallback\<close> and \<^verbatim>\<open>Stream\<close> of
  \<^verbatim>\<open>service.go\<close>, \<^verbatim>\<open>service_breaker.go\<close>, \<^verbatim>\<open>service_cache.go\<close>) over the router, the breakers and the cache.

  A provider is called over the network: preparing a request and completing it are parameters, the second with the
  state of the world. The clock at each use, the iteration order of the map of providers and the trackers that feed the
  metascore are parameters too. Observer events, cost records and the trackers' updates are left out.
\<close>

section \<open>Transforms of answers\<close>

text \<open>\<^verbatim>\<open>(?s)<think>.*?</think>\<close>: the first opening tag up to the first closing tag after it, again and again.\<close>

function strip_think :: "string \<Rightarrow> string" where
  "strip_think s =
     (case str_index s ''<think>'' of
        None \<Rightarrow> s
      | Some i \<Rightarrow> (case str_index (drop (i + 7) s) ''</think>'' of
          None \<Rightarrow> s
        | Some j \<Rightarrow> take i s @ strip_think (drop (i + 7 + j + 8) s)))"
  by auto
termination
  by (relation "measure length") (auto intro: ccontr)

declare strip_think.simps [simp del]

definition ReasoningExtractor_Transform :: "string \<Rightarrow> string" where
  "ReasoningExtractor_Transform content = trim_space (strip_think content)"

function think_blocks :: "string \<Rightarrow> string list" where
  "think_blocks s =
     (case str_index s ''<think>'' of
        None \<Rightarrow> []
      | Some i \<Rightarrow> (case str_index (drop (i + 7) s) ''</think>'' of
          None \<Rightarrow> []
        | Some j \<Rightarrow> take j (drop (i + 7) s) # think_blocks (drop (i + 7 + j + 8) s)))"
  by auto
termination
  by (relation "measure length") (auto intro: ccontr)

declare think_blocks.simps [simp del]

definition ExtractReasoning :: "string \<Rightarrow> string" where
  "ExtractReasoning content = str_join [CHR 10, CHR 10] (filter (\<lambda>t. t \<noteq> []) (map trim_space (think_blocks content)))"

definition injectionMarkers :: "string list" where
  "injectionMarkers = [''[SYSTEM]'', ''[INST]'', ''<|im_start|>'', ''<s>'', ''</s>'']"

definition filteredMessage :: string where
  "filteredMessage = ''[Content filtered for safety]''"

definition HasInjection :: "string \<Rightarrow> bool" where
  "HasInjection content \<longleftrightarrow> list_ex (contains content) injectionMarkers"

definition ContentGuard_Transform :: "string \<Rightarrow> string" where
  "ContentGuard_Transform content = (if HasInjection content then filteredMessage else content)"

text \<open>Three and more line feeds become two; \<open>n\<close> counts those of the current run.\<close>

fun collapse_newlines :: "nat \<Rightarrow> string \<Rightarrow> string" where
  "collapse_newlines n [] = []"
| "collapse_newlines n (c # s) =
     (if c = CHR 10 then (if n \<ge> 2 then collapse_newlines n s else c # collapse_newlines (Suc n) s)
      else c # collapse_newlines 0 s)"

definition FormatNormalizer_Transform :: "string \<Rightarrow> string" where
  "FormatNormalizer_Transform content = collapse_newlines 0 (trim_space content)"

datatype ResponseTransform = ReasoningExtractor | ContentGuard | FormatNormalizer

fun Transform :: "ResponseTransform \<Rightarrow> string \<Rightarrow> string" where
  "Transform ReasoningExtractor = ReasoningExtractor_Transform"
| "Transform ContentGuard = ContentGuard_Transform"
| "Transform FormatNormalizer = FormatNormalizer_Transform"

definition Apply_transforms :: "ResponseTransform list \<Rightarrow> string \<Rightarrow> string" where
  "Apply_transforms ts content = fold Transform ts content"

definition DefaultTransformPipeline :: "ResponseTransform list" where
  "DefaultTransformPipeline = [ReasoningExtractor, ContentGuard, FormatNormalizer]"

record TransformOutput =
  to_Content :: string
  to_ReasoningExtracted :: string
  to_Modified :: bool
  to_Flagged :: bool

fun transform_step :: "ResponseTransform \<Rightarrow> string \<times> string \<times> bool \<Rightarrow> string \<times> string \<times> bool" where
  "transform_step t (content, reasoning, flagged) =
     (Transform t content, (if t = ReasoningExtractor then ExtractReasoning content else reasoning),
      flagged \<or> t = ContentGuard \<and> HasInjection content)"

definition ApplyWithOutput :: "ResponseTransform list \<Rightarrow> string \<Rightarrow> TransformOutput" where
  "ApplyWithOutput ts content =
     (let (out, reasoning, flagged) = fold transform_step ts (content, [], False) in
      \<lparr>to_Content = out, to_ReasoningExtracted = reasoning, to_Modified = (out \<noteq> content), to_Flagged = flagged\<rparr>)"

section \<open>Messages\<close>

definition dropEmptyMessages :: "Message list \<Rightarrow> Message list" where
  "dropEmptyMessages ms = filter (\<lambda>m. trim_space (msg_Content m) \<noteq> [] \<or> msg_ContentParts m \<noteq> [] \<or> msg_ToolCalls m \<noteq> []
       \<or> msg_ToolCallID m \<noteq> []) ms"

section \<open>Escalation of sessions\<close>

record sessionSignals =
  ss_consecutiveFailures :: int
  ss_lowQualityCount :: int
  ss_recentQualities :: "rat list"
  ss_currentModel :: string
  ss_totalTurns :: int

record SessionEscalationTracker =
  et_sessions :: "(string, sessionSignals) gomap"
  et_fallbacks :: "string list"

definition NewSessionEscalationTracker :: "string list \<Rightarrow> SessionEscalationTracker" where
  "NewSessionEscalationTracker fallbacks = \<lparr>et_sessions = [], et_fallbacks = fallbacks\<rparr>"

definition new_signals :: sessionSignals where
  "new_signals = \<lparr>ss_consecutiveFailures = 0, ss_lowQualityCount = 0, ss_recentQualities = [], ss_currentModel = [], ss_totalTurns = 0\<rparr>"

text \<open>The double nearest to 0.3.\<close>

definition three_tenths :: rat where
  "three_tenths = 5404319552844595 / 18014398509481984"

definition record_outcome :: "string \<Rightarrow> bool \<Rightarrow> rat \<Rightarrow> sessionSignals \<Rightarrow> sessionSignals" where
  "record_outcome model success quality s =
     (let qs = ss_recentQualities s @ [quality] in
      s\<lparr>ss_currentModel := model, ss_totalTurns := ss_totalTurns s + 1,
        ss_consecutiveFailures := (if success then 0 else ss_consecutiveFailures s + 1),
        ss_recentQualities := drop (length qs - 10) qs,
        ss_lowQualityCount := (if quality < three_tenths then ss_lowQualityCount s + 1 else 0)\<rparr>)"

definition RecordOutcome :: "string \<Rightarrow> string \<Rightarrow> bool \<Rightarrow> rat \<Rightarrow> SessionEscalationTracker \<Rightarrow> SessionEscalationTracker" where
  "RecordOutcome sessionID model success quality t =
     (let s = (case m_get (et_sessions t) sessionID of Some s \<Rightarrow> s | None \<Rightarrow> new_signals) in
      t\<lparr>et_sessions := m_put sessionID (record_outcome model success quality s) (et_sessions t)\<rparr>)"

fun nextModel :: "string list \<Rightarrow> string \<Rightarrow> string option \<Rightarrow> string option" where
  "nextModel [] current before = None"
| "nextModel (m # ms) current before = (if m = current then Some (case before of Some p \<Rightarrow> p | None \<Rightarrow> []) else nextModel ms current (Some m))"

definition next_model :: "string list \<Rightarrow> string \<Rightarrow> string" where
  "next_model fallbacks current =
     (if fallbacks = [] then [] else case nextModel fallbacks current None of Some m \<Rightarrow> m | None \<Rightarrow> hd fallbacks)"

definition ShouldEscalate :: "string \<Rightarrow> SessionEscalationTracker \<Rightarrow> bool \<times> string" where
  "ShouldEscalate sessionID t =
     (case m_get (et_sessions t) sessionID of
        None \<Rightarrow> (False, [])
      | Some s \<Rightarrow>
          let m = next_model (et_fallbacks t) (ss_currentModel s) in
          if ss_consecutiveFailures s \<ge> 2 \<and> m \<noteq> [] then (True, m)
          else if ss_lowQualityCount s \<ge> 3 \<and> m \<noteq> [] then (True, m)
          else (False, []))"

definition ResetSession :: "string \<Rightarrow> SessionEscalationTracker \<Rightarrow> SessionEscalationTracker" where
  "ResetSession sessionID t = t\<lparr>et_sessions := m_del sessionID (et_sessions t)\<rparr>"

section \<open>Requests in flight\<close>

text \<open>
  \<^verbatim>\<open>Dedup\<close> under any interleaving: a flight of a key is running, with its owner and the callers that wait, or finished
  and kept until its time to live is over (or the owner's context ends). A result is what the function returned, or the
  error of the waiter's own context. \<open>dd_log\<close> records the calls of the function and \<open>dd_answers\<close> the answers.
\<close>

datatype 'r flight = Running nat "nat list" | Finished 'r

datatype 'r dedup_answer = Shared 'r | ContextDone

record 'r Dedup =
  dd_inflight :: "(string, 'r flight) gomap"
  dd_log :: "(string \<times> nat) list"
  dd_answers :: "(nat \<times> 'r dedup_answer) list"

definition NewDedup :: "'r Dedup" where
  "NewDedup = \<lparr>dd_inflight = [], dd_log = [], dd_answers = []\<rparr>"

datatype 'r flight_event = DCall nat string | DFinish string 'r | DCancel nat string | DExpire string

fun flight_step :: "'r flight_event \<Rightarrow> 'r Dedup \<Rightarrow> 'r Dedup" where
  "flight_step (DCall caller key) d =
     (case m_get (dd_inflight d) key of
        None \<Rightarrow> d\<lparr>dd_inflight := m_put key (Running caller []) (dd_inflight d), dd_log := dd_log d @ [(key, caller)]\<rparr>
      | Some (Running owner ws) \<Rightarrow> d\<lparr>dd_inflight := m_put key (Running owner (ws @ [caller])) (dd_inflight d)\<rparr>
      | Some (Finished r) \<Rightarrow> d\<lparr>dd_answers := dd_answers d @ [(caller, Shared r)]\<rparr>)"
| "flight_step (DFinish key r) d =
     (case m_get (dd_inflight d) key of
        Some (Running owner ws) \<Rightarrow>
          d\<lparr>dd_inflight := m_put key (Finished r) (dd_inflight d),
            dd_answers := dd_answers d @ map (\<lambda>c. (c, Shared r)) (owner # ws)\<rparr>
      | _ \<Rightarrow> d)"
| "flight_step (DCancel caller key) d =
     (case m_get (dd_inflight d) key of
        Some (Running owner ws) \<Rightarrow>
          if caller \<in> set ws
          then d\<lparr>dd_inflight := m_put key (Running owner (remove1 caller ws)) (dd_inflight d),
                 dd_answers := dd_answers d @ [(caller, ContextDone)]\<rparr>
          else d
      | _ \<Rightarrow> d)"
| "flight_step (DExpire key) d =
     (case m_get (dd_inflight d) key of
        Some (Finished r) \<Rightarrow> d\<lparr>dd_inflight := m_del key (dd_inflight d)\<rparr>
      | _ \<Rightarrow> d)"

section \<open>The service\<close>

record 'f LLMService =
  sv_providers :: "(string, Provider) gomap"
  sv_router :: Router
  sv_breakers :: BreakerRegistry
  sv_cache :: "('f, Response) Cache"
  sv_primary :: string
  sv_fallbacks :: "string list"
  sv_escalation :: SessionEscalationTracker
  sv_toolAllowlist :: "string list"
  sv_toolBlocklist :: "string list"

record ServiceConfig =
  scf_Providers :: "Provider list"
  scf_Primary :: string
  scf_Fallbacks :: "string list"
  scf_Policies :: "(string, ModelPolicy) gomap"
  scf_RoleEligibility :: "(string, RoleEligibility) gomap"
  scf_Cache :: CacheConfig
  scf_Breaker :: CircuitBreakerConfig
  scf_Router :: RouterConfig
  scf_ToolAllowlist :: "string list"
  scf_ToolBlocklist :: "string list"

text \<open>\<^verbatim>\<open>NewService\<close>; \<open>client_ok\<close> tells for which providers a client can be made, the others are skipped. Saved
  answers are those of the store, if there is one.\<close>

definition NewService :: "(Provider \<Rightarrow> bool) \<Rightarrow> (string, cache_row) gomap option \<Rightarrow> ServiceConfig \<Rightarrow> 'f LLMService" where
  "NewService client_ok store cfg =
     (let ps = filter client_ok (scf_Providers cfg);
          targets = new_targets (scf_Policies cfg) (scf_RoleEligibility cfg) (scf_Primary cfg) (scf_Fallbacks cfg) ps
      in \<lparr>sv_providers = fold (\<lambda>p. m_put (pv_Name p) p) ps [],
          sv_router = EnableMetascoreRouting
            (SetToolSupportPolicy (scf_ToolAllowlist cfg) (scf_ToolBlocklist cfg) (NewRouter targets (scf_Router cfg))),
          sv_breakers = NewBreakerRegistry (scf_Breaker cfg), sv_cache = NewCache (scf_Cache cfg) store,
          sv_primary = scf_Primary cfg, sv_fallbacks = scf_Fallbacks cfg,
          sv_escalation = NewSessionEscalationTracker (scf_Fallbacks cfg),
          sv_toolAllowlist = scf_ToolAllowlist cfg, sv_toolBlocklist = scf_ToolBlocklist cfg\<rparr>)"

text \<open>The error of a provider call as the breaker tells them apart.\<close>

datatype call_error = CreditExhausted string | OtherFailure string

datatype service_error = AllProvidersFailed call_error | NoProviders

record 'w service_env =
  se_routing :: routing_env
  se_allow_clock :: "nat \<Rightarrow> time"
  se_done_clock :: "nat \<Rightarrow> time"
  se_cache_clock :: "nat \<Rightarrow> time"
  se_provider_order :: "string list"
  se_prepare :: "string \<Rightarrow> Request \<Rightarrow> call_error option"
  se_complete :: "string \<Rightarrow> Request \<Rightarrow> 'w \<Rightarrow> (call_error + Response) \<times> 'w"
  se_stream :: "string \<Rightarrow> Request \<Rightarrow> 'w \<Rightarrow> (string list \<times> string option) \<times> 'w"

record call_options =
  co_NoEscalate :: bool
  co_Stream :: bool
  co_Override :: string
  co_SessionID :: string

section \<open>The chain of providers\<close>

definition known_provider :: "'f LLMService \<Rightarrow> string \<Rightarrow> bool" where
  "known_provider s name \<longleftrightarrow> m_get (sv_providers s) name \<noteq> None"

text \<open>The entries for the requested model, and the model that fallbacks without one of their own take.\<close>

definition primary_entries :: "string list \<Rightarrow> 'f LLMService \<Rightarrow> string \<Rightarrow> (string \<times> string) list \<times> string" where
  "primary_entries order s model =
     (let (provider, parsed) = splitModelSpec model in
      if parsed \<noteq> [] then ([(provider, parsed)], parsed)
      else if known_provider s provider then ([(provider, provider)], provider)
      else if sv_primary s \<noteq> [] then ([(sv_primary s, model)], model)
      else (map (\<lambda>name. (name, model)) order, model))"

definition add_fallback :: "'f LLMService \<Rightarrow> string \<Rightarrow> string \<Rightarrow> (string \<times> string) list \<Rightarrow> (string \<times> string) list" where
  "add_fallback s primaryModel fb chain =
     (let (provider, parsed) = splitModelSpec fb; model = (if parsed \<noteq> [] then parsed else primaryModel) in
      if parsed = [] \<and> \<not> known_provider s provider then chain
      else if (provider, model) \<in> set chain then chain
      else chain @ [(provider, model)])"

definition or_all :: "string list \<Rightarrow> string \<Rightarrow> (string \<times> string) list \<Rightarrow> (string \<times> string) list" where
  "or_all order model chain = (if chain = [] then map (\<lambda>name. (name, model)) order else chain)"

definition inference_chain :: "string list \<Rightarrow> bool \<Rightarrow> 'f LLMService \<Rightarrow> string \<Rightarrow> (string \<times> string) list" where
  "inference_chain order noEscalate s model =
     (let (chain, primaryModel) = primary_entries order s model in
      or_all order model (if noEscalate then chain else fold (add_fallback s primaryModel) (sv_fallbacks s) chain))"

text \<open>The chain of \<^verbatim>\<open>Stream\<close>: a bare model name goes to every provider, and the fallbacks are always added.\<close>

definition stream_chain :: "string list \<Rightarrow> 'f LLMService \<Rightarrow> string \<Rightarrow> (string \<times> string) list" where
  "stream_chain order s model =
     (let (provider, parsed) = splitModelSpec model;
          (chain, primaryModel) =
            (if parsed \<noteq> [] then ([(provider, parsed)], parsed)
             else if known_provider s provider then ([(provider, provider)], provider)
             else (map (\<lambda>name. (name, model)) order, model))
      in or_all order model (fold (add_fallback s primaryModel) (sv_fallbacks s) chain))"

section \<open>Trying the chain\<close>

definition update_provider :: "string \<Rightarrow> (CircuitBreaker \<Rightarrow> CircuitBreaker) \<Rightarrow> BreakerRegistry \<Rightarrow> BreakerRegistry" where
  "update_provider name f r = (let (cb, r1) = Get_breaker name r in put_breaker name (f cb) r1)"

definition record_call_error :: "time \<Rightarrow> call_error \<Rightarrow> CircuitBreaker \<Rightarrow> CircuitBreaker" where
  "record_call_error now e =
     (case e of CreditExhausted _ \<Rightarrow> Circuit.RecordCreditError now | OtherFailure _ \<Rightarrow> Circuit.RecordFailure now)"

text \<open>
  The loop over the chain: result, registry, world, and the calls made, each with its error. An entry is passed over
  when its provider is unknown, its breaker does not allow a call, its model takes no tools while the request has some, or
  the request cannot be prepared for it.
\<close>

fun try_chain ::
  "'w service_env \<Rightarrow> 'f LLMService \<Rightarrow> Request \<Rightarrow> nat \<Rightarrow> (string \<times> string) list \<Rightarrow> call_error option \<Rightarrow> BreakerRegistry \<Rightarrow> 'w
     \<Rightarrow> (service_error + Response) \<times> BreakerRegistry \<times> 'w \<times> ((string \<times> string) \<times> call_error option) list" where
  "try_chain env s req i [] lastErr r w = (Inl (case lastErr of Some e \<Rightarrow> AllProvidersFailed e | None \<Rightarrow> NoProviders), r, w, [])"
| "try_chain env s req i ((provider, model) # rest) lastErr r w =
     (if \<not> known_provider s provider then try_chain env s req (Suc i) rest lastErr r w
      else let (ok, r1) = allow_provider (se_allow_clock env i) provider r in
        if \<not> ok then try_chain env s req (Suc i) rest lastErr r1 w
        else if lr_Tools req \<noteq> [] \<and> \<not> modelSupportsTools (sv_toolAllowlist s) (sv_toolBlocklist s) model
        then try_chain env s req (Suc i) rest lastErr r1 w
        else let q = req\<lparr>lr_Model := model\<rparr> in
          case se_prepare env provider q of
            Some e \<Rightarrow> try_chain env s req (Suc i) rest (Some e) r1 w
          | None \<Rightarrow>
              (case se_complete env provider q w of
                 (Inl e, w1) \<Rightarrow>
                   let r2 = update_provider provider (record_call_error (se_done_clock env i) e) r1;
                       (res, r3, w2, calls) = try_chain env s req (Suc i) rest (Some e) r2 w1
                   in (res, r3, w2, ((provider, model), Some e) # calls)
               | (Inr resp, w1) \<Rightarrow>
                   (Inr (resp\<lparr>resp_Provider := provider,
                              resp_Content := Apply_transforms DefaultTransformPipeline (resp_Content resp)\<rparr>),
                    update_provider provider Circuit.RecordSuccess r1, w1, [((provider, model), None)])))"

section \<open>Requests\<close>

definition escalated_model :: "call_options \<Rightarrow> string \<Rightarrow> 'f LLMService \<Rightarrow> string" where
  "escalated_model opts model s =
     (if model = [] \<and> \<not> co_NoEscalate opts \<and> co_SessionID opts \<noteq> []
      then (case ShouldEscalate (co_SessionID opts) (sv_escalation s) of (yes, m) \<Rightarrow> if yes \<and> m \<noteq> [] then m else model)
      else model)"

text \<open>Routing a request without a model; the configured primary model is the last resort.\<close>

definition routed_model :: "routing_env \<Rightarrow> Request \<Rightarrow> 'f LLMService \<Rightarrow> string \<times> 'f LLMService" where
  "routed_model env req s =
     (let (t, router, br) = Select env req (sv_router s) (sv_breakers s); spec = ModelSpecForTarget t in
      (if spec = [] then sv_primary s else spec, s\<lparr>sv_router := router, sv_breakers := br\<rparr>))"

definition chosen_model :: "routing_env \<Rightarrow> call_options \<Rightarrow> Request \<Rightarrow> 'f LLMService \<Rightarrow> string \<times> 'f LLMService" where
  "chosen_model env opts req s =
     (let m0 = (if lr_Model req = [] then co_Override opts else lr_Model req); m1 = escalated_model opts m0 s in
      if m1 = [] then routed_model env req s else (m1, s))"

definition completeWithFallback ::
  "('f, Response) cache_lib \<Rightarrow> 'w service_env \<Rightarrow> call_options \<Rightarrow> Request \<Rightarrow> 'f LLMService \<Rightarrow> 'w
     \<Rightarrow> (service_error + Response) \<times> 'f LLMService \<times> 'w \<times> ((string \<times> string) \<times> call_error option) list" where
  "completeWithFallback lib env opts req s w =
     (let clk = se_cache_clock env;
          (hit, cache) = (if \<not> co_Stream opts \<and> \<not> co_NoEscalate opts
                          then Get_cached lib (clk 0) (clk 1) (clk 2) req (sv_cache s) else (None, sv_cache s))
      in case hit of
           Some resp \<Rightarrow> (Inr resp, s\<lparr>sv_cache := cache\<rparr>, w, [])
         | None \<Rightarrow>
             let (model, s1) = chosen_model (se_routing env) opts req (s\<lparr>sv_cache := cache\<rparr>);
                 q = req\<lparr>lr_Model := model\<rparr>;
                 (res, br, w1, calls) =
                   try_chain env s1 q 0 (inference_chain (se_provider_order env) (co_NoEscalate opts) s1 model) None (sv_breakers s1) w;
                 s2 = s1\<lparr>sv_breakers := br\<rparr>
             in (res,
                 (case res of
                    Inr resp \<Rightarrow> if co_NoEscalate opts then s2 else s2\<lparr>sv_cache := Put lib (clk 3) q resp (sv_cache s2)\<rparr>
                  | Inl _ \<Rightarrow> s2),
                 w1, calls))"

text \<open>\<^verbatim>\<open>Complete\<close> of a caller that owns its flight.\<close>

definition Complete ::
  "('f, Response) cache_lib \<Rightarrow> 'w service_env \<Rightarrow> call_options \<Rightarrow> Request \<Rightarrow> 'f LLMService \<Rightarrow> 'w
     \<Rightarrow> (service_error + Response) \<times> 'f LLMService \<times> 'w \<times> ((string \<times> string) \<times> call_error option) list" where
  "Complete lib env opts req s w = completeWithFallback lib env opts (req\<lparr>lr_Messages := dropEmptyMessages (lr_Messages req)\<rparr>) s w"

text \<open>
  A stream: the provider's chunks and the error it ends with, if any. The first chunk counts as success for the
  breaker, an error before any chunk as failure; what arrived is stored as the answer, error or not.
\<close>

datatype stream_result = StreamCached string | StreamFrom string string "string list" "string option" | StreamNone

definition wrapStreamBreaker :: "time \<Rightarrow> string list \<Rightarrow> string option \<Rightarrow> CircuitBreaker \<Rightarrow> CircuitBreaker" where
  "wrapStreamBreaker now chunks err cb =
     (if chunks \<noteq> [] then Circuit.RecordSuccess cb else if err \<noteq> None then Circuit.RecordFailure now cb else cb)"

fun stream_scan ::
  "'w service_env \<Rightarrow> 'f LLMService \<Rightarrow> nat \<Rightarrow> (string \<times> string) list \<Rightarrow> BreakerRegistry \<Rightarrow> (nat \<times> string \<times> string) option \<times> BreakerRegistry" where
  "stream_scan env s i [] r = (None, r)"
| "stream_scan env s i ((provider, model) # rest) r =
     (if \<not> known_provider s provider then stream_scan env s (Suc i) rest r
      else let (ok, r1) = allow_provider (se_allow_clock env i) provider r in
        if ok then (Some (i, provider, model), r1) else stream_scan env s (Suc i) rest r1)"

definition stream_response :: "string \<Rightarrow> Response" where
  "stream_response content =
     \<lparr>resp_Model = [], resp_Content = content, resp_ToolCalls = [], resp_FinishReason = [], resp_Provider = []\<rparr>"

definition Stream ::
  "('f, Response) cache_lib \<Rightarrow> 'w service_env \<Rightarrow> call_options \<Rightarrow> Request \<Rightarrow> 'f LLMService \<Rightarrow> 'w \<Rightarrow> stream_result \<times> 'f LLMService \<times> 'w" where
  "Stream lib env opts req0 s w =
     (let req = req0\<lparr>lr_Messages := dropEmptyMessages (lr_Messages req0)\<rparr>; clk = se_cache_clock env;
          (hit, cache) = (if \<not> co_NoEscalate opts then Get_cached lib (clk 0) (clk 1) (clk 2) req (sv_cache s) else (None, sv_cache s));
          s0 = s\<lparr>sv_cache := cache\<rparr>
      in case hit of
           Some resp \<Rightarrow> (StreamCached (resp_Content resp), s0, w)
         | None \<Rightarrow>
             let (model, s1) = (if lr_Model req = [] then routed_model (se_routing env) req s0 else (lr_Model req, s0));
                 (found, br) = stream_scan env s1 0 (stream_chain (se_provider_order env) s1 model) (sv_breakers s1)
             in case found of
                  None \<Rightarrow> (StreamNone, s1\<lparr>sv_breakers := br\<rparr>, w)
                | Some (i, provider, m) \<Rightarrow>
                    let ((chunks, err), w1) = se_stream env provider (req\<lparr>lr_Model := m\<rparr>) w;
                        br1 = update_provider provider (wrapStreamBreaker (se_done_clock env i) chunks err) br;
                        s2 = s1\<lparr>sv_breakers := br1\<rparr>; content = concat chunks
                    in (StreamFrom provider m chunks err,
                        (if content = [] then s2
                         else s2\<lparr>sv_cache := Put lib (clk 3) (req\<lparr>lr_Model := model\<rparr>) (stream_response content) (sv_cache s2)\<rparr>),
                        w1))"

text \<open>\<^verbatim>\<open>resolveProviderChain\<close>, \<^verbatim>\<open>ResetBreaker\<close> and \<^verbatim>\<open>ForceOpenBreaker\<close>; \<open>None\<close> is the error of an unknown provider.\<close>

definition add_known :: "'f LLMService \<Rightarrow> string \<Rightarrow> string list \<Rightarrow> string list" where
  "add_known s name chain = (if name \<notin> set chain \<and> known_provider s name then chain @ [name] else chain)"

definition resolveProviderChain :: "string list \<Rightarrow> 'f LLMService \<Rightarrow> string \<Rightarrow> string list" where
  "resolveProviderChain order s hint =
     (let names = (if sv_primary s \<noteq> [] then [fst (splitModelSpec (sv_primary s))] else [])
                  @ map (\<lambda>fb. fst (splitModelSpec fb)) (sv_fallbacks s) @ order
      in fold (add_known s) (hint # names) [])"

definition on_breaker :: "(CircuitBreaker \<Rightarrow> CircuitBreaker) \<Rightarrow> string \<Rightarrow> 'f LLMService \<Rightarrow> 'f LLMService option" where
  "on_breaker f name s =
     (if known_provider s name then Some (s\<lparr>sv_breakers := update_provider name f (sv_breakers s)\<rparr>) else None)"

definition ResetBreaker :: "string \<Rightarrow> 'f LLMService \<Rightarrow> 'f LLMService option" where
  "ResetBreaker = on_breaker Circuit.Reset"

definition ForceOpenBreaker :: "string \<Rightarrow> 'f LLMService \<Rightarrow> 'f LLMService option" where
  "ForceOpenBreaker = on_breaker Circuit.ForceOpen"

section \<open>Answers carry no injection marker\<close>

lemma collapse_prefix: "has_prefix (collapse_newlines 0 s) m \<Longrightarrow> CHR 10 \<notin> set m \<Longrightarrow> has_prefix s m"
proof (induction s arbitrary: m)
  case (Cons c s)
  then show ?case by (cases m) (auto simp: has_prefix_def split: if_splits)
qed simp

lemma collapse_contains: "contains (collapse_newlines n s) m \<Longrightarrow> m \<noteq> [] \<Longrightarrow> CHR 10 \<notin> set m \<Longrightarrow> contains s m"
proof (induction n s rule: collapse_newlines.induct)
  case (2 n c s)
  show ?case
  proof (cases "c = CHR 10")
    case True
    with 2 show ?thesis by (cases m) (auto simp: has_prefix_def split: if_splits)
  next
    case False
    have "has_prefix (c # collapse_newlines 0 s) m \<Longrightarrow> has_prefix (c # s) m"
      using collapse_prefix [of "c # s" m] False 2(6) by simp
    with 2 False show ?thesis by auto
  qed
qed simp

lemma trim_contains: "contains (trim_space s) m \<Longrightarrow> contains s m"
  using contains_trim_space [of s] unfolding contains_iff by (metis append.assoc)

definition clean_content :: "string \<Rightarrow> bool" where
  "clean_content s \<longleftrightarrow> \<not> HasInjection s"

lemma markers_single_line: "m \<in> set injectionMarkers \<Longrightarrow> m \<noteq> [] \<and> CHR 10 \<notin> set m"
  by (auto simp: injectionMarkers_def)

lemma filtered_message_clean: "\<not> HasInjection filteredMessage"
  by code_simp

lemma transforms_clean: "clean_content (Apply_transforms DefaultTransformPipeline s)"
proof -
  let ?g = "ContentGuard_Transform (ReasoningExtractor_Transform s)"
  have g: "\<not> HasInjection ?g" by (simp add: ContentGuard_Transform_def filtered_message_clean)
  have "\<not> HasInjection (FormatNormalizer_Transform ?g)"
    using g collapse_contains trim_contains markers_single_line
    unfolding HasInjection_def list_ex_iff FormatNormalizer_Transform_def by blast
  then show ?thesis by (simp add: clean_content_def Apply_transforms_def DefaultTransformPipeline_def)
qed

section \<open>Breakers that do not move\<close>

text \<open>
  A breaker that admits nothing and is not changed by being asked: shut by the operator or by a payment error, or half
  open with all probes used and no outcome recorded.
\<close>

definition stuck :: "CircuitBreaker \<Rightarrow> bool" where
  "stuck cb \<longleftrightarrow> forcedOpen cb \<or> creditTripped cb \<or> state cb = CircuitHalfOpen \<and> HalfOpenProbes (config cb) \<le> halfOpenUsed cb"

definition stuck_provider :: "string \<Rightarrow> BreakerRegistry \<Rightarrow> bool" where
  "stuck_provider p r \<longleftrightarrow> (\<exists>cb. m_get (breakers r) p = Some cb \<and> stuck cb)"

lemma stuck_denies: "stuck cb \<Longrightarrow> Circuit.Allow now cb = (False, cb)"
  by (auto simp: stuck_def Circuit.Allow_def split: CircuitState.splits)

lemma Get_breaker_other: "Get_breaker q r = (cb, r1) \<Longrightarrow> m_get (breakers r) p = Some c \<Longrightarrow> m_get (breakers r1) p = Some c"
  by (auto simp: Get_breaker_def Let_def split: option.splits)

lemma stuck_allow: "stuck_provider p r \<Longrightarrow> allow_provider now p r = (ok, r1) \<Longrightarrow> \<not> ok"
  by (auto simp: stuck_provider_def allow_provider_def Get_breaker_def stuck_denies)

lemma stuck_allow_keeps: "stuck_provider p r \<Longrightarrow> allow_provider now q r = (ok, r1) \<Longrightarrow> stuck_provider p r1"
  by (cases "q = p")
    (auto simp: stuck_provider_def allow_provider_def put_breaker_def Get_breaker_def stuck_denies Let_def
      split: prod.splits option.splits)

lemma stuck_update_keeps: "stuck_provider p r \<Longrightarrow> q \<noteq> p \<Longrightarrow> stuck_provider p (update_provider q f r)"
  by (auto simp: stuck_provider_def update_provider_def put_breaker_def Let_def split: prod.splits dest: Get_breaker_other)

text \<open>The loop over the chain, one entry at a time: passed over, failed, or answered.\<close>

definition takes_tools :: "'f LLMService \<Rightarrow> Request \<Rightarrow> string \<Rightarrow> bool" where
  "takes_tools s req model \<longleftrightarrow> lr_Tools req = [] \<or> modelSupportsTools (sv_toolAllowlist s) (sv_toolBlocklist s) model"

lemma try_chain_induct [consumes 1, case_names Nil Skip Fail Success]:
  assumes run: "try_chain env s req i chain lastErr r w = (res, r1, w1, calls)"
    and Nil: "\<And>i lastErr r w. P i [] lastErr r w (Inl (case lastErr of Some e \<Rightarrow> AllProvidersFailed e | None \<Rightarrow> NoProviders)) r []"
    and Skip: "\<And>i p m rest lastErr lastErr' r r' w res r1 calls.
        \<lbrakk>r' = r \<or> (\<exists>ok. allow_provider (se_allow_clock env i) p r = (ok, r'));
         lastErr' = lastErr \<or> (\<exists>e. lastErr' = Some e);
         P (Suc i) rest lastErr' r' w res r1 calls\<rbrakk>
        \<Longrightarrow> P i ((p, m) # rest) lastErr r w res r1 calls"
    and Fail: "\<And>i p m rest lastErr r r' w e w' res r1 calls.
        \<lbrakk>known_provider s p; allow_provider (se_allow_clock env i) p r = (True, r'); takes_tools s req m;
         se_complete env p (req\<lparr>lr_Model := m\<rparr>) w = (Inl e, w');
         P (Suc i) rest (Some e) (update_provider p (record_call_error (se_done_clock env i) e) r') w' res r1 calls\<rbrakk>
        \<Longrightarrow> P i ((p, m) # rest) lastErr r w res r1 (((p, m), Some e) # calls)"
    and Success: "\<And>i p m rest lastErr r r' w resp w'.
        \<lbrakk>known_provider s p; allow_provider (se_allow_clock env i) p r = (True, r'); takes_tools s req m;
         se_complete env p (req\<lparr>lr_Model := m\<rparr>) w = (Inr resp, w')\<rbrakk>
        \<Longrightarrow> P i ((p, m) # rest) lastErr r w
              (Inr (resp\<lparr>resp_Provider := p, resp_Content := Apply_transforms DefaultTransformPipeline (resp_Content resp)\<rparr>))
              (update_provider p Circuit.RecordSuccess r') [((p, m), None)]"
  shows "P i chain lastErr r w res r1 calls"
  using run
proof (induction chain arbitrary: i lastErr r w res r1 w1 calls)
  case Nil
  then show ?case using assms(2) by auto
next
  case (Cons entry rest)
  obtain p m where entry: "entry = (p, m)" by (cases entry)
  obtain ok r' where a: "allow_provider (se_allow_clock env i) p r = (ok, r')" by (cases "allow_provider (se_allow_clock env i) p r")
  let ?q = "req\<lparr>lr_Model := m\<rparr>"
  note run = Cons.prems [unfolded entry]
  consider (unknown) "\<not> known_provider s p"
    | (passed) "known_provider s p" "\<not> ok \<or> \<not> takes_tools s req m"
    | (unprepared) e where "known_provider s p" "ok" "takes_tools s req m" "se_prepare env p ?q = Some e"
    | (called) "known_provider s p" "ok" "takes_tools s req m" "se_prepare env p ?q = None"
    by (cases "se_prepare env p ?q") auto
  then show ?case
  proof cases
    case unknown
    with run have "try_chain env s req (Suc i) rest lastErr r w = (res, r1, w1, calls)" by simp
    from Skip [OF _ _ Cons.IH [OF this]] show ?thesis unfolding entry by blast
  next
    case passed
    with run a have "try_chain env s req (Suc i) rest lastErr r' w = (res, r1, w1, calls)"
      by (auto simp: takes_tools_def split: if_splits)
    from Skip [OF _ _ Cons.IH [OF this]] a show ?thesis unfolding entry by blast
  next
    case unprepared
    with run a have "try_chain env s req (Suc i) rest (Some e) r' w = (res, r1, w1, calls)" by (auto simp: takes_tools_def Let_def)
    from Skip [OF _ _ Cons.IH [OF this]] a show ?thesis unfolding entry by blast
  next
    case called
    show ?thesis
    proof (cases "se_complete env p ?q w")
      case (Pair out w')
      show ?thesis
      proof (cases out)
        case (Inl e)
        obtain res' r1' w1' calls' where rest: "try_chain env s req (Suc i) rest (Some e)
            (update_provider p (record_call_error (se_done_clock env i) e) r') w' = (res', r1', w1', calls')"
          by (metis prod_cases4)
        have "res = res'" "r1 = r1'" "calls = ((p, m), Some e) # calls'"
          using run called a Pair Inl rest by (auto simp: takes_tools_def Let_def)
        then show ?thesis using Fail [OF called(1) _ called(3) _ Cons.IH [OF rest]] a called(2) Pair Inl unfolding entry by simp
      next
        case (Inr resp)
        have "res = Inr (resp\<lparr>resp_Provider := p, resp_Content := Apply_transforms DefaultTransformPipeline (resp_Content resp)\<rparr>)"
          "r1 = update_provider p Circuit.RecordSuccess r'" "calls = [((p, m), None)]"
          using run called a Pair Inr by (auto simp: takes_tools_def Let_def)
        then show ?thesis using Success [OF called(1) _ called(3)] a called(2) Pair Inr unfolding entry by simp
      qed
    qed
  qed
qed

lemma stuck_try_chain:
  assumes "try_chain env s req i chain lastErr r w = (res, r1, w1, calls)" and "stuck_provider p r"
  shows "stuck_provider p r1 \<and> (\<forall>c\<in>set calls. fst (fst c) \<noteq> p)"
  using assms
proof (induction rule: try_chain_induct)
  case (Skip i q m rest lastErr lastErr' r r' w res r1 calls)
  then show ?case using stuck_allow_keeps by blast
next
  case (Fail i q m rest lastErr r r' w e w' res r1 calls)
  have "q \<noteq> p" using stuck_allow [OF _ Fail(2)] Fail.prems by auto
  moreover have "stuck_provider p r'" by (rule stuck_allow_keeps [OF Fail.prems Fail(2)])
  ultimately show ?case using Fail stuck_update_keeps by auto
next
  case (Success i q m rest lastErr r r' w resp w')
  have "q \<noteq> p" using stuck_allow [OF _ Success(2)] Success.prems by auto
  moreover have "stuck_provider p r'" by (rule stuck_allow_keeps [OF Success.prems Success(2)])
  ultimately show ?case using stuck_update_keeps by auto
qed simp

text \<open>What a run of the chain reports: failed calls, then at most one that answered.\<close>

lemma try_chain_outcome:
  assumes "try_chain env s req i chain lastErr r w = (res, r1, w1, calls)"
  shows "subseq (map fst calls) chain \<and> (\<forall>c\<in>set calls. known_provider s (fst (fst c)) \<and> takes_tools s req (snd (fst c)))
    \<and> (case res of
         Inr resp \<Rightarrow> \<exists>failed p m. calls = failed @ [((p, m), None)] \<and> (\<forall>c\<in>set failed. snd c \<noteq> None) \<and> resp_Provider resp = p
                       \<and> clean_content (resp_Content resp)
       | Inl NoProviders \<Rightarrow> calls = [] \<and> lastErr = None
       | Inl (AllProvidersFailed e) \<Rightarrow> (\<forall>c\<in>set calls. snd c \<noteq> None))"
  using assms
proof (induction rule: try_chain_induct)
  case (Fail i q m rest lastErr r r' w e w' res r1 calls)
  show ?case
  proof (cases res)
    case (Inl se)
    with Fail show ?thesis by (cases se) auto
  next
    case (Inr resp)
    with Fail(5) obtain failed p' m' where "calls = failed @ [((p', m'), None)]" "\<forall>c\<in>set failed. snd c \<noteq> None" "resp_Provider resp = p'"
      by auto
    then have "((q, m), Some e) # calls = (((q, m), Some e) # failed) @ [((p', m'), None)]"
      "\<forall>c\<in>set (((q, m), Some e) # failed). snd c \<noteq> None" by auto
    with Inr Fail show ?thesis by auto
  qed
next
  case (Skip i q m rest lastErr lastErr' r r' w res r1 calls)
  then show ?case by (auto split: sum.splits service_error.splits)
qed (auto simp: transforms_clean split: option.splits)


section \<open>Selecting a model moves no breaker that is stuck\<close>

lemma stuck_Get: "stuck_provider p r \<Longrightarrow> Get_breaker q r = (cb, r1) \<Longrightarrow> stuck_provider p r1"
  by (auto simp: stuck_provider_def dest: Get_breaker_other)

lemma stuck_profiles: "BuildModelProfiles env ts r = (ps, r1) \<Longrightarrow> stuck_provider p r \<Longrightarrow> stuck_provider p r1"
  by (induction ts arbitrary: r ps r1) (auto simp: Let_def split: prod.splits dest: stuck_Get)

lemma stuck_scan: "metascore_scan env req i ps best r = (b, r1) \<Longrightarrow> stuck_provider p r \<Longrightarrow> stuck_provider p r1"
proof (induction ps arbitrary: i best r)
  case (Cons q ps)
  obtain ok r' where a: "allow_provider (rv_clock env i) (pf_Provider q) r = (ok, r')"
    by (cases "allow_provider (rv_clock env i) (pf_Provider q) r")
  show ?case
    using Cons.prems Cons.IH stuck_allow_keeps [OF Cons.prems(2) a] a by (auto split: if_splits)
qed simp

lemma stuck_Select: "Select env req ro r = (t, ro1, r1) \<Longrightarrow> stuck_provider p r \<Longrightarrow> stuck_provider p r1"
  by (auto simp: Select_def MetascoreSelector_def Let_def split: if_splits prod.splits option.splits
      dest: stuck_profiles stuck_scan)

lemma chosen_model_keeps:
  assumes "chosen_model env opts req s = (model, s1)"
  shows "sv_providers s1 = sv_providers s \<and> sv_toolAllowlist s1 = sv_toolAllowlist s \<and> sv_toolBlocklist s1 = sv_toolBlocklist s
    \<and> sv_cache s1 = sv_cache s \<and> sv_primary s1 = sv_primary s \<and> sv_fallbacks s1 = sv_fallbacks s
    \<and> (stuck_provider p (sv_breakers s) \<longrightarrow> stuck_provider p (sv_breakers s1))"
  using assms
  by (auto simp: chosen_model_def routed_model_def Let_def split: if_splits prod.splits dest: stuck_Select)

text \<open>A request is answered by the cache, or the chain is run.\<close>

lemma completeWithFallback_cases:
  assumes "completeWithFallback lib env opts req s w = (res, s', w', calls)"
  obtains (Hit) resp cache where "res = Inr resp" "calls = []" "w' = w" "\<not> co_NoEscalate opts" "s' = s\<lparr>sv_cache := cache\<rparr>"
      "fst (Get_cached lib (se_cache_clock env 0) (se_cache_clock env 1) (se_cache_clock env 2) req (sv_cache s)) = Some resp"
    | (Chain) cache model s1 br where "co_NoEscalate opts \<longrightarrow> cache = sv_cache s"
      "chosen_model (se_routing env) opts req (s\<lparr>sv_cache := cache\<rparr>) = (model, s1)"
      "try_chain env s1 (req\<lparr>lr_Model := model\<rparr>) 0 (inference_chain (se_provider_order env) (co_NoEscalate opts) s1 model) None
         (sv_breakers s1) w = (res, br, w', calls)"
      "sv_breakers s' = br" "co_NoEscalate opts \<longrightarrow> sv_cache s' = sv_cache s1"
proof -
  obtain hit cache where hit: "(if \<not> co_Stream opts \<and> \<not> co_NoEscalate opts
      then Get_cached lib (se_cache_clock env 0) (se_cache_clock env 1) (se_cache_clock env 2) req (sv_cache s)
      else (None, sv_cache s)) = (hit, cache)" by fastforce
  show thesis
  proof (cases hit)
    case (Some resp)
    with hit assms show ?thesis by (intro Hit [of resp cache]) (auto simp: completeWithFallback_def Let_def split: if_splits)
  next
    case None
    obtain model s1 where m: "chosen_model (se_routing env) opts req (s\<lparr>sv_cache := cache\<rparr>) = (model, s1)" by fastforce
    obtain res1 br w1 calls1 where t: "try_chain env s1 (req\<lparr>lr_Model := model\<rparr>) 0
        (inference_chain (se_provider_order env) (co_NoEscalate opts) s1 model) None (sv_breakers s1) w = (res1, br, w1, calls1)"
      by (metis prod_cases4)
    have "res1 = res" "w1 = w'" "calls1 = calls" "sv_breakers s' = br" "co_NoEscalate opts \<longrightarrow> sv_cache s' = sv_cache s1"
      using assms unfolding completeWithFallback_def Let_def hit None
      by (auto simp: m t split: sum.splits)
    with None hit m t show ?thesis by (intro Chain [of cache model s1 br]) (auto split: if_splits)
  qed
qed

text \<open>
  C15. What a request comes to, whatever providers, breakers and router do: only registered providers are called;
  an answer comes from the cache, or from the last call made, all earlier ones having failed, names the provider
  that gave it and carries no injection marker; an error of all providers means that every call failed, and the error
  of no provider that none was made.
\<close>

theorem fallback_outcome:
  assumes "completeWithFallback lib env opts req s w = (res, s', w', calls)"
  shows "(\<forall>c\<in>set calls. known_provider s (fst (fst c)))
    \<and> (case res of
         Inr resp \<Rightarrow>
           calls = [] \<and> w' = w
             \<and> fst (Get_cached lib (se_cache_clock env 0) (se_cache_clock env 1) (se_cache_clock env 2) req (sv_cache s)) = Some resp
           \<or> (\<exists>failed p m. calls = failed @ [((p, m), None)] \<and> (\<forall>c\<in>set failed. snd c \<noteq> None)
                \<and> resp_Provider resp = p \<and> \<not> HasInjection (resp_Content resp))
       | Inl NoProviders \<Rightarrow> calls = []
       | Inl (AllProvidersFailed e) \<Rightarrow> (\<forall>c\<in>set calls. snd c \<noteq> None))"
  using assms
proof (cases rule: completeWithFallback_cases)
  case (Hit resp cache)
  then show ?thesis by simp
next
  case (Chain cache model s1 br)
  have k: "known_provider s1 = known_provider s"
    using chosen_model_keeps [OF Chain(2)] by (auto simp: known_provider_def)
  from try_chain_outcome [OF Chain(3)] show ?thesis
    by (auto simp: k clean_content_def split: sum.splits service_error.splits)
qed

text \<open>
  C14. A provider whose breaker is shut by the operator or a payment error, or has used up its probes, is never called,
  and neither the selection of a model nor the run of the chain changes that.
\<close>

theorem blocked_provider_never_called:
  assumes "completeWithFallback lib env opts req s w = (res, s', w', calls)" and "stuck_provider p (sv_breakers s)"
  shows "(\<forall>c\<in>set calls. fst (fst c) \<noteq> p) \<and> stuck_provider p (sv_breakers s')"
  using assms(1)
proof (cases rule: completeWithFallback_cases)
  case (Hit resp cache)
  with assms(2) show ?thesis by simp
next
  case (Chain cache model s1 br)
  have "stuck_provider p (sv_breakers s1)" using chosen_model_keeps [OF Chain(2), of p] assms(2) by simp
  with stuck_try_chain [OF Chain(3)] Chain(4) show ?thesis by simp
qed

lemma subseq_single: "subseq xs [a] \<Longrightarrow> xs \<in> {[], [a]}"
  by (cases xs) (auto simp: subseq_Cons2_iff split: if_splits)

text \<open>
  C18. A benchmark request for a model of a provider is answered by that model or not at all: at most one call, to
  that provider and model, and the cache stays as it was.
\<close>

theorem exercise_measures_the_model:
  assumes "completeWithFallback lib env opts req s w = (res, s', w', calls)"
    and "co_NoEscalate opts" and "splitModelSpec (lr_Model req) = (p, m)" and "m \<noteq> []"
  shows "map fst calls \<in> {[], [(p, m)]} \<and> sv_cache s' = sv_cache s"
  using assms(1)
proof (cases rule: completeWithFallback_cases)
  case (Hit resp cache)
  with assms(2) show ?thesis by simp
next
  case (Chain cache model s1 br)
  have "lr_Model req \<noteq> []" using assms(3,4) by (auto simp: splitModelSpec_def split: option.splits)
  then have "model = lr_Model req" "s1 = s\<lparr>sv_cache := cache\<rparr>" "cache = sv_cache s"
    using Chain(1,2) assms(2) by (auto simp: chosen_model_def escalated_model_def Let_def)
  moreover from this have "inference_chain (se_provider_order env) (co_NoEscalate opts) s1 model = [(p, m)]"
    using assms(2-4) by (simp add: inference_chain_def primary_entries_def or_all_def)
  ultimately show ?thesis using try_chain_outcome [OF Chain(3)] Chain(5) assms(2) subseq_single by fastforce
qed


section \<open>Chains\<close>

lemma add_fallback_distinct: "distinct chain \<Longrightarrow> distinct (add_fallback s m fb chain)"
  by (simp add: add_fallback_def Let_def split: prod.splits)

lemma add_fallback_length: "length (add_fallback s m fb chain) \<le> Suc (length chain)"
  by (simp add: add_fallback_def Let_def split: prod.splits)

lemma fold_fallbacks:
  "distinct chain \<Longrightarrow> distinct (fold (add_fallback s m) fbs chain)
     \<and> length (fold (add_fallback s m) fbs chain) \<le> length chain + length fbs"
proof (induction fbs arbitrary: chain)
  case (Cons fb fbs)
  have "length (add_fallback s m fb chain) \<le> Suc (length chain)" by (rule add_fallback_length)
  then show ?case using Cons.IH [OF add_fallback_distinct [OF Cons.prems], of s m fb] by auto
qed simp

lemma map_pair_distinct: "distinct order \<Longrightarrow> distinct (map (\<lambda>name. (name, model)) order)"
  by (simp add: distinct_map inj_on_def)

text \<open>
  The chain names no pair of provider and model twice, and is bounded by the fallbacks and providers.
\<close>

theorem chain_bounded:
  assumes "distinct order"
  shows "distinct (inference_chain order noEscalate s model)
    \<and> length (inference_chain order noEscalate s model) \<le> max 1 (length order) + length (sv_fallbacks s)"
proof -
  obtain chain m where c: "primary_entries order s model = (chain, m)" by (cases "primary_entries order s model")
  have "distinct chain \<and> length chain \<le> max 1 (length order)"
    using c assms by (auto simp: primary_entries_def Let_def map_pair_distinct split: prod.splits if_splits)
  then show ?thesis
    using fold_fallbacks [of chain s m "sv_fallbacks s"] assms
    by (auto simp: inference_chain_def or_all_def c map_pair_distinct)
qed

text \<open>
  A bare model name is paired with the whole primary specification as its provider, which is no provider
  when the specification is one of provider and model: the request reaches nobody.
\<close>

theorem bare_model_has_no_provider:
  assumes "str_index model ''/'' = None" and "\<not> known_provider s model" and "sv_primary s \<noteq> []"
    and "\<not> known_provider s (sv_primary s)"
  shows "inference_chain order True s model = [(sv_primary s, model)]
    \<and> try_chain env s req 0 (inference_chain order True s model) None r w = (Inl NoProviders, r, w, [])"
  using assms by (simp add: inference_chain_def primary_entries_def splitModelSpec_def or_all_def)

section \<open>Probes without an outcome\<close>

lemma allow_last_probe:
  assumes "m_get (breakers r) p = Some cb" and "state cb = CircuitHalfOpen" and "\<not> latched cb"
    and "halfOpenUsed cb + 1 = HalfOpenProbes (config cb)"
  obtains r1 where "allow_provider now p r = (True, r1)" and "stuck_provider p r1"
  using assms
  by (auto simp: allow_provider_def Get_breaker_def Circuit.Allow_def latched_def put_breaker_def stuck_provider_def stuck_def)

text \<open>
  A half-open breaker loses its last probe to an entry that is then passed over, and its provider is out of
  reach until somebody resets it: the breaker was asked before the tool check, and no outcome is recorded.
\<close>

theorem skipped_probe_shuts_provider:
  assumes "m_get (breakers r) p = Some cb" and "state cb = CircuitHalfOpen" and "\<not> latched cb"
    and "halfOpenUsed cb + 1 = HalfOpenProbes (config cb)"
    and "known_provider s p" and "lr_Tools req \<noteq> []" and "\<not> modelSupportsTools (sv_toolAllowlist s) (sv_toolBlocklist s) m"
  shows "\<exists>r1. try_chain env s req i [(p, m)] None r w = (Inl NoProviders, r1, w, []) \<and> stuck_provider p r1"
proof -
  obtain r1 where "allow_provider (se_allow_clock env i) p r = (True, r1)" "stuck_provider p r1"
    by (rule allow_last_probe [OF assms(1-4)])
  with assms(5-7) show ?thesis by auto
qed

text \<open>
  Selecting a model asks the breakers of the candidates too: the last probe goes to the selection, and the chain finds
  the breaker shut.
\<close>

theorem selection_takes_the_last_probe:
  assumes "m_get (breakers r) (tg_Provider t) = Some cb" and "state cb = CircuitHalfOpen" and "\<not> latched cb"
    and "halfOpenUsed cb + 1 = HalfOpenProbes (config cb)"
  shows "\<exists>prof r1. MetascoreSelector env [t] req r = (Some prof, r1) \<and> pf_Provider prof = tg_Provider t \<and> stuck_provider (tg_Provider t) r1"
proof -
  obtain r1 where a: "allow_provider (rv_clock env 0) (tg_Provider t) r = (True, r1)" "stuck_provider (tg_Provider t) r1"
    by (rule allow_last_probe [OF assms])
  let ?p = "applyIntentEvidence env (requestIntentClass req) (target_profile env t CircuitHalfOpen)"
  have st: "Circuit.State cb = CircuitHalfOpen" using assms(2) by (simp add: Circuit.State_def)
  have b: "BuildModelProfiles env [t] r = ([target_profile env t CircuitHalfOpen], r)"
    using assms(1) st by (simp add: Get_breaker_def)
  have f: "filterProfilesForCapabilityEvidence req [q] = [q]" for q
    by (simp add: filterProfilesForCapabilityEvidence_def Let_def)
  have "\<not> pf_Availability ?p \<le> 0"
    by (simp add: applyIntentEvidence_def Let_def target_profile_def availability_def)
  moreover have "pf_Provider ?p = tg_Provider t" by (simp add: target_profile_def)
  ultimately show ?thesis using a unfolding MetascoreSelector_def b by (simp add: f)
qed

section \<open>Escalation\<close>

definition failed_outcome :: "string \<times> bool \<times> rat \<Rightarrow> bool" where
  "failed_outcome = (\<lambda>(model, success, quality). \<not> success)"

definition poor_outcome :: "string \<times> bool \<times> rat \<Rightarrow> bool" where
  "poor_outcome = (\<lambda>(model, success, quality). quality < three_tenths)"

definition outcome_run :: "string \<Rightarrow> (string \<times> bool \<times> rat) list \<Rightarrow> SessionEscalationTracker \<Rightarrow> SessionEscalationTracker" where
  "outcome_run sid os t = fold (\<lambda>(model, success, quality). RecordOutcome sid model success quality) os t"

lemma outcome_signals:
  "os \<noteq> [] \<Longrightarrow> \<exists>s. m_get (et_sessions (outcome_run sid os (NewSessionEscalationTracker fbs))) sid = Some s
     \<and> ss_currentModel s = fst (last os)
     \<and> ss_consecutiveFailures s = int (length (takeWhile failed_outcome (rev os)))
     \<and> ss_lowQualityCount s = int (length (takeWhile poor_outcome (rev os)))"
proof (induction os rule: rev_induct)
  case (snoc x os)
  obtain m ok q where x: "x = (m, ok, q)" by (cases x)
  show ?case
  proof (cases "os = []")
    case True
    then show ?thesis
      by (simp add: x failed_outcome_def poor_outcome_def outcome_run_def RecordOutcome_def NewSessionEscalationTracker_def record_outcome_def new_signals_def Let_def)
  next
    case False
    from snoc.IH [OF False] show ?thesis
      by (auto simp: x failed_outcome_def poor_outcome_def outcome_run_def RecordOutcome_def record_outcome_def Let_def)
  qed
qed simp

lemma new_fallbacks [simp]: "et_fallbacks (NewSessionEscalationTracker fbs) = fbs"
  by (simp add: NewSessionEscalationTracker_def)

lemma outcome_fallbacks [simp]: "et_fallbacks (outcome_run sid os t) = et_fallbacks t"
  unfolding outcome_run_def by (induction os arbitrary: t) (auto simp: RecordOutcome_def Let_def)

lemma takeWhile_length_ge: "n \<le> length (takeWhile P xs) \<longleftrightarrow> n \<le> length xs \<and> list_all P (take n xs)"
proof (induction xs arbitrary: n)
  case (Cons x xs)
  then show ?case by (cases n) auto
qed simp

text \<open>
  A session escalates exactly when its last two turns failed or its last three were poor, whatever came before,
  and the chain has a model to suggest for the last model used.
\<close>

theorem escalation_exact:
  "ShouldEscalate sid (outcome_run sid os (NewSessionEscalationTracker fbs)) =
    (let latest = rev os; m = next_model fbs (fst (hd latest)) in
     if os \<noteq> [] \<and> m \<noteq> []
        \<and> (2 \<le> length os \<and> list_all failed_outcome (take 2 latest)
           \<or> 3 \<le> length os \<and> list_all poor_outcome (take 3 latest))
     then (True, m) else (False, []))"
proof (cases "os = []")
  case True
  then show ?thesis by (simp add: ShouldEscalate_def outcome_run_def NewSessionEscalationTracker_def)
next
  case False
  obtain s where s: "m_get (et_sessions (outcome_run sid os (NewSessionEscalationTracker fbs))) sid = Some s"
    "ss_currentModel s = fst (last os)"
    "ss_consecutiveFailures s = int (length (takeWhile failed_outcome (rev os)))"
    "ss_lowQualityCount s = int (length (takeWhile poor_outcome (rev os)))"
    using outcome_signals [OF False] by blast
  have f: "2 \<le> ss_consecutiveFailures s \<longleftrightarrow> 2 \<le> length os \<and> list_all failed_outcome (take 2 (rev os))"
    using takeWhile_length_ge [of 2 failed_outcome "rev os"] s(3) by auto
  have l: "3 \<le> ss_lowQualityCount s \<longleftrightarrow> 3 \<le> length os \<and> list_all poor_outcome (take 3 (rev os))"
    using takeWhile_length_ge [of 3 poor_outcome "rev os"] s(4) by auto
  have "hd (rev os) = last os" by (simp add: hd_rev)
  then show ?thesis using False by (simp add: ShouldEscalate_def s(1,2) f l Let_def)
qed


section \<open>No caller in flight is lost\<close>

fun flight_callers :: "'r flight \<Rightarrow> nat multiset" where
  "flight_callers (Running owner ws) = mset (owner # ws)"
| "flight_callers (Finished r) = {#}"

definition in_flight :: "'r Dedup \<Rightarrow> nat multiset" where
  "in_flight d = (\<Sum>f\<in>#mset (map snd (dd_inflight d)). flight_callers f)"

fun event_caller :: "'r flight_event \<Rightarrow> nat multiset" where
  "event_caller (DCall caller key) = {#caller#}"
| "event_caller _ = {#}"

definition settled :: "'r Dedup \<Rightarrow> nat multiset" where
  "settled d = mset (map fst (dd_answers d)) + in_flight d"

definition dedup_run :: "'r flight_event list \<Rightarrow> 'r Dedup" where
  "dedup_run es = fold flight_step es NewDedup"

lemma sum_m_put_new:
  "m_get m k = None \<Longrightarrow> (\<Sum>f\<in>#mset (map snd (m_put k v m)). g f) = (\<Sum>f\<in>#mset (map snd m). g f) + g v"
  for g :: "'a \<Rightarrow> nat multiset"
  by (induction m) (auto simp: m_put_def ac_simps split: if_splits)

lemma sum_m_put_old:
  "m_ok m \<Longrightarrow> m_get m k = Some u \<Longrightarrow>
     (\<Sum>f\<in>#mset (map snd (m_put k v m)). g f) + g u = (\<Sum>f\<in>#mset (map snd m). g f) + g v"
  for g :: "'a \<Rightarrow> nat multiset"
proof (induction m)
  case (Cons e m)
  obtain j w where e: "e = (j, w)" by (cases e)
  show ?case
  proof (cases "j = k")
    case True
    with Cons.prems e show ?thesis by (simp add: m_put_def ac_simps)
  next
    case False
    from Cons.prems(1) e have "m_ok m" by (simp add: m_ok_def)
    with Cons False e show ?thesis by (auto simp: m_put_def ac_simps)
  qed
qed simp

lemma sum_m_del:
  "m_ok m \<Longrightarrow> m_get m k = Some u \<Longrightarrow> (\<Sum>f\<in>#mset (map snd (m_del k m)). g f) + g u = (\<Sum>f\<in>#mset (map snd m). g f)"
  for g :: "'a \<Rightarrow> nat multiset"
proof (induction m)
  case (Cons e m)
  obtain j w where e: "e = (j, w)" by (cases e)
  from Cons.prems(1) e have ok: "m_ok m" "m_get m j = None" by (auto simp: m_ok_def map_of_eq_None_iff)
  show ?case
  proof (cases "j = k")
    case True
    have "m_del k m = m" using ok(2) True unfolding m_del_def by (simp add: delete_id map_of_eq_None_iff)
    with True Cons.prems e show ?thesis by (simp add: m_del_def ac_simps)
  next
    case False
    with Cons ok e show ?thesis by (auto simp: m_del_def ac_simps)
  qed
qed simp

lemma dedup_ok: "m_ok (dd_inflight d) \<Longrightarrow> m_ok (dd_inflight (flight_step e d))"
  by (cases e) (auto split: option.splits flight.splits)

interpretation dedup_system: event_system NewDedup flight_step "\<lambda>d. m_ok (dd_inflight d)"
  by unfold_locales (simp_all add: NewDedup_def dedup_ok)

lemma dedup_settled: "m_ok (dd_inflight d) \<Longrightarrow> settled (flight_step e d) = settled d + event_caller e"
proof (cases e)
  case (DCall c k)
  assume ok: "m_ok (dd_inflight d)"
  show ?thesis
  proof (cases "m_get (dd_inflight d) k")
    case None
    with sum_m_put_new [OF None, of flight_callers "Running c []"] show ?thesis by (simp add: DCall settled_def in_flight_def)
  next
    case (Some f)
    show ?thesis
    proof (cases f)
      case (Running own ws)
      show ?thesis
        using sum_m_put_old [OF ok Some, of flight_callers "Running own (ws @ [c])"] Some
        by (simp add: DCall Running settled_def in_flight_def)
    qed (simp add: DCall Some settled_def in_flight_def)
  qed
next
  case (DFinish k r)
  assume ok: "m_ok (dd_inflight d)"
  show ?thesis
  proof (cases "m_get (dd_inflight d) k")
    case (Some f)
    show ?thesis
    proof (cases f)
      case (Running own ws)
      show ?thesis
        using sum_m_put_old [OF ok Some, of flight_callers "Finished r"] Some
        by (simp add: DFinish Running settled_def in_flight_def comp_def ac_simps)
    qed (simp add: DFinish Some settled_def in_flight_def)
  qed (simp add: DFinish)
next
  case (DCancel c k)
  assume ok: "m_ok (dd_inflight d)"
  show ?thesis
  proof (cases "m_get (dd_inflight d) k")
    case (Some f)
    show ?thesis
    proof (cases f)
      case (Running own ws)
      show ?thesis
      proof (cases "c \<in> set ws")
        case True
        then have "mset ws = add_mset c (mset (remove1 c ws))" by simp
        with True show ?thesis
          using sum_m_put_old [OF ok Some, of flight_callers "Running own (remove1 c ws)"] Some
          by (simp add: DCancel Running settled_def in_flight_def ac_simps del: mset_remove1)
      qed (simp add: DCancel Running Some settled_def)
    qed (simp add: DCancel Some settled_def in_flight_def)
  qed (simp add: DCancel)
next
  case (DExpire k)
  assume ok: "m_ok (dd_inflight d)"
  show ?thesis
  proof (cases "m_get (dd_inflight d) k")
    case (Some f)
    show ?thesis
      using sum_m_del [OF ok Some, of flight_callers] Some
      by (cases f) (simp_all add: DExpire settled_def in_flight_def)
  qed (simp add: DExpire)
qed

text \<open>
  C29. No caller of a request in flight is lost or answered twice: in any interleaving of calls, results, cancellations
  and expiries, the callers are those answered and those of a running flight.
\<close>

theorem no_caller_lost:
  "mset (map fst (dd_answers (dedup_run es))) + in_flight (dedup_run es) = (\<Sum>e\<in>#mset es. event_caller e)"
proof -
  have "settled (dedup_run es) = (\<Sum>e\<in>#mset es. event_caller e)"
  proof (induction es rule: rev_induct)
    case Nil
    show ?case by (simp add: dedup_run_def NewDedup_def settled_def in_flight_def)
  next
    case (snoc e es)
    with dedup_settled [OF dedup_system.inv_run, of e es] show ?case by (simp add: dedup_run_def)
  qed
  then show ?thesis by (simp add: settled_def)
qed

section \<open>What is stored\<close>

text \<open>
  An answer to a routed request is stored under the key of the request with its model, while the lookup before routing
  used the key without one; with a hash free of collisions they differ.
\<close>

theorem routed_answer_under_other_key:
  assumes "inj (cl_sha256 lib)" and "lr_Model req = []" and "model \<noteq> []"
  shows "hashRequest lib (req\<lparr>lr_Model := model\<rparr>) \<noteq> hashRequest lib req"
  using assms(2,3) by (auto simp: hashRequest_def hash_input_def dest: injD [OF assms(1)])

text \<open>
  What a stream delivered is stored as the answer, whether it ended with an error or not, and also for a benchmark.
\<close>

theorem broken_stream_is_stored:
  assumes "Stream lib env opts req s w = (StreamFrom p m chunks err, s', w')" and "concat chunks \<noteq> []"
  shows "\<exists>q cache. sv_cache s' = Put lib (se_cache_clock env 3) q (stream_response (concat chunks)) cache"
  using assms by (auto simp: Stream_def Let_def split: option.splits prod.splits if_splits intro!: exI)


section \<open>Witnesses\<close>

text \<open>Two providers; the first answers \<^verbatim>\<open>ok\<close> unless the model is \<^verbatim>\<open>x\<close>, the second always fails.\<close>

definition service_lib :: "(nat, Response) cache_lib" where
  "service_lib = \<lparr>cl_sha256 = id, cl_tools_json = (\<lambda>ts. []), cl_marshal = (\<lambda>r. None), cl_unmarshal = (\<lambda>s. None), cl_embed = (\<lambda>s. []),
     cl_cosine = (\<lambda>a b. 0), cl_less = (<), cl_zero = 0, cl_threshold = 1, cl_iter = id, cl_insert_ok = (\<lambda>s. True),
     cl_query_ok = (\<lambda>s. True), cl_update_ok = (\<lambda>s. True)\<rparr>"

definition service_call :: "string \<Rightarrow> Request \<Rightarrow> unit \<Rightarrow> (call_error + Response) \<times> unit" where
  "service_call p q w = (if p = ''one'' \<and> lr_Model q \<noteq> ''x'' then Inr (stream_response ''ok'') else Inl (OtherFailure ''down''), w)"

definition demo_service_env :: "unit service_env" where
  "demo_service_env = \<lparr>se_routing = routing_demo_env, se_allow_clock = (\<lambda>i. 0), se_done_clock = (\<lambda>i. 0), se_cache_clock = (\<lambda>i. 0),
     se_provider_order = [''one'', ''two''], se_prepare = (\<lambda>p q. None), se_complete = service_call,
     se_stream = (\<lambda>p q w. (([], None), w))\<rparr>"

definition demo_service :: "BreakerRegistry \<Rightarrow> nat LLMService" where
  "demo_service br = \<lparr>sv_providers = [(''one'', demo_provider), (''two'', demo_provider)], sv_router = demo_router False,
     sv_breakers = br, sv_cache = NewCache DefaultCacheConfig None, sv_primary = ''one/a'', sv_fallbacks = [''two/b'', ''one/a''],
     sv_escalation = NewSessionEscalationTracker [''two/b'', ''one/a''], sv_toolAllowlist = [], sv_toolBlocklist = []\<rparr>"

definition demo_options :: "bool \<Rightarrow> call_options" where
  "demo_options b = \<lparr>co_NoEscalate = b, co_Stream = True, co_Override = [], co_SessionID = []\<rparr>"

definition demo_ask :: Request where
  "demo_ask = demo_turn\<lparr>lr_Model := ''two/b''\<rparr>"

theorem fallback_outcome_witness:
  "(let (res, s', w, calls) = completeWithFallback service_lib demo_service_env (demo_options False) demo_ask (demo_service demo_breakers) () in
     \<forall>c\<in>set calls. fst (fst c) \<in> {''one'', ''two''})"
proof -
  obtain res s' w calls where c: "completeWithFallback service_lib demo_service_env (demo_options False) demo_ask (demo_service demo_breakers) () = (res, s', w, calls)"
    by (metis prod_cases4)
  have "known_provider (demo_service demo_breakers) p \<Longrightarrow> p \<in> {''one'', ''two''}" for p
    by (auto simp: known_provider_def demo_service_def split: if_splits)
  with fallback_outcome [OF c] show ?thesis unfolding c by auto
qed

definition shut_two :: BreakerRegistry where
  "shut_two = demo_breakers\<lparr>breakers := [(''two'', Circuit.ForceOpen (NewCircuitBreaker DefaultCircuitBreakerConfig))]\<rparr>"

theorem blocked_provider_never_called_witness:
  "(let (res, s', w, calls) = completeWithFallback service_lib demo_service_env (demo_options False) demo_ask (demo_service shut_two) () in
     (\<forall>c\<in>set calls. fst (fst c) \<noteq> ''two'') \<and> stuck_provider ''two'' (sv_breakers s'))"
proof -
  obtain res s' w calls where c: "completeWithFallback service_lib demo_service_env (demo_options False) demo_ask (demo_service shut_two) () = (res, s', w, calls)"
    by (metis prod_cases4)
  have "stuck_provider ''two'' (sv_breakers (demo_service shut_two))"
    by (simp add: stuck_provider_def demo_service_def shut_two_def stuck_def Circuit.ForceOpen_def)
  from blocked_provider_never_called [OF c this] show ?thesis by (simp add: c)
qed

theorem exercise_measures_the_model_witness:
  "(let (res, s', w, calls) = completeWithFallback service_lib demo_service_env (demo_options True) demo_ask (demo_service demo_breakers) () in
     map fst calls \<in> {[], [(''two'', ''b'')]} \<and> sv_cache s' = NewCache DefaultCacheConfig None)"
proof -
  obtain res s' w calls where c: "completeWithFallback service_lib demo_service_env (demo_options True) demo_ask (demo_service demo_breakers) () = (res, s', w, calls)"
    by (metis prod_cases4)
  have "co_NoEscalate (demo_options True)" "splitModelSpec (lr_Model demo_ask) = (''two'', ''b'')" "''b'' \<noteq> []" by code_simp+
  from exercise_measures_the_model [OF c this] show ?thesis unfolding c by (simp add: demo_service_def)
qed

definition half_open_two :: BreakerRegistry where
  "half_open_two = demo_breakers\<lparr>breakers := [(''two'', (NewCircuitBreaker DefaultCircuitBreakerConfig)\<lparr>state := CircuitHalfOpen\<rparr>)]\<rparr>"

definition demo_tool_ask :: Request where
  "demo_tool_ask = demo_ask\<lparr>lr_Tools := [\<lparr>tdef_Type = ''function'', tdef_Name = ''clock'', tdef_Description = [], tdef_Parameters = []\<rparr>]\<rparr>"

theorem skipped_probe_shuts_provider_witness:
  "\<exists>r1. try_chain demo_service_env (demo_service half_open_two) demo_tool_ask 0 [(''two'', ''llama-guard'')] None half_open_two ()
     = (Inl NoProviders, r1, (), []) \<and> stuck_provider ''two'' r1"
proof (rule skipped_probe_shuts_provider)
  show "m_get (breakers half_open_two) ''two'' = Some ((NewCircuitBreaker DefaultCircuitBreakerConfig)\<lparr>state := CircuitHalfOpen\<rparr>)"
    by (simp add: half_open_two_def)
  show "\<not> modelSupportsTools (sv_toolAllowlist (demo_service half_open_two)) (sv_toolBlocklist (demo_service half_open_two)) ''llama-guard''"
    by code_simp
qed (simp_all add: NewCircuitBreaker_def DefaultCircuitBreakerConfig_def latched_def known_provider_def demo_service_def demo_tool_ask_def)

end
