(* ===== verification/Compaction.thy ===== *)
theory Compaction
  imports "HOL-Library.Sublist" Routing
begin

text \<open>
  The compaction of a conversation before inference: \<^verbatim>\<open>internal/pipeline/compaction.go\<close>, the token
  estimate it uses (\<^verbatim>\<open>internal/llm/tokencount.go\<close>, with its doubles) and the two places of
  \<^verbatim>\<open>pipeline_stages.go\<close> that write the shorter history back with \<^verbatim>\<open>SetMessages\<close>. The theorems say that a tool
  result stays with its call, and what the pending calls of a session are worth once its history has been compacted.
\<close>

section \<open>Token estimates\<close>

text \<open>The code point of the rune a string starts with, and the Unicode 15 ranges of the four scripts.\<close>

definition byte_at :: "string \<Rightarrow> nat \<Rightarrow> nat" where
  "byte_at s i = of_char (s ! i)"

definition rune_at :: "string \<Rightarrow> nat" where
  "rune_at s =
     (if rune_size s = 2 then (byte_at s 0 - 192) * 64 + (byte_at s 1 - 128)
      else if rune_size s = 3 then (byte_at s 0 - 224) * 4096 + (byte_at s 1 - 128) * 64 + (byte_at s 2 - 128)
      else if rune_size s = 4 then (byte_at s 0 - 240) * 262144 + (byte_at s 1 - 128) * 4096
             + (byte_at s 2 - 128) * 64 + (byte_at s 3 - 128)
      else if byte_at s 0 < 128 then byte_at s 0 else 65533)"

definition cjk_ranges :: "(nat \<times> nat) list" where
  "cjk_ranges =
    [(0x2e80, 0x2e99), (0x2e9b, 0x2ef3), (0x2f00, 0x2fd5), (0x3005, 0x3005), (0x3007, 0x3007), (0x3021, 0x3029),
     (0x3038, 0x303b), (0x3400, 0x4dbf), (0x4e00, 0x9fff), (0xf900, 0xfa6d), (0xfa70, 0xfad9), (0x16fe2, 0x16fe3),
     (0x16ff0, 0x16ff1), (0x20000, 0x2a6df), (0x2a700, 0x2b739), (0x2b740, 0x2b81d), (0x2b820, 0x2cea1),
     (0x2ceb0, 0x2ebe0), (0x2f800, 0x2fa1d), (0x30000, 0x3134a), (0x31350, 0x323af),
     (0x1100, 0x11ff), (0x302e, 0x302f), (0x3131, 0x318e), (0x3200, 0x321e), (0x3260, 0x327e), (0xa960, 0xa97c),
     (0xac00, 0xd7a3), (0xd7b0, 0xd7c6), (0xd7cb, 0xd7fb), (0xffa0, 0xffbe), (0xffc2, 0xffc7), (0xffca, 0xffcf),
     (0xffd2, 0xffd7), (0xffda, 0xffdc),
     (0x30a1, 0x30fa), (0x30fd, 0x30ff), (0x31f0, 0x31ff), (0x32d0, 0x32fe), (0x3300, 0x3357), (0xff66, 0xff6f),
     (0xff71, 0xff9d), (0x1aff0, 0x1aff3), (0x1aff5, 0x1affb), (0x1affd, 0x1affe), (0x1b000, 0x1b000),
     (0x1b120, 0x1b122), (0x1b155, 0x1b155), (0x1b164, 0x1b167),
     (0x3041, 0x3096), (0x309d, 0x309f), (0x1b001, 0x1b11f), (0x1b132, 0x1b132), (0x1b150, 0x1b152), (0x1f200, 0x1f200)]"

definition isCJK :: "nat \<Rightarrow> bool" where
  "isCJK r \<longleftrightarrow> list_ex (\<lambda>(lo, hi). lo \<le> r \<and> r \<le> hi) cjk_ranges"

definition isCodeChar :: "nat \<Rightarrow> bool" where
  "isCodeChar r \<longleftrightarrow> r < 128 \<and> char_of r \<in> set ''{}[]();:=<>|&!~^%''"

fun runes :: "string \<Rightarrow> nat list" where
  "runes [] = []"
| "runes (c # s) = rune_at (c # s) # runes (drop (rune_size (c # s) - 1) s)"

text \<open>
  The estimate, with doubles in units of \<open>2 ^ -57\<close>: the ratios over the first 512 runes, the characters per
  token, and the quotient cut to an integer.
\<close>

definition ratio :: "nat \<Rightarrow> nat \<Rightarrow> int" where
  "ratio a b = double_of (int a * 2 ^ 57) (int b)"

definition chars_per_token :: "string \<Rightarrow> int" where
  "chars_per_token content =
     (let sampled = take 512 (runes content);
          cjk = length (filter isCJK sampled);
          code = length (filter (\<lambda>r. \<not> isCJK r \<and> isCodeChar r) sampled);
          cjkRatio = ratio cjk (length sampled); codeRatio = ratio code (length sampled)
      in if codeRatio > double_of (15 * 2 ^ 57) 100 then 3 * 2 ^ 57
         else if cjkRatio > double_of (3 * 2 ^ 57) 10
              then fadd (3 * 2 ^ 56) (double_of (5 * fadd (2 ^ 57) (- cjkRatio)) 2)
              else 4 * 2 ^ 57)"

definition EstimateTokens :: "string \<Rightarrow> int" where
  "EstimateTokens content =
     (if content = [] then 0
      else let tokens = double_of (int (rune_count content) * 2 ^ 114) (chars_per_token content)
        in if tokens < 2 ^ 57 then 1 else tokens div 2 ^ 57)"

definition estimateTokens :: "Message list \<Rightarrow> int" where
  "estimateTokens ms = sum_list (map (\<lambda>m. 4 + EstimateTokens (msg_Content m)) ms)"

section \<open>Chunks\<close>

record compactionChunk =
  cc_start :: nat
  cc_messages :: "Message list"

definition calling :: "Message \<Rightarrow> bool" where
  "calling m \<longleftrightarrow> msg_Role m = ''assistant'' \<and> msg_ToolCalls m \<noteq> []"

definition answer_of :: "Message \<Rightarrow> Message \<Rightarrow> bool" where
  "answer_of m t \<longleftrightarrow> msg_Role t = ''tool'' \<and> msg_ToolCallID t \<in> set (map tc_ID (msg_ToolCalls m))"

fun chunks_from :: "nat \<Rightarrow> Message list \<Rightarrow> compactionChunk list" where
  "chunks_from i [] = []"
| "chunks_from i (m # ms) =
     (let results = (if calling m then takeWhile (answer_of m) ms else []) in
      \<lparr>cc_start = i, cc_messages = m # results\<rparr>
        # chunks_from (Suc (i + length results)) (drop (length results) ms))"

definition chunkCompactionMessages :: "Message list \<Rightarrow> compactionChunk list" where
  "chunkCompactionMessages ms = chunks_from 0 ms"

definition isToolCallChunk :: "compactionChunk \<Rightarrow> bool" where
  "isToolCallChunk c \<longleftrightarrow> cc_messages c \<noteq> [] \<and> calling (hd (cc_messages c))"

definition isSystemChunk :: "compactionChunk \<Rightarrow> bool" where
  "isSystemChunk c \<longleftrightarrow> length (cc_messages c) = 1 \<and> msg_Role (hd (cc_messages c)) = ''system''"

text \<open>\<^verbatim>\<open>splitSentences\<close> goes through the runes of the text; an invalid byte is written back as U+FFFD.\<close>

fun sentences_from :: "string \<Rightarrow> string \<Rightarrow> string list" where
  "sentences_from current [] = (if trim_space current = [] then [] else [trim_space current])"
| "sentences_from current (c # s) =
     (let n = rune_size (c # s);
          rune = (if n = 1 \<and> of_char c \<ge> (128 :: nat) then map char_of [0xEF, 0xBF, 0xBD :: nat] else take n (c # s));
          now = current @ rune
      in if c \<in> set ''.!?'' \<and> s \<noteq> [] \<and> (hd s = CHR '' '' \<or> hd s = newline)
         then (if trim_space now = [] then [] else [trim_space now]) @ sentences_from [] s
         else sentences_from now (drop (n - 1) s))"

definition splitSentences :: "string \<Rightarrow> string list" where
  "splitSentences t = (if trim_space t = [] then [] else sentences_from [] (trim_space t))"

definition extractTopicSentence :: "string \<Rightarrow> string" where
  "extractTopicSentence content = (case splitSentences content of [] \<Rightarrow> [] | t # _ \<Rightarrow> t)"

text \<open>Key points are extracted by no caller.\<close>

definition keyMarkers :: "string list" where
  "keyMarkers = [''must'', ''should'', ''important'', ''error'', ''failed'', ''success'', ''result'', ''conclusion'']"

definition extractKeyPoints :: "string \<Rightarrow> string" where
  "extractKeyPoints content =
     (case splitSentences content of
        [] \<Rightarrow> []
      | t # ts \<Rightarrow> str_join '' '' (take 3 (t # filter (\<lambda>u. list_ex (contains (to_lower u)) keyMarkers) ts)))"

definition summarizeCompactionChunk :: "compactionChunk \<Rightarrow> string" where
  "summarizeCompactionChunk c =
     (let names = (if isToolCallChunk c
          then filter (\<lambda>n. trim_space n \<noteq> []) (map tc_Name (msg_ToolCalls (hd (cc_messages c)))) else [])
      in if names \<noteq> [] then ''Tool exchange: '' @ str_join '', '' names
         else case filter (\<lambda>m. trim_space (msg_Content m) \<noteq> []) (cc_messages c) of
                [] \<Rightarrow> [] | m # _ \<Rightarrow> extractTopicSentence (msg_Content m))"

section \<open>The stages\<close>

definition lastSystemIdx :: "Message list \<Rightarrow> nat option" where
  "lastSystemIdx ms =
     (case filter (\<lambda>i. msg_Role (ms ! i) = ''system'') (rev [0..<length ms]) of [] \<Rightarrow> None | i # _ \<Rightarrow> Some i)"

definition trim_keeps :: "Message list \<Rightarrow> compactionChunk \<Rightarrow> bool" where
  "trim_keeps ms c \<longleftrightarrow>
     (if cc_messages c = [] then False
      else if msg_Role (hd (cc_messages c)) = ''system'' then lastSystemIdx ms = Some (cc_start c)
      else if isToolCallChunk c then cc_start c \<ge> length ms div 2
      else True)"

definition selectiveTrim :: "Message list \<Rightarrow> Message list" where
  "selectiveTrim ms = concat (map cc_messages (filter (trim_keeps ms) (chunkCompactionMessages ms)))"

definition semanticCompress :: "Message list \<Rightarrow> Message list" where
  "semanticCompress ms =
     (let chunks = chunkCompactionMessages ms in
      if length chunks \<le> 4 then ms
      else let boundary = length chunks - 4;
               old = take boundary chunks;
               parts = map (\<lambda>c. ''['' @ msg_Role (hd (cc_messages c)) @ ''] '' @ summarizeCompactionChunk c)
                 (filter (\<lambda>c. \<not> isSystemChunk c \<and> summarizeCompactionChunk c \<noteq> []) old)
           in concat (map cc_messages (filter isSystemChunk old))
              @ (if parts = [] then []
                 else [plain_message ''system'' (''[Conversation summary]'' @ [newline] @ str_join [newline] parts)])
              @ concat (map cc_messages (drop boundary chunks)))"

definition topic_of :: "compactionChunk \<Rightarrow> Message list" where
  "topic_of c =
     (let m = hd (cc_messages c) in
      if isSystemChunk c
      then (if length (msg_Content m) > 500
            then [plain_message (msg_Role m) (take 500 (msg_Content m) @ ''...'')]
            else cc_messages c)
      else if summarizeCompactionChunk c \<noteq> [] then [plain_message (msg_Role m) (summarizeCompactionChunk c)]
      else [])"

definition topicExtract :: "Message list \<Rightarrow> Message list" where
  "topicExtract ms =
     (let chunks = chunkCompactionMessages ms in
      if length chunks \<le> 2 then ms
      else let boundary = length chunks - 2 in
        concat (map topic_of (take boundary chunks)) @ concat (map cc_messages (drop boundary chunks)))"

definition skeleton :: "Message list \<Rightarrow> Message list" where
  "skeleton ms =
     (let recent = filter (\<lambda>c. \<not> isSystemChunk c) (chunkCompactionMessages ms) in
      (case filter (\<lambda>m. msg_Role m = ''system'') ms of
         [] \<Rightarrow> []
       | m # _ \<Rightarrow> [plain_message ''system''
           (if length (msg_Content m) > 1000 then take 1000 (msg_Content m) @ [newline] @ ''[truncated]''
            else msg_Content m)])
      @ concat (map cc_messages (drop (length recent - 2) recent)))"

definition CompactContext :: "Message list \<Rightarrow> int \<Rightarrow> Message list" where
  "CompactContext ms tokenBudget =
     (if ms = [] \<or> tokenBudget \<le> 0 then ms
      else if estimateTokens ms \<le> tokenBudget then ms
      else let trimmed = selectiveTrim ms in if estimateTokens trimmed \<le> tokenBudget then trimmed
      else let compressed = semanticCompress trimmed in if estimateTokens compressed \<le> tokenBudget then compressed
      else let extracted = topicExtract compressed in if estimateTokens extracted \<le> tokenBudget then extracted
      else skeleton ms)"

text \<open>What both call sites do with the result: it is stored only when it has fewer messages.\<close>

definition compactSession :: "int \<Rightarrow> Session \<Rightarrow> Session" where
  "compactSession budget s =
     (if messages s = [] then s
      else let compacted = CompactContext (messages s) budget in
        if length compacted < length (messages s) then SetMessages compacted s else s)"

section \<open>What the chunks are\<close>

lemma concat_chunks_from: "concat (map cc_messages (chunks_from i ms)) = ms"
  by (induction i ms rule: chunks_from.induct) (simp_all add: Let_def flip: dropWhile_eq_drop)

lemma concat_chunks [simp]: "concat (map cc_messages (chunkCompactionMessages ms)) = ms"
  by (simp add: chunkCompactionMessages_def concat_chunks_from)

lemma chunk_starts: "c \<in> set (chunks_from i ms) \<Longrightarrow> i \<le> cc_start c"
  by (induction i ms rule: chunks_from.induct) (fastforce simp: Let_def)+

lemma sorted_chunks_from: "sorted (map cc_start (chunks_from i ms))"
  by (induction i ms rule: chunks_from.induct) (auto simp: Let_def dest: chunk_starts)

lemma sorted_chunks: "sorted (map cc_start (chunkCompactionMessages ms))"
  by (simp add: chunkCompactionMessages_def sorted_chunks_from)

definition chunk_ok :: "compactionChunk \<Rightarrow> bool" where
  "chunk_ok c \<longleftrightarrow> (\<exists>m ts. cc_messages c = m # ts \<and> (\<not> calling m \<longrightarrow> ts = []))"

lemma chunk_shape: "list_all chunk_ok (chunks_from i ms)"
  by (induction i ms rule: chunks_from.induct) (simp_all add: Let_def chunk_ok_def)

lemma chunkE: "c \<in> set (chunkCompactionMessages ms) \<Longrightarrow> chunk_ok c"
  using chunk_shape by (auto simp: chunkCompactionMessages_def list_all_iff)

section \<open>Pending calls after a compaction\<close>

text \<open>The unanswered calls as a fold over the history.\<close>

definition answer_step :: "Message \<Rightarrow> ToolCall list \<Rightarrow> ToolCall list" where
  "answer_step m acc =
     (if msg_Role m = ''assistant'' then msg_ToolCalls m
      else if msg_Role m = ''tool'' then filter (\<lambda>tc. tc_ID tc \<noteq> msg_ToolCallID m) acc
      else acc)"

lemma unanswered_fold: "unanswered ms = fold answer_step ms []"
proof (induction ms rule: rev_induct)
  case Nil
  show ?case by (simp add: unanswered_def)
qed (simp add: unanswered_snoc answer_step_def)

lemma answer_step_empty: "msg_ToolCalls m = [] \<Longrightarrow> answer_step m [] = []"
  by (simp add: answer_step_def)

lemma fold_no_calls: "list_all (\<lambda>m. msg_ToolCalls m = [] \<or> msg_Role m \<noteq> ''assistant'') ms \<Longrightarrow> fold answer_step ms [] = []"
  by (induction ms) (auto simp: answer_step_def)

lemma fold_answers:
  "(\<forall>acc. fold answer_step ms acc = fold answer_step ms [])
    \<or> list_all (\<lambda>m. msg_Role m \<noteq> ''assistant'') ms"
proof (induction ms)
  case (Cons m ms)
  then show ?case by (cases "msg_Role m = ''assistant''") (auto simp: answer_step_def)
qed simp

lemma unanswered_suffix: "unanswered ys = unanswered (xs @ ys) \<or> unanswered ys = []"
proof -
  have "list_all (\<lambda>m. msg_Role m \<noteq> ''assistant'') ys \<Longrightarrow> fold answer_step ys [] = []"
    by (rule fold_no_calls) (simp add: list_all_iff)
  then show ?thesis using fold_answers [of ys] by (metis fold_append comp_apply unanswered_fold)
qed

lemma unanswered_prefix:
  "list_all (\<lambda>m. msg_ToolCalls m = [] \<or> msg_Role m \<noteq> ''assistant'') xs \<Longrightarrow> unanswered (xs @ ys) = unanswered ys"
  by (simp add: unanswered_fold fold_no_calls)

lemma unanswered_drop_chunks:
  "unanswered (concat (map cc_messages (drop k (chunkCompactionMessages ms)))) \<in> {unanswered ms, []}"
proof -
  have "concat (map cc_messages (take k (chunkCompactionMessages ms)))
      @ concat (map cc_messages (drop k (chunkCompactionMessages ms))) = ms"
    by (simp flip: concat_append map_append)
  then show ?thesis using unanswered_suffix by (metis insertCI)
qed

lemma fold_without_system:
  assumes "\<forall>c \<in> set cs. \<not> P c \<longrightarrow> (\<exists>m. cc_messages c = [m] \<and> msg_Role m = ''system'')"
  shows "fold answer_step (concat (map cc_messages (filter P cs))) acc = fold answer_step (concat (map cc_messages cs)) acc"
  using assms by (induction cs arbitrary: acc) (force simp: answer_step_def)+

lemma isSystemChunkE: "isSystemChunk c \<Longrightarrow> \<exists>m. cc_messages c = [m] \<and> msg_Role m = ''system''"
  by (cases "cc_messages c") (auto simp: isSystemChunk_def)

lemma system_chunks: "m \<in> set (concat (map cc_messages (filter isSystemChunk cs))) \<Longrightarrow> msg_Role m = ''system''"
  by (auto dest: isSystemChunkE)

lemma topic_of_no_calls:
  "m \<in> set (topic_of c) \<Longrightarrow> msg_ToolCalls m = [] \<or> msg_Role m = ''system''"
  by (auto simp: topic_of_def plain_message_def Let_def dest: isSystemChunkE split: if_splits)

lemma semanticCompress_unanswered: "unanswered (semanticCompress ms) \<in> {unanswered ms, []}"
proof (cases "length (chunkCompactionMessages ms) \<le> 4")
  case False
  then show ?thesis
    unfolding semanticCompress_def Let_def if_not_P [OF False] append_assoc [symmetric]
    by (subst unanswered_prefix, force simp: list_all_iff plain_message_def dest: isSystemChunkE)
      (rule unanswered_drop_chunks)
qed (simp add: semanticCompress_def)

lemma topicExtract_unanswered: "unanswered (topicExtract ms) \<in> {unanswered ms, []}"
proof (cases "length (chunkCompactionMessages ms) \<le> 2")
  case False
  then show ?thesis
    unfolding topicExtract_def Let_def if_not_P [OF False]
    by (subst unanswered_prefix, force simp: list_all_iff dest: topic_of_no_calls)
      (rule unanswered_drop_chunks)
qed (simp add: topicExtract_def)

lemma skeleton_unanswered: "unanswered (skeleton ms) \<in> {unanswered ms, []}"
proof -
  define recent where "recent = filter (\<lambda>c. \<not> isSystemChunk c) (chunkCompactionMessages ms)"
  let ?old = "take (length recent - 2) recent" and ?kept = "drop (length recent - 2) recent"
  have "concat (map cc_messages ?old) @ concat (map cc_messages ?kept) = concat (map cc_messages recent)"
    by (simp flip: concat_append map_append)
  moreover have "unanswered (concat (map cc_messages recent)) = unanswered ms"
    unfolding recent_def unanswered_fold by (subst fold_without_system) (auto dest: isSystemChunkE)
  ultimately have "unanswered (concat (map cc_messages ?kept)) \<in> {unanswered ms, []}"
    using unanswered_suffix by (metis insertCI)
  then show ?thesis
    unfolding skeleton_def Let_def recent_def [symmetric]
    by (subst unanswered_prefix) (auto simp: list_all_iff plain_message_def split: list.splits)
qed

lemma selectiveTrim_unanswered: "unanswered (selectiveTrim ms) \<in> {unanswered ms, []}"
proof -
  define cs where "cs = chunkCompactionMessages ms"
  define old new where "old = takeWhile (\<lambda>c. cc_start c < length ms div 2) cs"
    and "new = dropWhile (\<lambda>c. cc_start c < length ms div 2) cs"
  have late: "length ms div 2 \<le> cc_start c" if "c \<in> set new" for c
  proof -
    have "sorted (map cc_start new)"
      using sorted_chunks [of ms] unfolding cs_def [symmetric] new_def
      by (metis map_append sorted_wrt_append takeWhile_dropWhile_id)
    moreover have "new \<noteq> [] \<Longrightarrow> \<not> cc_start (hd new) < length ms div 2"
      unfolding new_def by (rule hd_dropWhile)
    ultimately show ?thesis using that by (cases new) force+
  qed
  have chunk: "\<exists>m ts. cc_messages c = m # ts \<and> (\<not> calling m \<longrightarrow> ts = [])" if "c \<in> set cs" for c
    using chunkE that unfolding cs_def chunk_ok_def by blast
  have new_sub: "set new \<subseteq> set cs" by (auto simp: new_def dest: set_dropWhileD)
  have "fold answer_step (concat (map cc_messages (filter (trim_keeps ms) old))) [] = []"
  proof (rule fold_no_calls, unfold list_all_iff, safe)
    fix m assume m: "m \<in> set (concat (map cc_messages (filter (trim_keeps ms) old)))" "msg_ToolCalls m \<noteq> []"
    then obtain c where c: "c \<in> set old" "trim_keeps ms c" "m \<in> set (cc_messages c)" by auto
    then have "c \<in> set cs" "cc_start c < length ms div 2" by (auto simp: old_def dest: set_takeWhileD)
    then show "msg_Role m = ''assistant'' \<Longrightarrow> False"
      using c(2,3) m(2) chunk [of c] by (auto simp: trim_keeps_def isToolCallChunk_def calling_def split: if_splits)
  qed
  moreover have "fold answer_step (concat (map cc_messages (filter (trim_keeps ms) new))) []
      = fold answer_step (concat (map cc_messages new)) []"
  proof (rule fold_without_system, safe)
    fix c assume c: "c \<in> set new" "\<not> trim_keeps ms c"
    then obtain m ts where "cc_messages c = m # ts" "\<not> calling m \<longrightarrow> ts = []" using chunk new_sub by blast
    then show "\<exists>m. cc_messages c = [m] \<and> msg_Role m = ''system''"
      using c late [of c] by (auto simp: trim_keeps_def isToolCallChunk_def calling_def split: if_splits)
  qed
  ultimately have "unanswered (selectiveTrim ms) = unanswered (concat (map cc_messages new))"
    unfolding selectiveTrim_def cs_def [symmetric] unanswered_fold
    by (subst takeWhile_dropWhile_id [of "\<lambda>c. cc_start c < length ms div 2" cs, symmetric])
      (simp flip: old_def new_def)
  moreover have "concat (map cc_messages old) @ concat (map cc_messages new) = ms"
    unfolding old_def new_def cs_def by (simp flip: concat_append map_append)
  ultimately show ?thesis using unanswered_suffix by (metis insertCI)
qed

lemma CompactContext_cases:
  "CompactContext ms b \<in> {ms, selectiveTrim ms, semanticCompress (selectiveTrim ms),
     topicExtract (semanticCompress (selectiveTrim ms)), skeleton ms}"
  by (simp add: CompactContext_def Let_def)

lemma compaction_unanswered: "unanswered (CompactContext ms b) \<in> {unanswered ms, []}"
  using selectiveTrim_unanswered [of ms] semanticCompress_unanswered [of "selectiveTrim ms"]
    topicExtract_unanswered [of "semanticCompress (selectiveTrim ms)"] skeleton_unanswered [of ms]
    CompactContext_cases [of ms b]
  by (auto simp del: One_nat_def)

lemma compactSession_unanswered:
  "pendingCalls (compactSession b s) = pendingCalls s
    \<and> unanswered (messages (compactSession b s)) \<in> {unanswered (messages s), []}"
  using compaction_unanswered [of "messages s" b] by (simp add: compactSession_def SetMessages_def Let_def)

text \<open>What happens to a session during a turn: its own operations, and compactions.\<close>

datatype turn_op = Operation session_op | Compaction int

fun turn_step :: "turn_op \<Rightarrow> Session \<Rightarrow> Session" where
  "turn_step (Operation e) s = session_step e s"
| "turn_step (Compaction budget) s = compactSession budget s"

text \<open>Whether the history was compacted since the last assistant message was added.\<close>

fun compacted_since :: "turn_op \<Rightarrow> bool \<Rightarrow> bool" where
  "compacted_since (Compaction budget) b = True"
| "compacted_since (Operation (OpAssistant content calls phase)) b = False"
| "compacted_since (Operation e) b = b"

definition pending_inv :: "Session \<times> bool \<Rightarrow> bool" where
  "pending_inv = (\<lambda>(s, compacted).
     if compacted then unanswered (messages s) \<in> {pendingCalls s, []} else unanswered (messages s) = pendingCalls s)"

lemma pending_operation: "pending_inv (s, b) \<Longrightarrow> pending_inv (session_step e s, compacted_since (Operation e) b)"
  by (cases e) (auto simp: pending_inv_def session_ops unanswered_snoc Let_def split: if_splits)

lemma pending_compaction: "pending_inv (s, b) \<Longrightarrow> pending_inv (compactSession budget s, True)"
  using compactSession_unanswered [of budget s] by (auto simp: pending_inv_def split: if_splits)

interpretation turn_system:
  event_system "(New_session sid agent name, False)" "\<lambda>e (s, b). (turn_step e s, compacted_since e b)" pending_inv
  for sid agent name
proof unfold_locales
  show "pending_inv (New_session sid agent name, False)"
    by (simp add: New_session_def unanswered_def pending_inv_def)
next
  fix x :: "Session \<times> bool" and e
  assume "pending_inv x"
  then show "pending_inv (case x of (s, b) \<Rightarrow> (turn_step e s, compacted_since e b))"
    by (cases x; cases e) (simp_all add: pending_operation pending_compaction)
qed

lemma fold_pair: "fold (\<lambda>e (s, b). (f e s, g e b)) es (s, b) = (fold f es s, fold g es b)"
  by (induction es arbitrary: s b) simp_all

text \<open>
  C20. However user, system, assistant and tool messages and compactions follow each other, the pending tool calls are
  exactly the calls of the history's last assistant message that no later tool message answers, unless the history
  was compacted after that message was added; then the history still asks for exactly these calls or for none, and
  the next assistant message restores the equality.
\<close>

theorem pending_calls_are_unanswered:
  "let s = fold turn_step es (New_session sid agent name)
   in if fold compacted_since es False then unanswered (messages s) \<in> {pendingCalls s, []}
      else unanswered (messages s) = pendingCalls s"
  using turn_system.inv_run [where es = es and sid = sid and agent = agent and name = name] by (simp add: pending_inv_def Let_def fold_pair)

section \<open>Tool exchanges\<close>

text \<open>
  A history without orphans: every tool result follows the assistant message that asked for it, with nothing but
  results of the same message between them. The exchanges of a history are its calling messages with their results.
\<close>

fun orphan_free :: "string list \<Rightarrow> Message list \<Rightarrow> bool" where
  "orphan_free ids [] \<longleftrightarrow> True"
| "orphan_free ids (m # ms) \<longleftrightarrow>
     (if msg_Role m = ''tool'' then msg_ToolCallID m \<in> set ids \<and> orphan_free ids ms
      else orphan_free (if msg_Role m = ''assistant'' then map tc_ID (msg_ToolCalls m) else []) ms)"

fun exchanges :: "Message list \<Rightarrow> (Message \<times> Message list) list" where
  "exchanges [] = []"
| "exchanges (m # ms) =
     (if msg_Role m = ''assistant'' \<and> msg_ToolCalls m \<noteq> []
      then [(m, takeWhile (\<lambda>t. msg_Role t = ''tool'') ms)] else []) @ exchanges ms"

definition whole :: "Message list \<Rightarrow> bool" where
  "whole c \<longleftrightarrow> (\<exists>m ts. c = m # ts \<and> msg_Role m \<noteq> ''tool'' \<and> (\<not> calling m \<longrightarrow> ts = []) \<and> list_all (answer_of m) ts)"

definition exchange :: "Message list \<Rightarrow> (Message \<times> Message list) list" where
  "exchange c = (if calling (hd c) then [(hd c, tl c)] else [])"

lemma takeWhile_append_none: "takeWhile P ys = [] \<Longrightarrow> takeWhile P (xs @ ys) = takeWhile P xs"
  by (induction xs) simp_all

lemma chunks_append:
  "ys = [] \<or> msg_Role (hd ys) \<noteq> ''tool'' \<Longrightarrow> chunks_from i (xs @ ys) = chunks_from i xs @ chunks_from (i + length xs) ys"
proof (induction i xs rule: chunks_from.induct)
  case (2 i m ms)
  have none: "takeWhile (answer_of m) ys = []"
    using 2(2) by (cases ys) (auto simp: answer_of_def)
  have "takeWhile (answer_of m) (ms @ ys) = takeWhile (answer_of m) ms"
    using none by (rule takeWhile_append_none)
  moreover have "length (takeWhile (answer_of m) ms) \<le> length ms" by (rule length_takeWhile_le)
  ultimately show ?case using 2 by (cases "calling m") (simp_all add: Let_def)
qed simp

lemma orphan_free_append:
  "ys = [] \<or> msg_Role (hd ys) \<noteq> ''tool'' \<Longrightarrow> orphan_free ids (xs @ ys) \<longleftrightarrow> orphan_free ids xs \<and> orphan_free [] ys"
  by (induction ids xs rule: orphan_free.induct) (cases ys; auto)+

lemma exchanges_append:
  "ys = [] \<or> msg_Role (hd ys) \<noteq> ''tool'' \<Longrightarrow> exchanges (xs @ ys) = exchanges xs @ exchanges ys"
proof (induction xs)
  case (Cons m xs)
  have "takeWhile (\<lambda>t. msg_Role t = ''tool'') ys = []" using Cons.prems by (cases ys) auto
  then show ?case using Cons by (simp add: takeWhile_append_none)
qed simp

lemma orphan_free_answers: "list_all (\<lambda>t. msg_Role t = ''tool'') ts \<Longrightarrow> orphan_free ids ts \<longleftrightarrow> list_all (\<lambda>t. msg_ToolCallID t \<in> set ids) ts"
  by (induction ts) auto

lemma exchanges_tools: "list_all (\<lambda>t. msg_Role t = ''tool'') ts \<Longrightarrow> exchanges ts = []"
  by (induction ts) auto

lemma whole_chunk:
  assumes "whole c"
  shows "orphan_free [] c \<and> exchanges c = exchange c \<and> map cc_messages (chunks_from i c) = [c]"
proof -
  from assms obtain m ts where c: "c = m # ts" "msg_Role m \<noteq> ''tool''" "\<not> calling m \<longrightarrow> ts = []" "list_all (answer_of m) ts"
    unfolding whole_def by blast
  have tools: "list_all (\<lambda>t. msg_Role t = ''tool'') ts" and ids: "list_all (\<lambda>t. msg_ToolCallID t \<in> set (map tc_ID (msg_ToolCalls m))) ts"
    using c(4) by (simp_all add: list_all_iff answer_of_def)
  have all: "takeWhile (\<lambda>t. msg_Role t = ''tool'') ts = ts" "takeWhile (answer_of m) ts = ts"
    using tools c(4) by (simp_all add: list_all_iff)
  show ?thesis
  proof (cases "calling m")
    case True
    then have "msg_Role m = ''assistant'' \<and> msg_ToolCalls m \<noteq> []" by (simp add: calling_def)
    with True show ?thesis
      using c(1,2) ids
      by (simp add: orphan_free_answers [OF tools] exchanges_tools [OF tools] exchange_def Let_def all)
  next
    case False
    then show ?thesis using c(1-3) by (simp add: exchange_def calling_def)
  qed
qed

lemma whole_hd: "whole c \<Longrightarrow> msg_Role (hd c) \<noteq> ''tool''" and whole_ne: "whole c \<Longrightarrow> c \<noteq> []"
  by (auto simp: whole_def)

lemma hd_concat_whole: "list_all whole cs \<Longrightarrow> concat cs = [] \<or> msg_Role (hd (concat cs)) \<noteq> ''tool''"
  by (cases cs) (auto simp: whole_hd whole_ne)

lemma whole_chunks:
  "list_all whole cs \<Longrightarrow>
     orphan_free [] (concat cs) \<and> exchanges (concat cs) = concat (map exchange cs)
     \<and> map cc_messages (chunks_from i (concat cs)) = cs"
proof (induction cs arbitrary: i)
  case (Cons c cs)
  then show ?case
    using hd_concat_whole [of cs] whole_chunk [of c]
    by (simp add: orphan_free_append exchanges_append chunks_append)
qed simp

lemma orphan_free_weaken: "ms = [] \<or> msg_Role (hd ms) \<noteq> ''tool'' \<Longrightarrow> orphan_free ids ms \<Longrightarrow> orphan_free [] ms"
  by (cases ms) auto

lemma orphan_free_results:
  assumes "orphan_free (map tc_ID (msg_ToolCalls m)) ms"
  shows "orphan_free [] (dropWhile (answer_of m) ms)"
  using assms by (induction ms) (auto simp: answer_of_def)

lemma orphan_free_whole: "orphan_free [] ms \<Longrightarrow> list_all whole (map cc_messages (chunks_from i ms))"
proof (induction i ms rule: chunks_from.induct)
  case (2 i m ms)
  define results where "results = (if calling m then takeWhile (answer_of m) ms else [])"
  have m: "msg_Role m \<noteq> ''tool''" using 2(2) by auto
  have "orphan_free [] (drop (length results) ms)"
    using 2(2) m orphan_free_results [of m ms]
    by (auto simp: results_def calling_def simp flip: dropWhile_eq_drop split: if_splits)
  then have "list_all whole (map cc_messages (chunks_from (Suc (i + length results)) (drop (length results) ms)))"
    by (rule 2(1) [OF results_def])
  moreover have "whole (m # results)"
    using m by (auto simp: whole_def results_def list_all_iff dest: set_takeWhileD)
  ultimately show ?case by (simp add: Let_def results_def)
qed simp

abbreviation mc :: "Message list \<Rightarrow> Message list list" where
  "mc ms \<equiv> map cc_messages (chunkCompactionMessages ms)"

text \<open>What every stage promises: whole chunks again, whose exchanges are some of those before, in order.\<close>

definition keeps_exchanges :: "Message list \<Rightarrow> Message list \<Rightarrow> bool" where
  "keeps_exchanges ms ms' \<longleftrightarrow>
     (orphan_free [] ms \<longrightarrow> orphan_free [] ms' \<and> subseq (exchanges ms') (exchanges ms))"

lemma keeps_exchanges_trans: "keeps_exchanges a b \<Longrightarrow> keeps_exchanges b c \<Longrightarrow> keeps_exchanges a c"
  unfolding keeps_exchanges_def by (meson subseq_order.trans)

lemma keeps_exchangesI:
  assumes "orphan_free [] ms \<Longrightarrow> list_all whole (mc ms) \<Longrightarrow>
      \<exists>cs. ms' = concat cs \<and> list_all whole cs \<and> subseq (concat (map exchange cs)) (concat (map exchange (mc ms)))"
  shows "keeps_exchanges ms ms'"
  unfolding keeps_exchanges_def
proof
  assume free: "orphan_free [] ms"
  have mc: "list_all whole (mc ms)"
    unfolding chunkCompactionMessages_def by (rule orphan_free_whole [OF free])
  from assms [OF free mc] obtain cs where cs: "ms' = concat cs" "list_all whole cs"
      "subseq (concat (map exchange cs)) (concat (map exchange (mc ms)))" by blast
  then show "orphan_free [] ms' \<and> subseq (exchanges ms') (exchanges ms)"
    using whole_chunks [OF cs(2)] whole_chunks [OF mc] by (simp del: map_map)
qed

lemma subseq_concat_filter: "subseq (concat (map f (filter P xs))) (concat (map f xs))"
  by (induction xs) (auto intro: list_emb_append_mono subseq_drop_many)

lemma subseq_concat_drop: "subseq (concat (map f (drop n xs))) (concat (map f xs))"
proof -
  have "concat (map f xs) = concat (map f (take n xs)) @ concat (map f (drop n xs))"
    by (simp flip: concat_append map_append)
  then show ?thesis by (simp add: subseq_drop_many)
qed

definition plain :: "Message \<Rightarrow> bool" where
  "plain m \<longleftrightarrow> msg_Role m \<noteq> ''tool'' \<and> \<not> calling m"

lemma plain_prefix:
  assumes "list_all plain ps" and "list_all whole cs"
  shows "\<exists>cs'. ps @ concat cs = concat cs' \<and> list_all whole cs' \<and> concat (map exchange cs') = concat (map exchange cs)"
proof (intro exI conjI)
  show "ps @ concat cs = concat (map (\<lambda>p. [p]) ps @ cs)" by (simp add: concat_map_singleton)
  show "list_all whole (map (\<lambda>p. [p]) ps @ cs)"
    using assms by (auto simp: list_all_iff whole_def plain_def)
  show "concat (map exchange (map (\<lambda>p. [p]) ps @ cs)) = concat (map exchange cs)"
    using assms(1) by (induction ps) (simp_all add: exchange_def plain_def)
qed

lemma prefix_keeps_exchanges:
  assumes "list_all plain ps" and "set cs \<subseteq> set (mc ms)"
    and "subseq (concat (map exchange cs)) (concat (map exchange (mc ms)))"
  shows "keeps_exchanges ms (ps @ concat cs)"
proof (rule keeps_exchangesI)
  assume "list_all whole (mc ms)"
  with assms(2) have "list_all whole cs" by (auto simp: list_all_iff)
  from plain_prefix [OF assms(1) this] assms(3)
  show "\<exists>cs'. ps @ concat cs = concat cs' \<and> list_all whole cs'
      \<and> subseq (concat (map exchange cs')) (concat (map exchange (mc ms)))"
    by metis
qed

lemma drop_keeps_exchanges:
  "list_all plain ps \<Longrightarrow> keeps_exchanges ms (ps @ concat (map cc_messages (drop n (chunkCompactionMessages ms))))"
  by (rule prefix_keeps_exchanges, assumption, force dest: in_set_dropD)
    (unfold map_map, rule subseq_concat_drop)

lemma selectiveTrim_exchanges: "keeps_exchanges ms (selectiveTrim ms)"
proof -
  have "keeps_exchanges ms ([] @ concat (map cc_messages (filter (trim_keeps ms) (chunkCompactionMessages ms))))"
    by (rule prefix_keeps_exchanges, simp, force) (unfold map_map, rule subseq_concat_filter)
  then show ?thesis by (simp add: selectiveTrim_def)
qed

lemma isSystem_plain: "isSystemChunk c \<Longrightarrow> m \<in> set (cc_messages c) \<Longrightarrow> plain m"
  by (auto dest!: isSystemChunkE simp: plain_def calling_def)

lemma plain_message_plain: "r \<noteq> ''tool'' \<Longrightarrow> plain (plain_message r t)"
  by (simp add: plain_def plain_message_def calling_def)

lemma semanticCompress_exchanges: "keeps_exchanges ms (semanticCompress ms)"
proof (cases "length (chunkCompactionMessages ms) \<le> 4")
  case False
  show ?thesis
    unfolding semanticCompress_def Let_def if_not_P [OF False] append_assoc [symmetric]
    by (rule drop_keeps_exchanges) (auto simp: list_all_iff plain_message_plain dest: isSystem_plain)
qed (simp add: semanticCompress_def keeps_exchanges_def)

lemma topic_of_plain: "whole (cc_messages c) \<Longrightarrow> m \<in> set (topic_of c) \<Longrightarrow> plain m"
  by (auto simp: topic_of_def Let_def whole_def isSystem_plain plain_message_plain split: if_splits)

lemma topicExtract_exchanges: "keeps_exchanges ms (topicExtract ms)"
proof (cases "length (chunkCompactionMessages ms) \<le> 2")
  case False
  show ?thesis
  proof (rule keeps_exchangesI)
    assume free: "orphan_free [] ms" and mc: "list_all whole (mc ms)"
    have "keeps_exchanges ms (topicExtract ms)"
      unfolding topicExtract_def Let_def if_not_P [OF False]
      using mc by (intro drop_keeps_exchanges) (auto simp: list_all_iff intro: topic_of_plain dest: in_set_takeD)
    with free have "orphan_free [] (topicExtract ms)" and sub: "subseq (exchanges (topicExtract ms)) (exchanges ms)"
      by (auto simp: keeps_exchanges_def)
    then have w: "list_all whole (mc (topicExtract ms))"
      unfolding chunkCompactionMessages_def by (intro orphan_free_whole)
    show "\<exists>cs. topicExtract ms = concat cs \<and> list_all whole cs
        \<and> subseq (concat (map exchange cs)) (concat (map exchange (mc ms)))"
      using w sub whole_chunks [OF w] whole_chunks [OF mc] by (intro exI [of _ "mc (topicExtract ms)"]) (simp del: map_map)
  qed
qed (simp add: topicExtract_def keeps_exchanges_def)

lemma skeleton_exchanges: "keeps_exchanges ms (skeleton ms)"
proof -
  define recent where "recent = filter (\<lambda>c. \<not> isSystemChunk c) (chunkCompactionMessages ms)"
  have "subseq (concat (map (exchange \<circ> cc_messages) (drop (length recent - 2) recent)))
      (concat (map (exchange \<circ> cc_messages) (chunkCompactionMessages ms)))"
    unfolding recent_def by (rule subseq_order.trans [OF subseq_concat_drop subseq_concat_filter])
  then show ?thesis
    unfolding skeleton_def Let_def recent_def [symmetric]
    by (intro prefix_keeps_exchanges)
      (auto simp: list_all_iff plain_message_plain recent_def dest: in_set_dropD split: list.splits)
qed

lemma compaction_exchanges: "keeps_exchanges ms (CompactContext ms b)"
proof -
  note trim = selectiveTrim_exchanges [of ms]
  note compress = keeps_exchanges_trans [OF trim semanticCompress_exchanges]
  note topics = keeps_exchanges_trans [OF compress topicExtract_exchanges]
  have "keeps_exchanges ms ms" by (simp add: keeps_exchanges_def)
  with trim compress topics skeleton_exchanges [of ms] CompactContext_cases [of ms b] show ?thesis by auto
qed

text \<open>
  C40. Compaction never tears a tool exchange apart: in a history where every tool result follows its call, whatever the
  budget, every tool result of the compacted history follows its call, and the exchanges that remain are exchanges
  of the old history with all their results, in the old order.
\<close>

theorem compaction_keeps_exchanges_whole:
  assumes "orphan_free [] ms"
  shows "orphan_free [] (CompactContext ms budget) \<and> subseq (exchanges (CompactContext ms budget)) (exchanges ms)"
  using compaction_exchanges [of ms budget] assms by (simp add: keeps_exchanges_def)

section \<open>The estimate of plain text\<close>

definition prose :: "string \<Rightarrow> bool" where
  "prose t \<longleftrightarrow> list_all (\<lambda>c. of_char c < (128::nat) \<and> c \<notin> set ''{}[]();:=<>|&!~^%'') t"

lemma ascii_rune: "of_char c < (128::nat) \<Longrightarrow> rune_size (c # s) = 1 \<and> rune_at (c # s) = of_char c"
  by (simp add: rune_size_def rune_at_def byte_in_def byte_at_def Let_def)

lemma ascii_runes:
  "list_all (\<lambda>c. of_char c < (128::nat)) t \<Longrightarrow> runes t = map of_char t \<and> rune_count t = length t"
  by (induction t) (simp_all add: ascii_rune)

lemma ascii_not_CJK: "r < 128 \<Longrightarrow> \<not> isCJK r"
  by (simp add: isCJK_def cjk_ranges_def)

lemma ratio_zero [simp]: "ratio 0 n = 0"
  by (cases n) (simp_all add: ratio_def double_of_def half_even_def bit_length.simps)

lemma double_of_nonneg: "0 \<le> a \<Longrightarrow> 0 < b \<Longrightarrow> 0 \<le> double_of a b"
  by (auto simp: double_of_def half_even_def Let_def pos_imp_zdiv_nonneg_iff intro!: mult_nonneg_nonneg add_nonneg_nonneg)

lemma prose_chars_per_token: "prose t \<Longrightarrow> chars_per_token t = 4 * 2 ^ 57"
proof -
  assume p: "prose t"
  then have runes: "runes t = map of_char t"
    using ascii_runes [of t] by (auto simp: prose_def list_all_iff)
  have none: "\<not> isCJK r \<and> \<not> isCodeChar r" if r: "r \<in> set (take 512 (runes t))" for r
  proof -
    from r obtain c where c: "c \<in> set t" "r = of_char c" unfolding runes by (metis imageE in_set_takeD list.set_map)
    then have "of_char c < (128::nat)" "c \<notin> set ''{}[]();:=<>|&!~^%''" using p unfolding prose_def list_all_iff by blast+
    then show ?thesis using c(2) ascii_not_CJK unfolding isCodeChar_def by (metis char_of_char)
  qed
  then have "filter isCJK (take 512 (runes t)) = []" "filter (\<lambda>r. \<not> isCJK r \<and> isCodeChar r) (take 512 (runes t)) = []"
    by (auto simp: filter_empty_conv)
  moreover have "0 \<le> double_of (15 * 2 ^ 57) 100" "0 \<le> double_of (3 * 2 ^ 57) 10"
    by (rule double_of_nonneg; simp)+
  ultimately show ?thesis by (simp add: chars_per_token_def Let_def)
qed

lemma bit_length_le: "n < 2 ^ m \<Longrightarrow> bit_length n \<le> m"
proof (induction m arbitrary: n)
  case (Suc m)
  then have "n div 2 < 2 ^ m" by auto
  with Suc.IH show ?case by (subst bit_length.simps) auto
qed (subst bit_length.simps, simp)

lemma quarter:
  assumes "0 < n" and "n < 2 ^ 50"
  shows "double_of (n * 2 ^ 114) (4 * 2 ^ 57) = n * 2 ^ 55"
proof -
  define s where "s = bit_length (n * 2 ^ 55) - 53"
  have "n * 2 ^ 55 < 2 ^ 105" using assms(2) by simp
  then have "s \<le> 55" using bit_length_le [of "n * 2 ^ 55" 105] by (simp add: s_def)
  then have "(2::int) ^ 55 = 2 ^ (55 - s) * 2 ^ s" by (simp flip: power_add)
  then have split: "n * 2 ^ 114 = (n * 2 ^ (55 - s)) * (4 * 2 ^ 57 * 2 ^ s)" "n * 2 ^ (55 - s) * 2 ^ s = n * 2 ^ 55"
    by (simp_all add: ac_simps)
  have "half_even (q * b) b = q" if "b > 0" for q b :: int
    using that by (simp add: half_even_def)
  then have "half_even (n * 2 ^ 114) (4 * 2 ^ 57 * 2 ^ s) = n * 2 ^ (55 - s)"
    unfolding split(1) by simp
  then have "half_even (n * 2 ^ 114) (4 * 2 ^ 57 * 2 ^ s) * 2 ^ s = n * 2 ^ 55" by (simp only: split(2))
  moreover have "\<bar>n * 2 ^ 114\<bar> div (4 * 2 ^ 57) = n * 2 ^ 55" using assms(1) by simp
  ultimately show ?thesis by (simp only: double_of_def Let_def s_def)
qed

text \<open>English text is a token per four bytes, at least one.\<close>

lemma prose_tokens:
  assumes "prose t" and "t \<noteq> []" and "length t < 2 ^ 50"
  shows "EstimateTokens t = max 1 (int (length t) div 4)"
proof -
  have count: "rune_count t = length t"
    using assms(1) ascii_runes [of t] by (auto simp: prose_def list_all_iff)
  have "int (length t) < 2 ^ 50" using assms(3) by (metis of_nat_less_numeral_power_cancel_iff)
  then have q: "double_of (int (length t) * 2 ^ 114) (4 * 2 ^ 57) = int (length t) * 2 ^ 55"
    using assms(2) by (intro quarter) simp_all
  have "EstimateTokens t = (if int (length t) * 2 ^ 55 < 2 ^ 57 then 1 else int (length t) * 2 ^ 55 div 2 ^ 57)"
    using assms(2) by (simp only: EstimateTokens_def prose_chars_per_token [OF assms(1)] count q Let_def if_False)
  then show ?thesis by (simp split: if_splits)
qed

section \<open>Where compaction falls short\<close>

text \<open>
  A compaction that shortens messages without dropping any is not stored, although the history is over the budget:
  here topic extraction brings three messages within the budget, and the session keeps the long ones.
\<close>

definition long_text :: string where
  "long_text = ''One. abcdefghijklmnopqrstuvwxyz''"

definition long_session :: Session where
  "long_session = (New_session [] [] [])\<lparr>messages :=
     [plain_message ''user'' long_text, plain_message ''assistant'' ''ok'', plain_message ''user'' ''go'']\<rparr>"

definition prose_message :: "Message \<Rightarrow> bool" where
  "prose_message m \<longleftrightarrow> prose (msg_Content m) \<and> length (msg_Content m) < 1000"

lemma prose_message_tokens:
  "prose_message m \<Longrightarrow>
     EstimateTokens (msg_Content m) = (if msg_Content m = [] then 0 else max 1 (int (length (msg_Content m)) div 4))"
  using prose_tokens [of "msg_Content m"] by (auto simp: prose_message_def EstimateTokens_def)

definition length_tokens :: "Message \<Rightarrow> int" where
  "length_tokens m = (let n = length (msg_Content m) in 4 + (if n = 0 then 0 else max 1 (int n div 4)))"

lemma estimate_prose:
  "list_all prose_message ms \<Longrightarrow> estimateTokens ms = sum_list (map length_tokens ms)"
  by (induction ms) (simp_all add: estimateTokens_def prose_message_tokens length_tokens_def)

lemma estimate_ge: "4 * int (length ms) \<le> estimateTokens ms"
proof -
  have nonneg: "0 \<le> EstimateTokens t" for t
    by (auto simp: EstimateTokens_def Let_def pos_imp_zdiv_nonneg_iff)
  show ?thesis
  proof (induction ms)
    case (Cons m ms)
    then show ?case using nonneg [of "msg_Content m"] by (simp add: estimateTokens_def)
  qed (simp add: estimateTokens_def)
qed

lemma CompactContext_skeleton:
  assumes "ms \<noteq> []" and "0 < b"
    and "list_all (\<lambda>l. b < 4 * int (length l))
      [ms, selectiveTrim ms, semanticCompress (selectiveTrim ms), topicExtract (semanticCompress (selectiveTrim ms))]"
  shows "CompactContext ms b = skeleton ms"
proof -
  have "\<not> estimateTokens l \<le> b" if "b < 4 * int (length l)" for l
    using that estimate_ge [of l] by linarith
  then show ?thesis using assms by (simp add: CompactContext_def Let_def)
qed

lemma long_session_tokens: "sum_list (map length_tokens (messages long_session)) = 21" by code_simp
lemma topics: "topicExtract (messages long_session)
    = [plain_message ''user'' ''One.'', plain_message ''assistant'' ''ok'', plain_message ''user'' ''go'']"
  by code_simp
lemma topics_tokens: "sum_list (map length_tokens (topicExtract (messages long_session))) = 15"
  by (simp add: topics length_tokens_def plain_message_def)
lemma topics_length: "length (topicExtract (messages long_session)) = length (messages long_session)"
  unfolding topics by (simp add: long_session_def)
lemma long_session_prose: "list_all prose_message (messages long_session)" by code_simp
lemma topics_prose: "list_all prose_message (topicExtract (messages long_session))" unfolding topics by code_simp
lemma trim_long_session: "selectiveTrim (messages long_session) = messages long_session" by code_simp
lemma compress_long_session: "semanticCompress (messages long_session) = messages long_session" by code_simp

lemma compaction_discarded:
  "estimateTokens (messages long_session) = 21
   \<and> CompactContext (messages long_session) 20 = topicExtract (messages long_session)
   \<and> estimateTokens (topicExtract (messages long_session)) = 15
   \<and> compactSession 20 long_session = long_session"
proof -
  have e: "estimateTokens (messages long_session) = 21" "estimateTokens (topicExtract (messages long_session)) = 15"
    using long_session_tokens topics_tokens long_session_prose topics_prose by (simp_all only: estimate_prose)
  then have "CompactContext (messages long_session) 20 = topicExtract (messages long_session)"
    by (simp add: CompactContext_def Let_def trim_long_session compress_long_session) (simp add: long_session_def)
  with e topics_length show ?thesis by (simp add: compactSession_def)
qed

text \<open>The last stage does not look at the budget: its two turns are kept at any length.\<close>

lemma skeleton_over_budget:
  "let ms = [plain_message ''user'' long_text, plain_message ''assistant'' long_text] in
   CompactContext ms 5 = ms \<and> estimateTokens ms = 22"
proof -
  let ?ms = "[plain_message ''user'' long_text, plain_message ''assistant'' long_text]"
  have s: "selectiveTrim ?ms = ?ms" by code_simp
  have t: "semanticCompress ?ms = ?ms" by code_simp
  have u: "topicExtract ?ms = ?ms" by code_simp
  have v: "skeleton ?ms = ?ms" by code_simp
  have p: "list_all prose_message ?ms" by code_simp
  have "sum_list (map length_tokens ?ms) = 22" by code_simp
  then have "estimateTokens ?ms = 22" by (simp only: estimate_prose [OF p])
  moreover have "CompactContext ?ms 5 = ?ms"
    by (subst CompactContext_skeleton) (simp_all only: s t u v, simp_all)
  ultimately show ?thesis by simp
qed

definition demo_history :: "Message list" where
  "demo_history =
     [plain_message ''user'' ''a'',
      (plain_message ''assistant'' [])\<lparr>msg_ToolCalls := [\<lparr>tc_ID = ''1'', tc_Type = [], tc_Name = ''bash'', tc_Arguments = ''{}''\<rparr>]\<rparr>,
      (plain_message ''tool'' ''r'')\<lparr>msg_ToolCallID := ''1''\<rparr>,
      (plain_message ''assistant'' [])\<lparr>msg_ToolCalls := [\<lparr>tc_ID = ''2'', tc_Type = [], tc_Name = ''bash'', tc_Arguments = ''{}''\<rparr>]\<rparr>,
      (plain_message ''tool'' ''s'')\<lparr>msg_ToolCallID := ''2''\<rparr>, plain_message ''user'' ''b'']"

lemma demo_compaction:
  "orphan_free [] demo_history \<and> map (tc_ID \<circ> hd \<circ> msg_ToolCalls \<circ> fst) (exchanges demo_history) = [''1'', ''2'']
   \<and> map msg_Content (skeleton demo_history) = [[], ''s'', ''b'']
   \<and> list_all (\<lambda>l. 5 < 4 * int (length l))
      [demo_history, selectiveTrim demo_history, semanticCompress (selectiveTrim demo_history),
       topicExtract (semanticCompress (selectiveTrim demo_history))]"
  by code_simp

theorem compaction_keeps_exchanges_whole_witness:
  "map (tc_ID \<circ> hd \<circ> msg_ToolCalls \<circ> fst) (exchanges demo_history) = [''1'', ''2'']
   \<and> map msg_Content (CompactContext demo_history 5) = [[], ''s'', ''b'']
   \<and> orphan_free [] (CompactContext demo_history 5)
   \<and> subseq (exchanges (CompactContext demo_history 5)) (exchanges demo_history)"
proof -
  have "demo_history \<noteq> []" by (simp add: demo_history_def)
  then have "CompactContext demo_history 5 = skeleton demo_history"
    using demo_compaction by (intro CompactContext_skeleton) simp_all
  with demo_compaction compaction_keeps_exchanges_whole [of demo_history 5] show ?thesis by simp
qed

end
