(* ===== verification/Spec2Isabelle.thy ===== *)
theory Spec2Isabelle
  imports Policy Circuit Session ToolSemantics Boundary AgentLoop DeliveryTable Approvals RateLimit Guards Wallet CronWorker
    Caches ToolMessages TurnGates Speculation LogBuffer TurnPolicy Verifier LLMService Compaction
begin

text \<open>
  This development models and verifies the core of Roboticus, an autonomous agent runtime written in
  Go (\<^verbatim>\<open>src/internal\<close>): a message arrives over a channel or the HTTP API, the pipeline decides who
  speaks and with which authority, the agent loop lets a language model think and call tools under a
  policy engine, output guards check the answer, and a delivery queue sends it; a cron worker starts
  turns on its own. Paths below are relative to \<^verbatim>\<open>src/internal\<close>.

  \<^bold>\<open>How the code is modelled.\<close> A struct is a record, an enumeration a datatype, a Go map an association
  list with distinct keys, a \<^verbatim>\<open>time.Time\<close> the number of nanoseconds since the Unix epoch, a string its
  bytes; 64-bit arithmetic is written with wrap-around where it can overflow (\<open>i64\<close> or words). A method
  that changes its receiver returns the new state; an error is a value of an option or sum type, a
  panic is \<open>None\<close>. What the code takes from outside (model, tools, network, clock, randomness, hashes, JSON,
  floats, SQLite failures, order of unordered rows) is a parameter, and what a theorem needs of it is a
  named hypothesis. Mutexes make the operations atomic, so concurrency is any sequence of operations.

  \<^bold>\<open>Theories.\<close>
  \<^item> \<open>Prelude\<close>: Go's strings, times and maps; the locales \<open>keyed_table\<close> (reading after writing),
    \<open>event_system\<close> (an invariant under any sequence of events), \<open>bounded_loop\<close> (a loop with a variant) and
    \<open>sliding_window\<close>; each is interpreted on the components below.
  \<^item> \<open>Authority\<close> (\<^verbatim>\<open>core/security_claim.go\<close>, \<^verbatim>\<open>pipeline/config.go\<close>): claims compose as the least of the
    ceilings and the greatest grant. \<open>ToolRegistry\<close> (\<^verbatim>\<open>agent/tools/registry.go\<close>). \<open>Policy\<close>
    (\<^verbatim>\<open>agent/policy/engine.go\<close>): the rules and their chain, risk levels, rate limit, paths. \<open>Approvals\<close>
    (\<^verbatim>\<open>agent/policy/approvals.go\<close>): decisions are final.
  \<^item> \<open>Session\<close> (package \<^verbatim>\<open>session\<close>): history, pending calls, reflection. \<open>Compaction\<close>
    (\<^verbatim>\<open>pipeline/compaction.go\<close>, \<^verbatim>\<open>llm/tokencount.go\<close>): what of a long history reaches the model; pending calls and
    tool exchanges under compaction. \<open>ToolSemantics\<close>
    (\<^verbatim>\<open>agent/tools/semantics.go\<close>, \<^verbatim>\<open>normalization.go\<close>, proofs). \<open>Boundary\<close> (\<^verbatim>\<open>agent/hmac_boundary.go\<close>).
  \<^item> \<open>AgentLoop\<close> (\<^verbatim>\<open>agent/loop.go\<close>): the loop with all guards of its acting phase; termination for any model
    and tools, every call answered, only permitted tools executed, no replay of a protected side effect.
  \<^item> \<open>Guards\<close> (\<^verbatim>\<open>pipeline/guards.go\<close>, \<^verbatim>\<open>guard_registry.go\<close>, \<^verbatim>\<open>guard_context.go\<close>, \<^verbatim>\<open>guard_retry.go\<close>,
    \<^verbatim>\<open>post_success_retry_policy.go\<close>): chains, presets and the bounded retry loop.
  \<^item> \<open>Regex\<close>: a backtracking matcher for the regular expressions the source compiles, and the string functions
    around it. \<open>Artifacts\<close> (\<^verbatim>\<open>pipeline/artifact_expectations.go\<close>, \<^verbatim>\<open>tool_result_evidence.go\<close>, the proofs tools attach):
    what files a prompt asks for and whether the turn wrote them. \<open>Inspection\<close> (\<^verbatim>\<open>pipeline/inspection_turn.go\<close> and the
    lexicon): which directories a prompt may inspect. \<open>TaskSynthesis\<close> (\<^verbatim>\<open>pipeline/task_synthesis.go\<close>,
    \<^verbatim>\<open>decomposition.go\<close>, \<^verbatim>\<open>intent_registry.go\<close>, \<^verbatim>\<open>delegation_classify.go\<close>): intent, complexity, plan and action gate.
    \<open>TurnPolicy\<close> (\<^verbatim>\<open>pipeline/turn_policy.go\<close>, \<^verbatim>\<open>stageToolPruning\<close>): the tool surface of a turn, and that it binds the
    agent loop.
  \<^item> \<open>GuardRules\<close> (\<^verbatim>\<open>pipeline/guards_*.go\<close>, \<^verbatim>\<open>guard_registry.go\<close>, \<^verbatim>\<open>guard_fallback.go\<close>, \<^verbatim>\<open>buildGuardContext\<close>): every guard of the
    default registry, the context they read, and what an answer that passed the chains can no longer contain.
    \<open>Verifier\<close> (\<^verbatim>\<open>pipeline/verifier.go\<close>, \<^verbatim>\<open>verifier_claims.go\<close>, \<^verbatim>\<open>verifier_retry_guidance.go\<close>,
    \<^verbatim>\<open>format_directives.go\<close>): the claims of an answer against the evidence, and the verdict.
  \<^item> \<open>TurnGates\<close> (\<^verbatim>\<open>pipeline/dedup.go\<close>, \<^verbatim>\<open>task_state.go\<close>, \<^verbatim>\<open>consent.go\<close>): duplicates in flight, tasks, and
    the exact behaviour of the consent gate.
  \<^item> \<open>Circuit\<close> (\<^verbatim>\<open>llm/circuit.go\<close>): breakers. \<open>Caches\<close> (\<^verbatim>\<open>llm/cache.go\<close>): size bound, freshness and origin of
    every answer. \<open>ToolMessages\<close> (\<^verbatim>\<open>llm/tool_message_normalization.go\<close>): what each provider is sent.
  \<^item> \<open>Routing\<close> (\<^verbatim>\<open>llm/router.go\<close>, \<^verbatim>\<open>model_policy.go\<close>, \<^verbatim>\<open>role_eligibility.go\<close>, \<^verbatim>\<open>profile.go\<close>): which model a request
    gets, by policy, role and complexity in doubles. \<open>LLMService\<close> (\<^verbatim>\<open>llm/service.go\<close>, \<^verbatim>\<open>session_escalation.go\<close>,
    \<^verbatim>\<open>dedup.go\<close>, \<^verbatim>\<open>transform.go\<close>): completion and streaming over the chain of providers, with cache, breakers and
    response transforms; shared calls of identical requests.
  \<^item> \<open>Speculation\<close> (\<^verbatim>\<open>agent/speculative.go\<close>, \<^verbatim>\<open>speculation_cache.go\<close>): branches under any schedule, the cache as a
    refinement of a first-in first-out table, slots.
  \<^item> \<open>GoHeap\<close> (\<^verbatim>\<open>container/heap\<close>, with the locale \<open>min_queue\<close>), \<open>Delivery\<close> and \<open>DeliveryTable\<close>
    (\<^verbatim>\<open>channel/delivery.go\<close>): conservation of messages, exact draining, recovery after a restart and its failure
    under the production constraint.
  \<^item> \<open>Schedule\<close> and \<open>CronWorker\<close> (\<^verbatim>\<open>schedule/scheduler.go\<close>, \<^verbatim>\<open>schedule/worker.go\<close>, \<^verbatim>\<open>agent/tools/cron.go\<close>,
    \<^verbatim>\<open>db/cron_repo.go\<close>): due times against a one-line reference, next runs, leases, retries, due jobs run.
  \<^item> \<open>RateLimit\<close> and \<open>LogBuffer\<close> (\<^verbatim>\<open>api/ratelimit.go\<close>, \<^verbatim>\<open>api/logbuffer.go\<close>): windows per client; the ring buffer as a
    refinement of a bounded queue. \<open>Wallet\<close> (\<^verbatim>\<open>wallet/rlp.go\<close>, \<^verbatim>\<open>wallet/money.go\<close>): encoding and saturating money.
  \<^item> This theory: \<^verbatim>\<open>stageAuthority\<close> of \<^verbatim>\<open>pipeline/pipeline_run_stages.go\<close>, and the properties that span
    \<open>Authority\<close>, \<open>Session\<close>, \<open>Policy\<close> and \<open>AgentLoop\<close>: from the sender of a message to the tools that run.

  \<^bold>\<open>Bounds and fuel.\<close> \<open>AgentLoop.Run\<close> takes fuel, one unit per state of the loop; with
  \<open>n = nat (MaxTurns + 1 - turnCount)\<close> turns left, \<open>6 * n + 6\<close> units are enough and more do not change the
  result (\<open>react_loop_terminates\<close>). The RLP decoder of the round trip takes twice the length of its input.
  Doubles (complexity, token estimates) are integers in units of \<open>2 ^ -57\<close>, rounded as the hardware does.
  The retry loop of the guards recurses on the attempts left; the scans of the scheduler and the eviction
  of the cache have their own measures.

  \<^bold>\<open>Not modelled.\<close> HTTP routes, terminal and command line (glue and output); provider clients, channel
  adapters, browser, plugins, MCP and self-update (input and output around formats of other programs); memory
  retrieval, injection scoring and embeddings (scores in floating point over SQL queries; they are
  parameters where a modelled component uses them); the model profiles and the exercise runs (statistics over
  SQL); the pipeline's remaining stages (session and memory bookkeeping over SQL), skills and the orchestration of subagents (database writes
  in sequence, without an invariant of their own beyond those of the components they call); of the guards'
  semantic classifier only the interface, since its scores come from embeddings. Log lines, traces and
  metrics are left out everywhere.
\<close>

section \<open>From the sender of a message to the tools it may reach\<close>

text \<open>
  The authority stage of the pipeline (\<^verbatim>\<open>stageAuthority\<close> of
  \<^verbatim>\<open>internal/pipeline/pipeline_run_stages.go\<close>): the claim of the request is resolved and written
  to the session the agent loop runs with. \<open>None\<close> is a panic of the resolver. Trace annotations are
  left out.
\<close>

definition stageAuthority :: "authority_mode \<Rightarrow> pipeline_claim_context option \<Rightarrow> bool \<Rightarrow> Session \<Rightarrow> Session option" where
  "stageAuthority mode claim threatCaution s =
     map_option (\<lambda>c0.
       let c = (if threatCaution \<and> sc_Authority c0 = AuthorityCreator
                then c0\<lparr>sc_Authority := AuthorityPeer, sc_ThreatDowngraded := True\<rparr> else c0)
       in s\<lparr>s_Authority := sc_Authority c, s_SecurityClaim := Some c\<rparr>)
     (ResolveSecurityClaim mode claim)"

text \<open>Nothing vouches for the sender of a channel message.\<close>

fun unknown_sender :: "pipeline_claim_context option \<Rightarrow> bool" where
  "unknown_sender None = True"
| "unknown_sender (Some p) \<longleftrightarrow>
     \<not> (pc_AllowlistConfigured p \<and> pc_SenderInAllowlist p)
     \<and> pc_ChatID p \<notin> set (pc_TrustedSenderIDs p) \<and> pc_SenderID p \<notin> set (pc_TrustedSenderIDs p)"

lemma unknown_sender_external:
  "unknown_sender claim \<Longrightarrow> stageAuthority AuthorityChannel claim caution s = Some s' \<Longrightarrow> s_Authority s' = AuthorityExternal"
  by (cases claim)
    (auto simp: stageAuthority_def ResolveSecurityClaim_def ResolveChannelClaim_def composeClaim_eq trusted_match_iff
      effective_authority_def authority_ord Let_def)

lemma stage_authority_level:
  assumes "stageAuthority mode claim caution s = Some s'"
  obtains c where "ResolveSecurityClaim mode claim = Some c"
    and "s_Authority s' = (if caution \<and> sc_Authority c = AuthorityCreator then AuthorityPeer else sc_Authority c)"
  using assms by (auto simp: stageAuthority_def Let_def)

lemma resolved_levels:
  assumes "mode \<in> {AuthorityAPIKey, AuthorityChannel}" and "ResolveSecurityClaim mode claim = Some c"
  shows "sc_Authority c \<in> {AuthorityExternal, AuthorityPeer, AuthorityCreator}"
  using assms
  by (cases claim)
    (auto simp: ResolveSecurityClaim_def ResolveChannelClaim_def ResolveAPIClaim_def composeClaim_eq
      effective_authority_def DefaultClaimSecurityConfig_def authority_ord Let_def split: if_splits)

lemma caution_at_most_peer:
  assumes "mode \<in> {AuthorityAPIKey, AuthorityChannel}" and "stageAuthority mode claim True s = Some s'"
  shows "s_Authority s' \<le> AuthorityPeer"
proof -
  obtain c where c: "ResolveSecurityClaim mode claim = Some c"
    and level: "s_Authority s' = (if sc_Authority c = AuthorityCreator then AuthorityPeer else sc_Authority c)"
    using assms(2) by (auto elim: stage_authority_level)
  from resolved_levels [OF assms(1) c] show ?thesis by (auto simp: level authority_ord)
qed

lemma stage_run_permitted:
  assumes "Run env fuel (NewLoop cfg reg (Some (fold policy_step es (NewEngine pcfg))) nf, s, w) = Some (r, l', s', w')"
  shows "list_all (\<lambda>e. \<exists>tool. Get (rt_ToolName e) reg = Some tool \<and> risk_permitted (s_Authority s) (t_Risk tool)) (traceEntries l')"
  using Run_safe [OF NewLoop_safe [OF refl] assms] by (auto simp: loop_safe_def permitted_entry_def list_all_iff)

lemma risk_permitted_external: "risk_permitted AuthorityExternal risk \<longleftrightarrow> risk = RiskSafe"
  by (cases risk) (simp_all add: risk_permitted_def authority_ord)

lemma risk_permitted_peer: "a \<le> AuthorityPeer \<Longrightarrow> risk_permitted a risk \<Longrightarrow> risk = RiskSafe \<or> risk = RiskCaution"
  by (cases a; cases risk) (simp_all add: risk_permitted_def authority_ord)

text \<open>
  C2. From the channel to the tool: when a message comes from a sender that is neither on a
  configured allow-list nor trusted, then in the whole run of the agent loop that answers it, with
  the session the authority stage leaves and any model, tools, clock and policy history, only tools
  registered as safe are executed.
\<close>

theorem unknown_sender_reaches_only_safe_tools:
  assumes "unknown_sender claim" and "stageAuthority AuthorityChannel claim caution s0 = Some s"
    and "Run env fuel (NewLoop cfg reg (Some (fold policy_step es (NewEngine pcfg))) nf, s, w) = Some (r, l', s', w')"
  shows "list_all (\<lambda>e. \<exists>tool. Get (rt_ToolName e) reg = Some tool \<and> t_Risk tool = RiskSafe) (traceEntries l')"
  using stage_run_permitted [OF assms(3)] unfolding unknown_sender_external [OF assms(1,2)] risk_permitted_external .

text \<open>
  C3. Under injection caution a request over a channel or the API never executes a dangerous or
  forbidden tool in the run that answers it, whoever sent it.
\<close>

theorem caution_bars_dangerous_tools:
  assumes "mode \<in> {AuthorityAPIKey, AuthorityChannel}" and "stageAuthority mode claim True s0 = Some s"
    and "Run env fuel (NewLoop cfg reg (Some (fold policy_step es (NewEngine pcfg))) nf, s, w) = Some (r, l', s', w')"
  shows "list_all (\<lambda>e. \<exists>tool. Get (rt_ToolName e) reg = Some tool \<and> (t_Risk tool = RiskSafe \<or> t_Risk tool = RiskCaution))
     (traceEntries l')"
  using stage_run_permitted [OF assms(3)] risk_permitted_peer [OF caution_at_most_peer [OF assms(1,2)]]
  unfolding list_all_iff by blast

text \<open>A registry with a safe, a caution and a dangerous tool, and a model that calls the three in one answer.\<close>

definition span_tool :: "string \<Rightarrow> risk_level \<Rightarrow> tool" where
  "span_tool name risk = \<lparr>t_Name = name, t_Description = [], t_Risk = risk, t_ParameterSchema = [], t_Impl = OtherTool\<rparr>"

definition span_registry :: "unit registry" where
  "span_registry = Register (\<lambda>_. 1) (span_tool ''time'' RiskSafe) (Register (\<lambda>_. 1) (span_tool ''fetch'' RiskCaution)
     (Register (\<lambda>_. 1) (span_tool ''bash'' RiskDangerous) NewRegistry))"

definition span_env :: "(nat, int) env" where
  "span_env = (demo_env demo_ok 1)\<lparr>ev_Complete := (\<lambda>req w.
     (Inr (if w < 1 then demo_response [] (map (\<lambda>(i, n). demo_call\<lparr>tc_ID := i, tc_Name := n\<rparr>)
        [(''1'', ''time''), (''2'', ''fetch''), (''3'', ''bash'')]) else demo_response ''done'' []), w + 1))\<rparr>"

definition span_run :: "Session \<Rightarrow> string list option" where
  "span_run s = map_option (\<lambda>(r, l, s, w). map rt_ToolName (traceEntries l))
     (Run span_env 20 (NewLoop DefaultLoopConfig span_registry (Some (NewEngine DefaultConfig)) None, s, 0))"

definition span_claim :: pipeline_claim_context where
  "span_claim = \<lparr>pc_SenderID = ''u1'', pc_ChatID = ''c9'', pc_Platform = ''signal'', pc_SenderInAllowlist = False,
     pc_AllowlistConfigured = True, pc_TrustedSenderIDs = [''c9'']\<rparr>"

theorem unknown_sender_reaches_only_safe_tools_witness:
  "\<exists>s r l' s' w'. stageAuthority AuthorityChannel (Some (span_claim\<lparr>pc_TrustedSenderIDs := []\<rparr>)) False (New_session ''s'' ''a'' ''n'') = Some s
    \<and> Run span_env 20 (NewLoop DefaultLoopConfig span_registry (Some (NewEngine DefaultConfig)) None, s, 0) = Some (r, l', s', w')
    \<and> map rt_ToolName (traceEntries l') = [''time'']
    \<and> list_all (\<lambda>e. \<exists>tool. Get (rt_ToolName e) span_registry = Some tool \<and> t_Risk tool = RiskSafe) (traceEntries l')"
proof -
  let ?claim = "Some (span_claim\<lparr>pc_TrustedSenderIDs := []\<rparr>)" and ?s0 = "New_session ''s'' ''a'' ''n''"
  have "Option.bind (stageAuthority AuthorityChannel ?claim False ?s0) span_run = Some [''time'']" by code_simp
  then obtain s where s: "stageAuthority AuthorityChannel ?claim False ?s0 = Some s" and tr: "span_run s = Some [''time'']"
    by (auto simp: bind_eq_Some_conv)
  from tr obtain r l' s' w' where run: "Run span_env 20 (NewLoop DefaultLoopConfig span_registry
        (Some (fold policy_step ([] :: (int, unit) policy_event list) (NewEngine DefaultConfig))) None, s, 0) = Some (r, l', s', w')"
    and names: "map rt_ToolName (traceEntries l') = [''time'']"
    by (auto simp: span_run_def)
  have "unknown_sender ?claim" by (simp add: span_claim_def)
  from unknown_sender_reaches_only_safe_tools [OF this s run] s run names show ?thesis by auto
qed

theorem caution_bars_dangerous_tools_witness:
  "\<exists>s r l' s' w'. stageAuthority AuthorityChannel (Some span_claim) True (New_session ''s'' ''a'' ''n'') = Some s
    \<and> Run span_env 20 (NewLoop DefaultLoopConfig span_registry (Some (NewEngine DefaultConfig)) None, s, 0) = Some (r, l', s', w')
    \<and> map rt_ToolName (traceEntries l') = [''time'', ''fetch'']
    \<and> list_all (\<lambda>e. \<exists>tool. Get (rt_ToolName e) span_registry = Some tool \<and> (t_Risk tool = RiskSafe \<or> t_Risk tool = RiskCaution))
        (traceEntries l')"
proof -
  let ?s0 = "New_session ''s'' ''a'' ''n''"
  have "Option.bind (stageAuthority AuthorityChannel (Some span_claim) True ?s0) span_run = Some [''time'', ''fetch'']" by code_simp
  then obtain s where s: "stageAuthority AuthorityChannel (Some span_claim) True ?s0 = Some s" and tr: "span_run s = Some [''time'', ''fetch'']"
    by (auto simp: bind_eq_Some_conv)
  from tr obtain r l' s' w' where run: "Run span_env 20 (NewLoop DefaultLoopConfig span_registry
        (Some (fold policy_step ([] :: (int, unit) policy_event list) (NewEngine DefaultConfig))) None, s, 0) = Some (r, l', s', w')"
    and names: "map rt_ToolName (traceEntries l') = [''time'', ''fetch'']"
    by (auto simp: span_run_def)
  have "AuthorityChannel \<in> {AuthorityAPIKey, AuthorityChannel}" by simp
  from caution_bars_dangerous_tools [OF this s run] s run names show ?thesis by auto
qed

end
